(* ===== verification/Murmur_Prelude.thy ===== *)
theory Murmur_Prelude
  imports Complex_Main
begin

text \<open>
  Shared vocabulary of the development.

  A Python \<open>dict\<close> keeps insertion order, and several properties of the code
  depend on that order (the order of topological tiers, of a budget sum, of an
  error table).  It is modelled as an association list with distinct keys:
  \<open>dset\<close> overwrites in place or appends, \<open>dpop\<close> removes.
  Coroutines are functions from a state to a result and a state; a raised
  exception is the left summand of the result.  The state survives an exception,
  as Python's does.
\<close>

named_theorems dict_simps "lookup and key laws of insertion-ordered dicts"
named_theorems eff_simps "evaluation laws of effectful computations"

section \<open>Insertion-ordered dicts\<close>

type_synonym ('k, 'v) dict = "('k \<times> 'v) list"

fun dget :: "('k, 'v) dict \<Rightarrow> 'k \<Rightarrow> 'v option" where
  "dget [] k = None"
| "dget ((a, b) # d) k = (if a = k then Some b else dget d k)"

fun dset :: "'k \<Rightarrow> 'v \<Rightarrow> ('k, 'v) dict \<Rightarrow> ('k, 'v) dict" where
  "dset k v [] = [(k, v)]"
| "dset k v ((a, b) # d) = (if a = k then (a, v) # d else (a, b) # dset k v d)"

fun dpop :: "'k \<Rightarrow> ('k, 'v) dict \<Rightarrow> ('k, 'v) dict" where
  "dpop k [] = []"
| "dpop k ((a, b) # d) = (if a = k then d else (a, b) # dpop k d)"

definition dkeys :: "('k, 'v) dict \<Rightarrow> 'k list" where
  "dkeys d = map fst d"

definition dvalues :: "('k, 'v) dict \<Rightarrow> 'v list" where
  "dvalues d = map snd d"

definition dhas :: "('k, 'v) dict \<Rightarrow> 'k \<Rightarrow> bool" where
  "dhas d k = (dget d k \<noteq> None)"

definition dict_ok :: "('k, 'v) dict \<Rightarrow> bool" where
  "dict_ok d = distinct (map fst d)"

definition dget_or :: "('k, 'v) dict \<Rightarrow> 'k \<Rightarrow> 'v \<Rightarrow> 'v" where
  "dget_or d k v = (case dget d k of None \<Rightarrow> v | Some w \<Rightarrow> w)"

lemma dget_map_of [dict_simps]: "dget d = map_of d"
  by (rule ext, induction d) auto

lemma dget_dset [simp, dict_simps]: "dget (dset k v d) k' = (if k' = k then Some v else dget d k')"
  by (induction d) auto

lemma dget_None_iff: "dget d k = None \<longleftrightarrow> k \<notin> fst ` set d"
  by (simp add: dget_map_of map_of_eq_None_iff)

lemma dget_in_set: "dget d k = Some v \<Longrightarrow> (k, v) \<in> set d"
  by (induction d) (auto split: if_splits)

lemma dhas_iff [simp]: "dhas d k \<longleftrightarrow> k \<in> fst ` set d"
  by (simp add: dhas_def dget_None_iff)

lemma in_set_dget: "dict_ok d \<Longrightarrow> (k, v) \<in> set d \<Longrightarrow> dget d k = Some v"
  by (induction d) (auto simp: dict_ok_def rev_image_eqI split: if_splits)

lemma keys_dset [simp, dict_simps]: "fst ` set (dset k v d) = insert k (fst ` set d)"
  by (induction d rule: dset.induct) (simp_all add: insert_commute)

lemma map_fst_dset: "map fst (dset k v d) = (if k \<in> fst ` set d then map fst d else map fst d @ [k])"
  by (induction d) (auto split: if_splits)

lemma dict_ok_dset [simp, intro]: "dict_ok d \<Longrightarrow> dict_ok (dset k v d)"
  by (auto simp: dict_ok_def map_fst_dset)

lemma dict_ok_Nil [simp, intro]: "dict_ok []"
  by (simp add: dict_ok_def)

lemma set_dpop_subset: "set (dpop k d) \<subseteq> set d"
  by (induction d) (auto split: if_splits)

lemma map_fst_dpop: "map fst (dpop k d) = remove1 k (map fst d)"
  by (induction d) auto

lemma dict_ok_dpop [simp, intro]: "dict_ok d \<Longrightarrow> dict_ok (dpop k d)"
  by (simp add: dict_ok_def map_fst_dpop distinct_remove1)

lemma dget_dpop [simp, dict_simps]:
  "dict_ok d \<Longrightarrow> dget (dpop k d) k' = (if k' = k then None else dget d k')"
  by (induction d) (auto simp: dict_ok_def dget_map_of map_of_eq_None_iff split: if_splits)

lemma dset_fresh: "k \<notin> fst ` set d \<Longrightarrow> dset k v d = d @ [(k, v)]"
  by (induction d) auto

lemma dset_dset_same [simp, dict_simps]: "dset k v (dset k w d) = dset k v d"
  by (induction d) auto

lemma dpop_dset_fresh: "k \<notin> fst ` set d \<Longrightarrow> dpop k (dset k v d) = d"
  by (induction d) auto

lemma dpop_fresh: "k \<notin> fst ` set d \<Longrightarrow> dpop k d = d"
  by (induction d) auto

lemma dget_append: "dget (d @ e) k = (case dget d k of None \<Rightarrow> dget e k | Some v \<Rightarrow> Some v)"
  by (induction d) auto

lemma set_dset_dict_ok:
  "dict_ok d \<Longrightarrow> set (dset k v d) = insert (k, v) {p \<in> set d. fst p \<noteq> k}"
  by (induction d) (force simp: dict_ok_def)+

lemma dget_eq_Some_iff: "dict_ok d \<Longrightarrow> dget d k = Some v \<longleftrightarrow> (k, v) \<in> set d"
  using dget_in_set in_set_dget by metis

text \<open>The order of a dict does not matter for a lookup.\<close>

lemma dget_set_eq:
  assumes "dict_ok d" "dict_ok e" "set d = set e"
  shows "dget d k = dget e k"
proof (cases "dget e k")
  case None
  then show ?thesis using assms(3) by (metis dget_None_iff)
next
  case (Some v)
  then show ?thesis using assms by (metis dget_eq_Some_iff)
qed

section \<open>Computations with state and exceptions\<close>

type_synonym ('s, 'e, 'a) eff = "'s \<Rightarrow> ('e + 'a) \<times> 's"

definition ret :: "'a \<Rightarrow> ('s, 'e, 'a) eff" where
  "ret x s = (Inr x, s)"

definition raise :: "'e \<Rightarrow> ('s, 'e, 'a) eff" where
  "raise e s = (Inl e, s)"

definition bnd :: "('s, 'e, 'a) eff \<Rightarrow> ('a \<Rightarrow> ('s, 'e, 'b) eff) \<Rightarrow> ('s, 'e, 'b) eff" where
  "bnd m f s = (case m s of (Inl e, t) \<Rightarrow> (Inl e, t) | (Inr x, t) \<Rightarrow> f x t)"

definition modify :: "('s \<Rightarrow> 's) \<Rightarrow> ('s, 'e, unit) eff" where
  "modify f s = (Inr (), f s)"

definition gets :: "('s \<Rightarrow> 'a) \<Rightarrow> ('s, 'e, 'a) eff" where
  "gets f s = (Inr (f s), s)"

text \<open>\<open>finally_do m fin\<close> is \<open>try: m finally: fin\<close> with a finaliser that does not raise.\<close>

definition finally_do :: "('s, 'e, 'a) eff \<Rightarrow> ('s \<Rightarrow> 's) \<Rightarrow> ('s, 'e, 'a) eff" where
  "finally_do m fin s = (case m s of (r, t) \<Rightarrow> (r, fin t))"

lemma ret_apply [simp, eff_simps]: "ret x s = (Inr x, s)"
  by (simp add: ret_def)

lemma raise_apply [simp, eff_simps]: "raise e s = (Inl e, s)"
  by (simp add: raise_def)

lemma modify_apply [simp, eff_simps]: "modify f s = (Inr (), f s)"
  by (simp add: modify_def)

lemma gets_apply [simp, eff_simps]: "gets f s = (Inr (f s), s)"
  by (simp add: gets_def)

lemma bnd_Inr [simp, eff_simps]: "m s = (Inr x, t) \<Longrightarrow> bnd m f s = f x t"
  by (simp add: bnd_def)

lemma bnd_Inl [simp, eff_simps]: "m s = (Inl e, t) \<Longrightarrow> bnd m f s = (Inl e, t)"
  by (simp add: bnd_def)

lemma bnd_Inr_iff:
  "bnd m f s = (Inr y, u) \<longleftrightarrow> (\<exists>x t. m s = (Inr x, t) \<and> f x t = (Inr y, u))"
  by (auto simp: bnd_def split: prod.splits sum.splits)

lemma bnd_Inl_iff:
  "bnd m f s = (Inl e, u) \<longleftrightarrow>
     m s = (Inl e, u) \<or> (\<exists>x t. m s = (Inr x, t) \<and> f x t = (Inl e, u))"
  by (auto simp: bnd_def split: prod.splits sum.splits)

lemma bnd_assoc: "bnd (bnd m f) g = bnd m (\<lambda>x. bnd (f x) g)"
  by (rule ext) (auto simp: bnd_def split: prod.splits sum.splits)

text \<open>An invariant of the state kept by every outcome of a computation.\<close>

definition keeps :: "('s \<Rightarrow> bool) \<Rightarrow> ('s, 'e, 'a) eff \<Rightarrow> bool" where
  "keeps P m = (\<forall>s. P s \<longrightarrow> P (snd (m s)))"

lemma keeps_ret [intro, simp]: "keeps P (ret x)"
  by (simp add: keeps_def)

lemma keeps_raise [intro, simp]: "keeps P (raise e)"
  by (simp add: keeps_def)

lemma keeps_Pair [intro, simp]: "keeps P (Pair x)"
  by (simp add: keeps_def)

lemma keeps_gets [intro, simp]: "keeps P (gets f)"
  by (simp add: keeps_def)

lemma keeps_modify: "(\<And>s. P s \<Longrightarrow> P (f s)) \<Longrightarrow> keeps P (modify f)"
  by (simp add: keeps_def)

lemma keeps_bnd [intro]: "keeps P m \<Longrightarrow> (\<And>x. keeps P (f x)) \<Longrightarrow> keeps P (bnd m f)"
  unfolding keeps_def bnd_def by (force split: prod.splits sum.splits)

lemma keepsD: "keeps P m \<Longrightarrow> P s \<Longrightarrow> m s = (r, t) \<Longrightarrow> P t"
  unfolding keeps_def by (metis sndI)

lemma keepsI: "(\<And>s. P s \<Longrightarrow> P (snd (m s))) \<Longrightarrow> keeps P m"
  by (simp add: keeps_def)

section \<open>Lists\<close>

fun index_of :: "'a \<Rightarrow> 'a list \<Rightarrow> nat" where
  "index_of x [] = 0"
| "index_of x (y # ys) = (if x = y then 0 else Suc (index_of x ys))"

lemma index_of_less_iff [simp]: "index_of x xs < length xs \<longleftrightarrow> x \<in> set xs"
  by (induction xs) auto

lemma index_of_append: "index_of x (xs @ ys) = (if x \<in> set xs then index_of x xs else length xs + index_of x ys)"
  by (induction xs) auto

lemma nth_index_of [simp]: "x \<in> set xs \<Longrightarrow> xs ! index_of x xs = x"
  by (induction xs) auto

lemma sum_list_map_dset:
  fixes f :: "'v \<Rightarrow> int"
  assumes "dict_ok d"
  shows "sum_list (map (f \<circ> snd) (dset k v d)) =
    sum_list (map (f \<circ> snd) d) + f v - (case dget d k of None \<Rightarrow> 0 | Some w \<Rightarrow> f w)"
  using assms by (induction d) (auto simp: dict_ok_def)

lemma filter_partition_length:
  "length (filter P xs) + length (filter (\<lambda>x. \<not> P x) xs) = length xs"
  by (induction xs) auto

end
