(* ===== verification/Errors.thy ===== *)
theory Errors
  imports Murmur_Prelude
begin

text \<open>
  The domain exceptions of \<open>core/errors.py\<close>, the Python exceptions the code
  raises or catches beside them, and their three wire tables: the HTTP status
  and the reverse name table of \<open>server/errors.py\<close>, and the client's own copy
  in \<open>murmur_client/_wire.py\<close>.  An exception value is its class and its message
  (\<open>str(exc)\<close>); the prose of a message is shortened to its interpolated data.
\<close>

section \<open>Exception classes\<close>

datatype error_class =
    MurmurError
  | SpawnError
  | ToolExecutionError
  | ContextError
  | BudgetExceededError
  | DepthLimitError
  | SpawnCycleError
  | SpawnCapError
  | SpecValidationError
  | RegistryError
  | TrustViolationError
  | AllAgentsFailedError
  | TopologyError
  | PyException
  | PyBaseException
  | PyCancelledError
  | PyTimeoutError
  | PyValueError
  | PyTypeError
  | PyKeyError
  | PyRuntimeError
  | PyNotImplementedError
  | PyOther string

datatype exn = Exn (exn_cls: error_class) (exn_msg: string)

text \<open>The method resolution order of each class, itself first.\<close>

fun mro :: "error_class \<Rightarrow> error_class list" where
  "mro PyBaseException = [PyBaseException]"
| "mro PyException = [PyException, PyBaseException]"
| "mro PyCancelledError = [PyCancelledError, PyBaseException]"
| "mro PyNotImplementedError = [PyNotImplementedError, PyRuntimeError, PyException, PyBaseException]"
| "mro MurmurError = [MurmurError, PyException, PyBaseException]"
| "mro TopologyError = [TopologyError, SpecValidationError, MurmurError, PyException, PyBaseException]"
| "mro SpawnError = [SpawnError, MurmurError, PyException, PyBaseException]"
| "mro ToolExecutionError = [ToolExecutionError, MurmurError, PyException, PyBaseException]"
| "mro ContextError = [ContextError, MurmurError, PyException, PyBaseException]"
| "mro BudgetExceededError = [BudgetExceededError, MurmurError, PyException, PyBaseException]"
| "mro DepthLimitError = [DepthLimitError, MurmurError, PyException, PyBaseException]"
| "mro SpawnCycleError = [SpawnCycleError, MurmurError, PyException, PyBaseException]"
| "mro SpawnCapError = [SpawnCapError, MurmurError, PyException, PyBaseException]"
| "mro SpecValidationError = [SpecValidationError, MurmurError, PyException, PyBaseException]"
| "mro RegistryError = [RegistryError, MurmurError, PyException, PyBaseException]"
| "mro TrustViolationError = [TrustViolationError, MurmurError, PyException, PyBaseException]"
| "mro AllAgentsFailedError = [AllAgentsFailedError, MurmurError, PyException, PyBaseException]"
| "mro c = [c, PyException, PyBaseException]"

definition issubclass :: "error_class \<Rightarrow> error_class \<Rightarrow> bool" where
  "issubclass c d = (d \<in> set (mro c))"

definition isinstance :: "exn \<Rightarrow> error_class \<Rightarrow> bool" where
  "isinstance e c = issubclass (exn_cls e) c"

lemma issubclass_refl [simp]: "issubclass c c"
  by (cases c) (simp_all add: issubclass_def)

lemma issubclass_trans: "issubclass a b \<Longrightarrow> issubclass b c \<Longrightarrow> issubclass a c"
  by (cases a) (auto simp: issubclass_def)

text \<open>The classes are ordered by inheritance, with \<open>BaseException\<close> on top.\<close>

instantiation error_class :: order_top
begin

definition less_eq_error_class :: "error_class \<Rightarrow> error_class \<Rightarrow> bool" where
  "less_eq_error_class c d = issubclass c d"

definition less_error_class :: "error_class \<Rightarrow> error_class \<Rightarrow> bool" where
  "less_error_class c d = (issubclass c d \<and> c \<noteq> d)"

definition top_error_class :: error_class where
  "top_error_class = PyBaseException"

instance
proof
  fix a b c :: error_class
  show anti: "a \<le> b \<Longrightarrow> b \<le> a \<Longrightarrow> a = b" for a b :: error_class
    unfolding less_eq_error_class_def issubclass_def by (cases a; force)
  show "(a < b) = (a \<le> b \<and> \<not> b \<le> a)"
    using anti [of a b] by (auto simp: less_eq_error_class_def less_error_class_def)
  show "a \<le> a" by (simp add: less_eq_error_class_def)
  show "a \<le> b \<Longrightarrow> b \<le> c \<Longrightarrow> a \<le> c" using issubclass_trans by (simp add: less_eq_error_class_def)
  show "a \<le> top" by (cases a) (simp_all add: less_eq_error_class_def top_error_class_def issubclass_def)
qed

end

lemma isinstance_order: "isinstance e c \<longleftrightarrow> exn_cls e \<le> c"
  by (simp add: isinstance_def less_eq_error_class_def)

text \<open>An \<open>except\<close> clause for a class catches what one for a subclass does.\<close>

lemma isinstance_up: "isinstance e c \<Longrightarrow> c \<le> d \<Longrightarrow> isinstance e d"
  unfolding isinstance_order by (rule order_trans)

lemma base_exception_catches_all [simp]: "isinstance e PyBaseException"
  using top_greatest [of "exn_cls e"] by (simp add: isinstance_order top_error_class_def)

text \<open>\<open>type(exc).__name__\<close>.\<close>

fun class_name :: "error_class \<Rightarrow> string" where
  "class_name MurmurError = ''MurmurError''"
| "class_name SpawnError = ''SpawnError''"
| "class_name ToolExecutionError = ''ToolExecutionError''"
| "class_name ContextError = ''ContextError''"
| "class_name BudgetExceededError = ''BudgetExceededError''"
| "class_name DepthLimitError = ''DepthLimitError''"
| "class_name SpawnCycleError = ''SpawnCycleError''"
| "class_name SpawnCapError = ''SpawnCapError''"
| "class_name SpecValidationError = ''SpecValidationError''"
| "class_name RegistryError = ''RegistryError''"
| "class_name TrustViolationError = ''TrustViolationError''"
| "class_name AllAgentsFailedError = ''AllAgentsFailedError''"
| "class_name TopologyError = ''TopologyError''"
| "class_name PyException = ''Exception''"
| "class_name PyBaseException = ''BaseException''"
| "class_name PyCancelledError = ''CancelledError''"
| "class_name PyTimeoutError = ''TimeoutError''"
| "class_name PyValueError = ''ValueError''"
| "class_name PyTypeError = ''TypeError''"
| "class_name PyKeyError = ''KeyError''"
| "class_name PyRuntimeError = ''RuntimeError''"
| "class_name PyNotImplementedError = ''NotImplementedError''"
| "class_name (PyOther s) = s"

text \<open>The thirteen classes of \<open>core/errors.py\<close>.\<close>

definition murmur_classes :: "error_class list" where
  "murmur_classes = [MurmurError, SpawnError, ToolExecutionError, ContextError,
     BudgetExceededError, DepthLimitError, SpawnCycleError, SpawnCapError,
     SpecValidationError, RegistryError, TrustViolationError, AllAgentsFailedError,
     TopologyError]"

lemma murmur_classes_iff: "c \<in> set murmur_classes \<longleftrightarrow> issubclass c MurmurError"
  by (cases c) (simp_all add: murmur_classes_def issubclass_def)

section \<open>The HTTP error tables\<close>

record error_response =
  er_error :: string
  er_message :: string
  er_agent :: "string option"
  er_task_id :: "string option"
  er_request_id :: string

definition ERROR_STATUS_MAP :: "(error_class, nat) dict" where
  "ERROR_STATUS_MAP =
    [(SpawnError, 500), (ToolExecutionError, 500), (ContextError, 500),
     (AllAgentsFailedError, 500), (BudgetExceededError, 429), (DepthLimitError, 429),
     (TrustViolationError, 403), (SpecValidationError, 400), (TopologyError, 400),
     (RegistryError, 404)]"

definition NAME_TO_CLASS :: "(string, error_class) dict" where
  "NAME_TO_CLASS =
     dset ''MurmurError'' MurmurError (map (\<lambda>(c, _). (class_name c, c)) ERROR_STATUS_MAP)"

fun first_status :: "exn \<Rightarrow> (error_class, nat) dict \<Rightarrow> nat" where
  "first_status e [] = 500"
| "first_status e ((c, code) # rest) = (if isinstance e c then code else first_status e rest)"

definition status_for :: "exn \<Rightarrow> nat" where
  "status_for e = (if isinstance e PyTimeoutError then 504 else first_status e ERROR_STATUS_MAP)"

text \<open>
  \<open>getattr(exc, name, None)\<close> reads an attribute a caller may have put on the
  exception object; no class of the program defines one, so it is an argument.
\<close>

definition error_to_response ::
  "(exn \<Rightarrow> string \<Rightarrow> string option) \<Rightarrow> string \<Rightarrow> exn \<Rightarrow> error_response" where
  "error_to_response getattr_of rid e =
    \<lparr> er_error = class_name (exn_cls e), er_message = exn_msg e,
      er_agent = getattr_of e ''agent'', er_task_id = getattr_of e ''task_id'',
      er_request_id = rid \<rparr>"

definition response_to_error :: "error_response \<Rightarrow> exn" where
  "response_to_error r = Exn (dget_or NAME_TO_CLASS (er_error r) MurmurError) (er_message r)"

text \<open>The lean client keeps its own table; its classes carry the same names.\<close>

definition client_NAME_TO_CLASS :: "(string, error_class) dict" where
  "client_NAME_TO_CLASS =
    [(''MurmurError'', MurmurError), (''RegistryError'', RegistryError),
     (''BudgetExceededError'', BudgetExceededError), (''DepthLimitError'', DepthLimitError),
     (''TrustViolationError'', TrustViolationError),
     (''SpecValidationError'', SpecValidationError), (''TopologyError'', TopologyError),
     (''SpawnError'', SpawnError), (''ToolExecutionError'', ToolExecutionError),
     (''ContextError'', ContextError), (''AllAgentsFailedError'', AllAgentsFailedError)]"

definition client_response_to_error :: "error_response \<Rightarrow> exn" where
  "client_response_to_error r =
     Exn (dget_or client_NAME_TO_CLASS (er_error r) MurmurError) (er_message r)"

lemma NAME_TO_CLASS_unfold:
  "NAME_TO_CLASS = map (\<lambda>(c, _). (class_name c, c)) ERROR_STATUS_MAP @ [(''MurmurError'', MurmurError)]"
  unfolding NAME_TO_CLASS_def by (rule dset_fresh) (simp add: ERROR_STATUS_MAP_def)

lemma tables_agree: "dget NAME_TO_CLASS n = dget client_NAME_TO_CLASS n"
proof (rule dget_set_eq)
  show "set NAME_TO_CLASS = set client_NAME_TO_CLASS"
    by (auto simp: NAME_TO_CLASS_unfold ERROR_STATUS_MAP_def client_NAME_TO_CLASS_def)
qed (simp_all add: dict_ok_def NAME_TO_CLASS_unfold ERROR_STATUS_MAP_def client_NAME_TO_CLASS_def)

lemma client_agrees: "client_response_to_error r = response_to_error r"
  by (simp add: client_response_to_error_def response_to_error_def dget_or_def tables_agree)

lemma response_class:
  assumes "c \<in> set murmur_classes"
  shows "dget_or NAME_TO_CLASS (class_name c) MurmurError =
    (if c \<in> {SpawnCycleError, SpawnCapError} then MurmurError else c)"
  unfolding dget_or_def tables_agree client_NAME_TO_CLASS_def
  by (cases c; use assms in \<open>simp add: murmur_classes_def\<close>)

text \<open>
  C1. A domain error crosses the HTTP boundary: what the server serialises, both the
  server-side reverse mapping and the lean client's turn back into the same class
  and message, for exactly the domain classes other than \<open>SpawnCycleError\<close> and
  \<open>SpawnCapError\<close>; those two come back as the base class, with their message.
\<close>

theorem typed_errors_round_trip:
  assumes "exn_cls e \<in> set murmur_classes"
  shows "client_response_to_error (error_to_response ga rid e) =
           (if exn_cls e \<in> {SpawnCycleError, SpawnCapError}
            then Exn MurmurError (exn_msg e) else e)
       \<and> client_response_to_error (error_to_response ga rid e)
           = response_to_error (error_to_response ga rid e)"
  using response_class [OF assms] unfolding client_agrees
  by (cases e) (simp add: response_to_error_def error_to_response_def)

lemma typed_errors_round_trip_witness:
  "client_response_to_error (error_to_response (\<lambda>_ _. None) ''r1'' (Exn TopologyError ''cycle''))
     = Exn TopologyError ''cycle''
   \<and> client_response_to_error (error_to_response (\<lambda>_ _. None) ''r1'' (Exn SpawnCapError ''cap''))
     = Exn MurmurError ''cap''"
  using typed_errors_round_trip [of "Exn TopologyError ''cycle''" "\<lambda>_ _. None" "''r1''"]
    typed_errors_round_trip [of "Exn SpawnCapError ''cap''" "\<lambda>_ _. None" "''r1''"]
  by (simp add: murmur_classes_def)

text \<open>The status of every class, by the first table row the exception is an instance of.\<close>

lemma status_for_cases:
  "status_for (Exn c m) =
    (if c = PyTimeoutError then 504
     else if c \<in> {BudgetExceededError, DepthLimitError} then 429
     else if c = TrustViolationError then 403
     else if c \<in> {SpecValidationError, TopologyError} then 400
     else if c = RegistryError then 404 else 500)"
  by (cases c) (simp_all add: status_for_def ERROR_STATUS_MAP_def isinstance_def issubclass_def)

end
