(* ===== verification/Types.thy ===== *)
theory Types
  imports Errors
begin

text \<open>
  The public value types of \<open>types.py\<close>, the event envelope of \<open>events/types.py\<close>
  and the agent of \<open>agent.py\<close>.  All are frozen Pydantic models in the code, so
  records whose update syntax is \<open>model_copy(update=...)\<close>.  A Pydantic model
  instance of the user is the value \<open>VModel\<close>: its class name and its fields
  in order.  Floats are rationals, identifiers (uuids) are strings.
\<close>

section \<open>Values\<close>

datatype pyval =
    VNone
  | VBool bool
  | VInt int
  | VFloat rat
  | VStr string
  | VList "pyval list"
  | VDict "(string \<times> pyval) list"
  | VModel string "(string \<times> pyval) list"

datatype trust_level = HIGH | MEDIUM | LOW | SANDBOX

fun trust_value :: "trust_level \<Rightarrow> string" where
  "trust_value HIGH = ''high''"
| "trust_value MEDIUM = ''medium''"
| "trust_value LOW = ''low''"
| "trust_value SANDBOX = ''sandbox''"

record task_spec =
  ts_id :: string
  ts_request_id :: string
  ts_input :: string
  ts_metadata :: "(string, string) dict"

record result_metadata =
  duration_ms :: int
  tokens_used :: int
  cost_usd :: rat
  rm_backend :: string
  trace_id :: "string option"

definition default_metadata :: result_metadata where
  "default_metadata =
    \<lparr> duration_ms = 0, tokens_used = 0, cost_usd = 0, rm_backend = '''', trace_id = None \<rparr>"

record agent_result =
  ar_output :: "pyval option"
  ar_error :: "exn option"
  ar_metadata :: result_metadata
  ar_agent_name :: string
  ar_task_id :: string

definition is_ok :: "agent_result \<Rightarrow> bool" where
  "is_ok r = (ar_error r = None \<and> ar_output r \<noteq> None)"

record group_result =
  gr_outputs :: "(string, agent_result) dict"
  gr_metadata :: result_metadata

definition terminal :: "group_result \<Rightarrow> exn + agent_result" where
  "terminal g =
    (if length (gr_outputs g) \<noteq> 1 then Inl (Exn PyValueError ''not one terminal'')
     else Inr (hd (dvalues (gr_outputs g))))"

record agent_handle =
  handle_id :: string
  ah_agent_name :: string
  ah_task_id :: string
  ah_backend :: string

record agent_context =
  messages :: "(string, string) dict list"
  parent_agent :: "string option"
  parent_trace_id :: "string option"
  ancestors :: "string set"
  depth :: int
  ctx_metadata :: "(string, string) dict"

definition default_context :: agent_context where
  "default_context =
    \<lparr> messages = [], parent_agent = None, parent_trace_id = None, ancestors = {}, depth = 0,
      ctx_metadata = [] \<rparr>"

section \<open>Runtime events\<close>

datatype event_type =
    AGENT_DISPATCHED | AGENT_SPAWNED | AGENT_COMPLETED | AGENT_FAILED
  | TOOL_CALL_STARTED | TOOL_CALL_COMPLETED | TOOL_CALL_FAILED
  | BATCH_STARTED | BATCH_COMPLETED | GROUP_STARTED | GROUP_COMPLETED
  | BUDGET_EXCEEDED | DEPTH_LIMIT_EXCEEDED
  | WORKER_STARTED | WORKER_STOPPED | WORKER_HEARTBEAT

fun event_type_value :: "event_type \<Rightarrow> string" where
  "event_type_value AGENT_DISPATCHED = ''agent_dispatched''"
| "event_type_value AGENT_SPAWNED = ''agent_spawned''"
| "event_type_value AGENT_COMPLETED = ''agent_completed''"
| "event_type_value AGENT_FAILED = ''agent_failed''"
| "event_type_value TOOL_CALL_STARTED = ''tool_call_started''"
| "event_type_value TOOL_CALL_COMPLETED = ''tool_call_completed''"
| "event_type_value TOOL_CALL_FAILED = ''tool_call_failed''"
| "event_type_value BATCH_STARTED = ''batch_started''"
| "event_type_value BATCH_COMPLETED = ''batch_completed''"
| "event_type_value GROUP_STARTED = ''group_started''"
| "event_type_value GROUP_COMPLETED = ''group_completed''"
| "event_type_value BUDGET_EXCEEDED = ''budget_exceeded''"
| "event_type_value DEPTH_LIMIT_EXCEEDED = ''depth_limit_exceeded''"
| "event_type_value WORKER_STARTED = ''worker_started''"
| "event_type_value WORKER_STOPPED = ''worker_stopped''"
| "event_type_value WORKER_HEARTBEAT = ''worker_heartbeat''"

text \<open>The lookup by value of the enumeration; a value it does not have raises there.\<close>

definition event_types :: "event_type list" where
  "event_types =
    [AGENT_DISPATCHED, AGENT_SPAWNED, AGENT_COMPLETED, AGENT_FAILED, TOOL_CALL_STARTED, TOOL_CALL_COMPLETED,
     TOOL_CALL_FAILED, BATCH_STARTED, BATCH_COMPLETED, GROUP_STARTED, GROUP_COMPLETED, BUDGET_EXCEEDED,
     DEPTH_LIMIT_EXCEEDED, WORKER_STARTED, WORKER_STOPPED, WORKER_HEARTBEAT]"

definition event_type_of :: "string \<Rightarrow> event_type option" where
  "event_type_of v = find (\<lambda>t. event_type_value t = v) event_types"

lemma event_type_of_value [simp]: "event_type_of (event_type_value t) = Some t"
  by (cases t) (simp_all add: event_type_of_def event_types_def)

record runtime_event =
  event_type :: event_type
  timestamp :: rat
  ev_agent_name :: string
  ev_task_id :: "string option"
  ev_trace_id :: string
  ev_parent_trace_id :: "string option"
  payload :: "(string, pyval) dict"

section \<open>Agents\<close>

datatype model_spec = ModelName string | ModelInstance string

datatype context_passer =
    NullContextPasser
  | FullContextPasser
  | HistoryContextPasser "(string, string) dict list"
  | UserContextPasser string

text \<open>
  Toolset providers, built-in tools, limiters and hooks are objects of the user or
  of a library; the agent holds their identity.
\<close>

record agent =
  a_name :: string
  a_model :: model_spec
  fallback_models :: "string list"
  instructions :: string
  output_type :: string
  input_type :: "string option"
  a_tools :: "string set"
  mcp_servers :: "string list"
  builtin_tools :: "string list"
  max_concurrent_requests :: "int option"
  model_concurrency_limiter :: "string option"
  model_settings :: "(string, pyval) dict option"
  trust_level :: trust_level
  a_context_passer :: context_passer
  a_backend :: string
  pre_process :: "string list"
  post_process :: "string list"

definition concurrency_limit_ok :: "int option \<Rightarrow> string option \<Rightarrow> exn option" where
  "concurrency_limit_ok m l =
    (if m \<noteq> None \<and> l \<noteq> None then Some (Exn PyValueError ''mutually exclusive'')
     else case m of
        None \<Rightarrow> None
      | Some n \<Rightarrow> if n < 1 then Some (Exn PyValueError ''must be positive'') else None)"

definition agent_validate :: "agent \<Rightarrow> exn + agent" where
  "agent_validate a =
    (case concurrency_limit_ok (max_concurrent_requests a) (model_concurrency_limiter a) of
       Some e \<Rightarrow> Inl e | None \<Rightarrow> Inr a)"

text \<open>
  The context passers of \<open>context/\<close> and the history passer of \<open>groups/team.py\<close>; a
  user's own passer is the argument.
\<close>

fun prepare_context ::
  "(string \<Rightarrow> agent_context \<Rightarrow> task_spec \<Rightarrow> exn + agent_context)
    \<Rightarrow> context_passer \<Rightarrow> agent_context \<Rightarrow> task_spec \<Rightarrow> exn + agent_context" where
  "prepare_context user NullContextPasser ctx task = Inr default_context"
| "prepare_context user FullContextPasser ctx task = Inr ctx"
| "prepare_context user (HistoryContextPasser h) ctx task = Inr (default_context\<lparr>messages := h\<rparr>)"
| "prepare_context user (UserContextPasser n) ctx task = user n ctx task"

end
