(* ===== verification/Mcp_Lifecycle.thy ===== *)
theory Mcp_Lifecycle
  imports Types
begin

text \<open>
  The runtime's ownership of MCP toolset providers (\<open>runtime.py\<close>: tracking, eager
  start under one supervisor per provider, shutdown).  A provider is an object of
  the user; the model records every \<open>start()\<close> and \<open>stop()\<close> it receives, and the
  outcome of a start is an argument that may depend on that history.
\<close>

datatype provider_call = PStart string | PStop string

record mcp_state =
  mcp_providers :: "string list"
  mcp_supervisors :: "string list"
  mcp_errors :: "(string, exn) dict"
  mcp_calls :: "provider_call list"

definition mcp_init :: mcp_state where
  "mcp_init = \<lparr> mcp_providers = [], mcp_supervisors = [], mcp_errors = [], mcp_calls = [] \<rparr>"

fun track_providers :: "string list \<Rightarrow> mcp_state \<Rightarrow> mcp_state" where
  "track_providers [] m = m"
| "track_providers (p # ps) m =
    track_providers ps
      (if p \<in> set (mcp_providers m) then m else m\<lparr>mcp_providers := mcp_providers m @ [p]\<rparr>)"

text \<open>
  \<open>_supervise_provider\<close> up to \<open>ready.set()\<close>: a failing \<open>start()\<close> is cached and the
  \<open>finally\<close> still calls \<open>stop()\<close>; otherwise the provider stays open.
\<close>

definition supervise_start ::
  "(provider_call list \<Rightarrow> string \<Rightarrow> exn option) \<Rightarrow> string \<Rightarrow> mcp_state \<Rightarrow> mcp_state" where
  "supervise_start start p m =
    (case start (mcp_calls m) p of
       Some e \<Rightarrow> m\<lparr>mcp_supervisors := mcp_supervisors m @ [p],
                    mcp_errors := dset p e (mcp_errors m),
                    mcp_calls := mcp_calls m @ [PStart p, PStop p]\<rparr>
     | None \<Rightarrow> m\<lparr>mcp_supervisors := mcp_supervisors m @ [p],
                  mcp_calls := mcp_calls m @ [PStart p]\<rparr>)"

definition warm_one ::
  "(provider_call list \<Rightarrow> string \<Rightarrow> exn option) \<Rightarrow> string \<Rightarrow> (mcp_state, exn, unit) eff" where
  "warm_one start p m =
    (let m' = (if p \<in> set (mcp_supervisors m) then m else supervise_start start p m)
     in (case dget (mcp_errors m') p of Some e \<Rightarrow> Inl e | None \<Rightarrow> Inr (), m'))"

fun warm_all ::
  "(provider_call list \<Rightarrow> string \<Rightarrow> exn option) \<Rightarrow> string list \<Rightarrow> (mcp_state, exn, unit) eff" where
  "warm_all start [] m = (Inr (), m)"
| "warm_all start (p # ps) m = bnd (warm_one start p) (\<lambda>_. warm_all start ps) m"

definition warm_mcp_providers ::
  "bool \<Rightarrow> (provider_call list \<Rightarrow> string \<Rightarrow> exn option) \<Rightarrow> agent \<Rightarrow> (mcp_state, exn, unit) eff" where
  "warm_mcp_providers eager start a m =
    (if \<not> eager \<or> mcp_servers a = [] then (Inr (), m) else warm_all start (mcp_servers a) m)"

definition mcp_shutdown :: "mcp_state \<Rightarrow> mcp_state" where
  "mcp_shutdown m =
    (let open_ps = filter (\<lambda>p. dget (mcp_errors m) p = None) (mcp_supervisors m);
         rest = filter (\<lambda>p. p \<notin> set (mcp_supervisors m)) (mcp_providers m)
     in m\<lparr>mcp_supervisors := [], mcp_errors := [],
          mcp_calls := mcp_calls m @ map PStop open_ps @ map PStop rest\<rparr>)"

section \<open>No supervised provider is left open\<close>

text \<open>
  A provider is held open by a supervisor when it has one and its start did not
  fail.  The balance of a provider is its starts minus its stops among the calls.
\<close>

definition held_open :: "mcp_state \<Rightarrow> string \<Rightarrow> bool" where
  "held_open m p = (p \<in> set (mcp_supervisors m) \<and> dget (mcp_errors m) p = None)"

definition starts_of :: "provider_call list \<Rightarrow> string \<Rightarrow> nat" where
  "starts_of cs p = length (filter (\<lambda>c. c = PStart p) cs)"

definition stops_of :: "provider_call list \<Rightarrow> string \<Rightarrow> nat" where
  "stops_of cs p = length (filter (\<lambda>c. c = PStop p) cs)"

definition balanced :: "mcp_state \<Rightarrow> string \<Rightarrow> bool" where
  "balanced m p =
    (starts_of (mcp_calls m) p \<le> stops_of (mcp_calls m) p + of_bool (held_open m p))"

definition mcp_inv :: "mcp_state \<Rightarrow> bool" where
  "mcp_inv m = (distinct (mcp_supervisors m) \<and> dict_ok (mcp_errors m)
     \<and> fst ` set (mcp_errors m) \<subseteq> set (mcp_supervisors m) \<and> (\<forall>p. balanced m p))"

lemma starts_of_append [simp]: "starts_of (xs @ ys) p = starts_of xs p + starts_of ys p"
  by (simp add: starts_of_def)

lemma stops_of_append [simp]: "stops_of (xs @ ys) p = stops_of xs p + stops_of ys p"
  by (simp add: stops_of_def)

lemma starts_of_simps [simp]:
  "starts_of [] p = 0"
  "starts_of (c # cs) p = (if c = PStart p then 1 else 0) + starts_of cs p"
  by (simp_all add: starts_of_def)

lemma stops_of_simps [simp]:
  "stops_of [] p = 0"
  "stops_of (c # cs) p = (if c = PStop p then 1 else 0) + stops_of cs p"
  by (simp_all add: stops_of_def)

lemma starts_of_map_PStop [simp]: "starts_of (map PStop ps) p = 0"
  by (induction ps) auto

lemma stops_of_map_PStop: "stops_of (map PStop ps) p = count_list ps p"
  by (induction ps) auto

lemma mcp_inv_init: "mcp_inv mcp_init"
  by (simp add: mcp_inv_def mcp_init_def balanced_def)

lemma track_providers_keeps:
  "mcp_supervisors (track_providers ps m) = mcp_supervisors m"
  "mcp_errors (track_providers ps m) = mcp_errors m"
  "mcp_calls (track_providers ps m) = mcp_calls m"
  by (induction ps arbitrary: m) auto

lemma mcp_inv_track: "mcp_inv m \<Longrightarrow> mcp_inv (track_providers ps m)"
  by (simp add: mcp_inv_def balanced_def held_open_def track_providers_keeps)

lemma mcp_inv_supervise:
  assumes "mcp_inv m" "p \<notin> set (mcp_supervisors m)"
  shows "mcp_inv (supervise_start start p m)"
proof -
  have "dget (mcp_errors m) p = None"
    using assms by (auto simp: mcp_inv_def dget_None_iff)
  then have "balanced m q \<Longrightarrow> balanced (supervise_start start p m) q" for q
    using assms(2) by (cases "q = p") (auto simp: balanced_def supervise_start_def held_open_def split: option.splits)
  with assms show ?thesis
    by (auto simp: mcp_inv_def supervise_start_def split: option.splits)
qed

lemma mcp_inv_warm_one: "mcp_inv m \<Longrightarrow> mcp_inv (snd (warm_one start p m))"
  by (simp add: warm_one_def Let_def mcp_inv_supervise)

lemma mcp_inv_warm_all: "keeps mcp_inv (warm_all start ps)"
proof (induction ps)
  case Nil
  then show ?case by (simp add: keeps_def)
next
  case (Cons p ps)
  have "keeps mcp_inv (warm_one start p)" by (simp add: keeps_def mcp_inv_warm_one)
  then have "keeps mcp_inv (bnd (warm_one start p) (\<lambda>_. warm_all start ps))"
    using Cons.IH by blast
  then show ?case by (simp add: keeps_def)
qed

lemma mcp_inv_warm: "mcp_inv m \<Longrightarrow> mcp_inv (snd (warm_mcp_providers eager start a m))"
  using mcp_inv_warm_all by (auto simp: warm_mcp_providers_def keeps_def)

lemma mcp_inv_shutdown:
  assumes "mcp_inv m"
  shows "mcp_inv (mcp_shutdown m)"
proof -
  have "balanced (mcp_shutdown m) p" for p
  proof -
    have "of_bool (held_open m p)
        \<le> count_list (filter (\<lambda>p. dget (mcp_errors m) p = None) (mcp_supervisors m)) p"
      by (auto simp: held_open_def count_list_0_iff Suc_le_eq intro!: gr0I)
    moreover have "balanced m p" using assms by (simp add: mcp_inv_def)
    ultimately show ?thesis
      by (simp add: balanced_def mcp_shutdown_def Let_def stops_of_map_PStop)
  qed
  then show ?thesis by (simp add: mcp_inv_def mcp_shutdown_def Let_def)
qed

text \<open>Every operation of the component, as one step of its life.\<close>

inductive mcp_step ::
  "(provider_call list \<Rightarrow> string \<Rightarrow> exn option) \<Rightarrow> mcp_state \<Rightarrow> mcp_state \<Rightarrow> bool"
  for start where
  mcp_dispatch: "mcp_step start m (snd (warm_mcp_providers eager start a (track_providers (mcp_servers a) m)))"
| mcp_stop: "mcp_step start m (mcp_shutdown m)"

lemma mcp_step_inv: "mcp_step start m m' \<Longrightarrow> mcp_inv m \<Longrightarrow> mcp_inv m'"
  by (induction rule: mcp_step.induct) (simp_all add: mcp_inv_warm mcp_inv_track mcp_inv_shutdown)

lemma mcp_reachable_inv: "(mcp_step start)\<^sup>*\<^sup>* m m' \<Longrightarrow> mcp_inv m \<Longrightarrow> mcp_inv m'"
  by (induction rule: rtranclp_induct) (auto intro: mcp_step_inv)

text \<open>
  C6. Whatever dispatches and shutdowns a runtime went through, once it shuts down
  every \<open>start()\<close> a provider received has been answered by a \<open>stop()\<close>, no supervisor is
  left, and between two shutdowns a provider has at most one supervisor.
\<close>

theorem shutdown_releases_every_provider:
  assumes "(mcp_step start)\<^sup>*\<^sup>* mcp_init m"
  shows "starts_of (mcp_calls (mcp_shutdown m)) p \<le> stops_of (mcp_calls (mcp_shutdown m)) p
    \<and> mcp_supervisors (mcp_shutdown m) = [] \<and> distinct (mcp_supervisors m)"
proof -
  have inv: "mcp_inv m" using assms mcp_reachable_inv mcp_inv_init by blast
  then have "mcp_inv (mcp_shutdown m)" by (rule mcp_inv_shutdown)
  then show ?thesis using inv
    by (auto simp: mcp_inv_def balanced_def held_open_def mcp_shutdown_def Let_def)
qed

definition mcp_sample_agent :: agent where
  "mcp_sample_agent = \<lparr> a_name = ''a'', a_model = ModelName ''m'', fallback_models = [],
     instructions = '''', output_type = ''Out'', input_type = None, a_tools = {},
     mcp_servers = [''p'', ''q''], builtin_tools = [], max_concurrent_requests = None,
     model_concurrency_limiter = None, model_settings = None, trust_level = MEDIUM,
     a_context_passer = NullContextPasser, a_backend = ''auto'', pre_process = [],
     post_process = [] \<rparr>"

lemma shutdown_releases_every_provider_witness:
  "\<exists>m. starts_of (mcp_calls (mcp_shutdown m)) ''p'' = 1 \<and> stops_of (mcp_calls (mcp_shutdown m)) ''p'' \<ge> 1"
proof -
  let ?start = "\<lambda>cs p. None :: exn option"
  let ?m = "snd (warm_mcp_providers True ?start mcp_sample_agent
      (track_providers (mcp_servers mcp_sample_agent) mcp_init))"
  have "(mcp_step ?start)\<^sup>*\<^sup>* mcp_init ?m" by (intro r_into_rtranclp mcp_dispatch)
  note released = shutdown_releases_every_provider [OF this, of "''p''"]
  have "starts_of (mcp_calls (mcp_shutdown ?m)) ''p'' = 1"
    by (simp add: mcp_sample_agent_def mcp_init_def warm_mcp_providers_def warm_one_def
        supervise_start_def mcp_shutdown_def bnd_def)
  with released show ?thesis by (intro exI [of _ ?m]) simp
qed

end
