(* ===== verification/Middleware.thy ===== *)
theory Middleware
  imports Mcp_Lifecycle
begin

text \<open>
  The pipeline of \<open>core/pipeline.py\<close> and the stages of \<open>middleware/\<close>: timeout, depth
  limit, cost tracking and retry, over the state a runtime shares with its stages:
  a clock, a pending cancellation of the current task, the token budget, the spawn
  count, the current spawn frame (a context variable), the events emitted so far
  and the backend's own state.
\<close>

section \<open>Shared runtime state\<close>

record token_budget =
  budget_limit :: int
  budget_remaining :: int

definition token_budget_init :: "int \<Rightarrow> exn + token_budget" where
  "token_budget_init limit =
    (if limit < 1 then Inl (Exn PyValueError ''limit must be >= 1'')
     else Inr \<lparr> budget_limit = limit, budget_remaining = limit \<rparr>)"

definition budget_used :: "token_budget \<Rightarrow> int" where
  "budget_used b = budget_limit b - budget_remaining b"

definition budget_consume :: "int \<Rightarrow> token_budget \<Rightarrow> token_budget" where
  "budget_consume n b =
    (if n \<le> 0 then b else b\<lparr>budget_remaining := budget_remaining b - n\<rparr>)"

definition budget_reset :: "token_budget \<Rightarrow> token_budget" where
  "budget_reset b = b\<lparr>budget_remaining := budget_limit b\<rparr>"

record spawn_frame =
  sf_agent_name :: string
  sf_agent_context :: agent_context
  sf_trace_id :: string

record 'b rt =
  now :: rat
  cancel_at :: "rat option"
  budget :: "token_budget option"
  spawn_count :: int
  current_spawn :: "spawn_frame option"
  emitted :: "runtime_event list"
  mcp :: mcp_state
  backend_st :: 'b

definition emit :: "runtime_event \<Rightarrow> ('b rt, exn, unit) eff" where
  "emit e = modify (\<lambda>s. s\<lparr>emitted := emitted s @ [e]\<rparr>)"

section \<open>Suspension and timeouts\<close>

text \<open>
  An await that takes \<open>d\<close> time units.  asyncio delivers a cancellation requested for
  an earlier or the same moment as \<open>CancelledError\<close> at that await, once.
\<close>

definition suspend :: "rat \<Rightarrow> ('b rt, exn, unit) eff" where
  "suspend d s =
    (case cancel_at s of
       Some t \<Rightarrow>
         if d > 0 \<and> t \<le> now s + d
         then (Inl (Exn PyCancelledError ''''), s\<lparr>now := max (now s) t, cancel_at := None\<rparr>)
         else (Inr (), s\<lparr>now := now s + d\<rparr>)
     | None \<Rightarrow> (Inr (), s\<lparr>now := now s + d\<rparr>))"

text \<open>
  \<open>asyncio.timeout(secs)\<close>: the earlier of the own deadline and an outer one is
  armed; on the own deadline an escaping \<open>CancelledError\<close> becomes \<open>TimeoutError\<close>, and a
  body that swallowed the cancellation keeps its own outcome.
\<close>

definition own_deadline :: "rat \<Rightarrow> 'b rt \<Rightarrow> bool" where
  "own_deadline secs s = (case cancel_at s of None \<Rightarrow> True | Some t \<Rightarrow> now s + secs < t)"

definition arm :: "rat \<Rightarrow> 'b rt \<Rightarrow> 'b rt" where
  "arm secs s = (if own_deadline secs s then s\<lparr>cancel_at := Some (now s + secs)\<rparr> else s)"

definition cancelled_to_timeout :: "exn + 'a \<Rightarrow> exn + 'a" where
  "cancelled_to_timeout r =
    (case r of
       Inl e \<Rightarrow> Inl (if isinstance e PyCancelledError then Exn PyTimeoutError '''' else e)
     | Inr x \<Rightarrow> Inr x)"

definition with_timeout :: "rat \<Rightarrow> ('b rt, exn, 'a) eff \<Rightarrow> ('b rt, exn, 'a) eff" where
  "with_timeout secs m s =
    (case m (arm secs s) of (r, t) \<Rightarrow>
       if own_deadline secs s
       then (if cancel_at t = None then cancelled_to_timeout r else r,
             t\<lparr>cancel_at := cancel_at s\<rparr>)
       else (r, t))"

section \<open>The pipeline\<close>

record pipeline_context =
  pc_task :: task_spec
  pc_agent_name :: string
  pc_agent_context :: agent_context
  pc_handle :: "agent_handle option"
  pc_state :: "(string, pyval) dict"

type_synonym ('s, 'a) next_stage = "pipeline_context \<Rightarrow> ('s, exn, 'a) eff"
type_synonym ('s, 'a) stage = "pipeline_context \<Rightarrow> ('s, 'a) next_stage \<Rightarrow> ('s, exn, 'a) eff"

definition pipeline_init :: "('s, 'a) stage list \<Rightarrow> exn + ('s, 'a) stage list" where
  "pipeline_init stages =
    (if stages = [] then Inl (Exn PyValueError ''at least one stage'') else Inr stages)"

definition pipeline_terminal :: "('s, 'a) next_stage" where
  "pipeline_terminal ctx = raise (Exn PyRuntimeError ''terminal stage'')"

definition pipeline_wrap :: "('s, 'a) stage \<Rightarrow> ('s, 'a) next_stage \<Rightarrow> ('s, 'a) next_stage" where
  "pipeline_wrap stage nxt = (\<lambda>ctx. stage ctx nxt)"

definition build_chain :: "('s, 'a) stage list \<Rightarrow> ('s, 'a) next_stage" where
  "build_chain stages = fold pipeline_wrap (rev stages) pipeline_terminal"

definition pipeline_run :: "('s, 'a) stage list \<Rightarrow> ('s, 'a) next_stage" where
  "pipeline_run stages ctx = build_chain stages ctx"

lemma build_chain_simps [simp]:
  "build_chain [] = pipeline_terminal"
  "build_chain (st # sts) = (\<lambda>ctx. st ctx (build_chain sts))"
  by (simp_all add: build_chain_def pipeline_wrap_def)

section \<open>The stages\<close>

definition depth_limit_init :: "int \<Rightarrow> exn + int" where
  "depth_limit_init m =
    (if m < 1 then Inl (Exn PyValueError ''max_depth must be >= 1'') else Inr m)"

definition depth_limit_stage :: "int \<Rightarrow> ('s, 'a) stage" where
  "depth_limit_stage max_depth ctx nxt =
    (if depth (pc_agent_context ctx) \<ge> max_depth
     then raise (Exn DepthLimitError (pc_agent_name ctx))
     else nxt ctx)"

definition timeout_init :: "rat \<Rightarrow> exn + rat" where
  "timeout_init secs =
    (if secs \<le> 0 then Inl (Exn PyValueError ''timeout seconds must be > 0'') else Inr secs)"

definition timeout_to_spawn_error :: "string \<Rightarrow> exn + 'a \<Rightarrow> exn + 'a" where
  "timeout_to_spawn_error what r =
    (case r of
       Inl e \<Rightarrow> Inl (if isinstance e PyTimeoutError then Exn SpawnError (''timed out: '' @ what) else e)
     | Inr x \<Rightarrow> Inr x)"

definition timeout_stage :: "rat \<Rightarrow> ('b rt, 'a) stage" where
  "timeout_stage secs ctx nxt s =
    (case with_timeout secs (nxt ctx) s of (r, t) \<Rightarrow>
       (timeout_to_spawn_error (pc_agent_name ctx) r, t))"

definition retry_init :: "int \<Rightarrow> rat \<Rightarrow> exn + (int \<times> rat)" where
  "retry_init n bf =
    (if n < 1 then Inl (Exn PyValueError ''max_attempts must be >= 1'')
     else if bf \<le> 0 then Inl (Exn PyValueError ''backoff_factor must be > 0'')
     else Inr (n, bf))"

text \<open>The loop of \<open>RetryMiddleware.__call__\<close> with \<open>k\<close> attempts left.\<close>

fun retry_loop ::
  "rat \<Rightarrow> nat \<Rightarrow> nat \<Rightarrow> exn option \<Rightarrow> ('b rt, exn, 'a) eff \<Rightarrow> ('b rt, exn, 'a) eff" where
  "retry_loop bf 0 attempt last_error m s =
    (case last_error of
       Some e \<Rightarrow> (Inl e, s)
     | None \<Rightarrow> (Inl (Exn (PyOther ''AssertionError'') ''''), s))"
| "retry_loop bf (Suc k) attempt last_error m s =
    (case m s of
       (Inr x, t) \<Rightarrow> (Inr x, t)
     | (Inl e, t) \<Rightarrow>
         if isinstance e SpawnError
         then (if k > 0
               then bnd (suspend (bf ^ attempt)) (\<lambda>_. retry_loop bf k (Suc attempt) (Some e) m) t
               else retry_loop bf k (Suc attempt) (Some e) m t)
         else (Inl e, t))"

definition retry_stage :: "int \<Rightarrow> rat \<Rightarrow> ('b rt, 'a) stage" where
  "retry_stage max_attempts bf ctx nxt = retry_loop bf (nat max_attempts) 0 None (nxt ctx)"

text \<open>
  Cost tracking.  \<open>_tokens_used\<close> reads the attribute defensively; on the runtime's
  results it is \<open>metadata.tokens_used\<close>.
\<close>

definition result_tokens :: "agent_result \<Rightarrow> int" where
  "result_tokens r = tokens_used (ar_metadata r)"

definition budget_exceeded_event :: "token_budget \<Rightarrow> pipeline_context \<Rightarrow> rat \<Rightarrow> runtime_event" where
  "budget_exceeded_event b ctx t =
    \<lparr> event_type = BUDGET_EXCEEDED, timestamp = t, ev_agent_name = pc_agent_name ctx,
      ev_task_id = Some (ts_id (pc_task ctx)), ev_trace_id = ts_request_id (pc_task ctx),
      ev_parent_trace_id = None,
      payload = [(''limit'', VInt (budget_limit b)), (''used'', VInt (budget_used b)),
                 (''scope'', VStr ''runtime'')] \<rparr>"

definition charge :: "int \<Rightarrow> 'b rt \<Rightarrow> 'b rt" where
  "charge n s = s\<lparr>budget := map_option (budget_consume n) (budget s)\<rparr>"

definition cost_tracking_stage :: "('b rt, agent_result) stage" where
  "cost_tracking_stage ctx nxt s =
    (case budget s of
       None \<Rightarrow> nxt ctx s
     | Some b \<Rightarrow>
         if budget_remaining b \<le> 0
         then bnd (emit (budget_exceeded_event b ctx (now s)))
                (\<lambda>_. raise (Exn BudgetExceededError (pc_agent_name ctx))) s
         else bnd (nxt ctx)
                (\<lambda>r. if result_tokens r > 0
                     then bnd (modify (charge (result_tokens r))) (\<lambda>_. ret r)
                     else ret r) s)"

end
