(* ===== verification/Tools.thy ===== *)
theory Tools
  imports Middleware
begin

text \<open>
  The tool path of an agent run: the tool registry and the executor's policy gate
  with its lifecycle events (\<open>tools/registry.py\<close>, \<open>tools/executor.py\<close>), the wrapper of
  an MCP server (\<open>tools/mcp.py\<close>) and the assembly of the agent handed to PydanticAI
  (\<open>_dispatch.py\<close>).  A tool is an effect on the runtime's state; the registry stores
  tools under identities, so that tools registered during a run are values.
\<close>

section \<open>The registry\<close>

type_synonym 'f tool_registry = "(string, 'f) dict"

definition reg_register :: "string \<Rightarrow> 'f \<Rightarrow> 'f tool_registry \<Rightarrow> exn + 'f tool_registry" where
  "reg_register n f reg =
    (if dhas reg n then Inl (Exn RegistryError (''already registered: '' @ n))
     else Inr (dset n f reg))"

definition reg_get :: "'f tool_registry \<Rightarrow> string \<Rightarrow> exn + 'f" where
  "reg_get reg n =
    (case dget reg n of Some f \<Rightarrow> Inr f | None \<Rightarrow> Inl (Exn RegistryError (''not found: '' @ n)))"

definition reg_names :: "'f tool_registry \<Rightarrow> string set" where
  "reg_names reg = set (dkeys reg)"

definition reg_unregister :: "string \<Rightarrow> 'f tool_registry \<Rightarrow> 'f tool_registry" where
  "reg_unregister n reg = dpop n reg"

definition static_resolve :: "string set \<Rightarrow> string \<Rightarrow> string set \<Rightarrow> string set" where
  "static_resolve allowed agent_name requested = allowed \<inter> requested"

text \<open>
  The contract of a name table whose entries are registered once and removed by
  name; a registration that is undone leaves the table as it was.
\<close>

locale name_table =
  fixes register :: "'k \<Rightarrow> 'v \<Rightarrow> 't \<Rightarrow> 'e + 't"
    and lookup :: "'t \<Rightarrow> 'k \<Rightarrow> 'v option"
    and unregister :: "'k \<Rightarrow> 't \<Rightarrow> 't"
    and ok :: "'t \<Rightarrow> bool"
  assumes register_fresh: "lookup t k = None \<Longrightarrow> \<exists>t'. register k v t = Inr t'"
    and register_dup: "lookup t k \<noteq> None \<Longrightarrow> \<exists>e. register k v t = Inl e"
    and register_ok: "ok t \<Longrightarrow> register k v t = Inr t' \<Longrightarrow> ok t'"
    and lookup_register: "register k v t = Inr t' \<Longrightarrow> lookup t' = (lookup t)(k := Some v)"
    and unregister_ok: "ok t \<Longrightarrow> ok (unregister k t)"
    and lookup_unregister: "ok t \<Longrightarrow> lookup (unregister k t) = (lookup t)(k := None)"
begin

lemma register_Inr_fresh: "register k v t = Inr t' \<Longrightarrow> lookup t k = None"
  using register_dup [of t k v] by (cases "lookup t k") auto

lemma scoped_registration:
  assumes "ok t" "register k v t = Inr t'"
  shows "lookup t' k = Some v" "lookup (unregister k t') = lookup t" "ok (unregister k t')"
  using assms lookup_register [OF assms(2)] register_Inr_fresh [OF assms(2)]
    register_ok [OF assms] lookup_unregister [of t' k] unregister_ok [of t' k]
  by (auto simp: fun_eq_iff)

lemma second_registration_fails:
  "register k v t = Inr t' \<Longrightarrow> \<exists>e. register k w t' = Inl e"
  using lookup_register register_dup by (metis fun_upd_same option.distinct(1))

lemma other_registration_independent:
  assumes "ok t" "register k v t = Inr t'" "k' \<noteq> k"
  shows "lookup (unregister k' t') k = Some v"
  using assms lookup_register [OF assms(2)] register_ok [OF assms(1,2)] lookup_unregister [of t' k']
  by simp

end

interpretation tool_table: name_table reg_register dget reg_unregister dict_ok
proof
  fix t :: "'a tool_registry" and k v t'
  show "dget t k = None \<Longrightarrow> \<exists>t'. reg_register k v t = Inr t'"
    by (simp add: reg_register_def dget_None_iff)
  show "dget t k \<noteq> None \<Longrightarrow> \<exists>e. reg_register k v t = Inl e"
    by (auto simp: reg_register_def dget_None_iff)
  show "dict_ok t \<Longrightarrow> reg_register k v t = Inr t' \<Longrightarrow> dict_ok t'"
    by (auto simp: reg_register_def split: if_splits)
  show "reg_register k v t = Inr t' \<Longrightarrow> dget t' = (dget t)(k := Some v)"
    by (auto simp: reg_register_def fun_eq_iff split: if_splits)
  show "dict_ok t \<Longrightarrow> dict_ok (reg_unregister k t)"
    by (simp add: reg_unregister_def)
  show "dict_ok t \<Longrightarrow> dget (reg_unregister k t) = (dget t)(k := None)"
    by (auto simp: reg_unregister_def fun_eq_iff)
qed

section \<open>The executor\<close>

definition READ_ONLY_TOOLS :: "string set" where
  "READ_ONLY_TOOLS = {''read_file'', ''web_search''}"

type_synonym 'b tool_fun = "(string, pyval) dict \<Rightarrow> ('b rt, exn, pyval) eff"

record tool_call =
  tc_agent_name :: string
  tc_task_id :: string
  tc_trust_level :: trust_level
  tc_allowed :: "string set"
  tc_name :: string
  tc_args :: "(string, pyval) dict"
  tc_trace_id :: "string option"
  tc_low_trust_overrides :: "string set"

definition trust_gate :: "tool_call \<Rightarrow> exn option" where
  "trust_gate c =
    (if tc_trust_level c = SANDBOX then Some (Exn TrustViolationError ''SANDBOX: no tools'')
     else if tc_trust_level c = LOW \<and> tc_name c \<notin> READ_ONLY_TOOLS \<union> tc_low_trust_overrides c
     then Some (Exn TrustViolationError (''LOW: not read-only: '' @ tc_name c))
     else if tc_name c \<notin> tc_allowed c
     then Some (Exn TrustViolationError (''not in the allow-list: '' @ tc_name c))
     else None)"

definition elapsed_ms :: "rat \<Rightarrow> 'b rt \<Rightarrow> int" where
  "elapsed_ms started s = \<lfloor>(now s - started) * 1000\<rfloor>"

definition tool_event ::
  "event_type \<Rightarrow> tool_call \<Rightarrow> rat \<Rightarrow> (string, pyval) dict \<Rightarrow> runtime_event" where
  "tool_event ty c t pl =
    \<lparr> event_type = ty, timestamp = t, ev_agent_name = tc_agent_name c,
      ev_task_id = Some (tc_task_id c),
      ev_trace_id = (case tc_trace_id c of Some i \<Rightarrow> i | None \<Rightarrow> tc_task_id c),
      ev_parent_trace_id = None, payload = pl \<rparr>"

definition tool_started :: "tool_call \<Rightarrow> 'b rt \<Rightarrow> runtime_event" where
  "tool_started c s = tool_event TOOL_CALL_STARTED c (now s)
     [(''tool_name'', VStr (tc_name c)), (''trust_level'', VStr (trust_value (tc_trust_level c)))]"

definition tool_failed :: "tool_call \<Rightarrow> exn \<Rightarrow> rat \<Rightarrow> 'b rt \<Rightarrow> runtime_event" where
  "tool_failed c e started s = tool_event TOOL_CALL_FAILED c (now s)
     [(''tool_name'', VStr (tc_name c)), (''error'', VStr (exn_msg e)),
      (''duration_ms'', VInt (elapsed_ms started s))]"

definition tool_completed :: "tool_call \<Rightarrow> rat \<Rightarrow> 'b rt \<Rightarrow> runtime_event" where
  "tool_completed c started s = tool_event TOOL_CALL_COMPLETED c (now s)
     [(''tool_name'', VStr (tc_name c)), (''duration_ms'', VInt (elapsed_ms started s)),
      (''tokens_used'', VInt 0)]"

definition run_tool :: "tool_call \<Rightarrow> 'b tool_fun \<Rightarrow> ('b rt, exn, pyval) eff" where
  "run_tool c f s =
    (case f (tc_args c) (snd (emit (tool_started c s) s)) of
       (Inr v, t) \<Rightarrow> bnd (emit (tool_completed c (now s) t)) (\<lambda>_. ret v) t
     | (Inl e, t) \<Rightarrow>
         if isinstance e PyException
         then bnd (emit (tool_failed c e (now s) t))
                (\<lambda>_. raise (Exn ToolExecutionError (tc_name c @ '' failed: '' @ exn_msg e))) t
         else (Inl e, t))"

definition execute ::
  "(string \<Rightarrow> exn + 'b tool_fun) \<Rightarrow> 'b tool_fun option \<Rightarrow> tool_call \<Rightarrow> ('b rt, exn, pyval) eff" where
  "execute registry_lookup external_call c =
    (case trust_gate c of
       Some e \<Rightarrow> raise e
     | None \<Rightarrow>
        (case (case external_call of Some f \<Rightarrow> Inr f | None \<Rightarrow> registry_lookup (tc_name c)) of
           Inl e \<Rightarrow> raise e
         | Inr f \<Rightarrow> run_tool c f))"

lemma trust_gate_None_iff:
  "trust_gate c = None \<longleftrightarrow> tc_trust_level c \<noteq> SANDBOX \<and> tc_name c \<in> tc_allowed c
     \<and> (tc_trust_level c = LOW \<longrightarrow> tc_name c \<in> READ_ONLY_TOOLS \<union> tc_low_trust_overrides c)"
  by (auto simp: trust_gate_def)

lemma trust_gate_class: "trust_gate c = Some e \<Longrightarrow> exn_cls e = TrustViolationError"
  by (auto simp: trust_gate_def split: if_splits)

text \<open>A tool that only adds events to the log, as every tool of the program does.\<close>

definition appends_events :: "'b tool_fun \<Rightarrow> bool" where
  "appends_events f = (\<forall>args s. \<exists>evs. emitted (snd (f args s)) = emitted s @ evs)"

lemma run_tool_events:
  assumes "appends_events f"
  obtains evs tail where "emitted (snd (run_tool c f s)) = emitted s @ tool_started c s # evs @ tail"
    and "\<And>v. fst (run_tool c f s) = Inr v \<Longrightarrow> \<exists>e. tail = [e] \<and> event_type e = TOOL_CALL_COMPLETED"
    and "\<And>x. fst (run_tool c f s) = Inl x \<Longrightarrow>
      exn_cls x = ToolExecutionError \<and> (\<exists>e. tail = [e] \<and> event_type e = TOOL_CALL_FAILED)
      \<or> \<not> isinstance x PyException \<and> tail = []"
proof -
  let ?s = "snd (emit (tool_started c s) s)"
  obtain evs where evs: "emitted (snd (f (tc_args c) ?s)) = emitted ?s @ evs"
    using assms by (auto simp: appends_events_def)
  show ?thesis
  proof (cases "f (tc_args c) ?s")
    case (Pair r t)
    have t: "emitted t = emitted s @ tool_started c s # evs"
      using evs Pair by (simp add: emit_def)
    show ?thesis
    proof (cases r)
      case (Inr v)
      show ?thesis
        using Pair Inr t
        by (intro that [of evs "[tool_completed c (now s) t]"])
          (auto simp: run_tool_def bnd_def emit_def tool_completed_def tool_event_def)
    next
      case (Inl e)
      show ?thesis
      proof (cases "isinstance e PyException")
        case True
        then show ?thesis
          using Pair Inl t
          by (intro that [of evs "[tool_failed c e (now s) t]"])
            (auto simp: run_tool_def bnd_def emit_def tool_failed_def tool_event_def)
      next
        case False
        then show ?thesis
          using Pair Inl t by (intro that [of evs "[]"]) (auto simp: run_tool_def)
      qed
    qed
  qed
qed



definition sample_call :: "trust_level \<Rightarrow> string \<Rightarrow> tool_call" where
  "sample_call lvl n = \<lparr> tc_agent_name = ''a'', tc_task_id = ''t'', tc_trust_level = lvl,
     tc_allowed = {''web_search'', ''rm''}, tc_name = n, tc_args = [], tc_trace_id = None,
     tc_low_trust_overrides = {} \<rparr>"


section \<open>MCP servers\<close>

text \<open>
  \<open>MCPToolsetProvider\<close> around a server object of PydanticAI: whether it was entered,
  the cached descriptors and the names they carry.  Entering, leaving, listing and
  calling the server are arguments.
\<close>

record mcp_provider =
  mp_started :: bool
  mp_cache :: "string list option"
  mp_tool_names :: "string set"
  mp_allow :: "string set option"

definition mcp_provider_init :: "string list option \<Rightarrow> mcp_provider" where
  "mcp_provider_init allow =
    \<lparr> mp_started = False, mp_cache = None, mp_tool_names = {}, mp_allow = map_option set allow \<rparr>"

definition mcp_start :: "exn option \<Rightarrow> (mcp_provider, exn, unit) eff" where
  "mcp_start enter p =
    (if mp_started p then (Inr (), p)
     else case enter of Some e \<Rightarrow> (Inl e, p) | None \<Rightarrow> (Inr (), p\<lparr>mp_started := True\<rparr>))"

definition mcp_stop :: "exn option \<Rightarrow> (mcp_provider, exn, unit) eff" where
  "mcp_stop leave p =
    (if \<not> mp_started p then (Inr (), p)
     else (case leave of Some e \<Rightarrow> Inl e | None \<Rightarrow> Inr (),
           p\<lparr>mp_started := False, mp_cache := None, mp_tool_names := {}\<rparr>))"

definition mcp_list_tools :: "exn + string list \<Rightarrow> (mcp_provider, exn, string list) eff" where
  "mcp_list_tools listing p =
    (case mp_cache p of
       Some ds \<Rightarrow> (Inr ds, p)
     | None \<Rightarrow>
        (case listing of
           Inl e \<Rightarrow> (Inl e, p)
         | Inr ds \<Rightarrow> (Inr ds, p\<lparr>mp_cache := Some ds, mp_tool_names := set ds\<rparr>)))"

text \<open>The server's own failures that the provider translates are \<open>ModelRetry\<close> and \<open>McpError\<close>.\<close>

definition mcp_call_tool ::
  "exn + string list \<Rightarrow> (string \<Rightarrow> exn + pyval) \<Rightarrow> string \<Rightarrow> (mcp_provider, exn, pyval) eff" where
  "mcp_call_tool listing direct n =
    bnd (\<lambda>p. if mp_cache p = None then bnd (mcp_list_tools listing) (\<lambda>_. ret ()) p else (Inr (), p))
     (\<lambda>_ p. if n \<notin> mp_tool_names p then (Inl (Exn ToolExecutionError (''unknown MCP tool: '' @ n)), p)
        else case direct n of
          Inr v \<Rightarrow> (Inr v, p)
        | Inl e \<Rightarrow>
            if exn_cls e \<in> {PyOther ''ModelRetry'', PyOther ''McpError''}
            then (Inl (Exn ToolExecutionError (n @ '' failed: '' @ exn_msg e)), p)
            else (Inl e, p))"

definition mcp_provider_ok :: "mcp_provider \<Rightarrow> bool" where
  "mcp_provider_ok p = (mp_tool_names p = (case mp_cache p of None \<Rightarrow> {} | Some ds \<Rightarrow> set ds))"

lemma mcp_provider_ok_ops:
  "mcp_provider_ok (mcp_provider_init allow)"
  "keeps mcp_provider_ok (mcp_start x)" "keeps mcp_provider_ok (mcp_stop x)"
  "keeps mcp_provider_ok (mcp_list_tools l)" "keeps mcp_provider_ok (mcp_call_tool l d n)"
  by (auto simp: mcp_provider_ok_def mcp_provider_init_def keeps_def mcp_start_def mcp_stop_def
      mcp_list_tools_def mcp_call_tool_def bnd_def split: option.splits sum.splits)

section \<open>Assembling the PydanticAI agent\<close>

datatype pa_model =
    PlainModel model_spec
  | FallbackModel model_spec "string list"
  | ConcurrencyLimitedModel pa_model "string + int"

record policy_toolset =
  pt_provider :: string
  pt_agent_name :: string
  pt_task_id :: string
  pt_trust_level :: trust_level
  pt_allowed :: "string set"
  pt_overrides :: "string set"

record pa_agent =
  pa_model_of :: pa_model
  pa_instructions :: string
  pa_output_type :: string
  pa_toolsets :: "policy_toolset list"
  pa_settings :: "(string, pyval) dict option"
  pa_builtin_tools :: "string list"
  pa_native_tools :: "string set"

text \<open>
  A provider answers its allow-list (\<open>None\<close> for none) and the names its server
  reports; the fold over the agent's providers is \<open>_resolve_mcp_toolsets\<close>.
\<close>

definition policy_for ::
  "agent \<Rightarrow> string set \<Rightarrow> string \<Rightarrow> string \<Rightarrow> string set \<Rightarrow> policy_toolset" where
  "policy_for a allowed task_id p names =
    \<lparr> pt_provider = p, pt_agent_name = a_name a, pt_task_id = task_id,
      pt_trust_level = trust_level a, pt_allowed = allowed \<union> names,
      pt_overrides = (if trust_level a = LOW then names else {}) \<rparr>"

fun mcp_toolsets_of ::
  "agent \<Rightarrow> string set \<Rightarrow> string \<Rightarrow> (string \<Rightarrow> string set option) \<Rightarrow> (string \<Rightarrow> exn + string set)
     \<Rightarrow> string list \<Rightarrow> exn + (policy_toolset list \<times> string set)" where
  "mcp_toolsets_of a allowed tid allow_of discover [] = Inr ([], {})"
| "mcp_toolsets_of a allowed tid allow_of discover (p # ps) =
    (if trust_level a = LOW \<and> allow_of p = None
     then mcp_toolsets_of a allowed tid allow_of discover ps
     else case discover p of
       Inl e \<Rightarrow> Inl e
     | Inr all_names \<Rightarrow>
        (let names = (case allow_of p of Some al \<Rightarrow> all_names \<inter> al | None \<Rightarrow> all_names)
         in if names = {} then mcp_toolsets_of a allowed tid allow_of discover ps
            else case mcp_toolsets_of a allowed tid allow_of discover ps of
              Inl e \<Rightarrow> Inl e
            | Inr (ts, disc) \<Rightarrow> Inr (policy_for a allowed tid p names # ts, names \<union> disc)))"

definition resolve_mcp_toolsets ::
  "agent \<Rightarrow> string set \<Rightarrow> string \<Rightarrow> (string \<Rightarrow> string set option) \<Rightarrow> (string \<Rightarrow> exn + string set)
     \<Rightarrow> exn + (policy_toolset list \<times> string set)" where
  "resolve_mcp_toolsets a allowed tid allow_of discover =
    (if mcp_servers a = [] \<or> trust_level a = SANDBOX then Inr ([], {})
     else mcp_toolsets_of a allowed tid allow_of discover (mcp_servers a))"

definition pa_model_for :: "agent \<Rightarrow> pa_model" where
  "pa_model_for a =
    (let base = (if fallback_models a = [] then PlainModel (a_model a)
                 else FallbackModel (a_model a) (fallback_models a))
     in case (model_concurrency_limiter a, max_concurrent_requests a) of
          (Some l, _) \<Rightarrow> ConcurrencyLimitedModel base (Inl l)
        | (None, Some n) \<Rightarrow> ConcurrencyLimitedModel base (Inr n)
        | (None, None) \<Rightarrow> base)"

definition build_pydantic_ai_agent ::
  "agent \<Rightarrow> string set \<Rightarrow> string set \<Rightarrow> string \<Rightarrow> (string \<Rightarrow> string set option)
     \<Rightarrow> (string \<Rightarrow> exn + string set) \<Rightarrow> exn + pa_agent" where
  "build_pydantic_ai_agent a allowed registered tid allow_of discover =
    (case resolve_mcp_toolsets a allowed tid allow_of discover of
       Inl e \<Rightarrow> Inl e
     | Inr (toolsets, mcp_names) \<Rightarrow>
        if \<not> (allowed - mcp_names \<subseteq> registered) then Inl (Exn RegistryError ''tool not found'')
        else Inr \<lparr> pa_model_of = pa_model_for a, pa_instructions = instructions a,
                   pa_output_type = output_type a, pa_toolsets = toolsets,
                   pa_settings = model_settings a, pa_builtin_tools = builtin_tools a,
                   pa_native_tools = allowed - mcp_names \<rparr>)"

text \<open>The executor call behind a native tool and behind a tool of an MCP server.\<close>

definition native_call ::
  "agent \<Rightarrow> string set \<Rightarrow> string \<Rightarrow> string \<Rightarrow> (string, pyval) dict \<Rightarrow> tool_call" where
  "native_call a allowed tid n args =
    \<lparr> tc_agent_name = a_name a, tc_task_id = tid, tc_trust_level = trust_level a,
      tc_allowed = allowed, tc_name = n, tc_args = args, tc_trace_id = None,
      tc_low_trust_overrides = {} \<rparr>"

definition policy_call ::
  "policy_toolset \<Rightarrow> string \<Rightarrow> (string, pyval) dict \<Rightarrow> tool_call" where
  "policy_call ts n args =
    \<lparr> tc_agent_name = pt_agent_name ts, tc_task_id = pt_task_id ts,
      tc_trust_level = pt_trust_level ts, tc_allowed = pt_allowed ts, tc_name = n,
      tc_args = args, tc_trace_id = None, tc_low_trust_overrides = pt_overrides ts \<rparr>"

definition toolset_origin ::
  "agent \<Rightarrow> string set \<Rightarrow> string \<Rightarrow> (string \<Rightarrow> string set option) \<Rightarrow> (string \<Rightarrow> exn + string set)
     \<Rightarrow> string \<Rightarrow> string set \<Rightarrow> policy_toolset \<Rightarrow> bool" where
  "toolset_origin a allowed tid allow_of discover p names ts =
    ((\<exists>all_names. discover p = Inr all_names \<and> names \<subseteq> all_names)
     \<and> (\<forall>al. allow_of p = Some al \<longrightarrow> names \<subseteq> al)
     \<and> (trust_level a = LOW \<longrightarrow> allow_of p \<noteq> None)
     \<and> ts = policy_for a allowed tid p names)"

lemma mcp_toolsets_member:
  "mcp_toolsets_of a allowed tid allow_of discover ps = Inr (tss, disc) \<Longrightarrow> ts \<in> set tss \<Longrightarrow>
     \<exists>p \<in> set ps. \<exists>names. toolset_origin a allowed tid allow_of discover p names ts"
proof (induction ps arbitrary: tss disc)
  case Nil
  then show ?case by simp
next
  case (Cons p ps)
  note IH = Cons.IH and prems = Cons.prems
  show ?case
  proof (cases "trust_level a = LOW \<and> allow_of p = None")
    case True
    then have "mcp_toolsets_of a allowed tid allow_of discover ps = Inr (tss, disc)"
      using prems(1) by simp
    from IH [OF this prems(2)] show ?thesis by auto
  next
    case nskip: False
    obtain all_names where d: "discover p = Inr all_names"
      using prems(1) nskip by (auto split: sum.splits)
    define names where "names = (case allow_of p of Some al \<Rightarrow> all_names \<inter> al | None \<Rightarrow> all_names)"
    have here: "toolset_origin a allowed tid allow_of discover p names (policy_for a allowed tid p names)"
      using d nskip by (auto simp: toolset_origin_def names_def split: option.splits)
    show ?thesis
    proof (cases "names = {}")
      case True
      then have "mcp_toolsets_of a allowed tid allow_of discover ps = Inr (tss, disc)"
        using prems(1) nskip d by (simp add: names_def)
      from IH [OF this prems(2)] show ?thesis by auto
    next
      case False
      then obtain ts' disc' where rest: "mcp_toolsets_of a allowed tid allow_of discover ps = Inr (ts', disc')"
        and eq: "tss = policy_for a allowed tid p names # ts'"
        using prems(1) nskip d by (auto simp: names_def Let_def split: sum.splits prod.splits if_splits)
      then show ?thesis
        using here IH [OF rest] prems(2) by auto
    qed
  qed
qed

text \<open>
  The gate of an MCP toolset.  A sandboxed agent gets no toolset; at low trust a
  provider without an allow-list gets none.  A call through a toolset is admitted
  exactly for a name the provider's server reports and its allow-list (if any)
  contains, or for a name on the agent's own native list that is, at low trust,
  read-only; in the second case the provider's allow-list is not consulted.
\<close>

theorem mcp_toolset_gate:
  assumes "resolve_mcp_toolsets a allowed tid allow_of discover = Inr (tss, disc)" "ts \<in> set tss"
  shows "trust_level a \<noteq> SANDBOX \<and>
    (\<exists>p \<in> set (mcp_servers a). \<exists>names.
        (\<exists>all_names. discover p = Inr all_names \<and> names \<subseteq> all_names)
      \<and> (\<forall>al. allow_of p = Some al \<longrightarrow> names \<subseteq> al)
      \<and> (trust_level a = LOW \<longrightarrow> allow_of p \<noteq> None)
      \<and> (trust_gate (policy_call ts n args) = None \<longleftrightarrow>
           n \<in> names \<or> n \<in> allowed \<and> (trust_level a = LOW \<longrightarrow> n \<in> READ_ONLY_TOOLS)))"
proof -
  have ns: "trust_level a \<noteq> SANDBOX"
    and r: "mcp_toolsets_of a allowed tid allow_of discover (mcp_servers a) = Inr (tss, disc)"
    using assms by (auto simp: resolve_mcp_toolsets_def split: if_splits)
  obtain p names where p: "p \<in> set (mcp_servers a)"
    and o: "toolset_origin a allowed tid allow_of discover p names ts"
    using mcp_toolsets_member [OF r assms(2)] by blast
  have ts: "ts = policy_for a allowed tid p names" using o by (simp add: toolset_origin_def)
  have iff: "trust_gate (policy_call ts n args) = None \<longleftrightarrow>
      n \<in> names \<or> n \<in> allowed \<and> (trust_level a = LOW \<longrightarrow> n \<in> READ_ONLY_TOOLS)"
    unfolding ts using ns by (simp add: trust_gate_None_iff policy_call_def policy_for_def) blast
  show ?thesis
    by (rule conjI [OF ns], rule bexI [OF _ p], rule exI [of _ names])
      (intro conjI iff o [unfolded toolset_origin_def, THEN conjunct1]
        o [unfolded toolset_origin_def, THEN conjunct2, THEN conjunct1]
        o [unfolded toolset_origin_def, THEN conjunct2, THEN conjunct2, THEN conjunct1])
qed

text \<open>A low-trust agent whose native list names a read-only tool, and a server that reports it.\<close>

definition low_trust_mcp_agent :: agent where
  "low_trust_mcp_agent = mcp_sample_agent\<lparr>trust_level := LOW, mcp_servers := [''p'']\<rparr>"

lemma mcp_toolset_gate_witness:
  "\<exists>ts disc. resolve_mcp_toolsets low_trust_mcp_agent {''read_file''} ''t'' (\<lambda>p. Some {''search''})
        (\<lambda>p. Inr {''search'', ''read_file''}) = Inr ([ts], disc)
     \<and> trust_gate (policy_call ts ''read_file'' []) = None"
proof -
  let ?ts = "policy_for low_trust_mcp_agent {''read_file''} ''t'' ''p'' {''search''}"
  have r: "resolve_mcp_toolsets low_trust_mcp_agent {''read_file''} ''t'' (\<lambda>p. Some {''search''})
        (\<lambda>p. Inr {''search'', ''read_file''}) = Inr ([?ts], {''search''})"
    by (simp add: resolve_mcp_toolsets_def low_trust_mcp_agent_def mcp_sample_agent_def Let_def
        insert_commute)
  have m: "?ts \<in> set [?ts]" by simp
  from mcp_toolset_gate [OF r m, of "''read_file''" "[]"]
  have "trust_gate (policy_call ?ts ''read_file'' []) = None"
    by (auto simp: READ_ONLY_TOOLS_def)
  with r show ?thesis by blast
qed

end
