(* ===== verification/Runtime.thy ===== *)
theory Runtime
  imports Middleware
begin

text \<open>
  \<open>runtime.py\<close>: resolving an agent, the cycle gate, the child context, the spawn cap,
  the per-run pipeline (\<open>run\<close>) and the batch path (\<open>gather\<close>).  A backend is the record
  of its operations, as in \<open>core/protocols\<close>; the operations are effects on the shared
  state, so a backend whose agent calls \<open>run\<close> again is a backend like any other.
  Concurrent slots of the fallback path run in task order.
\<close>

section \<open>Options, backends, runtimes\<close>

datatype cycle_policy = Strict | Permissive

record runtime_options =
  timeout_seconds :: rat
  max_spawn_depth :: int
  max_total_spawns :: "int option"
  cycle_policy :: cycle_policy
  retry_max_attempts :: int
  retry_backoff_factor :: rat
  broker_signing_key :: "string option"
  mcp_eager_start :: bool

definition default_options :: runtime_options where
  "default_options = \<lparr> timeout_seconds = 300, max_spawn_depth = 4, max_total_spawns = None,
     cycle_policy = Strict, retry_max_attempts = 1, retry_backoff_factor = 3 / 2,
     broker_signing_key = None, mcp_eager_start = False \<rparr>"

record 'b backend =
  be_name :: string
  be_spawn :: "agent \<Rightarrow> task_spec \<Rightarrow> agent_context \<Rightarrow> ('b rt, exn, agent_handle) eff"
  be_result :: "agent_handle \<Rightarrow> ('b rt, exn, agent_result) eff"
  be_gather :: "(agent \<Rightarrow> task_spec list \<Rightarrow> agent_context \<Rightarrow> int
                  \<Rightarrow> ('b rt, exn, agent_result list) eff) option"

text \<open>
  The last two fields are the user's: a context passer of his own and the outcome
  of starting one of his toolset providers.
\<close>

record 'b runtime =
  r_options :: runtime_options
  r_registry :: "(string \<Rightarrow> exn + agent) option"
  r_backend :: "'b backend"
  r_id :: string
  r_user_passer :: "string \<Rightarrow> agent_context \<Rightarrow> task_spec \<Rightarrow> exn + agent_context"
  r_mcp_start :: "provider_call list \<Rightarrow> string \<Rightarrow> exn option"

datatype agent_ref = ByName string | ByAgent agent

section \<open>Helpers of a dispatch\<close>

definition on_mcp :: "(mcp_state, exn, 'a) eff \<Rightarrow> ('b rt, exn, 'a) eff" where
  "on_mcp m s = (case m (mcp s) of (r, c) \<Rightarrow> (r, s\<lparr>mcp := c\<rparr>))"

definition resolve_agent :: "'b runtime \<Rightarrow> agent_ref \<Rightarrow> ('b rt, exn, agent) eff" where
  "resolve_agent R ref s =
    (case (case ref of
             ByAgent a \<Rightarrow> Inr a
           | ByName n \<Rightarrow> (case r_registry R of
                 None \<Rightarrow> Inl (Exn RegistryError (''no registry configured: '' @ n))
               | Some get \<Rightarrow> get n)) of
       Inl e \<Rightarrow> (Inl e, s)
     | Inr a \<Rightarrow> (Inr a, s\<lparr>mcp := track_providers (mcp_servers a) (mcp s)\<rparr>))"

definition warm_providers :: "'b runtime \<Rightarrow> agent \<Rightarrow> ('b rt, exn, unit) eff" where
  "warm_providers R a =
    on_mcp (warm_mcp_providers (mcp_eager_start (r_options R)) (r_mcp_start R) a)"

definition spawn_chain :: "spawn_frame \<Rightarrow> string set" where
  "spawn_chain f = ancestors (sf_agent_context f) \<union> {sf_agent_name f}"

definition cycle_rejects :: "'b runtime \<Rightarrow> string \<Rightarrow> spawn_frame option \<Rightarrow> bool" where
  "cycle_rejects R name pf =
    (case pf of
       None \<Rightarrow> False
     | Some f \<Rightarrow> cycle_policy (r_options R) = Strict \<and> name \<in> spawn_chain f)"

definition child_context :: "spawn_frame option \<Rightarrow> agent_context" where
  "child_context pf =
    (case pf of
       None \<Rightarrow> default_context
     | Some f \<Rightarrow> default_context
         \<lparr> depth := depth (sf_agent_context f) + 1,
           parent_agent := Some (sf_agent_name f),
           parent_trace_id := Some (sf_trace_id f),
           ancestors := spawn_chain f \<rparr>)"

definition claim_spawn_batch :: "'b runtime \<Rightarrow> string \<Rightarrow> int \<Rightarrow> ('b rt, exn, unit) eff" where
  "claim_spawn_batch R name count s =
    (if count < 0 then (Inl (Exn SpecValidationError ''count must be >= 0''), s)
     else if count = 0 then (Inr (), s)
     else case max_total_spawns (r_options R) of
       Some cap \<Rightarrow>
         if spawn_count s + count > cap then (Inl (Exn SpawnCapError name), s)
         else (Inr (), s\<lparr>spawn_count := spawn_count s + count\<rparr>)
     | None \<Rightarrow> (Inr (), s\<lparr>spawn_count := spawn_count s + count\<rparr>))"

definition claim_spawn_slot :: "'b runtime \<Rightarrow> string \<Rightarrow> ('b rt, exn, unit) eff" where
  "claim_spawn_slot R name = claim_spawn_batch R name 1"

section \<open>One run\<close>

definition claim_stage :: "'b runtime \<Rightarrow> ('b rt, agent_result) stage" where
  "claim_stage R ctx nxt = bnd (claim_spawn_slot R (pc_agent_name ctx)) (\<lambda>_. nxt ctx)"

text \<open>The bookkeeping fields are overlaid on whatever the context passer returned.\<close>

definition overlay_lineage :: "agent_context \<Rightarrow> agent_context \<Rightarrow> agent_context" where
  "overlay_lineage own prepared = prepared
    \<lparr> depth := depth own, parent_agent := parent_agent own,
      parent_trace_id := parent_trace_id own, ancestors := ancestors own \<rparr>"

definition dispatch_stage :: "'b runtime \<Rightarrow> agent \<Rightarrow> task_spec \<Rightarrow> ('b rt, agent_result) stage" where
  "dispatch_stage R a task ctx nxt =
    (case prepare_context (r_user_passer R) (a_context_passer a) (pc_agent_context ctx) task of
       Inl e \<Rightarrow> raise e
     | Inr prepared \<Rightarrow>
         bnd (be_spawn (r_backend R) a task (overlay_lineage (pc_agent_context ctx) prepared))
           (\<lambda>h. be_result (r_backend R) h))"

definition run_stages ::
  "'b runtime \<Rightarrow> agent \<Rightarrow> task_spec \<Rightarrow> bool \<Rightarrow> exn + ('b rt, agent_result) stage list" where
  "run_stages R a task has_budget =
    (case timeout_init (timeout_seconds (r_options R)) of
       Inl e \<Rightarrow> Inl e
     | Inr secs \<Rightarrow>
    (case depth_limit_init (max_spawn_depth (r_options R)) of
       Inl e \<Rightarrow> Inl e
     | Inr md \<Rightarrow>
       let front = [timeout_stage secs, depth_limit_stage md]
             @ (if has_budget then [cost_tracking_stage] else []) @ [claim_stage R]
       in if retry_max_attempts (r_options R) > 1
          then (case retry_init (retry_max_attempts (r_options R)) (retry_backoff_factor (r_options R)) of
                  Inl e \<Rightarrow> Inl e
                | Inr (n, bf) \<Rightarrow> pipeline_init (front @ [retry_stage n bf, dispatch_stage R a task]))
          else pipeline_init (front @ [dispatch_stage R a task])))"

definition run_context :: "agent \<Rightarrow> task_spec \<Rightarrow> agent_context \<Rightarrow> pipeline_context" where
  "run_context a task ctx =
    \<lparr> pc_task = task, pc_agent_name = a_name a, pc_agent_context = ctx,
      pc_handle = None, pc_state = [] \<rparr>"

definition own_frame :: "agent \<Rightarrow> task_spec \<Rightarrow> agent_context \<Rightarrow> spawn_frame" where
  "own_frame a task ctx =
    \<lparr> sf_agent_name = a_name a, sf_agent_context = ctx, sf_trace_id = ts_request_id task \<rparr>"

definition with_frame :: "spawn_frame option \<Rightarrow> ('b rt, exn, 'a) eff \<Rightarrow> ('b rt, exn, 'a) eff" where
  "with_frame f m s =
    finally_do m (\<lambda>t. t\<lparr>current_spawn := current_spawn s\<rparr>) (s\<lparr>current_spawn := f\<rparr>)"

definition run_resolved :: "'b runtime \<Rightarrow> agent \<Rightarrow> task_spec \<Rightarrow> ('b rt, exn, agent_result) eff" where
  "run_resolved R a task s =
    (if cycle_rejects R (a_name a) (current_spawn s)
     then (Inl (Exn SpawnCycleError (a_name a)), s)
     else let ctx = child_context (current_spawn s) in
       (case run_stages R a task (budget s \<noteq> None) of
          Inl e \<Rightarrow> (Inl e, s)
        | Inr stages \<Rightarrow>
            with_frame (Some (own_frame a task ctx))
              (pipeline_run stages (run_context a task ctx)) s))"

definition run :: "'b runtime \<Rightarrow> agent_ref \<Rightarrow> task_spec \<Rightarrow> ('b rt, exn, agent_result) eff" where
  "run R ref task =
    bnd (resolve_agent R ref)
      (\<lambda>a. bnd (warm_providers R a) (\<lambda>_. run_resolved R a task))"

section \<open>A batch\<close>

definition batch_trace_id :: "'b runtime \<Rightarrow> task_spec list \<Rightarrow> string" where
  "batch_trace_id R tasks = (case tasks of [] \<Rightarrow> r_id R | t # _ \<Rightarrow> ts_request_id t)"

definition batch_event ::
  "event_type \<Rightarrow> 'b runtime \<Rightarrow> agent \<Rightarrow> task_spec list \<Rightarrow> agent_context \<Rightarrow> rat
    \<Rightarrow> (string, pyval) dict \<Rightarrow> runtime_event" where
  "batch_event ty R a tasks ctx t pl =
    \<lparr> event_type = ty, timestamp = t, ev_agent_name = a_name a, ev_task_id = None,
      ev_trace_id = batch_trace_id R tasks, ev_parent_trace_id = parent_trace_id ctx,
      payload = pl \<rparr>"

definition failed_slot :: "'b runtime \<Rightarrow> agent \<Rightarrow> task_spec \<Rightarrow> exn \<Rightarrow> agent_result" where
  "failed_slot R a t e =
    \<lparr> ar_output = None, ar_error = Some (Exn SpawnError (a_name a @ '' failed: '' @ exn_msg e)),
      ar_metadata = default_metadata\<lparr>rm_backend := be_name (r_backend R)\<rparr>,
      ar_agent_name = a_name a, ar_task_id = ts_id t \<rparr>"

fun fallback_gather ::
  "'b runtime \<Rightarrow> agent \<Rightarrow> task_spec list \<Rightarrow> ('b rt, exn, agent_result list) eff" where
  "fallback_gather R a [] s = (Inr [], s)"
| "fallback_gather R a (t # ts) s =
    (case run R (ByAgent a) t s of
       (Inr r, s') \<Rightarrow> bnd (fallback_gather R a ts) (\<lambda>rs. ret (r # rs)) s'
     | (Inl e, s') \<Rightarrow>
         if isinstance e PyException
         then bnd (fallback_gather R a ts) (\<lambda>rs. ret (failed_slot R a t e # rs)) s'
         else (Inl e, s'))"

definition success_count :: "agent_result list \<Rightarrow> int" where
  "success_count rs = int (length (filter is_ok rs))"

fun first_error :: "agent_result list \<Rightarrow> exn option" where
  "first_error [] = None"
| "first_error (r # rs) = (case ar_error r of Some e \<Rightarrow> Some e | None \<Rightarrow> first_error rs)"

definition batch_tokens :: "agent_result list \<Rightarrow> int" where
  "batch_tokens rs = sum_list (map result_tokens rs)"

definition gather_settle ::
  "'b runtime \<Rightarrow> agent \<Rightarrow> task_spec list \<Rightarrow> agent_context \<Rightarrow> bool \<Rightarrow> bool
     \<Rightarrow> agent_result list \<Rightarrow> ('b rt, exn, agent_result list) eff" where
  "gather_settle R a tasks ctx native fail_fast rs =
    bnd (if native \<and> batch_tokens rs > 0 then modify (charge (batch_tokens rs)) else ret ())
     (\<lambda>_. bnd (\<lambda>s. emit (batch_event BATCH_COMPLETED R a tasks ctx (now s)
                  [(''task_count'', VInt (int (length tasks))),
                   (''success_count'', VInt (success_count rs)),
                   (''failure_count'', VInt (int (length rs) - success_count rs))]) s)
     (\<lambda>_. case (if fail_fast then first_error rs else None) of
            Some e \<Rightarrow> raise e
          | None \<Rightarrow> ret rs))"

definition gather_dispatch ::
  "'b runtime \<Rightarrow> agent \<Rightarrow> task_spec list \<Rightarrow> int \<Rightarrow> agent_context
     \<Rightarrow> ('b rt, exn, agent_result list) eff" where
  "gather_dispatch R a tasks mc ctx s =
    (case with_timeout (timeout_seconds (r_options R))
            (case be_gather (r_backend R) of
               Some g \<Rightarrow> g a tasks ctx mc
             | None \<Rightarrow> fallback_gather R a tasks) s of
       (r, t) \<Rightarrow> (timeout_to_spawn_error (a_name a) r, t))"

definition gather_admitted ::
  "'b runtime \<Rightarrow> agent \<Rightarrow> task_spec list \<Rightarrow> int \<Rightarrow> bool \<Rightarrow> agent_context
     \<Rightarrow> ('b rt, exn, agent_result list) eff" where
  "gather_admitted R a tasks mc fail_fast ctx =
    (let native = be_gather (r_backend R) \<noteq> None in
     bnd (if native then claim_spawn_batch R (a_name a) (int (length tasks)) else ret ())
      (\<lambda>_. bnd (\<lambda>s. emit (batch_event BATCH_STARTED R a tasks ctx (now s)
                  [(''task_count'', VInt (int (length tasks))), (''max_concurrency'', VInt mc)]) s)
      (\<lambda>_. bnd (gather_dispatch R a tasks mc ctx)
      (\<lambda>rs. gather_settle R a tasks ctx native fail_fast rs))))"

definition gather_resolved ::
  "'b runtime \<Rightarrow> agent \<Rightarrow> task_spec list \<Rightarrow> int \<Rightarrow> bool \<Rightarrow> ('b rt, exn, agent_result list) eff" where
  "gather_resolved R a tasks mc fail_fast s =
    (let ctx = child_context (current_spawn s) in
     if cycle_rejects R (a_name a) (current_spawn s)
     then (Inl (Exn SpawnCycleError (a_name a)), s)
     else if depth ctx \<ge> max_spawn_depth (r_options R)
     then (Inl (Exn DepthLimitError (a_name a)), s)
     else case budget s of
       Some b \<Rightarrow>
         if budget_remaining b \<le> 0
         then bnd (emit (batch_event BUDGET_EXCEEDED R a tasks ctx (now s)
                     [(''limit'', VInt (budget_limit b)), (''used'', VInt (budget_used b)),
                      (''scope'', VStr ''runtime''), (''batch'', VBool True),
                      (''task_count'', VInt (int (length tasks)))]))
                (\<lambda>_. raise (Exn BudgetExceededError (a_name a))) s
         else gather_admitted R a tasks mc fail_fast ctx s
     | None \<Rightarrow> gather_admitted R a tasks mc fail_fast ctx s)"

definition gather ::
  "'b runtime \<Rightarrow> agent_ref \<Rightarrow> task_spec list \<Rightarrow> int \<Rightarrow> bool \<Rightarrow> ('b rt, exn, agent_result list) eff" where
  "gather R ref tasks mc fail_fast =
    (if mc < 1 then raise (Exn SpecValidationError ''max_concurrency must be >= 1'')
     else bnd (resolve_agent R ref)
       (\<lambda>a. bnd (warm_providers R a) (\<lambda>_. gather_resolved R a tasks mc fail_fast)))"

end
