(* ===== verification/Runtime_Safety.thy ===== *)
theory Runtime_Safety
  imports Runtime
begin

text \<open>
  What the admission gates of \<open>AgentRuntime.run\<close> and \<open>gather\<close> guarantee, for every
  backend: a rejected run changes nothing, one run takes one slot whatever it
  retries, the lineage a backend sees is the runtime's, and the spawn cap and the
  token budget bound what is dispatched.
\<close>

section \<open>The pipeline of a run, unfolded\<close>

definition options_ok :: "runtime_options \<Rightarrow> bool" where
  "options_ok opts = (timeout_seconds opts > 0 \<and> max_spawn_depth opts \<ge> 1
     \<and> (retry_max_attempts opts \<le> 1 \<or> retry_backoff_factor opts > 0))"

definition dispatch_attempts ::
  "'b runtime \<Rightarrow> agent \<Rightarrow> task_spec \<Rightarrow> pipeline_context \<Rightarrow> ('b rt, exn, agent_result) eff" where
  "dispatch_attempts R a task ctx =
    (let one = dispatch_stage R a task ctx pipeline_terminal;
         opts = r_options R
     in if retry_max_attempts opts > 1
        then retry_loop (retry_backoff_factor opts) (nat (retry_max_attempts opts)) 0 None one
        else one)"

definition claimed_dispatch ::
  "'b runtime \<Rightarrow> agent \<Rightarrow> task_spec \<Rightarrow> pipeline_context \<Rightarrow> ('b rt, exn, agent_result) eff" where
  "claimed_dispatch R a task ctx = claim_stage R ctx (dispatch_attempts R a task)"

definition gated_run ::
  "'b runtime \<Rightarrow> agent \<Rightarrow> task_spec \<Rightarrow> bool \<Rightarrow> pipeline_context \<Rightarrow> ('b rt, exn, agent_result) eff" where
  "gated_run R a task has_budget ctx =
    depth_limit_stage (max_spawn_depth (r_options R)) ctx
      (if has_budget then (\<lambda>c. cost_tracking_stage c (claimed_dispatch R a task))
       else claimed_dispatch R a task)"

lemma pipeline_run_stages:
  assumes "options_ok (r_options R)" "run_stages R a task hb = Inr stages"
  shows "pipeline_run stages ctx =
    timeout_stage (timeout_seconds (r_options R)) ctx (gated_run R a task hb)"
  using assms
  by (auto simp: run_stages_def options_ok_def timeout_init_def depth_limit_init_def retry_init_def
      pipeline_init_def pipeline_run_def gated_run_def [abs_def] claimed_dispatch_def [abs_def]
      dispatch_attempts_def [abs_def] retry_stage_def [abs_def] Let_def split: if_splits)

lemma run_stages_ok: "options_ok (r_options R) \<Longrightarrow> \<exists>stages. run_stages R a task hb = Inr stages"
  by (auto simp: run_stages_def options_ok_def timeout_init_def depth_limit_init_def retry_init_def
      pipeline_init_def Let_def)

lemma run_resolved_unfold:
  assumes "options_ok (r_options R)" "\<not> cycle_rejects R (a_name a) (current_spawn s)"
  shows "run_resolved R a task s =
    with_frame (Some (own_frame a task (child_context (current_spawn s))))
      (timeout_stage (timeout_seconds (r_options R))
        (run_context a task (child_context (current_spawn s)))
        (gated_run R a task (budget s \<noteq> None))) s"
  using assms run_stages_ok [OF assms(1), of a task "budget s \<noteq> None"]
  by (auto simp: run_resolved_def Let_def pipeline_run_stages)

section \<open>Timeouts and frames\<close>

lemma cancel_at_arm [simp]: "cancel_at (arm secs s) \<noteq> None"
  by (auto simp: arm_def own_deadline_def split: option.splits)

lemma arm_fields [simp]:
  "budget (arm secs s) = budget s" "spawn_count (arm secs s) = spawn_count s"
  "current_spawn (arm secs s) = current_spawn s" "emitted (arm secs s) = emitted s"
  "backend_st (arm secs s) = backend_st s" "mcp (arm secs s) = mcp s" "now (arm secs s) = now s"
  by (simp_all add: arm_def)

lemma suspend_fields [simp]:
  "budget (snd (suspend d s)) = budget s" "spawn_count (snd (suspend d s)) = spawn_count s"
  "current_spawn (snd (suspend d s)) = current_spawn s" "emitted (snd (suspend d s)) = emitted s"
  "backend_st (snd (suspend d s)) = backend_st s" "mcp (snd (suspend d s)) = mcp s"
  by (simp_all add: suspend_def split: option.splits)

lemma suspend_unchanged:
  "suspend d s = (r, t) \<Longrightarrow> backend_st t = backend_st s \<and> spawn_count t = spawn_count s
     \<and> budget t = budget s \<and> current_spawn t = current_spawn s"
  using suspend_fields [of d s] by simp

text \<open>A body that leaves the clock and the deadline alone leaves the timeout no trace.\<close>

lemma with_timeout_untouched:
  assumes "m (arm secs s) = (r, t)" "cancel_at t = cancel_at (arm secs s)"
  shows "with_timeout secs m s = (r, t\<lparr>cancel_at := cancel_at s\<rparr>)"
proof (cases "own_deadline secs s")
  case True
  then show ?thesis using assms by (simp add: with_timeout_def)
next
  case False
  then have "arm secs s = s" by (simp add: arm_def)
  then have "t\<lparr>cancel_at := cancel_at s\<rparr> = t" using assms(2) by simp
  then show ?thesis using assms False by (simp add: with_timeout_def)
qed

lemma snd_with_timeout:
  "\<exists>c. snd (with_timeout secs m s) = (snd (m (arm secs s)))\<lparr>cancel_at := c\<rparr>"
proof (cases "m (arm secs s)")
  case (Pair r t)
  then show ?thesis
    by (cases "own_deadline secs s") (auto simp: with_timeout_def intro: exI [of _ "cancel_at t"])
qed

lemma snd_timeout_stage:
  "\<exists>c. snd (timeout_stage secs ctx nxt s) = (snd (nxt ctx (arm secs s)))\<lparr>cancel_at := c\<rparr>"
  using snd_with_timeout [of secs "nxt ctx" s] by (auto simp: timeout_stage_def split: prod.splits)

lemma timeout_stage_untouched:
  assumes "nxt ctx (arm secs s) = (Inl e, t)" "cancel_at t = cancel_at (arm secs s)"
    and "\<not> isinstance e PyTimeoutError"
  shows "timeout_stage secs ctx nxt s = (Inl e, t\<lparr>cancel_at := cancel_at s\<rparr>)"
  using with_timeout_untouched [of "nxt ctx" secs s, OF assms(1,2)] assms(3)
  by (simp add: timeout_stage_def timeout_to_spawn_error_def)

lemma snd_with_frame [simp]:
  "snd (with_frame f m s) = (snd (m (s\<lparr>current_spawn := f\<rparr>)))\<lparr>current_spawn := current_spawn s\<rparr>"
  by (simp add: with_frame_def finally_do_def split: prod.splits)

lemma fst_with_frame [simp]: "fst (with_frame f m s) = fst (m (s\<lparr>current_spawn := f\<rparr>))"
  by (simp add: with_frame_def finally_do_def split: prod.splits)

lemma run_frame_restored: "current_spawn (snd (run_resolved R a task s)) = current_spawn s"
  by (simp add: run_resolved_def Let_def split: sum.splits)

lemma cost_tracking_cong:
  "nxt ctx = nxt' ctx \<Longrightarrow> cost_tracking_stage ctx nxt = cost_tracking_stage ctx nxt'"
  by (rule ext) (simp add: cost_tracking_stage_def split: option.splits)

text \<open>
  Two runtimes with the same gates behave alike on a run if they agree on what
  happens behind the gates.
\<close>

lemma run_resolved_cong:
  assumes "options_ok (r_options R)" "options_ok (r_options R')"
    and "cycle_policy (r_options R) = cycle_policy (r_options R')"
    and "timeout_seconds (r_options R) = timeout_seconds (r_options R')"
    and "max_spawn_depth (r_options R) = max_spawn_depth (r_options R')"
    and "max_total_spawns (r_options R) = max_total_spawns (r_options R')"
    and "\<not> cycle_rejects R (a_name a) (current_spawn s) \<Longrightarrow>
      depth (child_context (current_spawn s)) < max_spawn_depth (r_options R) \<Longrightarrow>
      dispatch_attempts R a task (run_context a task (child_context (current_spawn s)))
        = dispatch_attempts R' a task (run_context a task (child_context (current_spawn s)))"
  shows "run_resolved R a task s = run_resolved R' a task s"
proof (cases "cycle_rejects R (a_name a) (current_spawn s)")
  case True
  then have "cycle_rejects R' (a_name a) (current_spawn s)"
    using assms(3) by (simp add: cycle_rejects_def split: option.splits)
  with True show ?thesis by (simp add: run_resolved_def)
next
  case False
  then have F': "\<not> cycle_rejects R' (a_name a) (current_spawn s)"
    using assms(3) by (simp add: cycle_rejects_def split: option.splits)
  let ?ctx = "run_context a task (child_context (current_spawn s))"
  have claim: "claim_spawn_slot R = claim_spawn_slot R'"
    using assms(6) by (simp add: claim_spawn_slot_def [abs_def] claim_spawn_batch_def [abs_def])
  have "gated_run R a task hb ?ctx = gated_run R' a task hb ?ctx" for hb
  proof (cases "depth (child_context (current_spawn s)) < max_spawn_depth (r_options R)")
    case True
    then have "claimed_dispatch R a task ?ctx = claimed_dispatch R' a task ?ctx"
      using assms(7) [OF False] by (simp add: claimed_dispatch_def claim_stage_def claim)
    then show ?thesis
      using assms(5) by (auto simp: gated_run_def depth_limit_stage_def intro: cost_tracking_cong)
  next
    case False
    then show ?thesis using assms(5)
      by (simp add: gated_run_def depth_limit_stage_def run_context_def)
  qed
  then show ?thesis
    using run_resolved_unfold [OF assms(1) False, of task] run_resolved_unfold [OF assms(2) F', of task] assms(4)
    by (simp add: timeout_stage_def [abs_def])
qed

section \<open>Rejections leave no trace\<close>

lemma rejected_in_pipeline:
  assumes "options_ok (r_options R)" "\<not> cycle_rejects R (a_name a) (current_spawn s)"
    and "\<And>u. budget u = budget s \<Longrightarrow> spawn_count u = spawn_count s \<Longrightarrow>
      gated_run R a task (budget s \<noteq> None) (run_context a task (child_context (current_spawn s))) u
        = (Inl e, u\<lparr>emitted := emitted u @ evs (now u)\<rparr>)"
    and "\<not> isinstance e PyTimeoutError"
  shows "run_resolved R a task s = (Inl e, s\<lparr>emitted := emitted s @ evs (now s)\<rparr>)"
proof -
  let ?f = "s\<lparr>current_spawn := Some (own_frame a task (child_context (current_spawn s)))\<rparr>"
  let ?secs = "timeout_seconds (r_options R)"
  have "timeout_stage ?secs (run_context a task (child_context (current_spawn s)))
      (gated_run R a task (budget s \<noteq> None)) ?f
      = (Inl e, ((arm ?secs ?f)\<lparr>emitted := emitted s @ evs (now s)\<rparr>)\<lparr>cancel_at := cancel_at s\<rparr>)"
    using assms(3) [of "arm ?secs ?f"] assms(4) by (subst timeout_stage_untouched) auto
  then show ?thesis
    using assms(1,2)
    by (simp add: run_resolved_unfold with_frame_def finally_do_def arm_def)
qed


definition budget_exhausted :: "'b rt \<Rightarrow> bool" where
  "budget_exhausted s = (case budget s of None \<Rightarrow> False | Some b \<Rightarrow> budget_remaining b \<le> 0)"

definition cap_exhausted :: "'b runtime \<Rightarrow> int \<Rightarrow> 'b rt \<Rightarrow> bool" where
  "cap_exhausted R n s =
    (case max_total_spawns (r_options R) of None \<Rightarrow> False | Some cap \<Rightarrow> spawn_count s + n > cap)"

lemma gated_depth_reject:
  "depth (pc_agent_context ctx) \<ge> max_spawn_depth (r_options R) \<Longrightarrow>
     gated_run R a task hb ctx u = (Inl (Exn DepthLimitError (pc_agent_name ctx)), u)"
  by (simp add: gated_run_def depth_limit_stage_def)

lemma gated_budget_reject:
  assumes "\<not> depth (pc_agent_context ctx) \<ge> max_spawn_depth (r_options R)"
    and "budget u = Some b" "budget_remaining b \<le> 0"
  shows "gated_run R a task True ctx u =
     (Inl (Exn BudgetExceededError (pc_agent_name ctx)),
      u\<lparr>emitted := emitted u @ [budget_exceeded_event b ctx (now u)]\<rparr>)"
  using assms by (simp add: gated_run_def depth_limit_stage_def cost_tracking_stage_def emit_def bnd_def)

lemma claim_reject:
  "cap_exhausted R 1 u \<Longrightarrow>
     claimed_dispatch R a task ctx u = (Inl (Exn SpawnCapError (pc_agent_name ctx)), u)"
  by (simp add: claimed_dispatch_def claim_stage_def claim_spawn_slot_def claim_spawn_batch_def
      cap_exhausted_def bnd_def split: option.splits)

lemma gated_cap_reject:
  assumes "\<not> depth (pc_agent_context ctx) \<ge> max_spawn_depth (r_options R)"
    and "\<not> budget_exhausted u" "cap_exhausted R 1 u"
  shows "gated_run R a task (budget u \<noteq> None) ctx u = (Inl (Exn SpawnCapError (pc_agent_name ctx)), u)"
  using assms claim_reject [OF assms(3), of a task ctx]
  by (auto simp: gated_run_def depth_limit_stage_def cost_tracking_stage_def budget_exhausted_def
      bnd_def split: option.splits)

lemma isinstance_not_timeout [simp]:
  "\<not> isinstance (Exn DepthLimitError m) PyTimeoutError"
  "\<not> isinstance (Exn BudgetExceededError m) PyTimeoutError"
  "\<not> isinstance (Exn SpawnCapError m) PyTimeoutError"
  by (simp_all add: isinstance_def issubclass_def)

lemma run_depth_reject:
  assumes "options_ok (r_options R)" "\<not> cycle_rejects R (a_name a) (current_spawn s)"
    and "depth (child_context (current_spawn s)) \<ge> max_spawn_depth (r_options R)"
  shows "run_resolved R a task s = (Inl (Exn DepthLimitError (a_name a)), s)"
  using rejected_in_pipeline [OF assms(1,2), of task "Exn DepthLimitError (a_name a)" "\<lambda>_. []"] assms(3)
  by (simp add: gated_depth_reject run_context_def)

lemma run_budget_reject:
  assumes "options_ok (r_options R)" "\<not> cycle_rejects R (a_name a) (current_spawn s)"
    and "\<not> depth (child_context (current_spawn s)) \<ge> max_spawn_depth (r_options R)"
    and "budget s = Some b" "budget_remaining b \<le> 0"
  shows "run_resolved R a task s =
    (Inl (Exn BudgetExceededError (a_name a)),
     s\<lparr>emitted := emitted s @
        [budget_exceeded_event b (run_context a task (child_context (current_spawn s))) (now s)]\<rparr>)"
  using assms by (intro rejected_in_pipeline) (simp_all add: gated_budget_reject run_context_def)

lemma run_budget_reject_event:
  assumes "options_ok (r_options R)" "\<not> cycle_rejects R (a_name a) (current_spawn s)"
    and "\<not> depth (child_context (current_spawn s)) \<ge> max_spawn_depth (r_options R)"
    and "budget_exhausted s"
  shows "\<exists>ev. event_type ev = BUDGET_EXCEEDED
     \<and> run_resolved R a task s
         = (Inl (Exn BudgetExceededError (a_name a)), s\<lparr>emitted := emitted s @ [ev]\<rparr>)"
proof -
  obtain b where "budget s = Some b" "budget_remaining b \<le> 0"
    using assms(4) by (auto simp: budget_exhausted_def split: option.splits)
  from run_budget_reject [OF assms(1-3) this] show ?thesis
    by (intro exI conjI) (simp_all add: budget_exceeded_event_def)
qed

lemma run_cap_reject:
  assumes "options_ok (r_options R)" "\<not> cycle_rejects R (a_name a) (current_spawn s)"
    and "\<not> depth (child_context (current_spawn s)) \<ge> max_spawn_depth (r_options R)"
    and "\<not> budget_exhausted s" "cap_exhausted R 1 s"
  shows "run_resolved R a task s = (Inl (Exn SpawnCapError (a_name a)), s)"
proof -
  have "run_resolved R a task s =
      (Inl (Exn SpawnCapError (a_name a)), s\<lparr>emitted := emitted s @ (\<lambda>_. []) (now s)\<rparr>)"
  proof (rule rejected_in_pipeline [OF assms(1,2)])
    fix u :: "'a rt"
    assume "budget u = budget s" "spawn_count u = spawn_count s"
    then have "\<not> budget_exhausted u" "cap_exhausted R 1 u"
      using assms(4,5)
      by (simp_all add: budget_exhausted_def cap_exhausted_def split: option.splits)
    then show "gated_run R a task (budget s \<noteq> None)
        (run_context a task (child_context (current_spawn s))) u =
        (Inl (Exn SpawnCapError (a_name a)), u\<lparr>emitted := emitted u @ (\<lambda>_. []) (now u)\<rparr>)"
      using gated_cap_reject [of R "run_context a task (child_context (current_spawn s))" u a task]
        assms(3) \<open>budget u = budget s\<close>
      by (simp add: run_context_def)
  qed simp
  then show ?thesis by simp
qed



section \<open>The lineage a backend sees\<close>

text \<open>
  A chain of spawns is well formed when no agent occurs twice on it: the frame's
  agent is not among its own ancestors and the depth counts them.
\<close>

definition frame_ok :: "spawn_frame \<Rightarrow> bool" where
  "frame_ok f = (finite (ancestors (sf_agent_context f))
     \<and> int (card (ancestors (sf_agent_context f))) = depth (sf_agent_context f)
     \<and> sf_agent_name f \<notin> ancestors (sf_agent_context f))"

definition lineage_ok :: "int \<Rightarrow> agent \<Rightarrow> agent_context \<Rightarrow> bool" where
  "lineage_ok limit a ctx = (finite (ancestors ctx) \<and> int (card (ancestors ctx)) = depth ctx
     \<and> a_name a \<notin> ancestors ctx \<and> depth ctx < limit)"

definition guard_spawn :: "(agent_context \<Rightarrow> bool) \<Rightarrow> 'b backend \<Rightarrow> 'b backend" where
  "guard_spawn P B = B\<lparr>be_spawn := (\<lambda>a t c. if P c then be_spawn B a t c
     else raise (Exn PyRuntimeError ''unexpected lineage''))\<rparr>"

lemma child_context_lineage:
  assumes "cycle_policy (r_options R) = Strict" "\<forall>f. pf = Some f \<longrightarrow> frame_ok f"
    and "\<not> cycle_rejects R (a_name a) pf" "depth (child_context pf) < limit"
  shows "lineage_ok limit a (child_context pf)"
  using assms
  by (auto simp: lineage_ok_def child_context_def cycle_rejects_def spawn_chain_def frame_ok_def
      default_context_def split: option.splits)

lemma overlay_lineage_ok: "lineage_ok l a c \<Longrightarrow> lineage_ok l a (overlay_lineage c p)"
  by (simp add: lineage_ok_def overlay_lineage_def)

lemma guarded_dispatch:
  assumes "lineage_ok l a (pc_agent_context ctx)"
  shows "dispatch_stage (R\<lparr>r_backend := guard_spawn (lineage_ok l a) (r_backend R)\<rparr>) a task ctx
       = dispatch_stage R a task ctx"
  using overlay_lineage_ok [OF assms]
  by (auto simp: dispatch_stage_def [abs_def] guard_spawn_def split: sum.splits)


section \<open>One slot per run, bounded attempts\<close>

text \<open>
  A backend whose spawns are counted by \<open>c\<close> on its own state, and which leaves the
  runtime's spawn count to the runtime.
\<close>

definition counts_spawns :: "('b \<Rightarrow> nat) \<Rightarrow> 'b backend \<Rightarrow> bool" where
  "counts_spawns c B =
    ((\<forall>a t ctx s. c (backend_st (snd (be_spawn B a t ctx s))) = Suc (c (backend_st s))
        \<and> spawn_count (snd (be_spawn B a t ctx s)) = spawn_count s)
     \<and> (\<forall>h s. c (backend_st (snd (be_result B h s))) = c (backend_st s)
        \<and> spawn_count (snd (be_result B h s)) = spawn_count s))"

definition spends :: "('b \<Rightarrow> nat) \<Rightarrow> nat \<Rightarrow> int \<Rightarrow> ('b rt, exn, 'a) eff \<Rightarrow> bool" where
  "spends c n k m = (\<forall>s. c (backend_st (snd (m s))) \<le> c (backend_st s) + n
     \<and> (c (backend_st (snd (m s))) = c (backend_st s) \<and> spawn_count (snd (m s)) = spawn_count s
        \<or> spawn_count (snd (m s)) = spawn_count s + k))"

lemma dispatch_spends:
  assumes "counts_spawns c (r_backend R)"
  shows "spends c 1 0 (dispatch_stage R a task ctx nxt)"
proof -
  have "c (backend_st (snd (dispatch_stage R a task ctx nxt s))) \<le> c (backend_st s) + 1
      \<and> spawn_count (snd (dispatch_stage R a task ctx nxt s)) = spawn_count s" for s
    using assms
    by (auto simp: counts_spawns_def dispatch_stage_def bnd_def split: sum.splits prod.splits)
      (metis eq_refl snd_conv)+
  then show ?thesis by (auto simp: spends_def)
qed

lemma retry_spends:
  assumes "spends c 1 0 m"
  shows "spends c k 0 (retry_loop bf k attempt l m)"
proof (induction k arbitrary: attempt l)
  case 0
  then show ?case by (simp add: spends_def split: option.splits)
next
  case (Suc k)
  have m: "c (backend_st (snd (m s))) \<le> Suc (c (backend_st s))"
    "spawn_count (snd (m s)) = spawn_count s" for s
    using assms by (auto simp: spends_def)
  have r: "c (backend_st (snd (retry_loop bf k n l' m s))) \<le> c (backend_st s) + k"
    "spawn_count (snd (retry_loop bf k n l' m s)) = spawn_count s" for n l' s
    using Suc.IH [of n l'] by (auto simp: spends_def)
  have b: "c (backend_st (snd (bnd (suspend d) (\<lambda>_. retry_loop bf k n l' m) s))) \<le> c (backend_st s) + k
      \<and> spawn_count (snd (bnd (suspend d) (\<lambda>_. retry_loop bf k n l' m) s)) = spawn_count s" for d n l' s
    using r [of n l' "snd (suspend d s)"] suspend_unchanged [of d s]
    by (auto simp: bnd_def split: prod.splits sum.splits)
  have "c (backend_st (snd (retry_loop bf (Suc k) attempt l m s))) \<le> c (backend_st s) + Suc k
      \<and> spawn_count (snd (retry_loop bf (Suc k) attempt l m s)) = spawn_count s" for s
  proof (cases "m s")
    case (Pair x t)
    then have t: "c (backend_st t) \<le> Suc (c (backend_st s))" "spawn_count t = spawn_count s"
      using m [of s] by simp_all
    show ?thesis
      using Pair t b [where s = t] r [where s = t]
      by (auto split: sum.splits if_splits simp del: retry_loop.simps(1) intro: order_trans)
        (metis add_Suc add_le_mono1 le_trans)+
  qed
  then show ?case by (auto simp: spends_def)
qed


lemma attempts_spend:
  assumes "counts_spawns c (r_backend R)"
  shows "spends c (max 1 (nat (retry_max_attempts (r_options R)))) 0 (dispatch_attempts R a task ctx)"
proof -
  have one: "spends c 1 0 (dispatch_stage R a task ctx pipeline_terminal)"
    by (rule dispatch_spends [OF assms])
  have "spends c n k m \<Longrightarrow> n \<le> n' \<Longrightarrow> spends c n' k m" for n n' k and m :: "('a rt, exn, agent_result) eff"
    unfolding spends_def by (meson add_left_mono order_trans)
  then show ?thesis
    using one retry_spends [OF one] by (auto simp: dispatch_attempts_def Let_def)
qed

lemma claimed_spends:
  assumes "counts_spawns c (r_backend R)"
  shows "spends c (max 1 (nat (retry_max_attempts (r_options R)))) 1 (claimed_dispatch R a task ctx)"
proof -
  have "(\<exists>e. claimed_dispatch R a task ctx s = (Inl e, s)) \<or>
      claimed_dispatch R a task ctx s = dispatch_attempts R a task ctx (s\<lparr>spawn_count := spawn_count s + 1\<rparr>)" for s
    by (auto simp: claimed_dispatch_def claim_stage_def claim_spawn_slot_def claim_spawn_batch_def
        bnd_def split: option.splits)
  then have "snd (claimed_dispatch R a task ctx s) = s \<or> snd (claimed_dispatch R a task ctx s)
      = snd (dispatch_attempts R a task ctx (s\<lparr>spawn_count := spawn_count s + 1\<rparr>))" for s
    by (metis snd_conv)
  then have either: "snd (claimed_dispatch R a task ctx s) = s \<or> snd (claimed_dispatch R a task ctx s)
      = snd (dispatch_attempts R a task ctx (s\<lparr>spawn_count := spawn_count s + 1\<rparr>))" for s .
  have inner: "c (backend_st (snd (dispatch_attempts R a task ctx u)))
        \<le> c (backend_st u) + max 1 (nat (retry_max_attempts (r_options R)))
      \<and> spawn_count (snd (dispatch_attempts R a task ctx u)) = spawn_count u" for u
    using attempts_spend [OF assms, of a task ctx] by (auto simp: spends_def)
  show ?thesis unfolding spends_def
  proof
    fix s
    show "c (backend_st (snd (claimed_dispatch R a task ctx s)))
          \<le> c (backend_st s) + max 1 (nat (retry_max_attempts (r_options R)))
      \<and> (c (backend_st (snd (claimed_dispatch R a task ctx s))) = c (backend_st s)
          \<and> spawn_count (snd (claimed_dispatch R a task ctx s)) = spawn_count s
        \<or> spawn_count (snd (claimed_dispatch R a task ctx s)) = spawn_count s + 1)"
      using either [of s] inner [of "s\<lparr>spawn_count := spawn_count s + 1\<rparr>"] by auto
  qed
qed

lemma spends_cost_tracking:
  assumes "spends c n k (nxt ctx)"
  shows "spends c n k (cost_tracking_stage ctx nxt)"
proof -
  have "backend_st (snd (cost_tracking_stage ctx nxt s)) = backend_st (snd (nxt ctx s))
      \<and> spawn_count (snd (cost_tracking_stage ctx nxt s)) = spawn_count (snd (nxt ctx s))
    \<or> backend_st (snd (cost_tracking_stage ctx nxt s)) = backend_st s
      \<and> spawn_count (snd (cost_tracking_stage ctx nxt s)) = spawn_count s" for s
    by (auto simp: cost_tracking_stage_def bnd_def charge_def emit_def split: option.splits prod.splits sum.splits)
  then show ?thesis using assms unfolding spends_def by (metis le_add1)
qed

lemma gated_spends:
  assumes "counts_spawns c (r_backend R)"
  shows "spends c (max 1 (nat (retry_max_attempts (r_options R)))) 1 (gated_run R a task hb ctx)"
  using claimed_spends [OF assms] spends_cost_tracking [OF claimed_spends [OF assms]]
  by (auto simp: gated_run_def depth_limit_stage_def spends_def)

text \<open>
  C4. Whatever the backend answers and however often the run is retried, one \<open>run\<close>
  dispatches to the backend at most \<open>retry_max_attempts\<close> times (once when retry is
  off) and, if it dispatched at all, costs exactly one slot of the spawn cap.
\<close>

theorem one_slot_per_run:
  assumes "options_ok (r_options R)" "counts_spawns c (r_backend R)"
  shows "let t = snd (run_resolved R a task s) in
     c (backend_st t) \<le> c (backend_st s) + max 1 (nat (retry_max_attempts (r_options R)))
   \<and> (c (backend_st t) \<noteq> c (backend_st s) \<longrightarrow> spawn_count t = spawn_count s + 1)
   \<and> spawn_count t \<in> {spawn_count s, spawn_count s + 1}"
proof (cases "cycle_rejects R (a_name a) (current_spawn s)")
  case True
  then show ?thesis by (simp add: run_resolved_def)
next
  case False
  let ?ctx = "run_context a task (child_context (current_spawn s))"
  let ?f = "s\<lparr>current_spawn := Some (own_frame a task (child_context (current_spawn s)))\<rparr>"
  obtain u where u: "snd (timeout_stage (timeout_seconds (r_options R)) ?ctx
      (gated_run R a task (budget s \<noteq> None)) ?f)
      = (snd (gated_run R a task (budget s \<noteq> None) ?ctx (arm (timeout_seconds (r_options R)) ?f)))\<lparr>cancel_at := u\<rparr>"
    using snd_timeout_stage by blast
  from gated_spends [OF assms(2), of a task "budget s \<noteq> None" ?ctx] show ?thesis
    unfolding run_resolved_unfold [where R = R, OF assms(1) False] snd_with_frame u
    by (auto simp: spends_def Let_def dest!: spec [of _ "arm (timeout_seconds (r_options R)) ?f"])
qed

section \<open>Sample runtime for the concrete instances\<close>

definition sample_task :: task_spec where
  "sample_task = \<lparr> ts_id = ''t1'', ts_request_id = ''req1'', ts_input = ''hi'', ts_metadata = [] \<rparr>"

definition sample_result :: "string \<Rightarrow> string \<Rightarrow> int \<Rightarrow> agent_result" where
  "sample_result n t k = \<lparr> ar_output = Some (VModel ''Out'' []), ar_error = None,
     ar_metadata = default_metadata\<lparr>tokens_used := k\<rparr>, ar_agent_name = n, ar_task_id = t \<rparr>"

text \<open>A backend whose first spawn fails and whose later ones succeed, counted by a number.\<close>

definition flaky_backend :: "nat backend" where
  "flaky_backend = \<lparr> be_name = ''flaky'',
     be_spawn = (\<lambda>a t ctx s.
       (if backend_st s = 0 then Inl (Exn SpawnError ''first'')
        else Inr \<lparr> handle_id = ''h'', ah_agent_name = a_name a, ah_task_id = ts_id t, ah_backend = ''flaky'' \<rparr>,
        s\<lparr>backend_st := Suc (backend_st s)\<rparr>)),
     be_result = (\<lambda>h. ret (sample_result (ah_agent_name h) (ah_task_id h) 7)),
     be_gather = None \<rparr>"

definition sample_agent :: "string \<Rightarrow> agent" where
  "sample_agent n = mcp_sample_agent\<lparr>a_name := n, mcp_servers := []\<rparr>"

definition sample_runtime :: "runtime_options \<Rightarrow> nat runtime" where
  "sample_runtime opts = \<lparr> r_options = opts, r_registry = None, r_backend = flaky_backend,
     r_id = ''rt'', r_user_passer = (\<lambda>n c t. Inr c), r_mcp_start = (\<lambda>cs p. None) \<rparr>"

definition sample_state :: "nat \<Rightarrow> nat rt" where
  "sample_state k = \<lparr> now = 0, cancel_at = None, budget = None, spawn_count = 0,
     current_spawn = None, emitted = [], mcp = mcp_init, backend_st = k \<rparr>"

lemma sample_options_ok: "options_ok default_options"
  by (simp add: options_ok_def default_options_def)

lemma flaky_counts: "counts_spawns (\<lambda>n. n) flaky_backend"
  by (simp add: counts_spawns_def flaky_backend_def)

lemma one_slot_per_run_witness:
  "options_ok (default_options\<lparr>retry_max_attempts := 3\<rparr>)
   \<and> spawn_count (snd (run_resolved (sample_runtime (default_options\<lparr>retry_max_attempts := 3\<rparr>))
        (sample_agent ''a'') sample_task (sample_state 0))) \<in> {0, 1}"
proof -
  let ?o = "default_options\<lparr>retry_max_attempts := 3\<rparr>"
  have ok: "options_ok ?o" by (simp add: options_ok_def default_options_def)
  have "options_ok (r_options (sample_runtime ?o))"
    "counts_spawns (\<lambda>n. n) (r_backend (sample_runtime ?o))"
    using ok flaky_counts by (simp_all add: sample_runtime_def)
  from one_slot_per_run [OF this, of "sample_agent ''a''" sample_task "sample_state 0"] ok
  show ?thesis by (simp add: Let_def sample_state_def)
qed



end
