(* ===== verification/Runtime_Invariants.thy ===== *)
theory Runtime_Invariants
  imports Runtime_Safety
begin

text \<open>
  The contract between a runtime and its backend, as a locale: an invariant of the
  shared state that the backend's operations, a claim and the bookkeeping keep is
  kept by every \<open>run\<close> and every \<open>gather\<close>, on every path including the error ones.
\<close>

definition stage_keeps :: "('s \<Rightarrow> bool) \<Rightarrow> ('s, 'a) stage \<Rightarrow> bool" where
  "stage_keeps P st = (\<forall>ctx nxt. (\<forall>c. keeps P (nxt c)) \<longrightarrow> keeps P (st ctx nxt))"

lemma build_chain_keeps:
  "(\<And>st. st \<in> set stages \<Longrightarrow> stage_keeps P st) \<Longrightarrow> keeps P (build_chain stages ctx)"
proof (induction stages arbitrary: ctx)
  case Nil
  then show ?case by (simp add: pipeline_terminal_def)
next
  case (Cons st stages)
  then have "keeps P (build_chain stages c)" for c by simp
  then show ?case using Cons.prems by (simp add: stage_keeps_def)
qed

locale runtime_invariant =
  fixes R :: "'b runtime" and P :: "'b rt \<Rightarrow> bool"
  assumes spawn_keeps: "keeps P (be_spawn (r_backend R) a t ctx)"
    and result_keeps: "keeps P (be_result (r_backend R) h)"
    and gather_keeps: "be_gather (r_backend R) = Some g \<Longrightarrow> keeps P (g a ts ctx mc)"
    and claim_keeps: "keeps P (claim_spawn_batch R n k)"
    and charge_keeps: "k > 0 \<Longrightarrow> P s \<Longrightarrow> P (charge k s)"
    and bookkeeping: "P s \<Longrightarrow>
      P (s\<lparr>now := tm, cancel_at := ca, current_spawn := f, emitted := es, mcp := m\<rparr>)"
begin

lemma field_updates:
  assumes "P s"
  shows "P (s\<lparr>now := t\<rparr>)" "P (s\<lparr>cancel_at := c\<rparr>)" "P (s\<lparr>current_spawn := f\<rparr>)"
    "P (s\<lparr>emitted := es\<rparr>)" "P (s\<lparr>mcp := m\<rparr>)" "P (s\<lparr>now := t, cancel_at := c\<rparr>)"
  using bookkeeping [OF assms, where tm = t and ca = "cancel_at s" and f = "current_spawn s" and es = "emitted s" and m = "mcp s"]
    bookkeeping [OF assms, where tm = "now s" and ca = c and f = "current_spawn s" and es = "emitted s" and m = "mcp s"]
    bookkeeping [OF assms, where tm = "now s" and ca = "cancel_at s" and f = f and es = "emitted s" and m = "mcp s"]
    bookkeeping [OF assms, where tm = "now s" and ca = "cancel_at s" and f = "current_spawn s" and es = es and m = "mcp s"]
    bookkeeping [OF assms, where tm = "now s" and ca = "cancel_at s" and f = "current_spawn s" and es = "emitted s" and m = m]
    bookkeeping [OF assms, where tm = t and ca = c and f = "current_spawn s" and es = "emitted s" and m = "mcp s"]
  by simp_all

lemma emit_keeps: "keeps P (emit e)"
  by (simp add: emit_def keeps_modify field_updates)

lemma emit_now_keeps: "keeps P (\<lambda>s. emit (f s) s)"
  by (simp add: keeps_def emit_def field_updates)

lemma suspend_keeps: "keeps P (suspend d)"
  by (auto simp: keeps_def suspend_def field_updates split: option.splits)

lemma arm_keeps: "P s \<Longrightarrow> P (arm secs s)"
  by (simp add: arm_def field_updates)

lemma with_timeout_keeps: "keeps P m \<Longrightarrow> keeps P (with_timeout secs m)"
proof (rule keepsI)
  fix s assume "keeps P m" "P s"
  then have "P (snd (m (arm secs s)))" by (simp add: keeps_def arm_keeps)
  then show "P (snd (with_timeout secs m s))"
    using snd_with_timeout [of secs m s] by (auto simp: field_updates)
qed

lemma with_frame_keeps: "keeps P m \<Longrightarrow> keeps P (with_frame f m)"
  by (simp add: keeps_def field_updates)

lemma retry_loop_keeps: "keeps P m \<Longrightarrow> keeps P (retry_loop bf k n l m)"
proof (induction k arbitrary: n l)
  case 0
  then show ?case by (simp add: keeps_def split: option.splits)
next
  case (Suc k)
  have again: "keeps P (bnd (suspend d) (\<lambda>_. retry_loop bf k i l' m))"
    "keeps P (retry_loop bf k i l' m)" for d i l'
    using Suc suspend_keeps by auto
  show ?case
  proof (rule keepsI)
    fix s assume "P s"
    show "P (snd (retry_loop bf (Suc k) n l m s))"
    proof (cases "m s")
      case (Pair r t)
      have "P t" using keepsD [OF Suc.prems \<open>P s\<close> Pair] .
      then show ?thesis using Pair again
        by (simp add: keeps_def split: sum.splits)
    qed
  qed
qed

lemma map_timeout_keeps:
  "keeps P m \<Longrightarrow> keeps P (\<lambda>s. case with_timeout secs m s of (r, t) \<Rightarrow> (f r, t))"
  using with_timeout_keeps [of m secs] by (auto simp: keeps_def split: prod.splits)

lemma stages_keep:
  "stage_keeps P (timeout_stage secs)" "stage_keeps P (depth_limit_stage md)"
  "stage_keeps P (claim_stage R)" "stage_keeps P (retry_stage n bf)"
  "stage_keeps P (dispatch_stage R a task)"
proof -
  show "stage_keeps P (timeout_stage secs)"
    by (simp add: stage_keeps_def timeout_stage_def [abs_def] map_timeout_keeps)
  show "stage_keeps P (depth_limit_stage md)"
    by (simp add: stage_keeps_def depth_limit_stage_def)
  show "stage_keeps P (claim_stage R)"
    using claim_keeps by (auto simp: stage_keeps_def claim_stage_def claim_spawn_slot_def)
  show "stage_keeps P (retry_stage n bf)"
    by (simp add: stage_keeps_def retry_stage_def retry_loop_keeps)
  show "stage_keeps P (dispatch_stage R a task)"
    using spawn_keeps result_keeps
    by (auto simp: stage_keeps_def dispatch_stage_def split: sum.splits)
qed

lemma cost_stage_keeps: "stage_keeps P cost_tracking_stage"
  unfolding stage_keeps_def
proof (intro allI impI keepsI)
  fix ctx :: pipeline_context and nxt :: "('b rt, agent_result) next_stage" and s
  assume "\<forall>c. keeps P (nxt c)" "P s"
  then have nxt: "P (snd (nxt ctx s))" by (simp add: keeps_def)
  show "P (snd (cost_tracking_stage ctx nxt s))"
  proof (cases "nxt ctx s")
    case (Pair r t)
    then show ?thesis using nxt \<open>P s\<close> charge_keeps
      by (cases r) (auto simp: cost_tracking_stage_def emit_def bnd_def field_updates split: option.splits)
  qed
qed

lemma run_stages_keep:
  assumes "run_stages R a task hb = Inr stages" "st \<in> set stages"
  shows "stage_keeps P st"
  using assms stages_keep cost_stage_keeps
  by (auto simp: run_stages_def retry_init_def timeout_init_def depth_limit_init_def
      pipeline_init_def Let_def split: if_splits)

lemma run_resolved_keeps: "keeps P (run_resolved R a task)"
proof (rule keepsI)
  fix s assume "P s"
  show "P (snd (run_resolved R a task s))"
  proof (cases "run_stages R a task (budget s \<noteq> None)")
    case (Inl e)
    then show ?thesis using \<open>P s\<close> by (simp add: run_resolved_def Let_def)
  next
    case (Inr stages)
    have "keeps P (pipeline_run stages ctx)" for ctx
      using build_chain_keeps run_stages_keep [OF Inr] by (metis pipeline_run_def)
    then show ?thesis
      using Inr \<open>P s\<close> keepsD [OF with_frame_keeps]
      by (simp add: run_resolved_def Let_def keeps_def field_updates)
  qed
qed

lemma resolve_keeps: "keeps P (resolve_agent R ref)"
  by (auto simp: keeps_def resolve_agent_def field_updates split: sum.splits)

lemma warm_keeps: "keeps P (warm_providers R a)"
  by (auto simp: keeps_def warm_providers_def on_mcp_def field_updates split: prod.splits)

lemma run_keeps: "keeps P (run R ref task)"
  unfolding run_def by (intro keeps_bnd resolve_keeps warm_keeps run_resolved_keeps)

lemma fallback_keeps: "keeps P (fallback_gather R a tasks)"
proof (induction tasks)
  case Nil
  then show ?case by (simp add: keeps_def)
next
  case (Cons t ts)
  then have rest: "keeps P (bnd (fallback_gather R a ts) (\<lambda>rs. ret (f rs)))" for f :: "agent_result list \<Rightarrow> agent_result list"
    by auto
  show ?case
  proof (rule keepsI)
    fix s assume "P s"
    show "P (snd (fallback_gather R a (t # ts) s))"
    proof (cases "run R (ByAgent a) t s")
      case (Pair r u)
      have "P u" using keepsD [OF run_keeps \<open>P s\<close> Pair] .
      then show ?thesis using Pair rest by (auto simp: keeps_def split: sum.splits)
    qed
  qed
qed

lemma settle_keeps: "keeps P (gather_settle R a tasks ctx native ff rs)"
proof -
  have "native \<and> batch_tokens rs > 0 \<Longrightarrow> keeps P (modify (charge (batch_tokens rs)))"
    using charge_keeps by (simp add: keeps_modify)
  then show ?thesis
    unfolding gather_settle_def by (auto intro!: keeps_bnd emit_now_keeps split: option.splits)
qed

lemma dispatch_keeps: "keeps P (gather_dispatch R a tasks mc ctx)"
proof -
  let ?m = "case be_gather (r_backend R) of Some g \<Rightarrow> g a tasks ctx mc | None \<Rightarrow> fallback_gather R a tasks"
  have "keeps P ?m" using gather_keeps fallback_keeps by (auto split: option.splits)
  then have "keeps P (with_timeout (timeout_seconds (r_options R)) ?m)" by (rule with_timeout_keeps)
  then show ?thesis by (auto simp: keeps_def gather_dispatch_def split: prod.splits)
qed

lemma admitted_keeps: "keeps P (gather_admitted R a tasks mc ff ctx)"
  unfolding gather_admitted_def Let_def
  by (auto intro!: keeps_bnd emit_now_keeps claim_keeps dispatch_keeps settle_keeps)

lemma gather_resolved_keeps: "keeps P (gather_resolved R a tasks mc ff)"
proof (rule keepsI)
  fix s assume "P s"
  then show "P (snd (gather_resolved R a tasks mc ff s))"
    using admitted_keeps
    by (auto simp: gather_resolved_def Let_def keeps_def emit_def bnd_def field_updates split: option.splits)
qed

lemma batch_keeps: "keeps P (gather R ref tasks mc ff)"
  unfolding gather_def
  by (auto intro!: keeps_bnd resolve_keeps warm_keeps gather_resolved_keeps)

end

section \<open>The spawn cap\<close>

definition cap_inv :: "runtime_options \<Rightarrow> 'b rt \<Rightarrow> bool" where
  "cap_inv opts s =
    (case max_total_spawns opts of None \<Rightarrow> True | Some cap \<Rightarrow> spawn_count s \<le> cap)"

lemma cap_inv_updates:
  "cap_inv opts s \<Longrightarrow>
     cap_inv opts (s\<lparr>now := tm, cancel_at := ca, current_spawn := f, emitted := es, mcp := m\<rparr>)"
  by (simp add: cap_inv_def split: option.splits)

lemma cap_inv_charge: "cap_inv opts s \<Longrightarrow> cap_inv opts (charge k s)"
  by (simp add: cap_inv_def charge_def split: option.splits)

lemma cap_inv_claim: "keeps (cap_inv (r_options R)) (claim_spawn_batch R n k)"
  by (auto simp: keeps_def cap_inv_def claim_spawn_batch_def split: option.splits)

lemma claim_all_or_nothing:
  "claim_spawn_batch R n k s =
     (if k < 0 then (Inl (Exn SpecValidationError ''count must be >= 0''), s)
      else if k = 0 then (Inr (), s)
      else if cap_exhausted R k s then (Inl (Exn SpawnCapError n), s)
      else (Inr (), s\<lparr>spawn_count := spawn_count s + k\<rparr>))"
  by (simp add: claim_spawn_batch_def cap_exhausted_def split: option.splits)

end
