(* ===== verification/Async_Backend.thy ===== *)
theory Async_Backend
  imports Tools Runtime_Invariants
begin

text \<open>
  \<open>backends/async_backend.py\<close>: one asyncio task per spawn, awaited by \<open>result\<close>; status,
  kill and the batch path.  What PydanticAI does with the assembled agent (the
  model calls and the tool loop) is an effect on the runtime's state, an argument of
  the model, and so are JSON parsing and printing and the user's hooks.  A spawned
  task runs when it is first awaited; the batch pool takes its queue in order here,
  and every interleaving of its workers is the subject of the last section.
\<close>

section \<open>State and environment\<close>

datatype task_state =
    Created agent task_spec agent_context
  | Done "exn + agent_result"

record async_state =
  as_next :: nat
  as_tasks :: "(nat, task_state) dict"
  as_killed :: "nat set"

record usage =
  total_tokens :: "int option"
  input_tokens :: int
  output_tokens :: int

record llm_result =
  lr_output :: pyval
  lr_usage :: "usage option"

record 'b async_env =
  env_parse :: "string \<Rightarrow> string \<Rightarrow> exn + pyval"
  env_dump :: "pyval \<Rightarrow> string"
  env_hook :: "string \<Rightarrow> pyval \<Rightarrow> exn + pyval"
  env_model_name :: "string \<Rightarrow> string option \<times> string option \<times> string"
  env_registered :: "string set"
  env_allow :: "string \<Rightarrow> string set option"
  env_discover :: "string \<Rightarrow> exn + string set"
  env_llm :: "pa_agent \<Rightarrow> string \<Rightarrow> ('b rt, exn, llm_result) eff"

definition backend_name :: string where
  "backend_name = ''thread''"

text \<open>Handles are uuids in the code; here a counter, printed in unary.\<close>

definition handle_key :: "agent_handle \<Rightarrow> nat" where
  "handle_key h = length (handle_id h)"

definition fresh_handle :: "nat \<Rightarrow> agent \<Rightarrow> task_spec \<Rightarrow> agent_handle" where
  "fresh_handle n a t = \<lparr> handle_id = replicate n CHR ''h'', ah_agent_name = a_name a,
     ah_task_id = ts_id t, ah_backend = backend_name \<rparr>"

section \<open>Hooks and telemetry helpers\<close>

fun apply_hooks ::
  "(string \<Rightarrow> pyval \<Rightarrow> exn + pyval) \<Rightarrow> string list \<Rightarrow> pyval \<Rightarrow> exn + pyval" where
  "apply_hooks hook [] v = Inr v"
| "apply_hooks hook (h # hs) v = (case hook h v of Inl e \<Rightarrow> Inl e | Inr w \<Rightarrow> apply_hooks hook hs w)"

text \<open>The prompt: a string stays, a model is dumped to JSON, anything else is printed.\<close>

definition prompt_of :: "'b async_env \<Rightarrow> pyval \<Rightarrow> string" where
  "prompt_of E v = (case v of VStr s \<Rightarrow> s | w \<Rightarrow> env_dump E w)"

definition apply_pre_hooks :: "'b async_env \<Rightarrow> agent \<Rightarrow> task_spec \<Rightarrow> exn + string" where
  "apply_pre_hooks E a t =
    (case (case input_type a of
             Some ty \<Rightarrow> env_parse E ty (ts_input t)
           | None \<Rightarrow> Inr (VStr (ts_input t))) of
       Inl e \<Rightarrow> Inl e
     | Inr v \<Rightarrow>
        (case apply_hooks (env_hook E) (pre_process a) v of
           Inl e \<Rightarrow> Inl e
         | Inr w \<Rightarrow> Inr (prompt_of E w)))"

definition apply_post_hooks :: "'b async_env \<Rightarrow> agent \<Rightarrow> pyval \<Rightarrow> exn + pyval" where
  "apply_post_hooks E a v = apply_hooks (env_hook E) (post_process a) v"

definition resolve_model_name ::
  "(string \<Rightarrow> string option \<times> string option \<times> string) \<Rightarrow> model_spec \<Rightarrow> string" where
  "resolve_model_name attrs m =
    (case m of
       ModelName s \<Rightarrow> s
     | ModelInstance i \<Rightarrow>
        (case attrs i of (system, name, cls) \<Rightarrow>
          (case name of
             Some n \<Rightarrow> (if n = [] then cls
                else case system of
                  Some sys \<Rightarrow> if sys = [] then n else sys @ '':'' @ n
                | None \<Rightarrow> n)
           | None \<Rightarrow> cls)))"

definition extract_tokens :: "llm_result \<Rightarrow> int" where
  "extract_tokens r =
    (case lr_usage r of
       None \<Rightarrow> 0
     | Some u \<Rightarrow>
        (case total_tokens u of
           Some t \<Rightarrow> t
         | None \<Rightarrow> input_tokens u + output_tokens u))"

section \<open>Executing one agent\<close>

definition agent_event ::
  "event_type \<Rightarrow> agent \<Rightarrow> task_spec \<Rightarrow> agent_context \<Rightarrow> rat \<Rightarrow> (string, pyval) dict \<Rightarrow> runtime_event" where
  "agent_event ty a t ctx tm pl =
    \<lparr> event_type = ty, timestamp = tm, ev_agent_name = a_name a, ev_task_id = Some (ts_id t),
      ev_trace_id = ts_request_id t, ev_parent_trace_id = parent_trace_id ctx, payload = pl \<rparr>"

definition wrap_spawn_error :: "agent \<Rightarrow> exn \<Rightarrow> exn" where
  "wrap_spawn_error a e =
    (if isinstance e SpawnError then e else Exn SpawnError (a_name a @ '' failed: '' @ exn_msg e))"

definition lift_sum :: "exn + 'a \<Rightarrow> ('s, exn, 'a) eff" where
  "lift_sum r s = (r, s)"

definition execute_body ::
  "'b async_env \<Rightarrow> agent \<Rightarrow> task_spec \<Rightarrow> agent_context \<Rightarrow> rat \<Rightarrow> ('b rt, exn, agent_result) eff" where
  "execute_body E a t ctx started =
    bnd (lift_sum (apply_pre_hooks E a t)) (\<lambda>prompt.
    bnd (lift_sum (build_pydantic_ai_agent a (a_tools a) (env_registered E) (ts_id t)
                     (env_allow E) (env_discover E))) (\<lambda>pa.
    bnd (env_llm E pa prompt) (\<lambda>res.
    bnd (lift_sum (apply_post_hooks E a (lr_output res))) (\<lambda>out.
    bnd (gets now) (\<lambda>tm.
    let ms = \<lfloor>(tm - started) * 1000\<rfloor>; tokens = extract_tokens res in
    bnd (emit (agent_event AGENT_COMPLETED a t ctx tm
           [(''duration_ms'', VInt ms), (''tokens_used'', VInt tokens),
            (''backend'', VStr backend_name),
            (''model'', VStr (resolve_model_name (env_model_name E) (a_model a)))]))
      (\<lambda>_. ret \<lparr> ar_output = Some out, ar_error = None,
               ar_metadata = default_metadata\<lparr>duration_ms := ms, tokens_used := tokens,
                                              rm_backend := backend_name\<rparr>,
               ar_agent_name = a_name a, ar_task_id = ts_id t \<rparr>))))))"

definition execute_failed ::
  "agent \<Rightarrow> task_spec \<Rightarrow> agent_context \<Rightarrow> rat \<Rightarrow> exn \<Rightarrow> ('b rt, exn, agent_result) eff" where
  "execute_failed a t ctx started e =
    bnd (gets now) (\<lambda>tm.
    let ms = \<lfloor>(tm - started) * 1000\<rfloor>; wrapped = wrap_spawn_error a e in
    bnd (emit (agent_event AGENT_FAILED a t ctx tm
           [(''duration_ms'', VInt ms), (''error'', VStr (exn_msg wrapped)),
            (''backend'', VStr backend_name)]))
      (\<lambda>_. ret \<lparr> ar_output = None, ar_error = Some wrapped,
               ar_metadata = default_metadata\<lparr>duration_ms := ms, rm_backend := backend_name\<rparr>,
               ar_agent_name = a_name a, ar_task_id = ts_id t \<rparr>))"

definition execute_agent ::
  "'b async_env \<Rightarrow> agent \<Rightarrow> task_spec \<Rightarrow> agent_context \<Rightarrow> ('b rt, exn, agent_result) eff" where
  "execute_agent E a t ctx s =
    with_frame (Some (own_frame a t ctx))
      (\<lambda>u. case execute_body E a t ctx (now u) u of
         (Inr r, v) \<Rightarrow> (Inr r, v)
       | (Inl e, v) \<Rightarrow>
           if isinstance e PyException then execute_failed a t ctx (now u) e v else (Inl e, v)) s"

section \<open>The backend's operations\<close>

definition as_put :: "nat \<Rightarrow> task_state \<Rightarrow> async_state rt \<Rightarrow> async_state rt" where
  "as_put k ts s =
    s\<lparr>backend_st := (backend_st s)\<lparr>as_tasks := dset k ts (as_tasks (backend_st s))\<rparr>\<rparr>"

definition async_spawn ::
  "agent \<Rightarrow> task_spec \<Rightarrow> agent_context \<Rightarrow> (async_state rt, exn, agent_handle) eff" where
  "async_spawn a t ctx s =
    (let s1 = snd (emit (agent_event AGENT_SPAWNED a t ctx (now s)
             [(''backend'', VStr backend_name),
              (''trust_level'', VStr (trust_value (trust_level a)))]) s);
         k = as_next (backend_st s1);
         s2 = s1\<lparr>backend_st := (backend_st s1)\<lparr>as_next := Suc k\<rparr>\<rparr>
     in (Inr (fresh_handle k a t), as_put k (Created a t ctx) s2))"

definition killed_result :: "agent_handle \<Rightarrow> agent_result" where
  "killed_result h =
    \<lparr> ar_output = None, ar_error = Some (Exn SpawnError (ah_agent_name h @ '' was killed'')),
      ar_metadata = default_metadata\<lparr>rm_backend := backend_name\<rparr>,
      ar_agent_name = ah_agent_name h, ar_task_id = ah_task_id h \<rparr>"

definition swallow_cancelled :: "agent_handle \<Rightarrow> exn + agent_result \<Rightarrow> exn + agent_result" where
  "swallow_cancelled h r =
    (case r of
       Inl e \<Rightarrow> if isinstance e PyCancelledError then Inr (killed_result h) else Inl e
     | Inr x \<Rightarrow> Inr x)"

definition async_result ::
  "async_state async_env \<Rightarrow> agent_handle \<Rightarrow> (async_state rt, exn, agent_result) eff" where
  "async_result E h s =
    (case dget (as_tasks (backend_st s)) (handle_key h) of
       None \<Rightarrow> (Inl (Exn SpawnError ''unknown handle''), s)
     | Some (Done r) \<Rightarrow> (swallow_cancelled h r, s)
     | Some (Created a t ctx) \<Rightarrow>
        (case execute_agent E a t ctx s of
           (r, u) \<Rightarrow> (swallow_cancelled h r, as_put (handle_key h) (Done r) u)))"

datatype backend_status = RUNNING | COMPLETED | FAILED | KILLED

definition async_status :: "agent_handle \<Rightarrow> (async_state rt, exn, backend_status) eff" where
  "async_status h s =
    (if handle_key h \<in> as_killed (backend_st s) then (Inr KILLED, s)
     else case dget (as_tasks (backend_st s)) (handle_key h) of
       None \<Rightarrow> (Inl (Exn SpawnError ''unknown handle''), s)
     | Some (Created a t ctx) \<Rightarrow> (Inr RUNNING, s)
     | Some (Done (Inl e)) \<Rightarrow> (Inr (if isinstance e PyCancelledError then KILLED else FAILED), s)
     | Some (Done (Inr r)) \<Rightarrow> (Inr (if is_ok r then COMPLETED else FAILED), s))"

definition async_kill :: "agent_handle \<Rightarrow> (async_state rt, exn, unit) eff" where
  "async_kill h s =
    (let k = handle_key h;
         s1 = s\<lparr>backend_st := (backend_st s)\<lparr>as_killed := insert k (as_killed (backend_st s))\<rparr>\<rparr>
     in case dget (as_tasks (backend_st s)) k of
          Some (Created a t ctx) \<Rightarrow> (Inr (), as_put k (Done (Inl (Exn PyCancelledError ''''))) s1)
        | _ \<Rightarrow> (Inr (), s1))"

text \<open>
  One turn of a pool worker, and the queue taken in order.  Awaiting the workers
  re-raises a cancellation that was delivered meanwhile, after all of them ended.
\<close>

definition pool_slot ::
  "(string \<Rightarrow> agent_context \<Rightarrow> task_spec \<Rightarrow> exn + agent_context) \<Rightarrow> async_state async_env
     \<Rightarrow> agent \<Rightarrow> agent_context \<Rightarrow> task_spec \<Rightarrow> (async_state rt, exn, agent_result) eff" where
  "pool_slot user E a base t s =
    (case (case prepare_context user (a_context_passer a) base t of
             Inl e \<Rightarrow> raise e
           | Inr ctx \<Rightarrow> bnd (async_spawn a t (overlay_lineage base ctx)) (async_result E)) s of
       (Inr r, u) \<Rightarrow> (Inr r, u)
     | (Inl e, u) \<Rightarrow>
         if isinstance e PyException
         then (Inr \<lparr> ar_output = None,
                     ar_error = Some (Exn SpawnError (a_name a @ '' failed: '' @ exn_msg e)),
                     ar_metadata = default_metadata\<lparr>rm_backend := backend_name\<rparr>,
                     ar_agent_name = a_name a, ar_task_id = ts_id t \<rparr>, u)
         else (Inl e, u))"

fun pool_run ::
  "(string \<Rightarrow> agent_context \<Rightarrow> task_spec \<Rightarrow> exn + agent_context) \<Rightarrow> async_state async_env
     \<Rightarrow> agent \<Rightarrow> agent_context \<Rightarrow> task_spec list \<Rightarrow> (async_state rt, exn, agent_result list) eff" where
  "pool_run user E a base [] s = (Inr [], s)"
| "pool_run user E a base (t # ts) s =
    bnd (pool_slot user E a base t) (\<lambda>r. bnd (pool_run user E a base ts) (\<lambda>rs. ret (r # rs))) s"

definition async_gather ::
  "(string \<Rightarrow> agent_context \<Rightarrow> task_spec \<Rightarrow> exn + agent_context) \<Rightarrow> async_state async_env
     \<Rightarrow> agent \<Rightarrow> task_spec list \<Rightarrow> agent_context \<Rightarrow> int \<Rightarrow> (async_state rt, exn, agent_result list) eff" where
  "async_gather user E a tasks base mc s =
    (if tasks = [] then (Inr [], s)
     else case pool_run user E a base tasks s of
       (r, u) \<Rightarrow>
         if cancel_at s \<noteq> None \<and> cancel_at u = None then (Inl (Exn PyCancelledError ''''), u)
         else (r, u))"

definition async_backend ::
  "(string \<Rightarrow> agent_context \<Rightarrow> task_spec \<Rightarrow> exn + agent_context) \<Rightarrow> async_state async_env
     \<Rightarrow> async_state backend" where
  "async_backend user E =
    \<lparr> be_name = ''AsyncBackend'', be_spawn = async_spawn, be_result = async_result E,
      be_gather = Some (async_gather user E) \<rparr>"

end
