(* ===== verification/Async_Pool.thy ===== *)
theory Async_Pool
  imports Async_Backend "HOL-Library.Multiset"
begin

text \<open>
  The worker pool of \<open>AsyncBackend.gather\<close> as a transition system: the queue of slot
  indices, the workers and the result dict.  A step is one worker taking the next
  index, delivering a slot's result, or leaving on an empty queue; asyncio may
  interleave them in any way.
\<close>

datatype pool_worker = Idle | Busy nat | Stopped

record pool_state =
  p_queue :: "nat list"
  p_workers :: "pool_worker list"
  p_results :: "(nat, agent_result) dict"

definition pool_size :: "int \<Rightarrow> nat \<Rightarrow> nat" where
  "pool_size mc n = min (nat (max mc 1)) n"

definition pool_init :: "int \<Rightarrow> nat \<Rightarrow> pool_state" where
  "pool_init mc n = \<lparr> p_queue = [0..<n], p_workers = replicate (pool_size mc n) Idle, p_results = [] \<rparr>"

text \<open>\<open>outcome k r\<close>: \<open>r\<close> is a result the worker may compute for slot \<open>k\<close>.\<close>

inductive pool_step :: "(nat \<Rightarrow> agent_result \<Rightarrow> bool) \<Rightarrow> pool_state \<Rightarrow> pool_state \<Rightarrow> bool"
  for outcome where
  pool_take: "i < length (p_workers s) \<Longrightarrow> p_workers s ! i = Idle \<Longrightarrow> p_queue s = k # q \<Longrightarrow>
    pool_step outcome s (s\<lparr>p_queue := q, p_workers := (p_workers s)[i := Busy k]\<rparr>)"
| pool_finish: "i < length (p_workers s) \<Longrightarrow> p_workers s ! i = Busy k \<Longrightarrow> outcome k r \<Longrightarrow>
    pool_step outcome s (s\<lparr>p_workers := (p_workers s)[i := Idle], p_results := dset k r (p_results s)\<rparr>)"
| pool_stop: "i < length (p_workers s) \<Longrightarrow> p_workers s ! i = Idle \<Longrightarrow> p_queue s = [] \<Longrightarrow>
    pool_step outcome s (s\<lparr>p_workers := (p_workers s)[i := Stopped]\<rparr>)"

fun busy_slot :: "pool_worker \<Rightarrow> nat multiset" where
  "busy_slot (Busy k) = {#k#}"
| "busy_slot w = {#}"

definition busy_slots :: "pool_state \<Rightarrow> nat multiset" where
  "busy_slots s = (\<Sum>w \<in># mset (p_workers s). busy_slot w)"

definition pool_inv :: "(nat \<Rightarrow> agent_result \<Rightarrow> bool) \<Rightarrow> int \<Rightarrow> nat \<Rightarrow> pool_state \<Rightarrow> bool" where
  "pool_inv outcome mc n s =
    (mset (p_queue s) + busy_slots s + mset (map fst (p_results s)) = mset [0..<n]
     \<and> length (p_workers s) = pool_size mc n
     \<and> (Stopped \<in> set (p_workers s) \<longrightarrow> p_queue s = [])
     \<and> (\<forall>(k, r) \<in> set (p_results s). outcome k r))"

lemma busy_slots_update:
  assumes "i < length ws"
  shows "(\<Sum>w \<in># mset (ws[i := v]). busy_slot w) + busy_slot (ws ! i)
       = (\<Sum>w \<in># mset ws. busy_slot w) + busy_slot v"
  using assms
proof (induction ws arbitrary: i)
  case Nil
  then show ?case by simp
next
  case (Cons w ws)
  show ?case
  proof (cases i)
    case 0
    then show ?thesis by (simp add: ac_simps)
  next
    case (Suc j)
    then show ?thesis using Cons.IH [of j] Cons.prems by (simp add: ac_simps)
  qed
qed

lemma pool_inv_init: "pool_inv outcome mc n (pool_init mc n)"
  by (auto simp: pool_inv_def pool_init_def busy_slots_def)

lemma pool_inv_step:
  assumes "pool_step outcome s t" "pool_inv outcome mc n s"
  shows "pool_inv outcome mc n t"
  using assms
proof (induction rule: pool_step.induct)
  case (pool_take i s k q)
  have "(\<Sum>w \<in># mset ((p_workers s)[i := Busy k]). busy_slot w) = busy_slots s + {#k#}"
    using busy_slots_update [OF pool_take(1), of "Busy k"] pool_take(2) by (simp add: busy_slots_def)
  moreover have "Stopped \<notin> set ((p_workers s)[i := Busy k])"
    using pool_take set_update_subset_insert [of "p_workers s" i "Busy k"] by (auto simp: pool_inv_def)
  ultimately show ?case using pool_take
    by (auto simp: pool_inv_def busy_slots_def)
next
  case (pool_finish i s k r)
  have b: "(\<Sum>w \<in># mset ((p_workers s)[i := Idle]). busy_slot w) + {#k#} = busy_slots s"
    using busy_slots_update [OF pool_finish(1), of Idle] pool_finish(2) by (simp add: busy_slots_def)
  have inv: "mset (p_queue s) + busy_slots s + mset (map fst (p_results s)) = mset [0..<n]"
    using pool_finish by (simp add: pool_inv_def)
  have "k \<notin> fst ` set (p_results s)"
  proof
    assume "k \<in> fst ` set (p_results s)"
    then have c1: "0 < count (mset (map fst (p_results s))) k" by simp
    have c2: "0 < count (busy_slots s) k" using b [symmetric] by simp
    have c3: "count (mset [0..<n]) k \<le> 1" by (simp add: count_mset_set')
    have "count (mset (p_queue s)) k + count (busy_slots s) k + count (mset (map fst (p_results s))) k
        = count (mset [0..<n]) k"
      using arg_cong [OF inv, of "\<lambda>m. count m k"] by (simp only: count_union)
    with c1 c2 c3 show False by linarith
  qed
  then have d: "dset k r (p_results s) = p_results s @ [(k, r)]" by (rule dset_fresh)
  have "Stopped \<in> set ((p_workers s)[i := Idle]) \<Longrightarrow> Stopped \<in> set (p_workers s)"
    using set_update_subset_insert [of "p_workers s" i Idle] by auto
  moreover have "mset (p_queue s) + (\<Sum>w \<in># mset ((p_workers s)[i := Idle]). busy_slot w)
      + mset (map fst (dset k r (p_results s))) = mset [0..<n]"
    using inv unfolding b [symmetric] d by (simp add: ac_simps)
  ultimately show ?case using pool_finish(2-) d
    by (simp add: pool_inv_def busy_slots_def)
next
  case (pool_stop i s)
  have "(\<Sum>w \<in># mset ((p_workers s)[i := Stopped]). busy_slot w) = busy_slots s"
    using busy_slots_update [OF pool_stop(1), of Stopped] pool_stop(2) by (simp add: busy_slots_def)
  then show ?case using pool_stop by (auto simp: pool_inv_def busy_slots_def)
qed

lemma pool_reachable_inv:
  "(pool_step outcome)\<^sup>*\<^sup>* (pool_init mc n) s \<Longrightarrow> pool_inv outcome mc n s"
  by (induction rule: rtranclp_induct) (auto intro: pool_inv_init pool_inv_step)

text \<open>Progress: a pool that is not done can move, and every move uses up potential.\<close>

fun worker_potential :: "pool_worker \<Rightarrow> nat" where
  "worker_potential Idle = 1"
| "worker_potential (Busy k) = 2"
| "worker_potential Stopped = 0"

definition pool_potential :: "pool_state \<Rightarrow> nat" where
  "pool_potential s = 3 * length (p_queue s) + sum_list (map worker_potential (p_workers s))"

lemma potential_update:
  "i < length ws \<Longrightarrow> sum_list (map worker_potential (ws[i := v])) + worker_potential (ws ! i)
     = sum_list (map worker_potential ws) + worker_potential v"
proof (induction ws arbitrary: i)
  case Nil
  then show ?case by simp
next
  case (Cons w ws)
  then show ?case by (cases i) auto
qed

lemma pool_step_potential: "pool_step outcome s t \<Longrightarrow> pool_potential t < pool_potential s"
proof (induction rule: pool_step.induct)
  case (pool_take i s k q)
  then show ?case using potential_update [of i "p_workers s" "Busy k"] by (simp add: pool_potential_def)
next
  case (pool_finish i s k r)
  then show ?case using potential_update [of i "p_workers s" Idle] by (simp add: pool_potential_def)
next
  case (pool_stop i s)
  then show ?case using potential_update [of i "p_workers s" Stopped] by (simp add: pool_potential_def)
qed

lemma pool_progress:
  assumes "\<And>k. \<exists>r. outcome k r" "\<not> (\<forall>w \<in> set (p_workers s). w = Stopped)"
  shows "\<exists>t. pool_step outcome s t"
proof -
  obtain i where i: "i < length (p_workers s)" "p_workers s ! i \<noteq> Stopped"
    using assms(2) by (metis in_set_conv_nth)
  show ?thesis
  proof (cases "p_workers s ! i")
    case Idle
    then show ?thesis using i pool_take [of i s] pool_stop [of i s] by (cases "p_queue s") blast+
  next
    case (Busy k)
    then show ?thesis using i assms(1) [of k] pool_finish [of i s k] by blast
  next
    case Stopped
    then show ?thesis using i by simp
  qed
qed

text \<open>
  C10. Under every interleaving of the batch pool's workers, at most
  \<open>min(max(max_concurrency, 1), n)\<close> slots are in flight, a pool with a worker left
  can move and moves only finitely often, and once every worker has left, each of
  the \<open>n\<close> slots holds a result computed for it and no other slot exists.
\<close>

theorem pool_fills_every_slot:
  assumes "(pool_step outcome)\<^sup>*\<^sup>* (pool_init mc n) s" "\<forall>k. \<exists>r. outcome k r"
  shows "size (busy_slots s) \<le> pool_size mc n
    \<and> ((\<exists>w \<in> set (p_workers s). w \<noteq> Stopped) \<longrightarrow>
        (\<exists>t. pool_step outcome s t) \<and> (\<forall>t. pool_step outcome s t \<longrightarrow> pool_potential t < pool_potential s))
    \<and> ((\<forall>w \<in> set (p_workers s). w = Stopped) \<longrightarrow>
        (\<forall>k. (\<exists>r. dget (p_results s) k = Some r \<and> outcome k r) \<longleftrightarrow> k < n)
        \<and> distinct (map fst (p_results s)))"
proof (intro conjI impI)
  have inv: "pool_inv outcome mc n s" by (rule pool_reachable_inv [OF assms(1)])
  have "size (\<Sum>w \<in># mset ws. busy_slot w) \<le> length ws" for ws
  proof (induction ws)
    case (Cons w ws)
    then show ?case by (cases w) auto
  qed simp
  then show "size (busy_slots s) \<le> pool_size mc n"
    using inv by (metis busy_slots_def pool_inv_def)
  show "\<exists>t. pool_step outcome s t" if "\<exists>w \<in> set (p_workers s). w \<noteq> Stopped"
    using pool_progress [of outcome s] assms(2) that by blast
  show "\<forall>t. pool_step outcome s t \<longrightarrow> pool_potential t < pool_potential s"
    using pool_step_potential by blast
  assume stopped: "\<forall>w \<in> set (p_workers s). w = Stopped"
  have "\<forall>w \<in> set ws. w = Stopped \<Longrightarrow> (\<Sum>w \<in># mset ws. busy_slot w) = {#}" for ws
    by (induction ws) auto
  then have b: "busy_slots s = {#}" using stopped by (simp add: busy_slots_def)
  have q: "p_queue s = []"
  proof (cases "n = 0")
    case True
    then show ?thesis using inv by (simp add: pool_inv_def)
  next
    case False
    then have "p_workers s \<noteq> []" using inv by (auto simp: pool_inv_def pool_size_def)
    then have "Stopped \<in> set (p_workers s)" using stopped by (metis list.set_sel(1))
    then show ?thesis using inv by (simp add: pool_inv_def)
  qed
  have m: "mset (map fst (p_results s)) = mset [0..<n]" using inv b q by (simp add: pool_inv_def)
  show "distinct (map fst (p_results s))" using m distinct_upt mset_eq_imp_distinct_iff by blast
  have keys: "fst ` set (p_results s) = {0..<n}" using m by (metis atLeastLessThan_upt list.set_map set_mset_mset)
  show "\<forall>k. (\<exists>r. dget (p_results s) k = Some r \<and> outcome k r) \<longleftrightarrow> k < n"
  proof
    fix k
    show "(\<exists>r. dget (p_results s) k = Some r \<and> outcome k r) \<longleftrightarrow> k < n"
    proof
      assume "\<exists>r. dget (p_results s) k = Some r \<and> outcome k r"
      then show "k < n" using keys dget_in_set by force
    next
      assume "k < n"
      then have "k \<in> fst ` set (p_results s)" using keys by simp
      then obtain r where r: "dget (p_results s) k = Some r" by (metis dget_None_iff option.exhaust)
      then have "(k, r) \<in> set (p_results s)" by (rule dget_in_set)
      then show "\<exists>r. dget (p_results s) k = Some r \<and> outcome k r"
        using inv r by (auto simp: pool_inv_def)
    qed
  qed
qed

lemma pool_fills_every_slot_witness:
  "size (busy_slots (pool_init 2 3)) \<le> 2 \<and> (\<exists>t. pool_step (\<lambda>k r. True) (pool_init 2 3) t)"
proof -
  have "(pool_step (\<lambda>k r. True))\<^sup>*\<^sup>* (pool_init 2 3) (pool_init 2 3)" "\<forall>k. \<exists>r. (\<lambda>k r. True) k r"
    by simp_all
  from pool_fills_every_slot [OF this] show ?thesis
    by (simp add: pool_size_def pool_init_def)
qed

end
