(* ===== verification/Broker.thy ===== *)
theory Broker
  imports Errors
begin

text \<open>
  \<open>backends/_inmemory_broker.py\<close>: topics, broadcast subscribers and competing-consumer
  pools with a round-robin cursor.  Handlers are identities; a handler task that
  \<open>publish\<close> created and that has not ended is a pair of handler and payload.
\<close>

section \<open>State and operations\<close>

record ('h, 'm) broker =
  br_started :: bool
  br_broadcast :: "(string, 'h list) dict"
  br_groups :: "(string, (string, 'h list) dict) dict"
  br_cursors :: "(string \<times> string, nat) dict"
  br_tasks :: "('h \<times> 'm) list"

definition empty_broker :: "('h, 'm) broker" where
  "empty_broker =
    \<lparr> br_started = False, br_broadcast = [], br_groups = [], br_cursors = [], br_tasks = [] \<rparr>"

definition broker_start :: "('h, 'm) broker \<Rightarrow> ('h, 'm) broker" where
  "broker_start b = b\<lparr>br_started := True\<rparr>"

definition broker_stop :: "('h, 'm) broker \<Rightarrow> ('h, 'm) broker" where
  "broker_stop b = b\<lparr>br_started := False, br_tasks := [], br_broadcast := [], br_groups := [], br_cursors := []\<rparr>"

definition broker_spawn :: "'h \<Rightarrow> 'm \<Rightarrow> ('h, 'm) broker \<Rightarrow> ('h, 'm) broker" where
  "broker_spawn h m b = b\<lparr>br_tasks := br_tasks b @ [(h, m)]\<rparr>"

definition publish_group ::
  "string \<Rightarrow> 'm \<Rightarrow> string \<times> 'h list \<Rightarrow> ('h, 'm) broker \<Rightarrow> ('h, 'm) broker" where
  "publish_group topic m gh b =
    (case gh of (gn, handlers) \<Rightarrow>
      if handlers = [] then b
      else let idx = dget_or (br_cursors b) (topic, gn) 0 mod length handlers
           in broker_spawn (handlers ! idx) m
                (b\<lparr>br_cursors := dset (topic, gn) (idx + 1) (br_cursors b)\<rparr>))"

definition broker_publish :: "string \<Rightarrow> 'm \<Rightarrow> (('h, 'm) broker, exn, unit) eff" where
  "broker_publish topic m b =
    (if \<not> br_started b then (Inl (Exn PyRuntimeError ''InMemoryBroker.publish called before start()''), b)
     else let b1 = fold (\<lambda>h. broker_spawn h m) (dget_or (br_broadcast b) topic []) b
          in (Inr (), fold (publish_group topic m) (dget_or (br_groups b) topic []) b1))"

definition broker_subscribe ::
  "string \<Rightarrow> 'h \<Rightarrow> string option \<Rightarrow> ('h, 'm) broker \<Rightarrow> ('h, 'm) broker" where
  "broker_subscribe topic h gn b =
    (case gn of
       None \<Rightarrow> b\<lparr>br_broadcast := dset topic (dget_or (br_broadcast b) topic [] @ [h]) (br_broadcast b)\<rparr>
     | Some g \<Rightarrow>
        let pools = dget_or (br_groups b) topic []
        in b\<lparr>br_groups := dset topic (dset g (dget_or pools g [] @ [h]) pools) (br_groups b)\<rparr>)"

definition pool :: "('h, 'm) broker \<Rightarrow> string \<Rightarrow> string \<Rightarrow> 'h list" where
  "pool b topic g = dget_or (dget_or (br_groups b) topic []) g []"

definition audience :: "('h, 'm) broker \<Rightarrow> string \<Rightarrow> 'h list" where
  "audience b topic = dget_or (br_broadcast b) topic []"

section \<open>What one publish schedules\<close>

lemma dget_or_dset [simp]: "dget_or (dset k v d) k' w = (if k' = k then v else dget_or d k' w)"
  by (simp add: dget_or_def)

lemma subscribe_pool:
  "pool (broker_subscribe t h (Some g) b) u g' =
    (if u = t \<and> g' = g then pool b t g @ [h] else pool b u g')"
  by (simp add: pool_def broker_subscribe_def Let_def)

lemma subscribe_audience:
  "audience (broker_subscribe t h None b) u = (if u = t then audience b t @ [h] else audience b u)"
  "audience (broker_subscribe t h (Some g) b) u = audience b u"
  "pool (broker_subscribe t h None b) u g' = pool b u g'"
  by (simp_all add: audience_def pool_def broker_subscribe_def Let_def)

lemma fold_spawn:
  "fold (\<lambda>h. broker_spawn h m) hs b = b\<lparr>br_tasks := br_tasks b @ map (\<lambda>h. (h, m)) hs\<rparr>"
  by (induction hs arbitrary: b) (simp_all add: broker_spawn_def)

lemma publish_group_fields [simp]:
  "br_started (publish_group t m gh b) = br_started b"
  "br_broadcast (publish_group t m gh b) = br_broadcast b"
  "br_groups (publish_group t m gh b) = br_groups b"
  by (simp_all add: publish_group_def broker_spawn_def Let_def split: prod.split)

lemma fold_publish_group_fields [simp]:
  "br_started (fold (publish_group t m) ghs b) = br_started b"
  "br_broadcast (fold (publish_group t m) ghs b) = br_broadcast b"
  "br_groups (fold (publish_group t m) ghs b) = br_groups b"
  by (induction ghs arbitrary: b) simp_all

lemma publish_keeps_subscriptions:
  "br_started (snd (broker_publish t m b)) = br_started b"
  "pool (snd (broker_publish t m b)) u g = pool b u g"
  "audience (snd (broker_publish t m b)) u = audience b u"
  by (simp_all add: broker_publish_def Let_def fold_spawn pool_def audience_def)

text \<open>The handler each non-empty pool of a topic contributes.\<close>

definition pool_pick :: "(string \<times> string, nat) dict \<Rightarrow> string \<Rightarrow> string \<times> 'h list \<Rightarrow> 'h list" where
  "pool_pick cursors topic gh =
    (case gh of (g, hs) \<Rightarrow> if hs = [] then [] else [hs ! (dget_or cursors (topic, g) 0 mod length hs)])"

lemma fold_publish_group:
  assumes "distinct (map fst ghs)"
  shows "br_tasks (fold (publish_group t m) ghs b) =
    br_tasks b @ map (\<lambda>h. (h, m)) (concat (map (pool_pick (br_cursors b) t) ghs))"
  using assms
proof (induction ghs arbitrary: b)
  case (Cons gh ghs)
  obtain g hs where gh: "gh = (g, hs)" by force
  have same: "pool_pick (br_cursors (publish_group t m gh b)) t x = pool_pick (br_cursors b) t x"
    if "x \<in> set ghs" for x
  proof -
    have "fst x \<noteq> g" using that Cons.prems gh by (metis fst_conv image_eqI distinct.simps(2) list.simps(9) set_map)
    then show ?thesis
      by (cases x) (simp add: pool_pick_def publish_group_def gh broker_spawn_def Let_def)
  qed
  have "br_tasks (publish_group t m gh b) = br_tasks b @ map (\<lambda>h. (h, m)) (pool_pick (br_cursors b) t gh)"
    by (simp add: publish_group_def gh pool_pick_def broker_spawn_def Let_def)
  moreover have "map (pool_pick (br_cursors (publish_group t m gh b)) t) ghs = map (pool_pick (br_cursors b) t) ghs"
    using same by (intro map_cong) auto
  ultimately show ?case using Cons.prems Cons.IH [of "publish_group t m gh b"] by (simp del: map_eq_conv)
qed simp

lemma publish_tasks:
  assumes "br_started b" "dict_ok (dget_or (br_groups b) t [])"
  shows "br_tasks (snd (broker_publish t m b)) = br_tasks b @ map (\<lambda>h. (h, m))
    (audience b t @ concat (map (pool_pick (br_cursors b) t) (dget_or (br_groups b) t [])))"
  using assms fold_publish_group [of "dget_or (br_groups b) t []" t m]
  by (simp add: broker_publish_def Let_def fold_spawn audience_def dict_ok_def)

section \<open>A competing-consumer pool shares the load\<close>

text \<open>The cursor positions a run of messages visits, and how often each comes up.\<close>

lemma div_Suc_step: "0 < k \<Longrightarrow> Suc a div k = a div k + (if Suc a mod k = 0 then 1 else 0)" for k :: nat
  by (simp add: div_Suc)

lemma residue_count:
  fixes k j :: nat
  assumes "j < k"
  shows "length (filter (\<lambda>i. i mod k = j) [0..<m]) = (m + (k - 1 - j)) div k"
proof (induction m)
  case 0
  then show ?case using assms by simp
next
  case (Suc m)
  have "Suc (m + (k - 1 - j)) mod k = 0 \<longleftrightarrow> m mod k = j"
  proof -
    have "Suc (m + (k - 1 - j)) = m + (k - j)" using assms by simp
    then have e: "Suc (m + (k - 1 - j)) mod k = (m mod k + (k - j)) mod k" by (simp only: mod_add_left_eq)
    consider "m mod k < j" | "m mod k = j" | "j < m mod k" by linarith
    then show ?thesis
    proof cases
      case 1
      then have "(m mod k + (k - j)) mod k = m mod k + (k - j)" using assms by (intro mod_less) linarith
      then show ?thesis using e 1 assms by simp
    next
      case 2
      then show ?thesis using e assms by simp
    next
      case 3
      then have "m mod k + (k - j) = k + (m mod k - j)" using assms by linarith
      moreover have "(m mod k - j) mod k = m mod k - j"
        using assms mod_less_divisor [of k m] by (intro mod_less) linarith
      ultimately have "(m mod k + (k - j)) mod k = m mod k - j" by (metis mod_add_self1)
      then show ?thesis using e 3 by linarith
    qed
  qed
  then show ?case using Suc assms div_Suc_step [of k "m + (k - 1 - j)"] by simp
qed

lemma window_count:
  fixes k j :: nat
  assumes "j < k"
  shows "length (filter (\<lambda>i. i mod k = j) [c..<c + n]) \<in> {n div k, Suc (n div k)}"
proof -
  let ?f = "\<lambda>xs. length (filter (\<lambda>i. i mod k = j) xs)"
  have "[0..<c + n] = [0..<c] @ [c..<c + n]" using upt_add_eq_append [of 0 c n] by simp
  then have "?f [0..<c + n] = ?f [0..<c] + ?f [c..<c + n]" by (metis filter_append length_append)
  then have "?f [c..<c + n] = (c + n + (k - 1 - j)) div k - (c + (k - 1 - j)) div k"
    unfolding residue_count [OF assms] by linarith
  moreover have "(a + n) div k = a div k + n div k + (if a mod k + n mod k < k then 0 else 1)" for a :: nat
  proof -
    have "x div k = (if x < k then 0 else 1)" if "x < 2 * k" for x
      using that assms by (cases "x < k") (simp_all add: le_div_geq)
    moreover have "a mod k + n mod k < 2 * k"
      using assms mod_less_divisor [of k a] mod_less_divisor [of k n] by linarith
    ultimately have "(a mod k + n mod k) div k = (if a mod k + n mod k < k then 0 else 1)" .
    then show ?thesis using div_add1_eq [of a n k] by metis
  qed
  from this [of "c + (k - 1 - j)"] have "(c + n + (k - 1 - j)) div k
      = (c + (k - 1 - j)) div k + n div k + (if (c + (k - 1 - j)) mod k + n mod k < k then 0 else 1)"
    by (simp add: ac_simps)
  ultimately show ?thesis by simp
qed

fun publish_each :: "string \<Rightarrow> 'm list \<Rightarrow> ('h, 'm) broker \<Rightarrow> ('h, 'm) broker" where
  "publish_each t [] b = b"
| "publish_each t (m # ms) b = publish_each t ms (snd (broker_publish t m b))"

text \<open>A topic served by one pool and no broadcast subscriber, as task topics are.\<close>

definition pooled :: "('h, 'm) broker \<Rightarrow> string \<Rightarrow> string \<Rightarrow> 'h list \<Rightarrow> bool" where
  "pooled b t g hs =
    (br_started b \<and> audience b t = [] \<and> dget (br_groups b) t = Some [(g, hs)] \<and> hs \<noteq> [])"

lemma publish_pooled:
  assumes "pooled b t g hs" and c: "c = dget_or (br_cursors b) (t, g) 0"
  shows "pooled (snd (broker_publish t m b)) t g hs"
    and "br_tasks (snd (broker_publish t m b)) = br_tasks b @ [(hs ! (c mod length hs), m)]"
    and "dget_or (br_cursors (snd (broker_publish t m b))) (t, g) 0 = c mod length hs + 1"
  using assms
  by (simp_all add: pooled_def broker_publish_def audience_def publish_group_def broker_spawn_def
      Let_def dget_or_def fold_spawn)

lemma publish_each_pooled:
  assumes "pooled b t g hs" "c mod length hs = dget_or (br_cursors b) (t, g) 0 mod length hs"
  shows "br_tasks (publish_each t ms b) =
    br_tasks b @ zip (map (\<lambda>i. hs ! (i mod length hs)) [c..<c + length ms]) ms"
  using assms
proof (induction ms arbitrary: b c)
  case (Cons m ms)
  let ?b = "snd (broker_publish t m b)"
  have p: "pooled ?b t g hs" "br_tasks ?b = br_tasks b @ [(hs ! (c mod length hs), m)]"
    "dget_or (br_cursors ?b) (t, g) 0 = c mod length hs + 1"
    using publish_pooled [OF Cons.prems(1) refl, of m] Cons.prems(2) by simp_all
  have "Suc c mod length hs = dget_or (br_cursors ?b) (t, g) 0 mod length hs"
    using p(3) by (simp add: mod_Suc_eq)
  from Cons.IH [OF p(1) this] p(2)
  have "br_tasks (publish_each t (m # ms) b) = br_tasks b @ (hs ! (c mod length hs), m)
      # zip (map (\<lambda>i. hs ! (i mod length hs)) [Suc c..<Suc c + length ms]) ms"
    by simp
  moreover have "[c..<c + length (m # ms)] = c # [Suc c..<Suc c + length ms]"
    using upt_conv_Cons [of c "c + length (m # ms)"] by simp
  ultimately show ?case by simp
qed simp

text \<open>
  A pool of workers on a task topic takes every published message exactly once,
  in publication order, whatever its cursor was; and after any number of
  publications the shares of any two workers differ by at most one message.
\<close>

theorem pool_shares_the_load:
  assumes "pooled b t g hs" "distinct hs"
  shows "\<exists>ws. br_tasks (publish_each t ms b) = br_tasks b @ zip ws ms \<and> length ws = length ms
    \<and> (\<forall>h\<in>set hs. count_list ws h \<in> {length ms div length hs, Suc (length ms div length hs)})"
proof -
  let ?c = "dget_or (br_cursors b) (t, g) 0" and ?k = "length hs" and ?n = "length ms"
  let ?ws = "map (\<lambda>i. hs ! (i mod ?k)) [?c..<?c + ?n]"
  have "count_list ?ws h \<in> {?n div ?k, Suc (?n div ?k)}" if h: "h \<in> set hs" for h
  proof -
    obtain j where j: "j < ?k" "h = hs ! j" using h by (metis in_set_conv_nth)
    have "(hs ! (i mod ?k) = h) = (i mod ?k = j)" for i
      using assms(2) j nth_eq_iff_index_eq [of hs "i mod ?k" j] mod_less_divisor [of ?k i] by fastforce
    then have "((=) h \<circ> (\<lambda>i. hs ! (i mod ?k))) = (\<lambda>i. i mod ?k = j)" by (metis comp_apply)
    then have "count_list ?ws h = length (filter (\<lambda>i. i mod ?k = j) [?c..<?c + ?n])"
      by (simp only: count_list_eq_length_filter filter_map length_map)
    then show ?thesis using window_count [OF j(1)] by simp
  qed
  moreover have "length ?ws = ?n" by simp
  ultimately show ?thesis using publish_each_pooled [OF assms(1) refl, of ms] by blast
qed

lemma pool_shares_the_load_witness:
  "\<exists>ws. br_tasks (publish_each ''t'' [1 :: nat, 2, 3]
      (broker_subscribe ''t'' ''w1'' (Some ''g'') (broker_subscribe ''t'' ''w0'' (Some ''g'') (broker_start empty_broker))))
    = [] @ zip ws [1, 2, 3] \<and> length ws = length [1 :: nat, 2, 3]
    \<and> (\<forall>h\<in>set [''w0'', ''w1'']. count_list ws h \<in>
         {length [1 :: nat, 2, 3] div length [''w0'', ''w1''], Suc (length [1 :: nat, 2, 3] div length [''w0'', ''w1''])})"
proof -
  let ?b = "broker_subscribe ''t'' ''w1'' (Some ''g'')
    (broker_subscribe ''t'' ''w0'' (Some ''g'') (broker_start empty_broker)) :: (string, nat) broker"
  have p: "pooled ?b ''t'' ''g'' [''w0'', ''w1'']" by code_simp
  have "br_tasks ?b = []" by code_simp
  then show ?thesis using pool_shares_the_load [OF p, of "[1, 2, 3]"] by simp
qed

end
