(* ===== verification/Messages.thy ===== *)
theory Messages
  imports Types "HOL-Library.List_Lexorder" "HOL-Library.Char_ord"
begin

text \<open>
  \<open>messages.py\<close>: the envelopes of the broker and their optional signatures.  The
  signed bytes are the JSON text \<open>json.dumps\<close> prints with sorted keys and compact
  separators, written out here.  The keyed hash (\<open>hmac\<close> with SHA-256) is an argument.
\<close>

section \<open>Envelopes\<close>

record parent_spawn =
  ps_agent_name :: string
  ps_trace_id :: string
  ps_depth :: int
  ps_ancestors :: "string set"

record task_message =
  tm_batch_id :: string
  tm_task_id :: string
  tm_reply_to :: string
  tm_request_id :: string
  tm_task :: task_spec
  tm_events_topic :: "string option"
  tm_parent_spawn :: "parent_spawn option"
  tm_signature :: "string option"

record result_message =
  rs_batch_id :: string
  rs_task_id :: string
  rs_request_id :: string
  rs_success :: bool
  rs_output :: "(string, pyval) dict option"
  rs_error :: "string option"
  rs_duration_ms :: int
  rs_tokens_used :: int
  rs_backend :: string
  rs_agent_name :: string

text \<open>The subscribers of the code and of its users, and what travels on a topic.\<close>

datatype handler =
    CollectorHandler
  | EventHandler
  | WorkerHandler nat string
  | UserHandler string

datatype wire_payload =
    TaskWire task_message
  | ResultWire result_message
  | EventWire runtime_event
  | GarbageWire string

definition task_topic :: "string \<Rightarrow> string" where
  "task_topic name = ''murmur.'' @ name @ ''.tasks''"

definition result_topic :: "string \<Rightarrow> string" where
  "result_topic rid = ''murmur.results.'' @ rid"

definition events_topic :: "string \<Rightarrow> string" where
  "events_topic rid = ''murmur.events.'' @ rid"

section \<open>JSON text\<close>

definition digit_char :: "nat \<Rightarrow> char" where
  "digit_char d = ''0123456789abcdef'' ! (d mod 16)"

fun digits :: "nat \<Rightarrow> string" where
  "digits n = (if n < 10 then [digit_char n] else digits (n div 10) @ [digit_char (n mod 10)])"

declare digits.simps [simp del]

definition json_int :: "int \<Rightarrow> string" where
  "json_int i = (if i < 0 then CHR ''-'' # digits (nat (- i)) else digits (nat i))"

definition quote :: char where "quote = CHR 34"
definition backslash :: char where "backslash = CHR 92"

text \<open>The escapes of a Python JSON string; everything outside printable ASCII is a code point.\<close>

definition short_escapes :: "(char \<times> char) list" where
  "short_escapes =
    [(quote, quote), (backslash, backslash), (CHR 10, CHR ''n''), (CHR 13, CHR ''r''),
     (CHR 9, CHR ''t''), (CHR 12, CHR ''f''), (CHR 8, CHR ''b'')]"

definition json_char :: "char \<Rightarrow> string" where
  "json_char c =
    (case map_of short_escapes c of
       Some e \<Rightarrow> [backslash, e]
     | None \<Rightarrow>
        if 32 \<le> (of_char c :: nat) \<and> (of_char c :: nat) < 127 then [c]
        else [backslash, CHR ''u'', CHR ''0'', CHR ''0'',
              digit_char (of_char c div 16), digit_char (of_char c mod 16)])"

definition json_string :: "string \<Rightarrow> string" where
  "json_string s = quote # concat (map json_char s) @ [quote]"

fun json_tail :: "string list \<Rightarrow> string" where
  "json_tail [] = '']''"
| "json_tail (x # xs) = CHR '','' # json_string x @ json_tail xs"

fun json_strings :: "string list \<Rightarrow> string" where
  "json_strings [] = ''[]''"
| "json_strings (x # xs) = CHR ''['' # json_string x @ json_tail xs"

definition json_key :: "string \<Rightarrow> string" where
  "json_key k = json_string k @ '':''"

section \<open>Signatures\<close>

definition parent_blob :: "parent_spawn option \<Rightarrow> string" where
  "parent_blob p =
    (case p of
       None \<Rightarrow> ''null''
     | Some q \<Rightarrow>
        ''{'' @ json_key ''agent_name'' @ json_string (ps_agent_name q)
        @ '','' @ json_key ''ancestors'' @ json_strings (sorted_list_of_set (ps_ancestors q))
        @ '','' @ json_key ''depth'' @ json_int (ps_depth q)
        @ '','' @ json_key ''trace_id'' @ json_string (ps_trace_id q) @ ''}'')"

definition signing_payload :: "string \<Rightarrow> string \<Rightarrow> parent_spawn option \<Rightarrow> string" where
  "signing_payload agent_name request_id p =
    ''{'' @ json_key ''agent_name'' @ json_string agent_name
    @ '','' @ json_key ''parent_spawn'' @ parent_blob p
    @ '','' @ json_key ''request_id'' @ json_string request_id @ ''}''"

definition sign_task_message ::
  "(string \<Rightarrow> string \<Rightarrow> string) \<Rightarrow> string \<Rightarrow> string \<Rightarrow> task_message \<Rightarrow> task_message" where
  "sign_task_message hmac agent_name key msg =
    msg\<lparr>tm_signature := Some (hmac key
      (signing_payload agent_name (tm_request_id msg) (tm_parent_spawn msg)))\<rparr>"

text \<open>
  \<open>hmac.compare_digest\<close> of two strings raises when either holds a character outside
  ASCII; a digest is hexadecimal, so only the received signature can.
\<close>

definition compare_digest :: "string \<Rightarrow> string \<Rightarrow> exn + bool" where
  "compare_digest a b =
    (if list_all (\<lambda>c. (of_char c :: nat) < 128) (a @ b) then Inr (a = b)
     else Inl (Exn PyTypeError ''comparing strings with non-ASCII characters is not supported''))"

fun any_key :: "(string \<Rightarrow> string \<Rightarrow> string) \<Rightarrow> string \<Rightarrow> string \<Rightarrow> string list \<Rightarrow> exn + bool" where
  "any_key hmac text expected [] = Inr False"
| "any_key hmac text expected (key # keys) =
    (case compare_digest (hmac key text) expected of
       Inl e \<Rightarrow> Inl e
     | Inr eq \<Rightarrow> if eq then Inr True else any_key hmac text expected keys)"

definition verify_task_message ::
  "(string \<Rightarrow> string \<Rightarrow> string) \<Rightarrow> string \<Rightarrow> string list \<Rightarrow> task_message \<Rightarrow> exn + bool" where
  "verify_task_message hmac agent_name keys msg =
    (case tm_signature msg of
       None \<Rightarrow> Inr False
     | Some expected \<Rightarrow>
        if keys = [] then Inr False
        else any_key hmac (signing_payload agent_name (tm_request_id msg) (tm_parent_spawn msg))
               expected keys)"

section \<open>The signed bytes determine the signed fields\<close>

text \<open>Each printer's output can be split off unambiguously from what follows it.\<close>

lemma digit_char_inj: "d < 16 \<Longrightarrow> e < 16 \<Longrightarrow> digit_char d = digit_char e \<longleftrightarrow> d = e"
proof -
  have "distinct ''0123456789abcdef''" by simp
  then show "d < 16 \<Longrightarrow> e < 16 \<Longrightarrow> ?thesis"
    using nth_eq_iff_index_eq [of "''0123456789abcdef''" d e] by (simp add: digit_char_def)
qed

lemma of_char_16: "(of_char c :: nat) div 16 < 16" "(of_char c :: nat) mod 16 < 16"
  using nat_of_char_less_256 [of c] by (simp_all del: nat_of_char_less_256)

lemma short_escapes_facts:
  "map_of short_escapes c = Some e \<Longrightarrow> map_of short_escapes d = Some e \<Longrightarrow> c = d"
  "map_of short_escapes c = Some e \<Longrightarrow> e \<noteq> CHR ''u''"
  "map_of short_escapes backslash = Some backslash" "map_of short_escapes quote = Some quote"
  by (auto simp: short_escapes_def quote_def backslash_def split: if_splits)

lemma hex_char_inj:
  assumes "digit_char (of_char c div 16) = digit_char (of_char d div 16)"
    and "digit_char (of_char c mod 16) = digit_char (of_char d mod 16)"
  shows "c = d"
proof -
  have "(of_char c :: nat) div 16 = of_char d div 16" "(of_char c :: nat) mod 16 = of_char d mod 16"
    using assms of_char_16 by (simp_all add: digit_char_inj)
  then have "(of_char c :: nat) = of_char d" by (metis div_mult_mod_eq)
  then show ?thesis by simp
qed

lemma json_char_split: "json_char c @ r = json_char d @ s \<Longrightarrow> c = d \<and> r = s"
  using short_escapes_facts(1) [of c _ d] short_escapes_facts(2) [of c] short_escapes_facts(2) [of d]
    short_escapes_facts(3) hex_char_inj [of c d]
  by (auto simp: json_char_def split: option.splits if_splits)

lemma json_char_start: "\<exists>x xs. json_char c = x # xs \<and> x \<noteq> quote"
  using short_escapes_facts(4)
  by (cases "c = quote") (auto simp: json_char_def quote_def backslash_def split: option.split)

lemma json_body_split:
  "concat (map json_char s) @ quote # r = concat (map json_char s') @ quote # r' \<Longrightarrow> s = s' \<and> r = r'"
proof (induction s arbitrary: s')
  case Nil
  show ?case
  proof (cases s')
    case (Cons d t)
    obtain x xs where "json_char d = x # xs" "x \<noteq> quote" using json_char_start [of d] by blast
    then show ?thesis using Nil Cons by simp
  qed (use Nil in simp)
next
  case (Cons c s)
  show ?case
  proof (cases s')
    case Nil
    then show ?thesis using Cons.prems json_char_start [of c] by auto
  next
    case (Cons d t)
    then show ?thesis
      using Cons.prems json_char_split [of c "concat (map json_char s) @ quote # r" d] Cons.IH [of t] by auto
  qed
qed

lemma json_string_split: "json_string x @ r = json_string y @ s \<longleftrightarrow> x = y \<and> r = s"
  using json_body_split [of x r y s] by (simp add: json_string_def, blast)

lemma json_tail_split: "json_tail xs @ r = json_tail ys @ s \<Longrightarrow> xs = ys \<and> r = s"
proof (induction xs arbitrary: ys)
  case Nil
  then show ?case by (cases ys) auto
next
  case (Cons x xs)
  show ?case
  proof (cases ys)
    case Nil
    then show ?thesis using Cons.prems by simp
  next
    case (Cons y zs)
    then show ?thesis using Cons.prems Cons.IH [of zs] by (simp add: json_string_split)
  qed
qed

lemma json_string_start: "json_string x @ r \<noteq> CHR '']'' # s"
  by (simp add: json_string_def quote_def)

lemma json_strings_split: "json_strings xs @ r = json_strings ys @ s \<longleftrightarrow> xs = ys \<and> r = s"
proof
  assume e: "json_strings xs @ r = json_strings ys @ s"
  show "xs = ys \<and> r = s"
  proof (cases xs)
    case Nil
    then show ?thesis using e json_string_start [symmetric] by (cases ys) simp_all
  next
    case (Cons x xs')
    show ?thesis
    proof (cases ys)
      case Nil
      then show ?thesis using e Cons json_string_start by simp
    next
      case (Cons y ys')
      have "x = y \<and> json_tail xs' @ r = json_tail ys' @ s"
        using e \<open>xs = x # xs'\<close> Cons by (simp add: json_string_split)
      then show ?thesis using json_tail_split \<open>xs = x # xs'\<close> Cons by blast
    qed
  qed
qed simp

lemma json_string_inj [simp]: "json_string x = json_string y \<longleftrightarrow> x = y"
  using json_string_split [of x "[]" y "[]"] by simp

section \<open>Numbers\<close>

definition decimal :: "char \<Rightarrow> bool" where
  "decimal c = (c \<in> set ''0123456789'')"

lemma digit_char_decimal: "d < 10 \<Longrightarrow> decimal (digit_char d)"
proof -
  assume "d < 10"
  then have "digit_char d = ''0123456789'' ! d"
    using nth_append [of "''0123456789''" "''abcdef''" d] by (simp add: digit_char_def)
  then show ?thesis using \<open>d < 10\<close> nth_mem [of d "''0123456789''"] by (simp add: decimal_def)
qed

lemma digits_decimal: "list_all decimal (digits n)"
  by (induction n rule: digits.induct)
    (subst digits.simps, auto simp: digit_char_decimal)

lemma digits_nonempty: "digits n \<noteq> []"
  by (subst digits.simps) simp

lemma digits_inj: "digits n = digits m \<Longrightarrow> n = m"
proof (induction n arbitrary: m rule: digits.induct)
  case (1 n)
  have tens: "\<And>k. \<not> k < 10 \<Longrightarrow> length (digits k) > 1"
    by (subst digits.simps) (simp add: digits_nonempty)
  have one: "\<And>k. k < 10 \<Longrightarrow> digits k = [digit_char k]" by (subst digits.simps) simp
  have more: "\<And>k. \<not> k < 10 \<Longrightarrow> digits k = digits (k div 10) @ [digit_char (k mod 10)]"
    by (subst digits.simps) simp
  show ?case
  proof (cases "n < 10")
    case True
    have "length (digits n) = 1" using one [OF True] by simp
    then have "length (digits m) = 1" using 1(2) by metis
    then have m: "m < 10" using tens [of m] by linarith
    have "digit_char n = digit_char m" using 1(2) one [OF True] one [OF m] by simp
    then show ?thesis using True m digit_char_inj [of n m] by simp
  next
    case False
    have "length (digits n) > 1" using tens [OF False] by simp
    then have "length (digits m) > 1" using 1(2) by metis
    then have m: "\<not> m < 10" using one [of m] by auto
    have "digits (n div 10) = digits (m div 10)" "digit_char (n mod 10) = digit_char (m mod 10)"
      using 1(2) more [OF False] more [OF m] by simp_all
    then have "n div 10 = m div 10" "n mod 10 = m mod 10"
      using 1(1) False digit_char_inj [of "n mod 10" "m mod 10"] by auto
    then show ?thesis by (metis div_mult_mod_eq)
  qed
qed

lemma digits_split:
  assumes "digits n @ c # r = digits m @ d # s" "\<not> decimal c" "\<not> decimal d"
  shows "n = m \<and> c # r = d # s"
proof -
  have "takeWhile decimal (digits k @ x # y) = digits k" if "\<not> decimal x" for k x y
    using digits_decimal [of k] that by (simp add: takeWhile_append list_all_iff)
  from this [OF assms(2), of n r] this [OF assms(3), of m s] assms(1)
  have "digits n = digits m" by metis
  then show ?thesis using assms(1) digits_inj by auto
qed

lemma json_int_split:
  assumes "json_int i @ c # r = json_int j @ d # s" "\<not> decimal c" "\<not> decimal d"
  shows "i = j \<and> c # r = d # s"
proof -
  have start: "\<exists>x xs. digits n = x # xs \<and> x \<noteq> CHR ''-''" for n
    using digits_nonempty [of n] digits_decimal [of n] by (cases "digits n") (auto simp: decimal_def)
  consider (neg) "i < 0" "j < 0" | (pos) "\<not> i < 0" "\<not> j < 0" | (np) "i < 0" "\<not> j < 0" | (pn) "\<not> i < 0" "j < 0"
    by blast
  then show ?thesis
  proof cases
    case neg
    then have "digits (nat (- i)) @ c # r = digits (nat (- j)) @ d # s"
      using assms(1) by (simp add: json_int_def)
    from digits_split [OF this assms(2,3)] neg show ?thesis by linarith
  next
    case pos
    then have "digits (nat i) @ c # r = digits (nat j) @ d # s" using assms(1) by (simp add: json_int_def)
    from digits_split [OF this assms(2,3)] pos show ?thesis by linarith
  next
    case np
    obtain x xs where "digits (nat j) = x # xs" "x \<noteq> CHR ''-''" using start by blast
    then show ?thesis using np assms(1) by (simp add: json_int_def)
  next
    case pn
    obtain x xs where "digits (nat i) = x # xs" "x \<noteq> CHR ''-''" using start by blast
    then show ?thesis using pn assms(1) by (simp add: json_int_def)
  qed
qed

section \<open>Payloads, signing and verification\<close>

definition ps_ok :: "parent_spawn option \<Rightarrow> bool" where
  "ps_ok p = (case p of None \<Rightarrow> True | Some q \<Rightarrow> finite (ps_ancestors q))"

lemma not_decimal: "\<not> decimal (CHR '','')" "\<not> decimal (CHR ''}'')"
  by (simp_all add: decimal_def)

lemma parent_blob_split:
  assumes "ps_ok p" "ps_ok q" "parent_blob p @ r = parent_blob q @ s"
  shows "p = q \<and> r = s"
proof (cases p; cases q)
  fix a b
  assume p: "p = Some a" and q: "q = Some b"
  have e: "ps_agent_name a = ps_agent_name b"
    "sorted_list_of_set (ps_ancestors a) = sorted_list_of_set (ps_ancestors b)"
    "json_int (ps_depth a) @ CHR '','' # json_key ''trace_id'' @ json_string (ps_trace_id a) @ CHR ''}'' # r
      = json_int (ps_depth b) @ CHR '','' # json_key ''trace_id'' @ json_string (ps_trace_id b) @ CHR ''}'' # s"
    using assms(3) by (simp_all add: p q parent_blob_def json_key_def json_string_split json_strings_split)
  have d: "ps_depth a = ps_depth b" "ps_trace_id a = ps_trace_id b" "r = s"
    using json_int_split [OF e(3) not_decimal(1) not_decimal(1)]
    by (simp_all add: json_key_def json_string_split)
  have "ps_ancestors a = ps_ancestors b"
    using e(2) assms(1,2) p q sorted_list_of_set_inject by (auto simp: ps_ok_def)
  then show ?thesis using e(1) d p q by simp
qed (use assms(3) in \<open>simp_all add: parent_blob_def\<close>)

lemma any_key_ok:
  assumes "\<And>k. k \<in> set keys \<Longrightarrow> list_all (\<lambda>c. (of_char c :: nat) < 128) (hmac k text)"
    and "list_all (\<lambda>c. (of_char c :: nat) < 128) expected"
  shows "any_key hmac text expected keys = Inr (\<exists>k\<in>set keys. hmac k text = expected)"
  using assms(1) assms(2) by (induction keys) (auto simp: compare_digest_def)

lemma any_key_raises:
  "keys \<noteq> [] \<Longrightarrow> \<not> list_all (\<lambda>c. (of_char c :: nat) < 128) expected \<Longrightarrow>
   \<exists>e. any_key hmac text expected keys = Inl e \<and> exn_cls e = PyTypeError"
  by (cases keys) (simp_all add: compare_digest_def)

lemma any_key_sound: "any_key hmac text expected keys = Inr True \<Longrightarrow> \<exists>k\<in>set keys. hmac k text = expected"
  by (induction keys) (auto simp: compare_digest_def split: if_splits)

text \<open>
  C18. The bytes a signature covers determine the agent name, the request id and the
  whole lineage of the parent (its name, trace id, depth and ancestor set): no two
  envelopes that differ in one of them have the same signed bytes, so nothing a
  user puts into a name or an id can move a field boundary.
\<close>

theorem signing_payload_injective:
  assumes "ps_ok p" "ps_ok q"
  shows "signing_payload n r p = signing_payload m s q \<longleftrightarrow> n = m \<and> r = s \<and> p = q"
proof
  assume "signing_payload n r p = signing_payload m s q"
  then have "n = m" and
    b: "parent_blob p @ CHR '','' # json_key ''request_id'' @ json_string r @ ''}''
        = parent_blob q @ CHR '','' # json_key ''request_id'' @ json_string s @ ''}''"
    by (simp_all add: signing_payload_def json_key_def json_string_split)
  from parent_blob_split [OF assms b] \<open>n = m\<close> show "n = m \<and> r = s \<and> p = q"
    by (simp add: json_key_def json_string_split)
qed simp

lemma signing_payload_injective_witness:
  "signing_payload ''a'' ''r'' None \<noteq> signing_payload ''a'' ''r'' (Some \<lparr> ps_agent_name = ''p'',
     ps_trace_id = ''t'', ps_depth = 1, ps_ancestors = {''q''} \<rparr>)"
  by (subst signing_payload_injective) (simp_all add: ps_ok_def)

text \<open>
  With any keyed hash that prints ASCII, a worker accepts what a publisher signed
  for its agent exactly when it holds a key giving the same digest, in particular
  while keys are rotated; and it accepts the envelope with any task, batch, task id,
  reply topic and events topic put in place of the signed one.
\<close>

theorem signature_accepted_whatever_the_task:
  assumes "\<And>k text. list_all (\<lambda>c. (of_char c :: nat) < 128) (hmac k text)"
    and "key \<in> set keys"
  shows "verify_task_message hmac name keys
      ((sign_task_message hmac name key msg)\<lparr>tm_task := t, tm_batch_id := b, tm_task_id := i,
         tm_reply_to := r, tm_events_topic := ev\<rparr>) = Inr True"
  using assms(2) by (auto simp: verify_task_message_def sign_task_message_def any_key_ok assms(1))

text \<open>A keyed hash that prints ASCII, for the witnesses: the key and the length of the text.\<close>

definition toy_hmac :: "string \<Rightarrow> string \<Rightarrow> string" where
  "toy_hmac key text = digits (length key) @ ''.'' @ digits (length text)"

lemma toy_hmac_ascii: "list_all (\<lambda>c. (of_char c :: nat) < 128) (toy_hmac k text)"
proof -
  have "decimal c \<Longrightarrow> (of_char c :: nat) < 128" for c by (auto simp: decimal_def)
  then have "list_all (\<lambda>c. (of_char c :: nat) < 128) (digits n)" for n
    by (rule list.pred_mono_strong [OF digits_decimal])
  then show ?thesis by (simp add: toy_hmac_def)
qed

definition sample_envelope :: task_message where
  "sample_envelope = \<lparr> tm_batch_id = ''b'', tm_task_id = ''b-0'', tm_reply_to = ''murmur.results.x'',
     tm_request_id = ''req'',
     tm_task = \<lparr> ts_id = ''t'', ts_request_id = ''req'', ts_input = ''hello'', ts_metadata = [] \<rparr>,
     tm_events_topic = None, tm_parent_spawn = None, tm_signature = None \<rparr>"

lemma signature_accepted_whatever_the_task_witness:
  "verify_task_message toy_hmac ''a'' [''new'', ''old'']
     ((sign_task_message toy_hmac ''a'' ''old'' sample_envelope)\<lparr>
        tm_task := (tm_task sample_envelope)\<lparr>ts_input := ''rm -rf''\<rparr>, tm_batch_id := ''b'', tm_task_id := ''b-0'',
        tm_reply_to := ''murmur.results.evil'', tm_events_topic := None\<rparr>) = Inr True"
  by (rule signature_accepted_whatever_the_task) (simp_all add: toy_hmac_ascii)

text \<open>
  When the keyed hash has no collisions, an accepted envelope was signed under one
  of the worker's keys for this very agent, request id and lineage: a signature
  taken from another envelope is accepted only where those three agree.
\<close>

theorem replayed_signature_fixes_signed_fields:
  assumes "\<And>k l x y. hmac k x = hmac l y \<Longrightarrow> k = l \<and> x = y"
    and "ps_ok (tm_parent_spawn msg)" "ps_ok (tm_parent_spawn other)"
    and "tm_signature msg = tm_signature (sign_task_message hmac name' key other)"
    and "verify_task_message hmac name keys msg = Inr True"
  shows "key \<in> set keys \<and> name = name' \<and> tm_request_id msg = tm_request_id other
    \<and> tm_parent_spawn msg = tm_parent_spawn other"
proof -
  have "\<exists>k\<in>set keys. hmac k (signing_payload name (tm_request_id msg) (tm_parent_spawn msg))
    = hmac key (signing_payload name' (tm_request_id other) (tm_parent_spawn other))"
    using assms(4,5) any_key_sound
    by (auto simp: verify_task_message_def sign_task_message_def split: if_splits)
  then show ?thesis using assms(1) signing_payload_injective [OF assms(2,3)] by metis
qed

text \<open>A collision-free keyed hash for the witness: the key as a JSON string, then the text.\<close>

lemma replayed_signature_fixes_signed_fields_witness:
  "tm_request_id sample_envelope = tm_request_id (sample_envelope\<lparr>tm_batch_id := ''c''\<rparr>)"
proof -
  let ?h = "\<lambda>k x. json_string k @ x"
  let ?m = "sample_envelope\<lparr>tm_signature := tm_signature (sign_task_message ?h ''a'' ''k''
     (sample_envelope\<lparr>tm_batch_id := ''c''\<rparr>))\<rparr>"
  have "verify_task_message ?h ''a'' [''k''] ?m = Inr True" by code_simp
  then show ?thesis
    using replayed_signature_fixes_signed_fields
      [of ?h ?m "sample_envelope\<lparr>tm_batch_id := ''c''\<rparr>" "''a''" "''k''" "''a''" "[''k'']"]
    by (simp add: json_string_split ps_ok_def sample_envelope_def)
qed

end
