(* ===== verification/Collector.thy ===== *)
theory Collector
  imports Messages
begin

text \<open>
  \<open>backends/_collector.py\<close>: the publisher's routing of result envelopes to the batch that
  waits for them.  A batch is registered, then messages arrive in any order and number,
  then its one waiter wakes up (because the batch is done, or because its time is
  up) and reads the slots.
\<close>

section \<open>State and operations\<close>

record batch_state =
  bs_expected :: nat
  bs_results :: "(string, result_message) dict"
  bs_done :: bool

record collector =
  co_started :: bool
  co_pending :: "(string, batch_state) dict"

definition empty_collector :: collector where
  "empty_collector = \<lparr> co_started = False, co_pending = [] \<rparr>"

definition slot_id :: "string \<Rightarrow> nat \<Rightarrow> string" where
  "slot_id batch i = batch @ ''-'' @ digits i"

definition register_batch :: "string \<Rightarrow> nat \<Rightarrow> (collector, exn, unit) eff" where
  "register_batch batch expected c =
    (if dhas (co_pending c) batch then (Inl (Exn SpawnError ''already registered''), c)
     else (Inr (), c\<lparr>co_pending := dset batch
            \<lparr> bs_expected = expected, bs_results = [], bs_done = False \<rparr> (co_pending c)\<rparr>))"

text \<open>An undecodable payload (\<open>None\<close>) and an orphan result are logged and dropped.\<close>

definition on_message :: "result_message option \<Rightarrow> collector \<Rightarrow> collector" where
  "on_message wire c =
    (case wire of
       None \<Rightarrow> c
     | Some msg \<Rightarrow>
        (case dget (co_pending c) (rs_batch_id msg) of
           None \<Rightarrow> c
         | Some st \<Rightarrow>
             let results = dset (rs_task_id msg) msg (bs_results st)
             in c\<lparr>co_pending := dset (rs_batch_id msg)
                   (st\<lparr>bs_results := results,
                       bs_done := bs_done st \<or> bs_expected st \<le> length results\<rparr>) (co_pending c)\<rparr>))"

definition batch_done :: "string \<Rightarrow> collector \<Rightarrow> bool" where
  "batch_done batch c =
    (case dget (co_pending c) batch of None \<Rightarrow> False | Some st \<Rightarrow> bs_done st)"

text \<open>
  \<open>gather_batch\<close> before and after its wait: the state object is looked up first and
  popped in a \<open>finally\<close>.
\<close>

definition gather_begin :: "string \<Rightarrow> (collector, exn, unit) eff" where
  "gather_begin batch c =
    (if dhas (co_pending c) batch then (Inr (), c)
     else (Inl (Exn SpawnError ''was not registered''), c))"

definition gather_end :: "string \<Rightarrow> collector \<Rightarrow> result_message option list \<times> collector" where
  "gather_end batch c =
    ((case dget (co_pending c) batch of
        None \<Rightarrow> []
      | Some st \<Rightarrow> map (\<lambda>i. dget (bs_results st) (slot_id batch i)) [0..<bs_expected st]),
     c\<lparr>co_pending := dpop batch (co_pending c)\<rparr>)"

section \<open>The slots of a batch\<close>

lemma slot_id_inj [simp]: "slot_id b i = slot_id b j \<longleftrightarrow> i = j"
  using digits_inj by (auto simp: slot_id_def)

definition answers :: "string \<Rightarrow> result_message option list \<Rightarrow> result_message list" where
  "answers batch ps = filter (\<lambda>m. rs_batch_id m = batch) (List.map_filter id ps)"

text \<open>The reference: the last answer bearing a task id, and the task ids heard from.\<close>

definition last_answer :: "string \<Rightarrow> result_message list \<Rightarrow> result_message option" where
  "last_answer tid ms = find (\<lambda>m. rs_task_id m = tid) (rev ms)"

lemma last_answer_snoc:
  "last_answer tid (ms @ [m]) = (if rs_task_id m = tid then Some m else last_answer tid ms)"
  by (simp add: last_answer_def)

lemma answers_snoc:
  "answers b (ps @ [p]) = (case p of None \<Rightarrow> answers b ps
     | Some m \<Rightarrow> if rs_batch_id m = b then answers b ps @ [m] else answers b ps)"
  by (cases p) (simp_all add: answers_def List.map_filter_def)

definition batch_view :: "nat \<Rightarrow> result_message list \<Rightarrow> batch_state \<Rightarrow> bool" where
  "batch_view n ms st =
    (bs_expected st = n \<and> dict_ok (bs_results st)
     \<and> fst ` set (bs_results st) = rs_task_id ` set ms
     \<and> (\<forall>tid. dget (bs_results st) tid = last_answer tid ms)
     \<and> (bs_done st \<longleftrightarrow> ms \<noteq> [] \<and> n \<le> card (rs_task_id ` set ms)))"

lemma dict_length_card: "dict_ok d \<Longrightarrow> length d = card (fst ` set d)"
  by (metis dict_ok_def distinct_card length_map set_map)

lemma batch_view_step:
  assumes "batch_view n ms st"
  shows "batch_view n (ms @ [m]) (st\<lparr>bs_results := dset (rs_task_id m) m (bs_results st),
    bs_done := bs_done st \<or> bs_expected st \<le> length (dset (rs_task_id m) m (bs_results st))\<rparr>)"
proof -
  have v: "bs_expected st = n" "dict_ok (bs_results st)"
    "fst ` set (bs_results st) = rs_task_id ` set ms"
    "\<And>tid. dget (bs_results st) tid = last_answer tid ms"
    "bs_done st \<longleftrightarrow> ms \<noteq> [] \<and> n \<le> card (rs_task_id ` set ms)"
    using assms by (simp_all add: batch_view_def)
  have len: "length (dset (rs_task_id m) m (bs_results st)) = card (rs_task_id ` set (ms @ [m]))"
    using dict_length_card [OF dict_ok_dset [OF v(2)], of "rs_task_id m" m] v(3) by simp
  have "card (rs_task_id ` set ms) \<le> card (rs_task_id ` set (ms @ [m]))"
    by (intro card_mono) auto
  then show ?thesis
    unfolding batch_view_def using v len by (auto simp: last_answer_snoc)
qed

lemma collect_view:
  assumes "dget (co_pending c) b = Some st" "batch_view n ms st"
  shows "\<exists>st'. dget (co_pending (on_message p c)) b = Some st'
    \<and> batch_view n (ms @ answers b [p]) st'"
proof (cases p)
  case None
  then show ?thesis using assms by (simp add: on_message_def answers_def List.map_filter_def)
next
  case (Some m)
  show ?thesis
  proof (cases "rs_batch_id m = b")
    case True
    then show ?thesis
      using Some assms batch_view_step [OF assms(2), of m]
      by (simp add: on_message_def answers_def List.map_filter_def Let_def)
  next
    case False
    then show ?thesis
      using Some assms by (auto simp: on_message_def answers_def List.map_filter_def Let_def split: option.split)
  qed
qed

lemma answers_append: "answers b (ps @ qs) = answers b ps @ answers b qs"
  by (simp add: answers_def List.map_filter_def)

lemma collect_all_view:
  assumes "dget (co_pending c) b = Some st" "batch_view n ms st"
  shows "\<exists>st'. dget (co_pending (fold on_message ps c)) b = Some st'
    \<and> batch_view n (ms @ answers b ps) st'"
  using assms
proof (induction ps arbitrary: c st ms)
  case Nil
  then show ?case by (simp add: answers_def List.map_filter_def)
next
  case (Cons p ps)
  from collect_view [OF Cons.prems, of p] obtain st1 where
    "dget (co_pending (on_message p c)) b = Some st1" "batch_view n (ms @ answers b [p]) st1" by blast
  from Cons.IH [OF this] show ?case using answers_append [of b "[p]" ps] by simp
qed

text \<open>
  Whatever arrives on the reply topic between the registration of a batch and the
  end of its wait (answers in any order, repeated answers, answers of other batches,
  undecodable payloads), the waiter gets one entry per expected slot, in slot order:
  the last answer bearing that slot's task id, or \<open>None\<close> when there was none.
  The wait ends before the timeout exactly when as many distinct task ids as the
  batch has slots have answered, and the batch is forgotten.
\<close>

theorem collector_routes_by_slot:
  assumes "register_batch b n c = (Inr (), c1)" "dict_ok (co_pending c)"
    and ps: "c2 = fold on_message ps c1"
  shows "fst (gather_end b c2) = map (\<lambda>i. last_answer (slot_id b i) (answers b ps)) [0..<n]
    \<and> (batch_done b c2 \<longleftrightarrow> answers b ps \<noteq> [] \<and> n \<le> card (rs_task_id ` set (answers b ps)))
    \<and> \<not> dhas (co_pending (snd (gather_end b c2))) b"
proof -
  let ?st = "\<lparr> bs_expected = n, bs_results = [], bs_done = False \<rparr>"
  have fresh: "\<not> dhas (co_pending c) b" and c1: "c1 = c\<lparr>co_pending := dset b ?st (co_pending c)\<rparr>"
    using assms(1) by (auto simp: register_batch_def split: if_splits)
  have "dget (co_pending c1) b = Some ?st" using c1 by simp
  moreover have "batch_view n [] ?st" by (simp add: batch_view_def last_answer_def)
  ultimately obtain st where st: "dget (co_pending c2) b = Some st" "batch_view n (answers b ps) st"
    using collect_all_view [of c1 b ?st n "[]" ps] ps by auto
  have ok: "dict_ok (co_pending (on_message p d))" if "dict_ok (co_pending d)" for p d
    using that by (auto simp: on_message_def Let_def split: option.split)
  have "dict_ok (co_pending (fold on_message qs d))" if "dict_ok (co_pending d)" for qs d
    using that ok by (induction qs arbitrary: d) simp_all
  then have "dict_ok (co_pending c2)" using assms(2) c1 ps by simp
  then have "dget (dpop b (co_pending c2)) b = None" by simp
  then show ?thesis using st by (simp add: gather_end_def batch_done_def batch_view_def dhas_def del: dhas_iff)
qed

definition sample_answer :: "string \<Rightarrow> string \<Rightarrow> bool \<Rightarrow> result_message" where
  "sample_answer b tid ok = \<lparr> rs_batch_id = b, rs_task_id = tid, rs_request_id = ''r'', rs_success = ok,
     rs_output = None, rs_error = None, rs_duration_ms = 0, rs_tokens_used = 0, rs_backend = '''',
     rs_agent_name = ''a'' \<rparr>"

lemma collector_routes_by_slot_witness:
  "fst (gather_end ''b'' (fold on_message [Some (sample_answer ''b'' ''b-1'' True), None,
      Some (sample_answer ''z'' ''b-0'' True)]
      (snd (register_batch ''b'' 2 empty_collector))))
    = [None, Some (sample_answer ''b'' ''b-1'' True)]"
proof -
  have "register_batch ''b'' 2 empty_collector = (Inr (), snd (register_batch ''b'' 2 empty_collector))"
    by (simp add: register_batch_def empty_collector_def)
  moreover have "dict_ok (co_pending empty_collector)" by (simp add: empty_collector_def)
  moreover have "map (\<lambda>i. last_answer (slot_id ''b'' i) (answers ''b'' [Some (sample_answer ''b'' ''b-1'' True), None,
      Some (sample_answer ''z'' ''b-0'' True)])) [0..<2] = [None, Some (sample_answer ''b'' ''b-1'' True)]"
    by code_simp
  ultimately show ?thesis using collector_routes_by_slot [OF _ _ refl] by metis
qed

end
