(* ===== verification/Job_Backend.thy ===== *)
theory Job_Backend
  imports Runtime Broker Collector
begin

text \<open>
  \<open>backends/job.py\<close>: the publisher side of distributed execution, over the in-memory
  broker and the result collector.  The await of \<open>gather_batch\<close> (what the network and the
  workers do to the shared state until the batch is done or its timeout fires) is an
  argument of the model, and so are Pydantic's validation of an output payload and
  the keyed hash.  Identifiers are a counter in decimal.
\<close>

section \<open>Configuration and state\<close>

record job_state =
  jb_started :: bool
  jb_next :: nat
  jb_cache :: "(string, agent_result) dict"
  jb_handles :: "(string, agent \<times> task_spec) dict"
  jb_collector :: collector
  jb_broker :: "(handler, wire_payload) broker"

record job_config =
  jc_runtime_id :: string
  jc_broker_url :: "string option"
  jc_broker_scheme :: "string option"
  jc_transport_url :: "string option"
  jc_default_timeout :: "rat option"
  jc_publish_events :: bool
  jc_has_emitter :: bool
  jc_signing_key :: "string option"
  jc_hmac :: "string \<Rightarrow> string \<Rightarrow> string"
  jc_validate :: "string \<Rightarrow> (string, pyval) dict \<Rightarrow> exn + pyval"
  jc_wait :: "string \<Rightarrow> rat option \<Rightarrow> (job_state rt, exn, unit) eff"

definition job_init :: "job_config \<Rightarrow> exn + job_config \<times> job_state" where
  "job_init cfg =
    (if jc_publish_events cfg \<and> \<not> jc_has_emitter cfg
     then Inl (Exn SpawnError ''publish_events=True requires event_emitter='')
     else Inr (cfg, \<lparr> jb_started = False, jb_next = 0, jb_cache = [], jb_handles = [],
                  jb_collector = empty_collector, jb_broker = empty_broker \<rparr>))"

definition on_job :: "(job_state, exn, 'a) eff \<Rightarrow> (job_state rt, exn, 'a) eff" where
  "on_job m s = (case m (backend_st s) of (r, j) \<Rightarrow> (r, s\<lparr>backend_st := j\<rparr>))"

definition on_collector :: "(collector, exn, 'a) eff \<Rightarrow> (job_state, exn, 'a) eff" where
  "on_collector m j = (case m (jb_collector j) of (r, c) \<Rightarrow> (r, j\<lparr>jb_collector := c\<rparr>))"

definition on_broker :: "((handler, wire_payload) broker, exn, 'a) eff \<Rightarrow> (job_state, exn, 'a) eff" where
  "on_broker m j = (case m (jb_broker j) of (r, b) \<Rightarrow> (r, j\<lparr>jb_broker := b\<rparr>))"

section \<open>Lifecycle\<close>

definition collector_start :: "job_config \<Rightarrow> job_state \<Rightarrow> job_state" where
  "collector_start cfg j =
    (if co_started (jb_collector j) then j
     else j\<lparr>jb_broker := broker_subscribe (result_topic (jc_runtime_id cfg)) CollectorHandler None (jb_broker j),
            jb_collector := (jb_collector j)\<lparr>co_started := True\<rparr>\<rparr>)"

definition job_start :: "job_config \<Rightarrow> job_state \<Rightarrow> job_state" where
  "job_start cfg j =
    (if jb_started j then j
     else let j1 = collector_start cfg (j\<lparr>jb_broker := broker_start (jb_broker j)\<rparr>);
              j2 = (if jc_publish_events cfg
                    then j1\<lparr>jb_broker := broker_subscribe (events_topic (jc_runtime_id cfg)) EventHandler None
                            (jb_broker j1)\<rparr>
                    else j1)
          in j2\<lparr>jb_started := True\<rparr>)"

definition job_stop :: "job_state \<Rightarrow> job_state" where
  "job_stop j = j\<lparr>jb_broker := broker_stop (jb_broker j), jb_started := False\<rparr>"

section \<open>Helpers of a publication\<close>

definition job_backend_name :: string where
  "job_backend_name = ''job''"

definition events_topic_for_publish :: "job_config \<Rightarrow> string option" where
  "events_topic_for_publish cfg =
    (if jc_publish_events cfg then Some (events_topic (jc_runtime_id cfg)) else None)"

definition maybe_sign :: "job_config \<Rightarrow> string \<Rightarrow> task_message \<Rightarrow> task_message" where
  "maybe_sign cfg name msg =
    (case jc_signing_key cfg of
       None \<Rightarrow> msg
     | Some key \<Rightarrow> sign_task_message (jc_hmac cfg) name key msg)"

text \<open>\<open>url or scheme\<close>: an empty string counts as absent.\<close>

definition or_else :: "string option \<Rightarrow> string option \<Rightarrow> string option" where
  "or_else u v = (case u of None \<Rightarrow> v | Some x \<Rightarrow> if x = [] then v else u)"

definition opt_str :: "string option \<Rightarrow> pyval" where
  "opt_str u = (case u of None \<Rightarrow> VNone | Some x \<Rightarrow> VStr x)"

definition broker_label :: "job_config \<Rightarrow> string option" where
  "broker_label cfg =
    (case jc_broker_url cfg of
       None \<Rightarrow> or_else (jc_transport_url cfg) (jc_broker_scheme cfg)
     | Some u \<Rightarrow> Some u)"

definition emit_dispatched :: "job_config \<Rightarrow> agent \<Rightarrow> task_spec \<Rightarrow> (job_state rt, exn, unit) eff" where
  "emit_dispatched cfg a t s =
    (if \<not> jc_has_emitter cfg then (Inr (), s)
     else emit \<lparr> event_type = AGENT_DISPATCHED, timestamp = now s, ev_agent_name = a_name a,
            ev_task_id = Some (ts_id t), ev_trace_id = ts_request_id t, ev_parent_trace_id = None,
            payload = [(''backend'', VStr job_backend_name), (''broker'', opt_str (broker_label cfg)),
                       (''trust_level'', VStr (trust_value (trust_level a)))] \<rparr> s)"

definition on_event_message :: "job_config \<Rightarrow> wire_payload \<Rightarrow> job_state rt \<Rightarrow> job_state rt" where
  "on_event_message cfg w s =
    (if \<not> jc_has_emitter cfg then s
     else case w of EventWire e \<Rightarrow> snd (emit e s) | _ \<Rightarrow> s)"

definition parent_spawn_from_context :: "agent_context \<Rightarrow> parent_spawn option" where
  "parent_spawn_from_context ctx =
    (case (parent_agent ctx, parent_trace_id ctx) of
       (Some p, Some tr) \<Rightarrow>
         Some \<lparr> ps_agent_name = p, ps_trace_id = tr, ps_depth = max (depth ctx - 1) 0,
                ps_ancestors = ancestors ctx - {p} \<rparr>
     | _ \<Rightarrow> None)"

definition nonempty_or :: "string \<Rightarrow> string \<Rightarrow> string" where
  "nonempty_or x d = (if x = [] then d else x)"

definition failed_result :: "agent \<Rightarrow> string \<Rightarrow> result_metadata \<Rightarrow> exn \<Rightarrow> agent_result" where
  "failed_result a task_id md e =
    \<lparr> ar_output = None, ar_error = Some e, ar_metadata = md, ar_agent_name = a_name a, ar_task_id = task_id \<rparr>"

definition msg_to_result ::
  "job_config \<Rightarrow> agent \<Rightarrow> string \<Rightarrow> result_message option \<Rightarrow> exn + agent_result" where
  "msg_to_result cfg a task_id m =
    (case m of
       None \<Rightarrow> Inr (failed_result a task_id (default_metadata\<lparr>rm_backend := ''job''\<rparr>)
                 (Exn SpawnError (task_id @ '' did not complete (broker timeout)'')))
     | Some msg \<Rightarrow>
        let md = default_metadata\<lparr>duration_ms := rs_duration_ms msg, tokens_used := rs_tokens_used msg,
                   rm_backend := nonempty_or (rs_backend msg) ''job''\<rparr>
        in (case (rs_success msg, rs_output msg) of
              (True, Some fs) \<Rightarrow>
                (case jc_validate cfg (output_type a) fs of
                   Inl e \<Rightarrow> Inl e
                 | Inr out \<Rightarrow> Inr \<lparr> ar_output = Some out, ar_error = None, ar_metadata = md,
                                    ar_agent_name = a_name a, ar_task_id = task_id \<rparr>)
            | _ \<Rightarrow> Inr (failed_result a task_id md (Exn SpawnError
                     (case rs_error msg of None \<Rightarrow> ''agent failed'' | Some x \<Rightarrow> nonempty_or x ''agent failed'')))))"

definition task_envelope ::
  "job_config \<Rightarrow> string \<Rightarrow> nat \<Rightarrow> parent_spawn option \<Rightarrow> agent \<Rightarrow> task_spec \<Rightarrow> task_message" where
  "task_envelope cfg batch i ps a t =
    maybe_sign cfg (a_name a)
      \<lparr> tm_batch_id = batch, tm_task_id = slot_id batch i,
        tm_reply_to = result_topic (jc_runtime_id cfg), tm_request_id = ts_request_id t, tm_task = t,
        tm_events_topic = events_topic_for_publish cfg, tm_parent_spawn = ps, tm_signature = None \<rparr>"

definition publish_task :: "agent \<Rightarrow> task_message \<Rightarrow> (job_state rt, exn, unit) eff" where
  "publish_task a msg = on_job (on_broker (broker_publish (task_topic (a_name a)) (TaskWire msg)))"

definition next_id :: "(job_state rt, exn, string) eff" where
  "next_id = on_job (\<lambda>j. (Inr (digits (jb_next j)), j\<lparr>jb_next := Suc (jb_next j)\<rparr>))"

section \<open>One task\<close>

definition job_spawn ::
  "job_config \<Rightarrow> agent \<Rightarrow> task_spec \<Rightarrow> agent_context \<Rightarrow> (job_state rt, exn, agent_handle) eff" where
  "job_spawn cfg a t ctx =
    bnd (on_job (modify (job_start cfg))) (\<lambda>_.
    bnd next_id (\<lambda>batch.
    bnd (on_job (on_collector (register_batch batch 1))) (\<lambda>_.
    bnd (on_job (modify (\<lambda>j. j\<lparr>jb_handles := dset batch (a, t) (jb_handles j)\<rparr>))) (\<lambda>_.
    bnd (emit_dispatched cfg a t) (\<lambda>_.
    bnd (publish_task a (task_envelope cfg batch 0 (parent_spawn_from_context ctx) a t)) (\<lambda>_.
    ret \<lparr> handle_id = batch, ah_agent_name = a_name a, ah_task_id = ts_id t,
          ah_backend = job_backend_name \<rparr>))))))"

datatype job_status = JobRunning | JobCompleted | JobFailed

definition job_status :: "agent_handle \<Rightarrow> (job_state rt, exn, job_status) eff" where
  "job_status h = on_job (\<lambda>j.
    (case dget (jb_cache j) (handle_id h) of
       Some r \<Rightarrow> (Inr (if is_ok r then JobCompleted else JobFailed), j)
     | None \<Rightarrow>
        if \<not> dhas (jb_handles j) (handle_id h) then (Inl (Exn SpawnError ''unknown handle''), j)
        else (Inr JobRunning, j)))"

definition job_killed :: "agent \<Rightarrow> task_spec \<Rightarrow> agent_result" where
  "job_killed a t = failed_result a (ts_id t) (default_metadata\<lparr>rm_backend := job_backend_name\<rparr>)
     (Exn SpawnError (a_name a @ '' was killed''))"

definition job_kill :: "agent_handle \<Rightarrow> (job_state rt, exn, unit) eff" where
  "job_kill h = on_job (\<lambda>j.
    (if dhas (jb_cache j) (handle_id h) then (Inr (), j)
     else case dget (jb_handles j) (handle_id h) of
       None \<Rightarrow> (Inr (), j)
     | Some (a, t) \<Rightarrow>
         (Inr (), j\<lparr>jb_handles := dpop (handle_id h) (jb_handles j),
                    jb_cache := dset (handle_id h) (job_killed a t) (jb_cache j)\<rparr>)))"

text \<open>\<open>gather_batch\<close> around its await; the batch is popped even when the await is cancelled.\<close>

definition await_batch :: "job_config \<Rightarrow> string \<Rightarrow> (job_state rt, exn, result_message option list) eff" where
  "await_batch cfg batch =
    bnd (on_job (on_collector (gather_begin batch))) (\<lambda>_ s.
      case jc_wait cfg batch (jc_default_timeout cfg) s of
        (r, u) \<Rightarrow>
          (case gather_end batch (jb_collector (backend_st u)) of
             (slots, c) \<Rightarrow>
               ((case r of Inl e \<Rightarrow> Inl e | Inr _ \<Rightarrow> Inr slots),
                u\<lparr>backend_st := (backend_st u)\<lparr>jb_collector := c\<rparr>\<rparr>)))"

definition job_result :: "job_config \<Rightarrow> agent_handle \<Rightarrow> (job_state rt, exn, agent_result) eff" where
  "job_result cfg h s =
    (case dget (jb_cache (backend_st s)) (handle_id h) of
       Some r \<Rightarrow> (Inr r, s)
     | None \<Rightarrow>
        (case dget (jb_handles (backend_st s)) (handle_id h) of
           None \<Rightarrow> (Inl (Exn SpawnError ''unknown handle''), s)
         | Some (a, t) \<Rightarrow>
             bnd (await_batch cfg (handle_id h)) (\<lambda>slots u.
               case msg_to_result cfg a (ts_id t) (case slots of [] \<Rightarrow> None | m # _ \<Rightarrow> m) of
                 Inl e \<Rightarrow> (Inl e, u)
               | Inr r \<Rightarrow>
                   (Inr r, u\<lparr>backend_st := (backend_st u)
                       \<lparr>jb_cache := dset (handle_id h) r (jb_cache (backend_st u)),
                        jb_handles := dpop (handle_id h) (jb_handles (backend_st u))\<rparr>\<rparr>)) s))"

section \<open>A batch\<close>

fun publish_batch ::
  "job_config \<Rightarrow> string \<Rightarrow> nat \<Rightarrow> parent_spawn option \<Rightarrow> agent \<Rightarrow> task_spec list \<Rightarrow> (job_state rt, exn, unit) eff" where
  "publish_batch cfg batch i ps a [] = ret ()"
| "publish_batch cfg batch i ps a (t # ts) =
    bnd (emit_dispatched cfg a t) (\<lambda>_.
    bnd (publish_task a (task_envelope cfg batch i ps a t)) (\<lambda>_.
    publish_batch cfg batch (Suc i) ps a ts))"

fun results_of_slots ::
  "job_config \<Rightarrow> agent \<Rightarrow> task_spec list \<Rightarrow> result_message option list \<Rightarrow> exn + agent_result list" where
  "results_of_slots cfg a [] slots = Inr []"
| "results_of_slots cfg a (t # ts) slots =
    (case msg_to_result cfg a (ts_id t) (hd slots) of
       Inl e \<Rightarrow> Inl e
     | Inr r \<Rightarrow>
        (case results_of_slots cfg a ts (tl slots) of
           Inl e \<Rightarrow> Inl e
         | Inr rs \<Rightarrow> Inr (r # rs)))"

definition job_gather ::
  "job_config \<Rightarrow> agent \<Rightarrow> task_spec list \<Rightarrow> agent_context option \<Rightarrow> int
    \<Rightarrow> (job_state rt, exn, agent_result list) eff" where
  "job_gather cfg a tasks ctx mc =
    (if tasks = [] then ret []
     else
       bnd (on_job (modify (job_start cfg))) (\<lambda>_.
       bnd next_id (\<lambda>batch.
       bnd (on_job (on_collector (register_batch batch (length tasks)))) (\<lambda>_.
       bnd (publish_batch cfg batch 0
              (case ctx of None \<Rightarrow> None | Some c \<Rightarrow> parent_spawn_from_context c) a tasks) (\<lambda>_.
       bnd (await_batch cfg batch) (\<lambda>slots u.
       (results_of_slots cfg a tasks slots, u)))))))"

definition job_backend :: "job_config \<Rightarrow> job_state backend" where
  "job_backend cfg =
    \<lparr> be_name = ''JobBackend'', be_spawn = job_spawn cfg, be_result = job_result cfg,
      be_gather = Some (\<lambda>a ts ctx mc. job_gather cfg a ts (Some ctx) mc) \<rparr>"

end
