(* ===== verification/Worker.thy ===== *)
theory Worker
  imports Runtime Broker Messages
begin

text \<open>
  \<open>worker/worker.py\<close>: construction, lifecycle and the handler of a task message.  The
  worker's own runtime is a runtime of the model over its own state; what a handler
  publishes is the value it returns.  The user's hooks are arguments (an exception
  or nothing), \<open>perf_counter\<close> is the model clock, and the worker semaphore only orders
  handlers in time.
\<close>

section \<open>Construction\<close>

text \<open>A key that is not \<open>bytes\<close> is \<open>None\<close>.\<close>

datatype key_argument = NoKey | OneKey string | KeyTuple "string option list"

record 'b worker_config =
  wc_agents :: "(string, agent) dict"
  wc_runtime :: "'b runtime"
  wc_concurrency :: int
  wc_prefetch :: int
  wc_consumer_id :: string
  wc_signing_keys :: "string list option"
  wc_heartbeat_seconds :: rat
  wc_reclaim_min_idle_ms :: "int option"
  wc_broker_scheme :: "string option"
  wc_hmac :: "string \<Rightarrow> string \<Rightarrow> string"
  wc_on_start :: "(string \<Rightarrow> string \<Rightarrow> exn option) option"
  wc_on_complete :: "(string \<Rightarrow> string \<Rightarrow> int \<Rightarrow> exn option) option"
  wc_on_error :: "(string \<Rightarrow> string \<Rightarrow> exn \<Rightarrow> exn option) option"

definition normalise_keys :: "key_argument \<Rightarrow> exn + string list option" where
  "normalise_keys ks =
    (case ks of
       NoKey \<Rightarrow> Inr None
     | OneKey k \<Rightarrow>
        if k = [] then Inl (Exn SpecValidationError ''signing_key must be non-empty bytes'')
        else Inr (Some [k])
     | KeyTuple ks \<Rightarrow>
        if ks = [] then Inl (Exn SpecValidationError ''signing_key tuple must contain at least one key'')
        else if \<not> list_all (\<lambda>k. k \<noteq> None \<and> k \<noteq> Some []) ks
        then Inl (Exn SpecValidationError ''every key in signing_key must be non-empty bytes'')
        else Inr (Some (map the ks)))"

definition worker_init ::
  "(string, agent) dict \<Rightarrow> 'b runtime \<Rightarrow> int \<Rightarrow> int \<Rightarrow> string option \<Rightarrow> key_argument \<Rightarrow> rat \<Rightarrow> int option
    \<Rightarrow> string option \<Rightarrow> (string \<Rightarrow> string \<Rightarrow> string) \<Rightarrow> exn + 'b worker_config" where
  "worker_init agents R concurrency prefetch consumer ks heartbeat reclaim scheme hmac =
    (if agents = [] then Inl (Exn SpecValidationError ''Worker requires at least one agent'')
     else if concurrency < 1 then Inl (Exn SpecValidationError ''concurrency must be >= 1'')
     else if prefetch < 1 then Inl (Exn SpecValidationError ''prefetch must be >= 1'')
     else if heartbeat < 0 then Inl (Exn SpecValidationError ''heartbeat_seconds must be >= 0'')
     else if (case reclaim of None \<Rightarrow> False | Some ms \<Rightarrow> ms < 0)
     then Inl (Exn SpecValidationError ''reclaim_min_idle_ms must be >= 0'')
     else case normalise_keys ks of
       Inl e \<Rightarrow> Inl e
     | Inr keys \<Rightarrow> Inr \<lparr> wc_agents = agents, wc_runtime = R, wc_concurrency = concurrency,
         wc_prefetch = prefetch,
         wc_consumer_id = (case consumer of None \<Rightarrow> r_id R | Some c \<Rightarrow> c),
         wc_signing_keys = keys, wc_heartbeat_seconds = heartbeat, wc_reclaim_min_idle_ms = reclaim,
         wc_broker_scheme = scheme, wc_hmac = hmac,
         wc_on_start = None, wc_on_complete = None, wc_on_error = None \<rparr>)"

section \<open>Lifecycle\<close>

record 'b worker_state =
  ws_rt :: "'b rt"
  ws_active :: "(string, unit) dict"
  ws_started :: bool
  ws_heartbeat :: bool

definition on_rt :: "('b rt, exn, 'a) eff \<Rightarrow> ('b worker_state, exn, 'a) eff" where
  "on_rt m w = (case m (ws_rt w) of (r, s) \<Rightarrow> (r, w\<lparr>ws_rt := s\<rparr>))"

definition optional :: "('a \<Rightarrow> pyval) \<Rightarrow> 'a option \<Rightarrow> pyval" where
  "optional f x = (case x of None \<Rightarrow> VNone | Some y \<Rightarrow> f y)"

definition worker_event ::
  "'b worker_config \<Rightarrow> event_type \<Rightarrow> (string, pyval) dict \<Rightarrow> 'b rt \<Rightarrow> runtime_event" where
  "worker_event C ty pl s =
    \<lparr> event_type = ty, timestamp = now s, ev_agent_name = r_id (wc_runtime C), ev_task_id = None,
      ev_trace_id = r_id (wc_runtime C), ev_parent_trace_id = None, payload = pl \<rparr>"

definition emit_worker_event ::
  "'b worker_config \<Rightarrow> event_type \<Rightarrow> (string, pyval) dict \<Rightarrow> 'b worker_state \<Rightarrow> 'b worker_state" where
  "emit_worker_event C ty pl w = snd (on_rt (\<lambda>s. emit (worker_event C ty pl s) s) w)"

definition subscribe_agents ::
  "nat \<Rightarrow> 'b worker_config \<Rightarrow> (handler, 'm) broker \<Rightarrow> (handler, 'm) broker" where
  "subscribe_agents wid C b =
    fold (\<lambda>name. broker_subscribe (task_topic name) (WorkerHandler wid name) (Some (task_topic name)))
      (dkeys (wc_agents C)) b"

definition worker_start ::
  "nat \<Rightarrow> 'b worker_config \<Rightarrow> 'b worker_state \<Rightarrow> (handler, 'm) broker
    \<Rightarrow> 'b worker_state \<times> (handler, 'm) broker" where
  "worker_start wid C w b =
    (if ws_started w then (w, b)
     else (emit_worker_event C WORKER_STARTED
             [(''runtime_id'', VStr (r_id (wc_runtime C))),
              (''agents'', VList (map VStr (dkeys (wc_agents C)))),
              (''broker_scheme'', optional VStr (wc_broker_scheme C)),
              (''concurrency'', VInt (wc_concurrency C)), (''prefetch'', VInt (wc_prefetch C)),
              (''consumer_id'', VStr (wc_consumer_id C)),
              (''heartbeat_seconds'', VFloat (wc_heartbeat_seconds C))]
             (w\<lparr>ws_started := True, ws_heartbeat := (wc_heartbeat_seconds C > 0)\<rparr>),
           subscribe_agents wid C (broker_start b)))"

definition worker_heartbeat :: "'b worker_config \<Rightarrow> 'b worker_state \<Rightarrow> 'b worker_state" where
  "worker_heartbeat C w =
    (if \<not> ws_heartbeat w then w
     else emit_worker_event C WORKER_HEARTBEAT
       [(''agent_subscriptions'', VList (map VStr (dkeys (wc_agents C)))),
        (''in_flight'', VInt (int (length (ws_active w)))),
        (''concurrency_cap'', VInt (wc_concurrency C)),
        (''broker_scheme'', optional VStr (wc_broker_scheme C)),
        (''runtime_id'', VStr (r_id (wc_runtime C)))] w)"

text \<open>The drain: the handlers in flight end first (\<open>drain\<close> is what they do to the state).\<close>

definition worker_stop ::
  "'b worker_config \<Rightarrow> ('b worker_state \<Rightarrow> 'b worker_state) \<Rightarrow> 'b worker_state \<Rightarrow> (handler, 'm) broker
    \<Rightarrow> 'b worker_state \<times> (handler, 'm) broker" where
  "worker_stop C drain w b =
    (if \<not> ws_started w then (w, b)
     else let w1 = emit_worker_event C WORKER_STOPPED
                [(''runtime_id'', VStr (r_id (wc_runtime C))),
                 (''agents'', VList (map VStr (dkeys (wc_agents C)))),
                 (''broker_scheme'', optional VStr (wc_broker_scheme C))] w;
              w2 = w1\<lparr>ws_heartbeat := False\<rparr>;
              w3 = (if ws_active w2 = [] then w2 else drain w2)
          in (w3\<lparr>ws_started := False\<rparr>, broker_stop b))"

definition broker_repr :: "string option \<Rightarrow> string option \<Rightarrow> string \<Rightarrow> string" where
  "broker_repr scheme url cls =
    (case (scheme, url) of
       (Some (c # cs), Some (d # ds)) \<Rightarrow>
         (let pre = (c # cs) @ ''://'' in if take (length pre) (d # ds) = pre then d # ds else pre @ d # ds)
     | (_, Some (d # ds)) \<Rightarrow> d # ds
     | _ \<Rightarrow> if cls = ''InMemoryBroker'' then ''memory://'' else cls)"

section \<open>The handler\<close>

text \<open>\<open>model_dump()\<close>: nested models become dicts.\<close>

fun dump_value :: "pyval \<Rightarrow> pyval" where
  "dump_value (VList xs) = VList (map dump_value xs)"
| "dump_value (VDict fs) = VDict (map (\<lambda>p. (fst p, dump_value (snd p))) fs)"
| "dump_value (VModel n fs) = VDict (map (\<lambda>p. (fst p, dump_value (snd p))) fs)"
| "dump_value v = v"

definition model_dump :: "pyval \<Rightarrow> exn + (string, pyval) dict" where
  "model_dump v =
    (case v of
       VModel n fs \<Rightarrow> Inr (map (\<lambda>p. (fst p, dump_value (snd p))) fs)
     | _ \<Rightarrow> Inl (Exn (PyOther ''AttributeError'') ''model_dump''))"

definition parent_frame :: "parent_spawn \<Rightarrow> spawn_frame" where
  "parent_frame p =
    \<lparr> sf_agent_name = ps_agent_name p,
      sf_agent_context = default_context\<lparr>depth := ps_depth p, ancestors := ps_ancestors p\<rparr>,
      sf_trace_id = ps_trace_id p \<rparr>"

definition message_frame :: "task_message \<Rightarrow> spawn_frame option" where
  "message_frame msg = map_option parent_frame (tm_parent_spawn msg)"

definition failure_message :: "string \<Rightarrow> task_message \<Rightarrow> string \<Rightarrow> result_message" where
  "failure_message name msg err =
    \<lparr> rs_batch_id = tm_batch_id msg, rs_task_id = tm_task_id msg, rs_request_id = tm_request_id msg,
      rs_success = False, rs_output = None, rs_error = Some err, rs_duration_ms = 0, rs_tokens_used = 0,
      rs_backend = [], rs_agent_name = name \<rparr>"

definition result_to_message ::
  "string \<Rightarrow> task_message \<Rightarrow> agent_result \<Rightarrow> exn + result_message" where
  "result_to_message name msg r =
    (let base = (failure_message name msg (case ar_error r of None \<Rightarrow> ''agent failed'' | Some e \<Rightarrow> exn_msg e))
                \<lparr>rs_duration_ms := duration_ms (ar_metadata r),
                 rs_tokens_used := tokens_used (ar_metadata r), rs_backend := rm_backend (ar_metadata r)\<rparr>
     in case (is_ok r, ar_output r) of
          (True, Some v) \<Rightarrow>
            (case model_dump v of
               Inl e \<Rightarrow> Inl e
             | Inr fs \<Rightarrow> Inr (base\<lparr>rs_success := True, rs_output := Some fs, rs_error := None\<rparr>))
        | _ \<Rightarrow> Inr base)"

definition call_hook :: "('a \<Rightarrow> exn option) option \<Rightarrow> 'a \<Rightarrow> ('s, exn, unit) eff" where
  "call_hook h x = (case h of None \<Rightarrow> ret ()
     | Some f \<Rightarrow> (case f x of None \<Rightarrow> ret () | Some e \<Rightarrow> raise e))"

definition task_body ::
  "'b worker_config \<Rightarrow> string \<Rightarrow> agent \<Rightarrow> task_message \<Rightarrow> ('b rt, exn, result_message) eff" where
  "task_body C name a msg =
    bnd (gets now) (\<lambda>start.
    bnd (call_hook (map_option (\<lambda>f (i, n). f i n) (wc_on_start C)) (tm_task_id msg, name)) (\<lambda>_.
    bnd (run (wc_runtime C) (ByAgent a) (tm_task msg)) (\<lambda>r.
    bnd (gets now) (\<lambda>stop.
    bnd (call_hook (map_option (\<lambda>f (i, n, d). f i n d) (wc_on_complete C))
           (tm_task_id msg, name, \<lfloor>(stop - start) * 1000\<rfloor>)) (\<lambda>_ s.
    (result_to_message name msg r, s))))))"

definition answer_task ::
  "'b worker_config \<Rightarrow> string \<Rightarrow> agent \<Rightarrow> task_message \<Rightarrow> ('b rt, exn, result_message) eff" where
  "answer_task C name a msg s =
    (case task_body C name a msg s of
       (Inr m, u) \<Rightarrow> (Inr m, u)
     | (Inl e, u) \<Rightarrow>
         if isinstance e PyException
         then bnd (call_hook (map_option (\<lambda>f (i, n, x). f i n x) (wc_on_error C)) (tm_task_id msg, name, e))
                (\<lambda>_. ret (failure_message name msg (exn_msg e))) u
         else (Inl e, u))"

text \<open>\<open>_run_one\<close>: its value is the topic and the envelope it publishes last.\<close>

definition run_one ::
  "'b worker_config \<Rightarrow> string \<Rightarrow> task_message \<Rightarrow> ('b rt, exn, string \<times> result_message) eff" where
  "run_one C name msg s =
    (case dget (wc_agents C) name of
       None \<Rightarrow> (Inl (Exn PyKeyError name), s)
     | Some a \<Rightarrow>
        (case (case wc_signing_keys C of
                 None \<Rightarrow> Inr True
               | Some keys \<Rightarrow> verify_task_message (wc_hmac C) name keys msg) of
           Inl e \<Rightarrow> (Inl e, s)
         | Inr False \<Rightarrow>
             (Inr (tm_reply_to msg, failure_message name msg ''signature verification failed''), s)
         | Inr True \<Rightarrow>
             bnd (with_frame (message_frame msg) (answer_task C name a msg))
               (\<lambda>m. ret (tm_reply_to msg, m)) s))"

definition worker_handler ::
  "'b worker_config \<Rightarrow> string \<Rightarrow> wire_payload
    \<Rightarrow> ('b worker_state, exn, (string \<times> result_message) option) eff" where
  "worker_handler C name w s =
    (case w of
       TaskWire msg \<Rightarrow>
         finally_do (bnd (on_rt (run_one C name msg)) (\<lambda>x. ret (Some x)))
           (\<lambda>u. u\<lparr>ws_active := dpop (tm_task_id msg) (ws_active u)\<rparr>)
           (s\<lparr>ws_active := dset (tm_task_id msg) () (ws_active s)\<rparr>)
     | _ \<Rightarrow> (Inr None, s))"

end
