(* ===== verification/Distributed.thy ===== *)
theory Distributed
  imports Job_Backend Worker Runtime_Safety
begin

text \<open>
  The distributed run as a whole: the lineage of a spawn across the broker, the
  worker's answer to every message, the publisher's reading of it, and the network
  of a publisher, a broker and a fleet of workers as a step relation.
\<close>

section \<open>A sample deployment\<close>

text \<open>A worker for agent \<open>a\<close> whose runs succeed, a publisher that validates by rebuilding the model.\<close>

definition desk_runtime :: "unit runtime" where
  "desk_runtime =
    \<lparr> r_options = default_options, r_registry = None,
      r_backend = \<lparr> be_name = ''desk'',
        be_spawn = (\<lambda>a t ctx. ret \<lparr> handle_id = ts_id t, ah_agent_name = a_name a,
                                 ah_task_id = ts_id t, ah_backend = ''desk'' \<rparr>),
        be_result = (\<lambda>h. ret ((sample_result (ah_agent_name h) (ah_task_id h) 7)
                           \<lparr>ar_metadata := default_metadata\<lparr>tokens_used := 7, rm_backend := ''desk''\<rparr>\<rparr>)),
        be_gather = None \<rparr>,
      r_id = ''w0'', r_user_passer = (\<lambda>n c t. Inr c), r_mcp_start = (\<lambda>cs p. None) \<rparr>"

definition desk_rt :: "'b \<Rightarrow> 'b rt" where
  "desk_rt b = \<lparr> now = 0, cancel_at = None, budget = None, spawn_count = 0, current_spawn = None,
     emitted = [], mcp = mcp_init, backend_st = b \<rparr>"

definition desk_worker :: "string list option \<Rightarrow> unit worker_config" where
  "desk_worker keys =
    \<lparr> wc_agents = [(''a'', sample_agent ''a'')], wc_runtime = desk_runtime, wc_concurrency = 1,
      wc_prefetch = 1, wc_consumer_id = ''w0'', wc_signing_keys = keys, wc_heartbeat_seconds = 0,
      wc_reclaim_min_idle_ms = None, wc_broker_scheme = None, wc_hmac = toy_hmac,
      wc_on_start = None, wc_on_complete = None, wc_on_error = None \<rparr>"

definition desk_state :: "unit worker_state" where
  "desk_state = \<lparr> ws_rt = desk_rt (), ws_active = [], ws_started = True, ws_heartbeat = False \<rparr>"

definition desk_config :: "string option \<Rightarrow> job_config" where
  "desk_config key =
    \<lparr> jc_runtime_id = ''p'', jc_broker_url = None, jc_broker_scheme = None, jc_transport_url = None,
      jc_default_timeout = None, jc_publish_events = False, jc_has_emitter = True,
      jc_signing_key = key, jc_hmac = toy_hmac, jc_validate = (\<lambda>ty fs. Inr (VModel ty fs)),
      jc_wait = (\<lambda>b t. ret ()) \<rparr>"

definition desk_job :: job_state where
  "desk_job = \<lparr> jb_started = False, jb_next = 0, jb_cache = [], jb_handles = [],
     jb_collector = empty_collector, jb_broker = empty_broker \<rparr>"

section \<open>Lineage across the broker\<close>

text \<open>A run depends on its surrounding frame through the cycle gate and the child context only.\<close>

definition frame_alike :: "spawn_frame option \<Rightarrow> spawn_frame option \<Rightarrow> bool" where
  "frame_alike f g = (child_context f = child_context g
     \<and> (case (f, g) of (None, None) \<Rightarrow> True | (Some x, Some y) \<Rightarrow> spawn_chain x = spawn_chain y | _ \<Rightarrow> False))"

lemma frame_alike_gates:
  "frame_alike f g \<Longrightarrow> cycle_rejects R n f = cycle_rejects R n g"
  "frame_alike f g \<Longrightarrow> child_context f = child_context g"
  by (simp_all add: frame_alike_def cycle_rejects_def split: option.splits)

lemma with_frame_alike:
  "with_frame h m (s\<lparr>current_spawn := f\<rparr>) =
    (case with_frame h m (s\<lparr>current_spawn := g\<rparr>) of (r, u) \<Rightarrow> (r, u\<lparr>current_spawn := f\<rparr>))"
  by (simp add: with_frame_def finally_do_def split: prod.split)

lemma run_resolved_alike:
  assumes "frame_alike f g"
  shows "run_resolved R a t (s\<lparr>current_spawn := f\<rparr>) =
    (case run_resolved R a t (s\<lparr>current_spawn := g\<rparr>) of (r, u) \<Rightarrow> (r, u\<lparr>current_spawn := f\<rparr>))"
  using frame_alike_gates [OF assms] with_frame_alike [where f = f and g = g]
  by (auto simp: run_resolved_def Let_def split: sum.split)

lemma warm_alike:
  "warm_providers R a (s\<lparr>current_spawn := f\<rparr>) =
    (case warm_providers R a (s\<lparr>current_spawn := g\<rparr>) of (r, u) \<Rightarrow> (r, u\<lparr>current_spawn := f\<rparr>))"
  by (simp add: warm_providers_def on_mcp_def split: prod.split)

lemma resolve_alike:
  "resolve_agent R ref (s\<lparr>current_spawn := f\<rparr>) =
    (case resolve_agent R ref (s\<lparr>current_spawn := g\<rparr>) of (r, u) \<Rightarrow> (r, u\<lparr>current_spawn := f\<rparr>))"
  by (simp add: resolve_agent_def split: sum.split)

lemma bnd_alike:
  assumes "\<And>s. m (s\<lparr>current_spawn := f\<rparr>) =
      (case m (s\<lparr>current_spawn := g\<rparr>) of (r, u) \<Rightarrow> (r, u\<lparr>current_spawn := f\<rparr>))"
    and "\<And>s r u. m (s\<lparr>current_spawn := g\<rparr>) = (r, u) \<Longrightarrow> current_spawn u = g"
    and "\<And>x s. k x (s\<lparr>current_spawn := f\<rparr>) =
      (case k x (s\<lparr>current_spawn := g\<rparr>) of (r, u) \<Rightarrow> (r, u\<lparr>current_spawn := f\<rparr>))"
  shows "bnd m k (s\<lparr>current_spawn := f\<rparr>) =
      (case bnd m k (s\<lparr>current_spawn := g\<rparr>) of (r, u) \<Rightarrow> (r, u\<lparr>current_spawn := f\<rparr>))"
proof (cases "m (s\<lparr>current_spawn := g\<rparr>)")
  case (Pair r u)
  have "u\<lparr>current_spawn := g\<rparr> = u" using assms(2) [OF Pair] by simp
  then show ?thesis using assms(1) [of s] assms(3) [of _ u] Pair by (cases r) (simp_all add: bnd_def)
qed

lemma run_alike:
  assumes "frame_alike f g"
  shows "run R ref t (s\<lparr>current_spawn := f\<rparr>) =
    (case run R ref t (s\<lparr>current_spawn := g\<rparr>) of (r, u) \<Rightarrow> (r, u\<lparr>current_spawn := f\<rparr>))"
  unfolding run_def
proof (intro bnd_alike resolve_alike warm_alike run_resolved_alike [OF assms])
  show "resolve_agent R ref (s\<lparr>current_spawn := g\<rparr>) = (r, u) \<Longrightarrow> current_spawn u = g" for s r u
    by (auto simp: resolve_agent_def split: sum.splits)
  show "warm_providers R a (s\<lparr>current_spawn := g\<rparr>) = (r, u) \<Longrightarrow> current_spawn u = g" for a s r u
    by (auto simp: warm_providers_def on_mcp_def split: prod.splits)
qed

lemma with_frame_run:
  assumes "frame_alike f g"
  shows "with_frame f (run R ref t) s = with_frame g (run R ref t) s"
  using run_alike [OF assms, of R ref t s]
  by (simp add: with_frame_def finally_do_def split: prod.split)

lemma rebuilt_frame_alike:
  assumes "\<And>f. pf = Some f \<Longrightarrow> 0 \<le> depth (sf_agent_context f)"
    and "tm_parent_spawn msg = parent_spawn_from_context (overlay_lineage (child_context pf) prepared)"
  shows "frame_alike (message_frame msg) pf"
  using assms
  by (cases pf) (auto simp: frame_alike_def message_frame_def parent_spawn_from_context_def
      overlay_lineage_def child_context_def default_context_def parent_frame_def spawn_chain_def)

text \<open>
  C19. Crossing the broker changes nothing about the gates of a spawn: the run a worker
  starts under the frame it rebuilds from an envelope is the run that would have
  happened under the publisher's own frame, with the same result, events and
  state, for a top-level task as for a child at any depth, whatever the context
  passer returned.
\<close>

theorem lineage_survives_the_broker:
  assumes "\<And>f. pf = Some f \<Longrightarrow> 0 \<le> depth (sf_agent_context f)"
    and "msg = task_envelope cfg batch i (parent_spawn_from_context
           (overlay_lineage (child_context pf) prepared)) a t"
  shows "with_frame (message_frame msg) (run R ref t) s = with_frame pf (run R ref t) s"
proof -
  have "tm_parent_spawn msg = parent_spawn_from_context (overlay_lineage (child_context pf) prepared)"
    by (simp add: assms(2) task_envelope_def maybe_sign_def sign_task_message_def split: option.split)
  from with_frame_run [OF rebuilt_frame_alike [OF assms(1) this]] show ?thesis by blast
qed

lemma lineage_survives_the_broker_witness:
  "let pf = Some \<lparr> sf_agent_name = ''p'', sf_agent_context = default_context\<lparr>depth := 2, ancestors := {''q''}\<rparr>,
                 sf_trace_id = ''tr'' \<rparr>;
       msg = task_envelope (desk_config None) ''0'' 0 (parent_spawn_from_context
           (overlay_lineage (child_context pf) default_context)) (sample_agent ''a'') sample_task
   in message_frame msg \<noteq> None \<and> with_frame (message_frame msg) (run desk_runtime (ByAgent (sample_agent ''a'')) sample_task) (desk_rt ())
      = with_frame pf (run desk_runtime (ByAgent (sample_agent ''a'')) sample_task) (desk_rt ())"
  unfolding Let_def
  by (rule conjI, code_simp, rule lineage_survives_the_broker [OF _ refl]) (simp add: default_context_def)

section \<open>A worker's answer\<close>

text \<open>What every answer has in common with the message it answers.\<close>

definition answers_message :: "string \<Rightarrow> task_message \<Rightarrow> result_message \<Rightarrow> bool" where
  "answers_message name msg m =
    (rs_batch_id m = tm_batch_id msg \<and> rs_task_id m = tm_task_id msg
     \<and> rs_request_id m = tm_request_id msg \<and> rs_agent_name m = name
     \<and> (rs_success m \<longleftrightarrow> rs_output m \<noteq> None) \<and> (rs_success m \<longleftrightarrow> rs_error m = None))"

lemma failure_answers: "answers_message name msg (failure_message name msg x)"
  by (simp add: answers_message_def failure_message_def)

lemma result_answers: "result_to_message name msg r = Inr m \<Longrightarrow> answers_message name msg m"
  by (auto simp: result_to_message_def answers_message_def failure_message_def Let_def
      split: bool.splits option.splits sum.splits)

lemma task_body_answers: "task_body C name a msg s = (Inr m, u) \<Longrightarrow> answers_message name msg m"
  by (auto simp: task_body_def bnd_Inr_iff intro: result_answers)

lemma answer_task_answers: "answer_task C name a msg s = (Inr m, u) \<Longrightarrow> answers_message name msg m"
  by (auto simp: answer_task_def bnd_Inr_iff failure_answers dest: task_body_answers
      split: prod.splits sum.splits if_splits)

lemma run_one_answers:
  "run_one C name msg s = (Inr (topic, m), u) \<Longrightarrow> topic = tm_reply_to msg \<and> answers_message name msg m"
  by (auto simp: run_one_def bnd_Inr_iff with_frame_def finally_do_def failure_answers
      dest: answer_task_answers split: option.splits sum.splits bool.splits prod.splits)

lemma handler_run_one:
  "worker_handler C name (TaskWire msg) w =
    (case run_one C name msg (ws_rt w) of
       (r, s) \<Rightarrow> (map_sum id Some r,
                 w\<lparr>ws_rt := s, ws_active := dpop (tm_task_id msg) (dset (tm_task_id msg) () (ws_active w))\<rparr>))"
  by (auto simp: worker_handler_def finally_do_def bnd_def on_rt_def split: prod.split sum.split)

text \<open>
  C20. A worker that was given keys never runs an agent for an envelope that does not
  verify: its runtime is untouched, and a missing or wrong signature is answered
  on the reply topic by exactly one failure bearing the ids of the envelope.  A
  signature holding a character outside ASCII makes the verification itself raise:
  the exception leaves the handler and the publisher is never answered.
\<close>

theorem unverified_message_never_runs:
  assumes "dget (wc_agents C) name = Some a" "wc_signing_keys C = Some keys"
    and "verify_task_message (wc_hmac C) name keys msg \<noteq> Inr True"
  shows "ws_rt (snd (worker_handler C name (TaskWire msg) w)) = ws_rt w
    \<and> (verify_task_message (wc_hmac C) name keys msg = Inr False \<longrightarrow>
         fst (worker_handler C name (TaskWire msg) w)
           = Inr (Some (tm_reply_to msg, failure_message name msg ''signature verification failed'')))
    \<and> (keys \<noteq> [] \<and> tm_signature msg = Some sig \<and> \<not> list_all (\<lambda>c. (of_char c :: nat) < 128) sig \<longrightarrow>
         (\<exists>e. fst (worker_handler C name (TaskWire msg) w) = Inl e \<and> exn_cls e = PyTypeError))"
proof -
  have "\<exists>e. verify_task_message (wc_hmac C) name keys msg = Inl e \<and> exn_cls e = PyTypeError"
    if "keys \<noteq> []" "tm_signature msg = Some sig" "\<not> list_all (\<lambda>c. (of_char c :: nat) < 128) sig"
    using that any_key_raises by (simp add: verify_task_message_def)
  then show ?thesis
    using assms by (cases "verify_task_message (wc_hmac C) name keys msg") (auto simp: handler_run_one run_one_def)
qed

lemma unverified_message_never_runs_witness:
  "fst (worker_handler (desk_worker (Some [''k''])) ''a'' (TaskWire sample_envelope) desk_state)
    = Inr (Some (''murmur.results.x'', failure_message ''a'' sample_envelope ''signature verification failed''))
    \<and> (\<exists>e. fst (worker_handler (desk_worker (Some [''k''])) ''a''
      (TaskWire (sample_envelope\<lparr>tm_signature := Some [CHR 0xE9]\<rparr>)) desk_state) = Inl e \<and> exn_cls e = PyTypeError)"
proof -
  let ?bad = "sample_envelope\<lparr>tm_signature := Some [CHR 0xE9]\<rparr>"
  have "dget (wc_agents (desk_worker (Some [''k'']))) ''a'' = Some (sample_agent ''a'')"
    "wc_signing_keys (desk_worker (Some [''k''])) = Some [''k'']"
    "verify_task_message (wc_hmac (desk_worker (Some [''k'']))) ''a'' [''k''] sample_envelope = Inr False"
    "verify_task_message (wc_hmac (desk_worker (Some [''k'']))) ''a'' [''k''] ?bad \<noteq> Inr True"
    by (simp_all add: desk_worker_def verify_task_message_def sample_envelope_def compare_digest_def)
  then show ?thesis
    using unverified_message_never_runs [of "desk_worker (Some [''k''])" "''a''" "sample_agent ''a''" "[''k'']"
        sample_envelope desk_state]
      unverified_message_never_runs [of "desk_worker (Some [''k''])" "''a''" "sample_agent ''a''" "[''k'']"
        ?bad desk_state "[CHR 0xE9]"]
    by (simp add: sample_envelope_def)
qed

lemma call_hook_error: "call_hook h x s = (Inl e, u) \<longleftrightarrow> (\<exists>f. h = Some f \<and> f x = Some e) \<and> u = s"
  by (auto simp: call_hook_def split: option.splits)

lemma result_to_message_error: "result_to_message name msg r = Inl e \<Longrightarrow> isinstance e PyException"
  by (auto simp: result_to_message_def model_dump_def Let_def isinstance_def issubclass_def
      split: bool.splits option.splits pyval.splits sum.splits)

lemma task_body_error:
  assumes "task_body C name a msg s = (Inl e, u)"
    and "\<And>f i n e. wc_on_start C = Some f \<Longrightarrow> f i n = Some e \<Longrightarrow> isinstance e PyException"
    and "\<And>f i n d e. wc_on_complete C = Some f \<Longrightarrow> f i n d = Some e \<Longrightarrow> isinstance e PyException"
    and "\<And>e u. run (wc_runtime C) (ByAgent a) (tm_task msg) s = (Inl e, u) \<Longrightarrow> isinstance e PyException"
  shows "isinstance e PyException"
  using assms(1) unfolding task_body_def bnd_Inl_iff gets_apply
  by (auto simp: call_hook_error dest: result_to_message_error assms(2-4))
   (auto simp: call_hook_def dest: assms(4) split: option.splits)

text \<open>
  C21. Every accepted message is answered exactly once: when the error hook does not
  raise and the agent's run raises ordinary exceptions only, the handler publishes
  one envelope on the message's own reply topic, with its batch, task and request
  ids, carrying an output or an error and never both; whatever the run and the
  other hooks do.
\<close>

theorem accepted_message_is_answered:
  assumes "dget (wc_agents C) name = Some a"
    and "wc_signing_keys C = None \<or>
      (\<exists>keys. wc_signing_keys C = Some keys \<and> verify_task_message (wc_hmac C) name keys msg = Inr True)"
    and "\<And>f e. wc_on_error C = Some f \<Longrightarrow> f (tm_task_id msg) name e = None"
    and "\<And>f i n e. wc_on_start C = Some f \<Longrightarrow> f i n = Some e \<Longrightarrow> isinstance e PyException"
    and "\<And>f i n d e. wc_on_complete C = Some f \<Longrightarrow> f i n d = Some e \<Longrightarrow> isinstance e PyException"
    and "\<And>e u. run (wc_runtime C) (ByAgent a) (tm_task msg) ((ws_rt w)\<lparr>current_spawn := message_frame msg\<rparr>)
            = (Inl e, u) \<Longrightarrow> isinstance e PyException"
  shows "\<exists>m. fst (worker_handler C name (TaskWire msg) w) = Inr (Some (tm_reply_to msg, m))
    \<and> answers_message name msg m"
proof -
  let ?u = "(ws_rt w)\<lparr>current_spawn := message_frame msg\<rparr>"
  have "\<exists>m u. answer_task C name a msg ?u = (Inr m, u)"
  proof (cases "task_body C name a msg ?u")
    case (Pair r u)
    show ?thesis
    proof (cases r)
      case (Inl e)
      have "isinstance e PyException" using task_body_error Pair Inl assms(4-6) by blast
      moreover have "call_hook (map_option (\<lambda>f (i, n, x). f i n x) (wc_on_error C)) (tm_task_id msg, name, e) u
          = (Inr (), u)"
      proof (cases "wc_on_error C")
        case (Some f)
        then show ?thesis using assms(3) [OF Some] by (simp add: call_hook_def)
      qed (simp add: call_hook_def)
      ultimately show ?thesis using Pair Inl by (simp add: answer_task_def bnd_def)
    qed (use Pair in \<open>simp add: answer_task_def\<close>)
  qed
  then obtain m u where m: "answer_task C name a msg ?u = (Inr m, u)" by blast
  then have "fst (run_one C name msg (ws_rt w)) = Inr (tm_reply_to msg, m)"
    using assms(1,2) by (auto simp: run_one_def with_frame_def finally_do_def bnd_def)
  then show ?thesis
    using answer_task_answers [OF m] by (auto simp: handler_run_one split: prod.split)
qed

lemma accepted_message_is_answered_witness:
  "\<exists>m. fst (worker_handler (desk_worker None) ''a'' (TaskWire sample_envelope) desk_state)
       = Inr (Some (tm_reply_to sample_envelope, m)) \<and> answers_message ''a'' sample_envelope m"
proof (rule accepted_message_is_answered [where a = "sample_agent ''a''"])
  have "Option.is_none (case fst (run desk_runtime (ByAgent (sample_agent ''a'')) (tm_task sample_envelope)
      ((ws_rt desk_state)\<lparr>current_spawn := message_frame sample_envelope\<rparr>)) of Inl e \<Rightarrow> Some e | Inr x \<Rightarrow> None)"
    by code_simp
  then show "isinstance e PyException"
    if "run (wc_runtime (desk_worker None)) (ByAgent (sample_agent ''a'')) (tm_task sample_envelope)
        ((ws_rt desk_state)\<lparr>current_spawn := message_frame sample_envelope\<rparr>) = (Inl e, u)" for e u
    using that by (simp add: desk_worker_def)
qed (simp_all add: desk_worker_def)

text \<open>
  C22. What a publisher reads is what the worker's run returned: a success arrives with
  the same output when the publisher's validation accepts the dump of the worker's
  model, a failure as a \<open>SpawnError\<close> with the text of the worker's error (its class
  is lost); duration, tokens and backend survive, agent name and task id are the
  publisher's own.
\<close>

theorem result_survives_the_broker:
  assumes "result_to_message name msg r = Inr m"
    and "\<And>v fs. ar_output r = Some v \<Longrightarrow> model_dump v = Inr fs \<Longrightarrow>
      jc_validate cfg (output_type a) fs = Inr v"
    and "rm_backend (ar_metadata r) \<noteq> []" "\<And>e. ar_error r = Some e \<Longrightarrow> exn_msg e \<noteq> []"
  shows "msg_to_result cfg a tid (Some m) = Inr
    \<lparr> ar_output = (if is_ok r then ar_output r else None),
      ar_error = (if is_ok r then None else Some (Exn SpawnError
         (case ar_error r of None \<Rightarrow> ''agent failed'' | Some e \<Rightarrow> exn_msg e))),
      ar_metadata = (ar_metadata r)\<lparr>cost_usd := 0, trace_id := None\<rparr>,
      ar_agent_name = a_name a, ar_task_id = tid \<rparr>"
proof -
  have md: "\<lparr> duration_ms = duration_ms x, tokens_used = tokens_used x, cost_usd = 0,
      rm_backend = rm_backend x, trace_id = None \<rparr> = x\<lparr>cost_usd := 0, trace_id := None\<rparr>" for x
    by (cases x) simp
  show ?thesis
  proof (cases "is_ok r")
    case True
    then obtain w where w: "ar_output r = Some w" "ar_error r = None" by (auto simp: is_ok_def)
    then obtain fs where fs: "model_dump w = Inr fs"
      using True assms(1) by (auto simp: result_to_message_def Let_def split: sum.splits)
    then have "m = (failure_message name msg ''agent failed'')
        \<lparr>rs_duration_ms := duration_ms (ar_metadata r), rs_tokens_used := tokens_used (ar_metadata r),
         rs_backend := rm_backend (ar_metadata r), rs_success := True, rs_output := Some fs, rs_error := None\<rparr>"
      using True w assms(1) by (simp add: result_to_message_def Let_def)
    then show ?thesis
      using True w assms(2) [OF w(1) fs] assms(3)
      by (simp add: msg_to_result_def failure_message_def default_metadata_def nonempty_or_def md)
  next
    case False
    then show ?thesis using assms(1,3,4)
      by (auto simp: result_to_message_def msg_to_result_def failure_message_def default_metadata_def
          failed_result_def nonempty_or_def Let_def md split: option.splits)
  qed
qed

lemma result_survives_the_broker_witness:
  "case result_to_message ''a'' sample_envelope ((sample_result ''a'' ''t'' 7)
       \<lparr>ar_metadata := default_metadata\<lparr>tokens_used := 7, rm_backend := ''desk''\<rparr>\<rparr>) of
     Inl e \<Rightarrow> False
   | Inr m \<Rightarrow> (case msg_to_result (desk_config None) ((sample_agent ''a'')\<lparr>output_type := ''Out''\<rparr>) ''mine'' (Some m) of
        Inl e \<Rightarrow> False | Inr r \<Rightarrow> ar_output r = Some (VModel ''Out'' []) \<and> ar_task_id r = ''mine'')"
proof -
  let ?r = "(sample_result ''a'' ''t'' 7)\<lparr>ar_metadata := default_metadata\<lparr>tokens_used := 7, rm_backend := ''desk''\<rparr>\<rparr>"
  let ?a = "(sample_agent ''a'')\<lparr>output_type := ''Out''\<rparr>"
  obtain m where m: "result_to_message ''a'' sample_envelope ?r = Inr m"
    by (simp add: result_to_message_def sample_result_def is_ok_def model_dump_def Let_def)
  have "msg_to_result (desk_config None) ?a ''mine'' (Some m) = Inr
    \<lparr> ar_output = (if is_ok ?r then ar_output ?r else None),
      ar_error = (if is_ok ?r then None else Some (Exn SpawnError
         (case ar_error ?r of None \<Rightarrow> ''agent failed'' | Some e \<Rightarrow> exn_msg e))),
      ar_metadata = (ar_metadata ?r)\<lparr>cost_usd := 0, trace_id := None\<rparr>,
      ar_agent_name = a_name ?a, ar_task_id = ''mine'' \<rparr>"
    by (rule result_survives_the_broker [OF m]) (auto simp: sample_result_def model_dump_def desk_config_def)
  then show ?thesis using m by (simp add: sample_result_def is_ok_def)
qed

end
