(* ===== verification/Network.thy ===== *)
theory Network
  imports Distributed
begin

text \<open>
  A publisher, the broker and a fleet of workers as a step relation: a scheduled
  handler runs in any order, a message may be delivered again or lost (the brokers
  behind the protocol promise no more), and others publish on the same broker.  The
  batch a \<open>gather\<close> waits for keeps its slots straight throughout.
\<close>

section \<open>The network\<close>

record 'w network =
  nw_pub :: "job_state rt"
  nw_workers :: 'w

type_synonym 'w service =
  "nat \<Rightarrow> string \<Rightarrow> task_message \<Rightarrow> 'w \<Rightarrow> (exn + (string \<times> result_message)) \<times> 'w"

definition nw_tasks :: "'w network \<Rightarrow> (handler \<times> wire_payload) list" where
  "nw_tasks net = br_tasks (jb_broker (backend_st (nw_pub net)))"

definition nw_collector :: "'w network \<Rightarrow> collector" where
  "nw_collector net = jb_collector (backend_st (nw_pub net))"

definition on_pub :: "(job_state \<Rightarrow> job_state) \<Rightarrow> 'w network \<Rightarrow> 'w network" where
  "on_pub f net = net\<lparr>nw_pub := (nw_pub net)\<lparr>backend_st := f (backend_st (nw_pub net))\<rparr>\<rparr>"

definition nw_publish :: "string \<Rightarrow> wire_payload \<Rightarrow> 'w network \<Rightarrow> 'w network" where
  "nw_publish topic w = on_pub (\<lambda>j. j\<lparr>jb_broker := snd (broker_publish topic w (jb_broker j))\<rparr>)"

definition drop_task :: "nat \<Rightarrow> 'w network \<Rightarrow> 'w network" where
  "drop_task i = on_pub (\<lambda>j. j\<lparr>jb_broker := (jb_broker j)\<lparr>br_tasks :=
     take i (br_tasks (jb_broker j)) @ drop (Suc i) (br_tasks (jb_broker j))\<rparr>\<rparr>)"

text \<open>One handler task: \<open>_dispatch\<close> logs and drops whatever a handler raises.\<close>

definition dispatch ::
  "job_config \<Rightarrow> 'w service \<Rightarrow> handler \<times> wire_payload \<Rightarrow> 'w network \<Rightarrow> 'w network" where
  "dispatch cfg serve hw net =
    (case hw of
       (CollectorHandler, w) \<Rightarrow>
         on_pub (\<lambda>j. j\<lparr>jb_collector := on_message
           (case w of ResultWire m \<Rightarrow> Some m | _ \<Rightarrow> None) (jb_collector j)\<rparr>) net
     | (EventHandler, w) \<Rightarrow> net\<lparr>nw_pub := on_event_message cfg w (nw_pub net)\<rparr>
     | (WorkerHandler wid name, TaskWire msg) \<Rightarrow>
         (case serve wid name msg (nw_workers net) of
            (Inr (topic, m), ws) \<Rightarrow> nw_publish topic (ResultWire m) (net\<lparr>nw_workers := ws\<rparr>)
          | (Inl e, ws) \<Rightarrow> net\<lparr>nw_workers := ws\<rparr>)
     | _ \<Rightarrow> net)"

inductive network_step ::
  "job_config \<Rightarrow> 'w service \<Rightarrow> (wire_payload \<Rightarrow> bool) \<Rightarrow> 'w network \<Rightarrow> 'w network \<Rightarrow> bool"
  for cfg serve ok where
  deliver: "i < length (nw_tasks net) \<Longrightarrow>
    network_step cfg serve ok net (dispatch cfg serve (nw_tasks net ! i) (drop_task i net))"
| redeliver: "i < length (nw_tasks net) \<Longrightarrow>
    network_step cfg serve ok net (dispatch cfg serve (nw_tasks net ! i) net)"
| lose: "i < length (nw_tasks net) \<Longrightarrow> network_step cfg serve ok net (drop_task i net)"
| others: "ok w \<Longrightarrow> network_step cfg serve ok net (nw_publish topic w net)"

text \<open>The fleet: worker \<open>wid\<close> is \<open>F wid\<close> over its own state.\<close>

definition fleet_serve :: "(nat \<Rightarrow> 'b worker_config) \<Rightarrow> (nat \<Rightarrow> 'b worker_state) service" where
  "fleet_serve F wid name msg ws =
    (case worker_handler (F wid) name (TaskWire msg) (ws wid) of
       (Inr (Some x), w) \<Rightarrow> (Inr x, ws(wid := w))
     | (Inr None, w) \<Rightarrow> (Inl (Exn PyRuntimeError ''unreachable''), ws(wid := w))
     | (Inl e, w) \<Rightarrow> (Inl e, ws(wid := w)))"

section \<open>What a service of tasks promises\<close>

definition genuine :: "'w service \<Rightarrow> task_message \<Rightarrow> result_message \<Rightarrow> bool" where
  "genuine serve msg m = (\<exists>wid name ws topic ws'. serve wid name msg ws = (Inr (topic, m), ws'))"

definition wire_batch :: "wire_payload \<Rightarrow> string option" where
  "wire_batch w = (case w of TaskWire t \<Rightarrow> Some (tm_batch_id t) | ResultWire m \<Rightarrow> Some (rs_batch_id m) | _ \<Rightarrow> None)"

definition wire_ok ::
  "'w service \<Rightarrow> string \<Rightarrow> nat \<Rightarrow> (nat \<Rightarrow> task_message) \<Rightarrow> wire_payload \<Rightarrow> bool" where
  "wire_ok serve b n env w = (wire_batch w = Some b \<longrightarrow>
    (case w of
       TaskWire t \<Rightarrow> (\<exists>i<n. t = env i)
     | ResultWire m \<Rightarrow> (\<exists>i<n. rs_task_id m = slot_id b i \<and> genuine serve (env i) m)
     | _ \<Rightarrow> True))"

definition batch_ok :: "'w service \<Rightarrow> string \<Rightarrow> nat \<Rightarrow> (nat \<Rightarrow> task_message) \<Rightarrow> batch_state \<Rightarrow> bool" where
  "batch_ok serve b n env st =
    (bs_expected st = n \<and> dict_ok (bs_results st)
     \<and> (\<forall>tid m. dget (bs_results st) tid = Some m \<longrightarrow> (\<exists>i<n. tid = slot_id b i \<and> genuine serve (env i) m))
     \<and> (bs_done st \<longleftrightarrow> bs_results st \<noteq> [] \<and> n \<le> length (bs_results st)))"

definition batch_inv :: "'w service \<Rightarrow> string \<Rightarrow> nat \<Rightarrow> (nat \<Rightarrow> task_message) \<Rightarrow> 'w network \<Rightarrow> bool" where
  "batch_inv serve b n env net =
    ((\<forall>hw \<in> set (nw_tasks net). wire_ok serve b n env (snd hw))
     \<and> (\<exists>st. dget (co_pending (nw_collector net)) b = Some st \<and> batch_ok serve b n env st))"

lemma publish_adds: "hw \<in> set (br_tasks (snd (broker_publish t w b))) \<Longrightarrow> hw \<in> set (br_tasks b) \<or> snd hw = w"
proof -
  have "hw \<in> set (br_tasks (fold (publish_group t w) ghs c)) \<Longrightarrow> hw \<in> set (br_tasks c) \<or> snd hw = w" for ghs c
    by (induction ghs arbitrary: c) (fastforce simp: publish_group_def broker_spawn_def Let_def split: prod.splits if_splits)+
  then show "hw \<in> set (br_tasks (snd (broker_publish t w b))) \<Longrightarrow> ?thesis"
    by (fastforce simp: broker_publish_def Let_def fold_spawn split: if_splits)
qed

lemma nw_publish_fields:
  "hw \<in> set (nw_tasks (nw_publish t w net)) \<Longrightarrow> hw \<in> set (nw_tasks net) \<or> snd hw = w"
  "nw_collector (nw_publish t w net) = nw_collector net"
  using publish_adds [of hw t w "jb_broker (backend_st (nw_pub net))"]
  by (auto simp: nw_tasks_def nw_collector_def nw_publish_def on_pub_def)

lemma drop_task_fields:
  "hw \<in> set (nw_tasks (drop_task i net)) \<Longrightarrow> hw \<in> set (nw_tasks net)"
  "nw_collector (drop_task i net) = nw_collector net" "nw_workers (drop_task i net) = nw_workers net"
  by (auto simp: nw_tasks_def nw_collector_def drop_task_def on_pub_def dest: in_set_takeD in_set_dropD)

lemma batch_ok_collect:
  assumes "batch_ok serve b n env st" "i < n" "rs_task_id m = slot_id b i" "genuine serve (env i) m"
  shows "batch_ok serve b n env (st\<lparr>bs_results := dset (rs_task_id m) m (bs_results st),
    bs_done := bs_done st \<or> bs_expected st \<le> length (dset (rs_task_id m) m (bs_results st))\<rparr>)"
proof -
  have mono: "length d \<le> length (dset k v d)" for k and v :: result_message and d
    by (induction d) auto
  have ne: "dset k v d \<noteq> []" for k and v :: result_message and d
    by (cases d) (auto split: if_splits)
  show ?thesis
    using assms mono [of "bs_results st" "rs_task_id m" m] ne [of "rs_task_id m" m "bs_results st"]
    by (auto simp: batch_ok_def split: if_splits)
qed

lemma collector_dispatch_inv:
  assumes inv: "batch_inv serve b n env net" and w: "wire_ok serve b n env w"
  shows "batch_inv serve b n env (dispatch cfg serve (CollectorHandler, w) net)"
proof -
  obtain st where st: "dget (co_pending (nw_collector net)) b = Some st" "batch_ok serve b n env st"
    using inv by (auto simp: batch_inv_def)
  let ?p = "case w of ResultWire m \<Rightarrow> Some m | _ \<Rightarrow> None"
  have "\<exists>st'. dget (co_pending (on_message ?p (nw_collector net))) b = Some st' \<and> batch_ok serve b n env st'"
  proof (cases "\<exists>m. w = ResultWire m \<and> rs_batch_id m = b")
    case True
    then obtain m i where m: "w = ResultWire m" "rs_batch_id m = b" "i < n"
      "rs_task_id m = slot_id b i" "genuine serve (env i) m"
      using assms(2) by (auto simp: wire_ok_def wire_batch_def)
    then show ?thesis
      using st batch_ok_collect [OF st(2) m(3-5)] by (simp add: on_message_def Let_def)
  next
    case False
    then show ?thesis using st by (cases w) (auto simp: on_message_def Let_def split: option.split)
  qed
  then show ?thesis using inv
    by (simp add: batch_inv_def dispatch_def on_pub_def nw_tasks_def nw_collector_def)
qed

text \<open>The law a fleet has to keep: an answer carries the ids of its task.\<close>

locale task_service =
  fixes serve :: "'w service"
  assumes echo: "serve wid name msg ws = (Inr (topic, m), ws') \<Longrightarrow>
    rs_batch_id m = tm_batch_id msg \<and> rs_task_id m = tm_task_id msg"
begin

lemma genuine_ids: "genuine serve msg m \<Longrightarrow> rs_batch_id m = tm_batch_id msg \<and> rs_task_id m = tm_task_id msg"
  unfolding genuine_def using echo by blast

lemma worker_dispatch_inv:
  assumes env: "\<And>i. i < n \<Longrightarrow> tm_batch_id (env i) = b \<and> tm_task_id (env i) = slot_id b i"
    and inv: "batch_inv serve b n env net" and w: "wire_ok serve b n env (TaskWire msg)"
  shows "batch_inv serve b n env (dispatch cfg serve (WorkerHandler wid name, TaskWire msg) net)"
proof -
  obtain r ws where r: "serve wid name msg (nw_workers net) = (r, ws)" by force
  have ws: "batch_inv serve b n env (net\<lparr>nw_workers := ws\<rparr>)"
    using inv by (simp add: batch_inv_def nw_tasks_def nw_collector_def)
  show ?thesis
  proof (cases r)
    case (Inl e)
    then show ?thesis using ws r by (simp add: dispatch_def)
  next
    case (Inr x)
    obtain topic m where x: "x = (topic, m)" by force
    have g: "genuine serve msg m" using r Inr x unfolding genuine_def by blast
    then have ids: "rs_batch_id m = tm_batch_id msg" "rs_task_id m = tm_task_id msg"
      using genuine_ids by blast+
    have "wire_ok serve b n env (ResultWire m)"
      using w g ids env by (auto simp: wire_ok_def wire_batch_def)
    moreover have "dispatch cfg serve (WorkerHandler wid name, TaskWire msg) net
        = nw_publish topic (ResultWire m) (net\<lparr>nw_workers := ws\<rparr>)"
      using r Inr x by (simp add: dispatch_def)
    ultimately show ?thesis using ws nw_publish_fields by (metis batch_inv_def)
  qed
qed

lemma dispatch_inv:
  assumes env: "\<And>i. i < n \<Longrightarrow> tm_batch_id (env i) = b \<and> tm_task_id (env i) = slot_id b i"
    and inv: "batch_inv serve b n env net" and w: "wire_ok serve b n env (snd hw)"
  shows "batch_inv serve b n env (dispatch cfg serve hw net)"
proof -
  obtain h w where hw: "hw = (h, w)" by force
  show ?thesis
  proof (cases h)
    case CollectorHandler
    then show ?thesis using collector_dispatch_inv [OF inv, of w cfg] assms(3) hw by simp
  next
    case EventHandler
    then show ?thesis using inv hw
      by (simp add: batch_inv_def dispatch_def nw_tasks_def nw_collector_def on_event_message_def emit_def
          split: wire_payload.split)
  next
    case (WorkerHandler wid name)
    then show ?thesis using worker_dispatch_inv [OF env inv, of _ cfg wid name] assms(3) inv hw
      by (cases w) (simp_all add: dispatch_def)
  qed (use inv hw in \<open>simp add: dispatch_def\<close>)
qed

lemma step_inv:
  assumes "network_step cfg serve ok net net'" "batch_inv serve b n env net"
    and env: "\<And>i. i < n \<Longrightarrow> tm_batch_id (env i) = b \<and> tm_task_id (env i) = slot_id b i"
    and ok: "\<And>w. ok w \<Longrightarrow> wire_batch w \<noteq> Some b"
  shows "batch_inv serve b n env net'"
  using assms(1,2)
proof (cases rule: network_step.cases)
  case (deliver i)
  have "batch_inv serve b n env (drop_task i net)"
    using assms(2) drop_task_fields unfolding batch_inv_def by metis
  moreover have "wire_ok serve b n env (snd (nw_tasks net ! i))"
    using assms(2) deliver by (simp add: batch_inv_def)
  ultimately show ?thesis using dispatch_inv [OF env] deliver by blast
next
  case (redeliver i)
  moreover have "wire_ok serve b n env (snd (nw_tasks net ! i))"
    using assms(2) redeliver by (simp add: batch_inv_def)
  ultimately show ?thesis using dispatch_inv [OF env] assms(2) by blast
next
  case (lose i)
  then show ?thesis using assms(2) drop_task_fields unfolding batch_inv_def by metis
next
  case (others w topic)
  then have "wire_ok serve b n env w" using ok by (simp add: wire_ok_def)
  then show ?thesis using others assms(2) nw_publish_fields unfolding batch_inv_def by metis
qed

lemma reachable_inv:
  assumes "(network_step cfg serve ok)\<^sup>*\<^sup>* net net'" "batch_inv serve b n env net"
    and env: "\<And>i. i < n \<Longrightarrow> tm_batch_id (env i) = b \<and> tm_task_id (env i) = slot_id b i"
    and ok: "\<And>w. ok w \<Longrightarrow> wire_batch w \<noteq> Some b"
  shows "batch_inv serve b n env net'"
  using assms(1,2) by (induction rule: rtranclp_induct) (auto intro: step_inv [OF _ _ env ok])

end

interpretation fleet: task_service "fleet_serve F" for F
proof
  show "rs_batch_id m = tm_batch_id msg \<and> rs_task_id m = tm_task_id msg"
    if "fleet_serve F wid name msg ws = (Inr (topic, m), ws')" for wid name msg ws topic m ws'
  proof -
    obtain r s where r: "run_one (F wid) name msg (ws_rt (ws wid)) = (r, s)" by force
    then have "r = Inr (topic, m)" using that by (cases r) (simp_all add: fleet_serve_def handler_run_one)
    then have "run_one (F wid) name msg (ws_rt (ws wid)) = (Inr (topic, m), s)" using r by simp
    from run_one_answers [OF this] show ?thesis by (simp add: answers_message_def)
  qed
qed

section \<open>A batch from its publication to its end\<close>

definition published ::
  "job_config \<Rightarrow> string \<Rightarrow> parent_spawn option \<Rightarrow> agent \<Rightarrow> task_spec list \<Rightarrow> (job_state rt, exn, unit) eff" where
  "published cfg b ps a ts =
    bnd (on_job (on_collector (register_batch b (length ts)))) (\<lambda>_. publish_batch cfg b 0 ps a ts)"

lemma envelope_ids [simp]:
  "tm_batch_id (task_envelope cfg b i ps a t) = b" "tm_task_id (task_envelope cfg b i ps a t) = slot_id b i"
  by (simp_all add: task_envelope_def maybe_sign_def sign_task_message_def split: option.split)

lemma publish_batch_inv:
  assumes "batch_inv serve b n env \<lparr> nw_pub = s, nw_workers = ws \<rparr>"
    and "\<And>k. k < length ts \<Longrightarrow> env (i + k) = task_envelope cfg b (i + k) ps a (ts ! k)"
    and "i + length ts \<le> n" "publish_batch cfg b i ps a ts s = (r, u)"
  shows "batch_inv serve b n env \<lparr> nw_pub = u, nw_workers = ws \<rparr>"
  using assms
proof (induction ts arbitrary: i s)
  case (Cons t ts)
  let ?m = "task_envelope cfg b i ps a t"
  let ?net = "\<lambda>s. \<lparr> nw_pub = s, nw_workers = ws \<rparr>"
  have "\<exists>s1. emit_dispatched cfg a t s = (Inr (), s1) \<and> backend_st s1 = backend_st s"
    by (simp add: emit_dispatched_def emit_def)
  then obtain s1 where s1: "emit_dispatched cfg a t s = (Inr (), s1)" "backend_st s1 = backend_st s" by blast
  have env: "env i = ?m" using Cons.prems(2) [of 0] by simp
  have i: "i < n" using Cons.prems(3) by simp
  have inv1: "batch_inv serve b n env (?net s1)"
    using Cons.prems(1) s1(2) by (simp add: batch_inv_def nw_tasks_def nw_collector_def)
  obtain q s2 where s2: "publish_task a ?m s1 = (q, s2)" by force
  have net2: "?net s2 = nw_publish (task_topic (a_name a)) (TaskWire ?m) (?net s1)"
    using s2 by (auto simp: publish_task_def on_job_def on_broker_def nw_publish_def on_pub_def
        split: prod.splits)
  have "wire_ok serve b n env (TaskWire ?m)" using env i by (auto simp: wire_ok_def)
  then have inv2: "batch_inv serve b n env (?net s2)"
    using inv1 nw_publish_fields unfolding net2 by (metis batch_inv_def)
  show ?case
  proof (cases q)
    case (Inl e)
    then show ?thesis using inv2 s1 s2 Cons.prems(4) by (simp add: bnd_def)
  next
    case (Inr x)
    then have rest: "publish_batch cfg b (Suc i) ps a ts s2 = (r, u)"
      using s1 s2 Cons.prems(4) by (simp add: bnd_def)
    have "env (Suc i + k) = task_envelope cfg b (Suc i + k) ps a (ts ! k)" if "k < length ts" for k
      using Cons.prems(2) [of "Suc k"] that by simp
    then show ?thesis using Cons.IH [OF inv2 _ _ rest] Cons.prems(3) by simp
  qed
qed simp

lemma None_notin_map: "None \<notin> set (map f [0..<n]) \<longleftrightarrow> (\<forall>i<n. f i \<noteq> None)"
  by (induction n) (auto simp: less_Suc_eq)

lemma batch_ok_slots:
  assumes "batch_ok serve b n env st"
  shows "bs_done st \<longleftrightarrow> n \<noteq> 0 \<and> (\<forall>i<n. dget (bs_results st) (slot_id b i) \<noteq> None)"
proof -
  let ?K = "fst ` set (bs_results st)" and ?S = "slot_id b ` {..<n}"
  have ok: "dict_ok (bs_results st)" using assms by (simp add: batch_ok_def)
  have "?K \<subseteq> ?S"
  proof
    fix tid assume "tid \<in> ?K"
    then obtain m where "dget (bs_results st) tid = Some m" by (metis dget_None_iff not_Some_eq)
    then show "tid \<in> ?S" using assms by (auto simp: batch_ok_def)
  qed
  moreover have "card ?S = n" by (simp add: card_image inj_on_def)
  moreover have "length (bs_results st) = card ?K" by (rule dict_length_card [OF ok])
  ultimately have "n \<le> length (bs_results st) \<longleftrightarrow> ?K = ?S"
    by (metis card_seteq finite_imageI finite_lessThan order_refl)
  moreover have "?K = ?S \<longleftrightarrow> (\<forall>i<n. dget (bs_results st) (slot_id b i) \<noteq> None)"
    using \<open>?K \<subseteq> ?S\<close> by (auto simp: dget_None_iff)
  moreover have "bs_results st = [] \<longleftrightarrow> ?K = {}" by simp
  moreover have "?S = {} \<longleftrightarrow> n = 0" by auto
  moreover have "bs_done st \<longleftrightarrow> bs_results st \<noteq> [] \<and> n \<le> length (bs_results st)"
    using assms by (simp add: batch_ok_def)
  ultimately show ?thesis by metis
qed

text \<open>
  C23. Through any interleaving of deliveries, repeated deliveries, losses and other
  publications on the same broker, what a \<open>gather\<close> finds in slot \<open>i\<close> is nothing or an
  answer some worker gave to the envelope of task \<open>i\<close>, never to another task's; and the
  batch is done, before its timeout, exactly when every slot holds its answer.
\<close>

theorem batch_slots_are_genuine:
  assumes "published cfg b ps a ts s = (Inr (), u)" "ts \<noteq> []"
    and "\<And>hw. hw \<in> set (br_tasks (jb_broker (backend_st s))) \<Longrightarrow> wire_batch (snd hw) \<noteq> Some b"
    and "\<And>w. ok w \<Longrightarrow> wire_batch w \<noteq> Some b"
    and "(network_step cfg (fleet_serve F) ok)\<^sup>*\<^sup>* \<lparr> nw_pub = u, nw_workers = ws \<rparr> net"
    and slots: "slots = fst (gather_end b (nw_collector net))"
  shows "length slots = length ts
    \<and> (\<forall>i m. i < length ts \<longrightarrow> slots ! i = Some m \<longrightarrow>
         genuine (fleet_serve F) (task_envelope cfg b i ps a (ts ! i)) m)
    \<and> (batch_done b (nw_collector net) \<longleftrightarrow> None \<notin> set slots)"
proof -
  let ?n = "length ts" and ?env = "\<lambda>i. task_envelope cfg b i ps a (ts ! i)"
  let ?serve = "fleet_serve F"
  obtain s1 where s1: "on_job (on_collector (register_batch b ?n)) s = (Inr (), s1)"
      "publish_batch cfg b 0 ps a ts s1 = (Inr (), u)"
    using assms(1) by (auto simp: published_def bnd_Inr_iff)
  have "batch_inv ?serve b ?n ?env \<lparr> nw_pub = s1, nw_workers = ws \<rparr>"
    using s1(1) assms(2,3)
    by (auto simp: on_job_def on_collector_def register_batch_def batch_inv_def nw_tasks_def nw_collector_def
        wire_ok_def batch_ok_def split: if_splits)
  then have "batch_inv ?serve b ?n ?env \<lparr> nw_pub = u, nw_workers = ws \<rparr>"
    by (rule publish_batch_inv [OF _ _ _ s1(2)]) simp_all
  then have "batch_inv ?serve b ?n ?env net"
    using fleet.reachable_inv [OF assms(5)] assms(4) by simp
  then obtain st where st: "dget (co_pending (nw_collector net)) b = Some st" "batch_ok ?serve b ?n ?env st"
    by (auto simp: batch_inv_def)
  have sl: "slots = map (\<lambda>i. dget (bs_results st) (slot_id b i)) [0..<?n]"
    using slots st by (simp add: gather_end_def batch_ok_def)
  have "genuine ?serve (?env i) m" if "i < ?n" "slots ! i = Some m" for i m
  proof -
    have "dget (bs_results st) (slot_id b i) = Some m" using that sl by simp
    then obtain j where "j < ?n" "slot_id b i = slot_id b j" "genuine ?serve (?env j) m"
      using st(2) unfolding batch_ok_def by blast
    then show ?thesis by simp
  qed
  moreover have "batch_done b (nw_collector net) \<longleftrightarrow> None \<notin> set slots"
  proof -
    have "None \<notin> set slots \<longleftrightarrow> (\<forall>i<?n. dget (bs_results st) (slot_id b i) \<noteq> None)"
      unfolding sl by (rule None_notin_map)
    then show ?thesis using batch_ok_slots [OF st(2)] st(1) assms(2) by (simp add: batch_done_def)
  qed
  ultimately show ?thesis using sl by simp
qed

text \<open>The oldest handler first, \<open>k\<close> times: one interleaving, for the witness.\<close>

fun deliver_oldest :: "job_config \<Rightarrow> 'w service \<Rightarrow> nat \<Rightarrow> 'w network \<Rightarrow> 'w network" where
  "deliver_oldest cfg serve 0 net = net"
| "deliver_oldest cfg serve (Suc k) net =
    (if nw_tasks net = [] then net
     else deliver_oldest cfg serve k (dispatch cfg serve (nw_tasks net ! 0) (drop_task 0 net)))"

lemma deliver_oldest_reachable: "(network_step cfg serve ok)\<^sup>*\<^sup>* net (deliver_oldest cfg serve k net)"
proof (induction k arbitrary: net)
  case (Suc k)
  show ?case
  proof (cases "nw_tasks net = []")
    case False
    then have "network_step cfg serve ok net (dispatch cfg serve (nw_tasks net ! 0) (drop_task 0 net))"
      by (intro network_step.deliver) simp
    then show ?thesis using Suc False by (auto intro: converse_rtranclp_into_rtranclp)
  qed simp
qed simp

definition desk_pub :: "job_state rt" where
  "desk_pub = desk_rt (desk_job\<lparr>jb_broker :=
     broker_subscribe (task_topic ''a'') (WorkerHandler 0 ''a'') (Some (task_topic ''a''))
       (broker_subscribe (result_topic ''p'') CollectorHandler None (broker_start empty_broker))\<rparr>)"

definition desk_published :: "job_state rt" where
  "desk_published = snd (published (desk_config None) ''0'' None (sample_agent ''a'') [sample_task, sample_task] desk_pub)"

definition desk_net :: "nat \<Rightarrow> (nat \<Rightarrow> unit worker_state) network" where
  "desk_net k = deliver_oldest (desk_config None) (fleet_serve (\<lambda>i. desk_worker None)) k
     \<lparr> nw_pub = desk_published, nw_workers = (\<lambda>i. desk_state) \<rparr>"

lemma batch_slots_are_genuine_witness:
  "\<not> batch_done ''0'' (nw_collector (desk_net 3)) \<and> batch_done ''0'' (nw_collector (desk_net 4))
    \<and> length (fst (gather_end ''0'' (nw_collector (desk_net 4)))) = 2
    \<and> None \<notin> set (fst (gather_end ''0'' (nw_collector (desk_net 4))))"
proof -
  have d: "\<not> batch_done ''0'' (nw_collector (desk_net 3))" "batch_done ''0'' (nw_collector (desk_net 4))"
    by code_simp+
  have p: "published (desk_config None) ''0'' None (sample_agent ''a'') [sample_task, sample_task] desk_pub
      = (Inr (), desk_published)"
  proof -
    have "\<exists>u. fst (published (desk_config None) ''0'' None (sample_agent ''a'') [sample_task, sample_task] desk_pub) = Inr u"
      by (simp add: desk_pub_def desk_rt_def desk_job_def published_def on_job_def on_collector_def register_batch_def
          empty_collector_def emit_dispatched_def emit_def publish_task_def on_broker_def broker_publish_def
          broker_subscribe_def broker_start_def empty_broker_def desk_config_def Let_def bnd_def dget_or_def
          publish_group_def broker_spawn_def)
    then show ?thesis by (auto simp: desk_published_def prod_eq_iff)
  qed
  have e: "br_tasks (jb_broker (backend_st desk_pub)) = []"
    by (simp add: desk_pub_def desk_rt_def desk_job_def broker_subscribe_def broker_start_def empty_broker_def Let_def)
  show ?thesis
    using d e batch_slots_are_genuine [OF p _ _ _ deliver_oldest_reachable [where k = 4] refl,
        where ok = "\<lambda>w. False" and F = "\<lambda>i. desk_worker None" and ws = "\<lambda>i. desk_state"]
    by (simp add: desk_net_def)
qed

end
