(* ===== verification/Job_Safety.thy ===== *)
theory Job_Safety
  imports Network
begin

text \<open>
  The publisher's own bookkeeping: a killed job, a stopped and restarted backend, and a
  batch in which one payload does not validate.
\<close>

section \<open>Kill\<close>

lemma on_job_apply: "on_job m s = (fst (m (backend_st s)), s\<lparr>backend_st := snd (m (backend_st s))\<rparr>)"
  by (simp add: on_job_def split: prod.split)

text \<open>
  Killing a job whose result nobody awaits yet makes the backend answer with the
  killed envelope at once and report failure; but its batch stays registered, so a
  late answer is stored instead of being discarded.  And a \<open>result\<close> that is being
  awaited while the kill happens wins: what it returns replaces the killed envelope.
\<close>

theorem killed_job_is_not_forgotten:
  assumes "dget (jb_cache (backend_st s)) (handle_id h) = None"
    and "dget (jb_handles (backend_st s)) (handle_id h) = Some (a, t)"
    and k: "k = snd (job_kill h s)"
  shows "job_result cfg h k = (Inr (job_killed a t), k) \<and> job_status h k = (Inr JobFailed, k)
    \<and> jb_collector (backend_st k) = jb_collector (backend_st s)
    \<and> (job_result cfg h s = (Inr r, u) \<longrightarrow> dget (jb_cache (backend_st u)) (handle_id h) = Some r)"
proof -
  have c: "dget (jb_cache (backend_st k)) (handle_id h) = Some (job_killed a t)"
    "jb_collector (backend_st k) = jb_collector (backend_st s)"
    using assms by (simp_all add: job_kill_def on_job_apply dhas_def del: dhas_iff)
  have "\<not> is_ok (job_killed a t)" by (simp add: is_ok_def job_killed_def failed_result_def)
  then have "job_status h k = (Inr JobFailed, k)" using c(1) by (simp add: job_status_def on_job_apply)
  moreover have "job_result cfg h k = (Inr (job_killed a t), k)" using c(1) by (simp add: job_result_def)
  moreover have "dget (jb_cache (backend_st u)) (handle_id h) = Some r" if res: "job_result cfg h s = (Inr r, u)"
  proof -
    let ?m = "\<lambda>slots. msg_to_result cfg a (ts_id t) (case slots of [] \<Rightarrow> None | m # _ \<Rightarrow> m)"
    obtain slots v where "(case ?m slots of Inl e \<Rightarrow> (Inl e, v) | Inr r \<Rightarrow> (Inr r, v\<lparr>backend_st := (backend_st v)
        \<lparr>jb_cache := dset (handle_id h) r (jb_cache (backend_st v)),
         jb_handles := dpop (handle_id h) (jb_handles (backend_st v))\<rparr>\<rparr>)) = (Inr r, u)"
      using res assms(1,2) unfolding job_result_def by (auto simp: bnd_Inr_iff)
    then have "u = v\<lparr>backend_st := (backend_st v)\<lparr>jb_cache := dset (handle_id h) r (jb_cache (backend_st v)),
         jb_handles := dpop (handle_id h) (jb_handles (backend_st v))\<rparr>\<rparr>"
      by (cases "?m slots") auto
    then show ?thesis by simp
  qed
  ultimately show ?thesis using c(2) by blast
qed

definition desk_spawned :: "agent_handle \<times> job_state rt" where
  "desk_spawned = (case job_spawn (desk_config None) (sample_agent ''a'') sample_task default_context desk_pub of
     (Inr h, s) \<Rightarrow> (h, s)
   | (Inl e, s) \<Rightarrow> (\<lparr> handle_id = [], ah_agent_name = [], ah_task_id = [], ah_backend = [] \<rparr>, s))"

lemma killed_job_is_not_forgotten_witness:
  "fst (job_status (fst desk_spawned) (snd (job_kill (fst desk_spawned) (snd desk_spawned)))) = Inr JobFailed
    \<and> dhas (co_pending (jb_collector (backend_st (snd (job_kill (fst desk_spawned) (snd desk_spawned))))))
        (handle_id (fst desk_spawned))"
proof -
  let ?h = "fst desk_spawned" and ?s = "snd desk_spawned"
  have e: "desk_spawned = (\<lparr> handle_id = ''0'', ah_agent_name = ''a'', ah_task_id = ''t1'', ah_backend = ''job'' \<rparr>, ?s)"
    by code_simp
  have "Option.is_none (dget (jb_cache (backend_st ?s)) (handle_id ?h))"
    "dhas (co_pending (jb_collector (backend_st ?s))) (handle_id ?h)"
    "map_option (a_name \<circ> fst) (dget (jb_handles (backend_st ?s)) (handle_id ?h)) = Some ''a''"
    by code_simp+
  then obtain a t where "dget (jb_cache (backend_st ?s)) (handle_id ?h) = None"
    "dget (jb_handles (backend_st ?s)) (handle_id ?h) = Some (a, t)"
    "dhas (co_pending (jb_collector (backend_st ?s))) (handle_id ?h)"
    by (auto simp: Option.is_none_def)
  then show ?thesis using killed_job_is_not_forgotten [OF _ _ refl, of ?s ?h a t] by simp
qed

section \<open>Restart\<close>

text \<open>
  A backend that was stopped and is started again is started, but deaf: nobody
  listens on its reply topic any more, so an answer published there reaches no
  handler and every later batch runs into its timeout.
\<close>

theorem restarted_publisher_is_deaf:
  assumes "co_started (jb_collector j)" and b: "b = jb_broker (job_start cfg (job_stop j))"
  shows "jb_started (job_start cfg (job_stop j)) \<and> br_started b
    \<and> br_tasks (snd (broker_publish (result_topic (jc_runtime_id cfg)) w b)) = br_tasks b"
proof -
  let ?t = "result_topic (jc_runtime_id cfg)"
  have "events_topic (jc_runtime_id cfg) \<noteq> ?t" by (simp add: events_topic_def result_topic_def)
  then have "audience b ?t = []" "dget_or (br_groups b) ?t [] = []" "br_started b"
    using assms(1) b
    by (simp_all add: job_start_def job_stop_def collector_start_def broker_start_def broker_stop_def
        broker_subscribe_def audience_def dget_or_def Let_def)
  then show ?thesis using publish_tasks [of b ?t w] by (simp add: job_start_def job_stop_def Let_def)
qed

lemma restarted_publisher_is_deaf_witness:
  "br_tasks (snd (broker_publish (result_topic ''p'') (GarbageWire []) (jb_broker (job_start (desk_config None)
      (job_stop (job_start (desk_config None) desk_job)))))) = []"
proof -
  have "co_started (jb_collector (job_start (desk_config None) desk_job))"
    "br_tasks (jb_broker (job_start (desk_config None) (job_stop (job_start (desk_config None) desk_job)))) = []"
    by code_simp+
  then show ?thesis
    using restarted_publisher_is_deaf [OF _ refl, of _ "desk_config None" "GarbageWire []"]
    by (simp add: desk_config_def)
qed

section \<open>Reading a batch\<close>

text \<open>\<open>gather\<close> has a result for every task unless some payload does not validate, and then has none.\<close>

lemma results_of_slots_shape:
  assumes "length slots = length ts"
  shows "results_of_slots cfg a ts slots = Inr rs \<longleftrightarrow>
    length rs = length ts \<and> (\<forall>i<length ts. msg_to_result cfg a (ts_id (ts ! i)) (slots ! i) = Inr (rs ! i))"
  using assms
proof (induction ts arbitrary: slots rs)
  case (Cons t ts)
  obtain m ms where slots: "slots = m # ms" "length ms = length ts" using Cons.prems by (cases slots) auto
  show ?case
  proof (cases rs)
    case Nil
    then show ?thesis using slots by (auto split: sum.splits)
  next
    case (Cons r qs)
    then show ?thesis
      using slots Cons.IH [OF slots(2), of qs] by (auto simp: nth_Cons' less_Suc_eq_0_disj split: sum.splits)
  qed
qed auto

end
