(* ===== verification/Agent_Groups.thy ===== *)
theory Agent_Groups
  imports Types
begin

text \<open>
  \<open>groups/edge.py\<close>, \<open>groups/_introspection.py\<close> and \<open>groups/spec.py\<close>: the topology of an
  agent group, its construction-time checks, the topological walk and the routing
  table of a heterogeneous fan-out.  Nodes are agents compared by value, the
  topology is a dict in declaration order.  The classes of the user (type hints
  and base classes) are an argument.
\<close>

section \<open>Edges\<close>

datatype outputs = One pyval | Many "pyval list" | Keyed "(string, outputs) dict"

datatype mapper_out = MapTask task_spec | MapTasks "task_spec list" | MapOther string

record edge =
  edge_to :: "agent list"
  edge_mapper :: "(outputs \<Rightarrow> exn + mapper_out) option"
  edge_max_concurrency :: int
  edge_condition :: "(outputs \<Rightarrow> exn + bool) option"

definition default_edge :: edge where
  "default_edge = \<lparr> edge_to = [], edge_mapper = None, edge_max_concurrency = 100,
     edge_condition = None \<rparr>"

definition edge_terminal :: edge where
  "edge_terminal = default_edge\<lparr>edge_to := []\<rparr>"

datatype edge_or_edges = OneEdge edge | Edges "edge list"

fun normalize_edges :: "edge_or_edges \<Rightarrow> edge list" where
  "normalize_edges (OneEdge e) = [e]"
| "normalize_edges (Edges es) = es"

section \<open>Classes and fan-out fields\<close>

text \<open>
  A resolved type hint: \<open>Annotated[inner, m1, ...]\<close> with, for each piece of metadata,
  whether it is the fan-out marker, or anything else.  The item of \<open>list[...]\<close> is a
  class or a union of classes, absent for a bare \<open>list\<close>.
\<close>

datatype item_hint = ItemClass string | ItemUnion "string list"

datatype inner_hint = HList "item_hint option" | HNotList string

datatype type_hint = HAnnotated inner_hint "bool list" | HPlain string

record class_env =
  hints_of :: "string \<Rightarrow> (string \<times> type_hint) list"
  mro_of :: "string \<Rightarrow> string list"

definition issubclass_of :: "class_env \<Rightarrow> string \<Rightarrow> string \<Rightarrow> bool" where
  "issubclass_of C a b = (a = b \<or> b \<in> set (mro_of C a))"

fun type_name :: "pyval \<Rightarrow> string" where
  "type_name VNone = ''NoneType''"
| "type_name (VBool b) = ''bool''"
| "type_name (VInt n) = ''int''"
| "type_name (VFloat x) = ''float''"
| "type_name (VStr s) = ''str''"
| "type_name (VList l) = ''list''"
| "type_name (VDict d) = ''dict''"
| "type_name (VModel c fs) = c"

definition isinstance_of :: "class_env \<Rightarrow> pyval \<Rightarrow> string \<Rightarrow> bool" where
  "isinstance_of C v t = issubclass_of C (type_name v) t"

fun flatten_union :: "item_hint \<Rightarrow> string list" where
  "flatten_union (ItemClass c) = [c]"
| "flatten_union (ItemUnion ms) = fold (\<lambda>m seen. if m \<in> set seen then seen else seen @ [m]) ms []"

fun fan_out_matches ::
  "string \<Rightarrow> (string \<times> type_hint) list \<Rightarrow> (string \<times> string list) list
    \<Rightarrow> exn + (string \<times> string list) list" where
  "fan_out_matches model [] found = Inr found"
| "fan_out_matches model ((name, HPlain h) # hs) found = fan_out_matches model hs found"
| "fan_out_matches model ((name, HAnnotated inner meta) # hs) found =
    (if True \<notin> set meta then fan_out_matches model hs found
     else case inner of
        HNotList h \<Rightarrow> Inl (Exn SpecValidationError (model @ ''.'' @ name @ '' must wrap list[T]''))
      | HList None \<Rightarrow> Inl (Exn SpecValidationError (model @ ''.'' @ name @ '' must specify a list item type''))
      | HList (Some item) \<Rightarrow> fan_out_matches model hs (found @ [(name, flatten_union item)]))"

definition get_fan_out_field ::
  "class_env \<Rightarrow> string \<Rightarrow> exn + (string \<times> string list) option" where
  "get_fan_out_field C model =
    (case fan_out_matches model (hints_of C model) [] of
       Inl e \<Rightarrow> Inl e
     | Inr [] \<Rightarrow> Inr None
     | Inr [m] \<Rightarrow> Inr (Some m)
     | Inr (m # n # ms) \<Rightarrow> Inl (Exn SpecValidationError (model @ '' has multiple FanOut fields'')))"

section \<open>The topology\<close>

record group =
  g_name :: string
  topology :: "(agent, edge_or_edges) dict"

definition group_agents :: "group \<Rightarrow> agent list" where
  "group_agents g = dkeys (topology g)"

definition outgoing_edges :: "group \<Rightarrow> agent \<Rightarrow> edge list" where
  "outgoing_edges g src =
    (case dget (topology g) src of None \<Rightarrow> [] | Some es \<Rightarrow> normalize_edges es)"

text \<open>The targets met by \<open>for edge in outgoing_edges(src): for tgt in edge.to\<close>.\<close>

definition targets_of :: "group \<Rightarrow> agent \<Rightarrow> agent list" where
  "targets_of g src = concat (map edge_to (outgoing_edges g src))"

definition entry_nodes :: "group \<Rightarrow> agent list" where
  "entry_nodes g =
    (let targets = concat (map (targets_of g) (group_agents g))
     in filter (\<lambda>a. a \<notin> set targets) (group_agents g))"

definition terminal_nodes :: "group \<Rightarrow> agent list" where
  "terminal_nodes g =
    filter (\<lambda>src. list_all (\<lambda>e. edge_to e = []) (outgoing_edges g src)) (group_agents g)"

section \<open>Kahn's algorithm\<close>

definition indegrees :: "group \<Rightarrow> (agent, int) dict" where
  "indegrees g =
    fold (\<lambda>src d. fold (\<lambda>tgt d. dset tgt (dget_or d tgt 0 + 1) d) (targets_of g src) d)
      (group_agents g) (map (\<lambda>a. (a, 0)) (group_agents g))"

text \<open>\<open>indeg[tgt] -= 1\<close> for each target in turn, collecting those that reach zero.\<close>

fun release :: "agent list \<Rightarrow> (agent, int) dict \<Rightarrow> (agent, int) dict \<times> agent list" where
  "release [] indeg = (indeg, [])"
| "release (tgt # ts) indeg =
    (let d = dget_or indeg tgt 0 - 1; (indeg', ready) = release ts (dset tgt d indeg)
     in (indeg', if d = 0 then tgt # ready else ready))"

definition positives :: "(agent, int) dict \<Rightarrow> nat" where
  "positives d = length (filter (\<lambda>p. snd p > 0) d)"

lemma positives_dset:
  "positives (dset k (dget_or d k 0 - 1) d) + (if dget_or d k 0 = 1 then 1 else 0) = positives d"
proof (induction d)
  case (Cons p d)
  obtain a v where "p = (a, v)" by fastforce
  then show ?case using Cons.IH by (cases "a = k") (simp_all add: positives_def dget_or_def)
qed (simp add: positives_def dget_or_def)

lemma positives_release: "release ts d = (d', ready) \<Longrightarrow> positives d' + length ready = positives d"
proof (induction ts arbitrary: d d' ready)
  case (Cons t ts)
  obtain e r where er: "release ts (dset t (dget_or d t 0 - 1) d) = (e, r)" by fastforce
  show ?case
    using Cons.IH [OF er] Cons.prems er positives_dset [of t d]
    by (auto simp: Let_def split: if_splits)
qed simp

function kahn_loop ::
  "(agent \<Rightarrow> agent list) \<Rightarrow> (agent, int) dict \<Rightarrow> agent list \<Rightarrow> agent list \<Rightarrow> agent list" where
  "kahn_loop targets indeg [] order = order"
| "kahn_loop targets indeg (node # queue) order =
    (case release (targets node) indeg of (indeg', ready) \<Rightarrow>
       kahn_loop targets indeg' (queue @ ready) (order @ [node]))"
  by pat_completeness auto
termination
proof (relation "measure (\<lambda>(t, d, q, r). positives d + length q)", goal_cases)
  case (2 targets indeg node queue order indeg' ready)
  then show ?case using positives_release [of "targets node" indeg indeg' ready] by simp
qed simp

definition topological_order :: "group \<Rightarrow> exn + agent list" where
  "topological_order g =
    (let indeg = indegrees g;
         order = kahn_loop (targets_of g) indeg (map fst (filter (\<lambda>p. snd p = 0) indeg)) []
     in if length order \<noteq> length (topology g)
        then Inl (Exn TopologyError (g_name g @ '' topology has a cycle''))
        else Inr order)"

function tiers_loop ::
  "(agent \<Rightarrow> agent list) \<Rightarrow> agent list \<Rightarrow> (agent, int) dict \<Rightarrow> agent list
     \<Rightarrow> agent list list \<Rightarrow> agent list list" where
  "tiers_loop targets nodes indeg ready tiers =
    (if ready = [] then tiers
     else case release (concat (map targets ready)) indeg of (indeg', next_ready) \<Rightarrow>
       tiers_loop targets nodes indeg' (sort_key (\<lambda>a. index_of a nodes) next_ready)
         (tiers @ [ready]))"
  by pat_completeness auto
termination
proof (relation "measure (\<lambda>(t, n, d, q, r). positives d + length q)", goal_cases)
  case (2 targets nodes indeg ready tiers indeg' next_ready)
  then have "release (concat (map targets ready)) indeg = (indeg', next_ready)" by simp
  from positives_release [OF this] 2(1) show ?case by (cases ready) auto
qed simp

declare tiers_loop.simps [simp del]

definition topological_tiers :: "group \<Rightarrow> exn + agent list list" where
  "topological_tiers g =
    (let indeg = indegrees g; nodes = group_agents g;
         tiers = tiers_loop (targets_of g) nodes indeg
                   (filter (\<lambda>a. dget_or indeg a 0 = 0) nodes) []
     in if length (concat tiers) \<noteq> length (topology g)
        then Inl (Exn TopologyError (g_name g @ '' topology has a cycle''))
        else Inr tiers)"

section \<open>The cycle check\<close>

text \<open>
  \<open>visit\<close> over a list of nodes still to look at: the white nodes not seen, the gray
  ones on the current path.  Result: a cycle was met, and the remaining white nodes.
\<close>

function visit ::
  "(agent \<Rightarrow> agent list) \<Rightarrow> agent list \<Rightarrow> agent list \<Rightarrow> agent list \<Rightarrow> bool \<times> agent list" where
  "visit targets [] white gray = (False, white)"
| "visit targets (node # rest) white gray =
    (if node \<in> set gray then (True, white)
     else if node \<notin> set white then visit targets rest white gray
     else case visit targets (targets node) (removeAll node white) (node # gray) of
        (True, white') \<Rightarrow> (True, white')
      | (False, white') \<Rightarrow> visit targets rest white' gray)"
  by pat_completeness auto

termination
proof (relation "measures [\<lambda>(t, n, w, g). length w, \<lambda>(t, n, w, g). length n]", goal_cases)
  case (4 targets node rest white gray x y)
  have shrinks: "visit_dom (ts, ns, w, g) \<Longrightarrow> length (snd (visit ts ns w g)) \<le> length w" for ts ns w g
  proof (induction ts ns w g rule: visit.pinduct)
    case (2 targets node rest white gray)
    show ?case
    proof (cases "node \<in> set gray \<or> node \<notin> set white")
      case True
      then show ?thesis using 2 by (auto simp: visit.psimps)
    next
      case False
      obtain b w' where v: "visit targets (targets node) (removeAll node white) (node # gray) = (b, w')"
        by fastforce
      have "length w' \<le> length white"
        using 2(3) False v le_trans [OF _ length_removeAll_less_eq [of node white]] by fastforce
      moreover have "\<not> b \<Longrightarrow> length (snd (visit targets rest w' gray)) \<le> length w'"
        using 2(4) False v by simp
      ultimately show ?thesis
        using 2(1) False v by (cases b) (simp_all add: visit.psimps)
    qed
  qed (simp add: visit.psimps)
  have "length y \<le> length (removeAll node white)"
    using shrinks [OF 4(5)] 4(3) by (metis snd_conv)
  also have "\<dots> < length white" using 4(2) length_removeAll_less by force
  finally show ?case by simp
qed (auto simp: length_removeAll_less)

definition has_cycle :: "group \<Rightarrow> bool" where
  "has_cycle g = fst (visit (targets_of g) (group_agents g) (group_agents g) [])"

section \<open>Heterogeneous fan-out\<close>

fun first_target_input :: "string list \<Rightarrow> agent list \<Rightarrow> (string, agent) dict \<Rightarrow> exn + (string, agent) dict" where
  "first_target_input types [] table = Inr table"
| "first_target_input types (a # as) table =
    (case input_type a of
       None \<Rightarrow> Inl (Exn SpecValidationError (a_name a @ '' must declare Agent.input_type''))
     | Some t \<Rightarrow>
        (case dget table t of
           Some b \<Rightarrow> Inl (Exn SpecValidationError (a_name b @ '' and '' @ a_name a @ '' both claim '' @ t))
         | None \<Rightarrow> first_target_input types as (dset t a table)))"

fun related_members :: "class_env \<Rightarrow> string list \<Rightarrow> bool" where
  "related_members C [] = False"
| "related_members C (t # ts) =
    ((\<exists>u \<in> set ts. issubclass_of C t u \<or> issubclass_of C u t) \<or> related_members C ts)"

definition routing_table ::
  "class_env \<Rightarrow> agent \<Rightarrow> agent list \<Rightarrow> string list \<Rightarrow> exn + (string, agent) dict option" where
  "routing_table C source targets types =
    (if related_members C types
     then Inl (Exn SpecValidationError (a_name source @ '' union members have a subclass relationship''))
     else case first_target_input types targets [] of
       Inl e \<Rightarrow> Inl e
     | Inr table \<Rightarrow>
        if \<exists>t \<in> set types. \<not> dhas table t
        then Inl (Exn SpecValidationError (a_name source @ '' has union members with no downstream''))
        else if \<exists>a \<in> set targets. (case input_type a of None \<Rightarrow> True | Some t \<Rightarrow> t \<notin> set types)
        then Inl (Exn SpecValidationError (a_name source @ '' downstream input types not in the union''))
        else Inr (Some table))"

definition heterogeneous_dispatch_for ::
  "class_env \<Rightarrow> group \<Rightarrow> agent \<Rightarrow> exn + (string, agent) dict option" where
  "heterogeneous_dispatch_for C g source =
    (case get_fan_out_field C (output_type source) of
       Inl e \<Rightarrow> Inl e
     | Inr None \<Rightarrow> Inr None
     | Inr (Some (field, types)) \<Rightarrow>
        if length types \<le> 1 then Inr None
        else if \<exists>e \<in> set (outgoing_edges g source). \<not> Option.is_none (edge_condition e)
        then Inl (Exn SpecValidationError (a_name source @ '' carries a condition predicate''))
        else if targets_of g source = [] then Inr None
        else routing_table C source (targets_of g source) types)"

section \<open>Construction\<close>

fun check_heterogeneous :: "class_env \<Rightarrow> group \<Rightarrow> agent list \<Rightarrow> exn option" where
  "check_heterogeneous C g [] = None"
| "check_heterogeneous C g (src # srcs) =
    (case heterogeneous_dispatch_for C g src of
       Inl e \<Rightarrow> Some e | Inr t \<Rightarrow> check_heterogeneous C g srcs)"

definition dangling :: "group \<Rightarrow> agent list" where
  "dangling g = filter (\<lambda>t. t \<notin> set (group_agents g)) (concat (map (targets_of g) (group_agents g)))"

definition group_init :: "class_env \<Rightarrow> group \<Rightarrow> exn + group" where
  "group_init C g =
    (if length (topology g) = 0 then Inl (Exn TopologyError (g_name g @ '' has empty topology''))
     else case dangling g of
       t # ts \<Rightarrow> Inl (Exn TopologyError (a_name t @ '' is not a node in the topology''))
     | [] \<Rightarrow>
       if has_cycle g then Inl (Exn TopologyError (g_name g @ '' topology has a cycle''))
       else if entry_nodes g = [] then Inl (Exn TopologyError (g_name g @ '' has no entry node''))
       else if terminal_nodes g = [] then Inl (Exn TopologyError (g_name g @ '' has no terminal node''))
       else case check_heterogeneous C g (group_agents g) of
         Some e \<Rightarrow> Inl e
       | None \<Rightarrow> Inr g)"

end
