(* ===== verification/Group_Runner.thy ===== *)
theory Group_Runner
  imports Agent_Groups Runtime
begin

text \<open>
  \<open>groups/runner.py\<close> and \<open>AgentRuntime.run_group\<close>: the walk of a group's tiers.
  The siblings of a tier run as tasks of their own; the order in which they run is
  an argument, the first failure abandons the rest.  Serialisation of user models
  and fresh task identifiers are arguments as well.
\<close>

datatype node_output = Single agent_result | Batch "agent_result list"

datatype dispatched = Skipped | Dispatched node_output

record group_env =
  ge_classes :: class_env
  ge_json :: "pyval \<Rightarrow> string"
  ge_str :: "pyval \<Rightarrow> string"
  ge_ids :: "agent \<Rightarrow> nat \<Rightarrow> string \<times> string"
  ge_order :: "agent list \<Rightarrow> agent list"

definition incoming_edges :: "group \<Rightarrow> (agent, (agent \<times> edge) list) dict" where
  "incoming_edges g =
    fold (\<lambda>(src, e, tgt) d. dset tgt (dget_or d tgt [] @ [(src, e)]) d)
      (concat (map (\<lambda>src. concat (map (\<lambda>e. map (\<lambda>tgt. (src, e, tgt)) (edge_to e))
                   (outgoing_edges g src))) (group_agents g))) []"

definition condition_fires :: "edge \<Rightarrow> agent \<Rightarrow> agent \<Rightarrow> outputs \<Rightarrow> exn + bool" where
  "condition_fires e upstream downstream typed =
    (case edge_condition e of
       None \<Rightarrow> Inr True
     | Some c \<Rightarrow>
       (case c typed of
          Inl exc \<Rightarrow>
            if isinstance exc PyException
            then Inl (Exn TopologyError (''condition on edge '' @ a_name upstream @ '' -> ''
                        @ a_name downstream @ '' raised '' @ exn_msg exc))
            else Inl exc
        | Inr b \<Rightarrow> Inr b))"

definition successes :: "agent_result list \<Rightarrow> pyval list" where
  "successes rs = map (\<lambda>r. the (ar_output r)) (filter is_ok rs)"

fun filter_successes :: "node_output \<Rightarrow> string \<Rightarrow> exn + outputs" where
  "filter_successes (Batch rs) name =
    (if successes rs = []
     then Inl (Exn AllAgentsFailedError (''every result from '' @ name @ '' failed''))
     else Inr (Many (successes rs)))"
| "filter_successes (Single r) name =
    (if is_ok r then Inr (One (the (ar_output r)))
     else Inl (Exn AllAgentsFailedError (''upstream '' @ name @ '' failed'')))"

datatype downstream_input = OneTask task_spec | ManyTasks "task_spec list"

definition call_mapper ::
  "(outputs \<Rightarrow> exn + mapper_out) option \<Rightarrow> outputs \<Rightarrow> exn + downstream_input" where
  "call_mapper mapper typed =
    (case mapper of
       None \<Rightarrow> Inl (Exn TopologyError ''internal: _call_mapper invoked with no mapper'')
     | Some f \<Rightarrow>
       (case f typed of
          Inl e \<Rightarrow> Inl e
        | Inr (MapTask t) \<Rightarrow> Inr (OneTask t)
        | Inr (MapTasks ts) \<Rightarrow> Inr (ManyTasks ts)
        | Inr (MapOther ty) \<Rightarrow> Inl (Exn TopologyError (''mapper must return TaskSpec; got '' @ ty))))"

fun to_input_string :: "group_env \<Rightarrow> pyval \<Rightarrow> string" where
  "to_input_string E (VModel c fs) = ge_json E (VModel c fs)"
| "to_input_string E (VStr s) = s"
| "to_input_string E v = ge_str E v"

definition new_task :: "group_env \<Rightarrow> agent \<Rightarrow> nat \<Rightarrow> pyval \<Rightarrow> task_spec" where
  "new_task E node i v =
    \<lparr> ts_id = fst (ge_ids E node i), ts_request_id = snd (ge_ids E node i),
      ts_input = to_input_string E v, ts_metadata = [] \<rparr>"

definition new_tasks :: "group_env \<Rightarrow> agent \<Rightarrow> pyval list \<Rightarrow> task_spec list" where
  "new_tasks E node vs = map (\<lambda>(i, v). new_task E node i v) (enumerate 0 vs)"

fun field_items :: "pyval \<Rightarrow> string \<Rightarrow> exn + pyval list" where
  "field_items (VModel c fs) name =
    (case dget fs name of
       Some (VList xs) \<Rightarrow> Inr xs
     | Some v \<Rightarrow> Inl (Exn PyTypeError ''object is not iterable'')
     | None \<Rightarrow> Inl (Exn (PyOther ''AttributeError'') name))"
| "field_items v name = Inl (Exn (PyOther ''AttributeError'') name)"

definition resolve_downstream_input ::
  "group_env \<Rightarrow> edge \<Rightarrow> agent \<Rightarrow> agent \<Rightarrow> outputs \<Rightarrow> exn + downstream_input" where
  "resolve_downstream_input E e upstream node typed =
    (if \<not> Option.is_none (edge_mapper e) then call_mapper (edge_mapper e) typed
     else case get_fan_out_field (ge_classes E) (output_type upstream) of
       Inl exc \<Rightarrow> Inl exc
     | Inr fan_out \<Rightarrow>
       (case typed of
          One v \<Rightarrow>
            (case fan_out of
               None \<Rightarrow> Inr (OneTask (new_task E node 0 v))
             | Some (field, types) \<Rightarrow>
                (case field_items v field of
                   Inl exc \<Rightarrow> Inl exc
                 | Inr items \<Rightarrow> Inr (ManyTasks (new_tasks E node items))))
        | _ \<Rightarrow> Inl (Exn TopologyError (''edge from '' @ a_name upstream
                     @ '' aggregates outputs but has no mapper''))))"

section \<open>Dispatching a node\<close>

definition dispatch_input ::
  "'b runtime \<Rightarrow> agent \<Rightarrow> int \<Rightarrow> exn + downstream_input \<Rightarrow> ('b rt, exn, dispatched) eff" where
  "dispatch_input R node mc inp =
    (case inp of
       Inl e \<Rightarrow> raise e
     | Inr (OneTask t) \<Rightarrow> bnd (run R (ByAgent node) t) (\<lambda>r. ret (Dispatched (Single r)))
     | Inr (ManyTasks ts) \<Rightarrow>
         bnd (gather R (ByAgent node) ts mc False) (\<lambda>rs. ret (Dispatched (Batch rs))))"

text \<open>The items of a heterogeneous fan-out that go to one handler.\<close>

definition routed_items ::
  "group_env \<Rightarrow> agent \<Rightarrow> string list \<Rightarrow> string \<Rightarrow> pyval list \<Rightarrow> exn + pyval list" where
  "routed_items E upstream types own items =
    (if \<forall>v \<in> set items. \<exists>t \<in> set types. isinstance_of (ge_classes E) v t
     then Inr (filter (\<lambda>v. isinstance_of (ge_classes E) v own) items)
     else Inl (Exn SpecValidationError (''fan-out source '' @ a_name upstream
                @ '' produced an item outside the union'')))"

definition single_input ::
  "group_env \<Rightarrow> agent \<Rightarrow> agent \<Rightarrow> edge \<Rightarrow> outputs \<Rightarrow> exn + downstream_input" where
  "single_input E node upstream e typed =
    (case (edge_mapper e, typed, input_type node) of
       (None, One v, Some own) \<Rightarrow>
         (case get_fan_out_field (ge_classes E) (output_type upstream) of
            Inl exc \<Rightarrow> Inl exc
          | Inr None \<Rightarrow> resolve_downstream_input E e upstream node typed
          | Inr (Some (field, types)) \<Rightarrow>
              if length types > 1
              then (case field_items v field of
                      Inl exc \<Rightarrow> Inl exc
                    | Inr items \<Rightarrow>
                       (case routed_items E upstream types own items of
                          Inl exc \<Rightarrow> Inl exc
                        | Inr vs \<Rightarrow> Inr (ManyTasks (new_tasks E node vs))))
              else resolve_downstream_input E e upstream node typed)
     | _ \<Rightarrow> resolve_downstream_input E e upstream node typed)"

definition dispatch_single_input ::
  "group_env \<Rightarrow> 'b runtime \<Rightarrow> agent \<Rightarrow> agent \<Rightarrow> edge \<Rightarrow> (agent, node_output) dict \<Rightarrow> agent list
     \<Rightarrow> ('b rt, exn, dispatched) eff" where
  "dispatch_single_input E R node upstream e results skipped =
    (if upstream \<in> set skipped then ret Skipped
     else case dget results upstream of
       None \<Rightarrow> ret Skipped
     | Some out \<Rightarrow>
       (case filter_successes out (a_name upstream) of
          Inl exc \<Rightarrow> raise exc
        | Inr typed \<Rightarrow>
          (case condition_fires e upstream node typed of
             Inl exc \<Rightarrow> raise exc
           | Inr False \<Rightarrow> ret Skipped
           | Inr True \<Rightarrow>
               dispatch_input R node (edge_max_concurrency e) (single_input E node upstream e typed))))"

section \<open>Aggregating several upstreams\<close>

record multi_state =
  contributions :: "(string, outputs) dict"
  aggregator :: "edge option"
  duplicate_aggregators :: "string list"
  fan_out_keys :: "string list"
  any_alive :: bool

definition multi_start :: multi_state where
  "multi_start = \<lparr> contributions = [], aggregator = None, duplicate_aggregators = [],
     fan_out_keys = [], any_alive = False \<rparr>"

definition note_mapper :: "agent \<Rightarrow> edge \<Rightarrow> multi_state \<Rightarrow> multi_state" where
  "note_mapper upstream e m =
    (if Option.is_none (edge_mapper e) then m
     else if Option.is_none (aggregator m) then m\<lparr>aggregator := Some e\<rparr>
     else m\<lparr>duplicate_aggregators := duplicate_aggregators m @ [a_name upstream]\<rparr>)"

definition contribute :: "agent \<Rightarrow> outputs \<Rightarrow> multi_state \<Rightarrow> multi_state" where
  "contribute upstream v m = m\<lparr>contributions := dset (a_name upstream) v (contributions m)\<rparr>"

fun upstream_outputs :: "node_output \<Rightarrow> outputs option" where
  "upstream_outputs (Batch rs) = Some (Many (successes rs))"
| "upstream_outputs (Single r) = (if is_ok r then Some (One (the (ar_output r))) else None)"

fun note_alive :: "agent \<Rightarrow> outputs \<Rightarrow> multi_state \<Rightarrow> multi_state" where
  "note_alive upstream (Many vs) m =
    (if vs = [] then m
     else m\<lparr>fan_out_keys := fan_out_keys m @ [a_name upstream], any_alive := True\<rparr>)"
| "note_alive upstream v m = m\<lparr>any_alive := True\<rparr>"

definition multi_step ::
  "agent \<Rightarrow> (agent, node_output) dict \<Rightarrow> agent list \<Rightarrow> agent \<times> edge \<Rightarrow> multi_state
     \<Rightarrow> exn + multi_state" where
  "multi_step node results skipped p m =
    (case p of (upstream, e) \<Rightarrow>
       let m = note_mapper upstream e m; dead = contribute upstream (Many []) m in
       if upstream \<in> set skipped then Inr dead
       else case dget results upstream of
         None \<Rightarrow> Inr dead
       | Some out \<Rightarrow>
         (case upstream_outputs out of
            None \<Rightarrow> Inr dead
          | Some typed \<Rightarrow>
            (case condition_fires e upstream node typed of
               Inl exc \<Rightarrow> Inl exc
             | Inr False \<Rightarrow> Inr dead
             | Inr True \<Rightarrow> Inr (note_alive upstream typed (contribute upstream typed m)))))"

fun multi_loop ::
  "agent \<Rightarrow> (agent, node_output) dict \<Rightarrow> agent list \<Rightarrow> (agent \<times> edge) list \<Rightarrow> multi_state
     \<Rightarrow> exn + multi_state" where
  "multi_loop node results skipped [] m = Inr m"
| "multi_loop node results skipped (p # ps) m =
    (case multi_step node results skipped p m of
       Inl e \<Rightarrow> Inl e | Inr m' \<Rightarrow> multi_loop node results skipped ps m')"

definition multi_input :: "agent \<Rightarrow> multi_state \<Rightarrow> exn + (downstream_input \<times> int)" where
  "multi_input node m =
    (if duplicate_aggregators m \<noteq> []
     then Inl (Exn TopologyError (a_name node @ '' has multiple incoming edges with mappers''))
     else if \<not> any_alive m
     then Inl (Exn AllAgentsFailedError (''every upstream of '' @ a_name node @ '' failed''))
     else case aggregator m of
       None \<Rightarrow>
         if length (fan_out_keys m) > 1
         then Inl (Exn TopologyError (a_name node @ '' aggregates two fan-out upstreams''))
         else Inl (Exn TopologyError (a_name node @ '' has no aggregating mapper''))
     | Some e \<Rightarrow>
        (case call_mapper (edge_mapper e) (Keyed (contributions m)) of
           Inl exc \<Rightarrow> Inl exc
         | Inr inp \<Rightarrow> Inr (inp, edge_max_concurrency e)))"

definition dispatch_multi_input ::
  "'b runtime \<Rightarrow> agent \<Rightarrow> (agent \<times> edge) list \<Rightarrow> (agent, node_output) dict \<Rightarrow> agent list
     \<Rightarrow> ('b rt, exn, dispatched) eff" where
  "dispatch_multi_input R node pairs results skipped =
    (case multi_loop node results skipped pairs multi_start of
       Inl e \<Rightarrow> raise e
     | Inr m \<Rightarrow>
       (case multi_input node m of
          Inl e \<Rightarrow> raise e
        | Inr (inp, mc) \<Rightarrow> dispatch_input R node mc (Inr inp)))"

definition resolve_node ::
  "group_env \<Rightarrow> 'b runtime \<Rightarrow> task_spec \<Rightarrow> (agent, (agent \<times> edge) list) dict
     \<Rightarrow> (agent, node_output) dict \<Rightarrow> agent list \<Rightarrow> agent \<Rightarrow> ('b rt, exn, dispatched) eff" where
  "resolve_node E R task incoming results skipped node =
    (case dget_or incoming node [] of
       [] \<Rightarrow> dispatch_input R node 0 (Inr (OneTask task))
     | [(upstream, e)] \<Rightarrow> dispatch_single_input E R node upstream e results skipped
     | pairs \<Rightarrow> dispatch_multi_input R node pairs results skipped)"

section \<open>Walking the tiers\<close>

type_synonym walk_state = "(agent, node_output) dict \<times> agent list"

fun store_node :: "agent \<Rightarrow> dispatched \<Rightarrow> walk_state \<Rightarrow> walk_state" where
  "store_node node Skipped (results, skipped) =
     (results, if node \<in> set skipped then skipped else skipped @ [node])"
| "store_node node (Dispatched out) (results, skipped) = (dset node out results, skipped)"

definition walk_one ::
  "(walk_state \<Rightarrow> agent \<Rightarrow> ('b rt, exn, dispatched) eff) \<Rightarrow> agent \<Rightarrow> walk_state
     \<Rightarrow> ('b rt, exn, walk_state) eff" where
  "walk_one resolve node w = bnd (resolve w node) (\<lambda>d. ret (store_node node d w))"

text \<open>Each sibling task has its own copy of the context variable.\<close>

fun run_siblings ::
  "(walk_state \<Rightarrow> agent \<Rightarrow> ('b rt, exn, dispatched) eff) \<Rightarrow> walk_state \<Rightarrow> agent list
     \<Rightarrow> ('b rt, exn, (agent, dispatched) dict) eff" where
  "run_siblings resolve w [] = ret []"
| "run_siblings resolve w (n # ns) =
    (\<lambda>s. bnd (with_frame (current_spawn s) (resolve w n))
       (\<lambda>d. bnd (run_siblings resolve w ns) (\<lambda>ds. ret ((n, d) # ds))) s)"

definition dispatch_tier_parallel ::
  "(walk_state \<Rightarrow> agent \<Rightarrow> ('b rt, exn, dispatched) eff) \<Rightarrow> (agent list \<Rightarrow> agent list)
     \<Rightarrow> agent list \<Rightarrow> walk_state \<Rightarrow> ('b rt, exn, walk_state) eff" where
  "dispatch_tier_parallel resolve order tier w =
    bnd (run_siblings resolve w (order tier))
      (\<lambda>ds. ret (fold (\<lambda>n w. case dget ds n of Some d \<Rightarrow> store_node n d w | None \<Rightarrow> w) tier w))"

fun walk_tiers ::
  "(walk_state \<Rightarrow> agent \<Rightarrow> ('b rt, exn, dispatched) eff) \<Rightarrow> (agent list \<Rightarrow> agent list)
     \<Rightarrow> agent list list \<Rightarrow> walk_state \<Rightarrow> ('b rt, exn, walk_state) eff" where
  "walk_tiers resolve order [] w = ret w"
| "walk_tiers resolve order (tier # tiers) w =
    bnd (case tier of [n] \<Rightarrow> walk_one resolve n w | _ \<Rightarrow> dispatch_tier_parallel resolve order tier w)
      (\<lambda>w. walk_tiers resolve order tiers w)"

definition entry_frame :: "agent \<Rightarrow> task_spec \<Rightarrow> spawn_frame" where
  "entry_frame entry task =
    \<lparr> sf_agent_name = a_name entry, sf_agent_context = default_context,
      sf_trace_id = ts_request_id task \<rparr>"

definition walk_group ::
  "(walk_state \<Rightarrow> agent \<Rightarrow> ('b rt, exn, dispatched) eff) \<Rightarrow> (agent list \<Rightarrow> agent list)
     \<Rightarrow> task_spec \<Rightarrow> agent list list \<Rightarrow> ('b rt, exn, walk_state) eff" where
  "walk_group resolve order task tiers s =
    (case tiers of
       [entry] # t # ts \<Rightarrow>
         if current_spawn s = None
         then bnd (walk_tiers resolve order [[entry]] ([], []))
                (\<lambda>w. with_frame (Some (entry_frame entry task)) (walk_tiers resolve order (t # ts) w)) s
         else walk_tiers resolve order tiers ([], []) s
     | _ \<Rightarrow> walk_tiers resolve order tiers ([], []) s)"

section \<open>Outcome of a group run\<close>

datatype group_output = OneResult agent_result | ManyResults group_result

definition max_duration :: "agent_result list \<Rightarrow> int" where
  "max_duration rs =
    (case map (\<lambda>r. duration_ms (ar_metadata r)) rs of [] \<Rightarrow> 0 | d # ds \<Rightarrow> fold max ds d)"

definition aggregate_group_metadata :: "(string, agent_result) dict \<Rightarrow> task_spec \<Rightarrow> result_metadata" where
  "aggregate_group_metadata leaves task =
    \<lparr> duration_ms = max_duration (dvalues leaves),
      tokens_used = sum_list (map (\<lambda>r. tokens_used (ar_metadata r)) (dvalues leaves)),
      cost_usd = sum_list (map (\<lambda>r. cost_usd (ar_metadata r)) (dvalues leaves)),
      rm_backend = ''group'', trace_id = Some (ts_request_id task) \<rparr>"

fun leaf_results ::
  "(agent, node_output) dict \<Rightarrow> agent list \<Rightarrow> (string, agent_result) dict
     \<Rightarrow> exn + (string, agent_result) dict" where
  "leaf_results results [] acc = Inr acc"
| "leaf_results results (t # ts) acc =
    (case dget results t of
       Some (Single r) \<Rightarrow> leaf_results results ts (dset (a_name t) r acc)
     | Some (Batch rs) \<Rightarrow> Inl (Exn TopologyError (a_name t @ '' received a fan-out batch''))
     | None \<Rightarrow> Inl (Exn PyKeyError (a_name t)))"

definition group_outcome ::
  "group \<Rightarrow> task_spec \<Rightarrow> (agent, node_output) dict \<Rightarrow> exn + group_output" where
  "group_outcome g task results =
    (case filter (\<lambda>t. dhas results t) (terminal_nodes g) of
       [] \<Rightarrow> Inl (Exn TopologyError (g_name g @ '' produced no terminal result''))
     | [t] \<Rightarrow>
        (case dget results t of
           Some (Single r) \<Rightarrow> Inr (OneResult r)
         | _ \<Rightarrow> Inl (Exn TopologyError (a_name t @ '' received a fan-out batch'')))
     | fired \<Rightarrow>
        (case leaf_results results fired [] of
           Inl e \<Rightarrow> Inl e
         | Inr leaves \<Rightarrow> Inr (ManyResults
             \<lparr> gr_outputs = leaves, gr_metadata = aggregate_group_metadata leaves task \<rparr>)))"

definition walk_and_collect ::
  "group_env \<Rightarrow> 'b runtime \<Rightarrow> group \<Rightarrow> task_spec \<Rightarrow> ('b rt, exn, group_output) eff" where
  "walk_and_collect E R g task =
    (if terminal_nodes g = []
     then raise (Exn TopologyError (g_name g @ '' has no terminal node''))
     else case topological_tiers g of
       Inl e \<Rightarrow> raise e
     | Inr tiers \<Rightarrow>
         bnd (walk_group (\<lambda>(results, skipped). resolve_node E R task (incoming_edges g) results skipped)
                (ge_order E) task tiers)
           (\<lambda>(results, skipped). case group_outcome g task results of
              Inl e \<Rightarrow> raise e | Inr out \<Rightarrow> ret out))"

definition group_event ::
  "event_type \<Rightarrow> string \<Rightarrow> task_spec \<Rightarrow> rat \<Rightarrow> (string, pyval) dict \<Rightarrow> runtime_event" where
  "group_event ty name task t pl =
    \<lparr> event_type = ty, timestamp = t, ev_agent_name = name, ev_task_id = Some (ts_id task),
      ev_trace_id = ts_request_id task, ev_parent_trace_id = None, payload = pl \<rparr>"

definition bracketed ::
  "string \<Rightarrow> task_spec \<Rightarrow> (string, pyval) dict \<Rightarrow> (string, pyval) dict
     \<Rightarrow> ('b rt, exn, 'a) eff \<Rightarrow> ('b rt, exn, 'a) eff" where
  "bracketed name task started completed body s =
    bnd (emit (group_event GROUP_STARTED name task (now s) started))
      (\<lambda>_. finally_do body
         (\<lambda>t. t\<lparr>emitted := emitted t @ [group_event GROUP_COMPLETED name task (now t)
                 ((''duration_ms'', VInt \<lfloor>(now t - now s) * 1000\<rfloor>) # completed)]\<rparr>)) s"

definition run_group ::
  "group_env \<Rightarrow> 'b runtime \<Rightarrow> group \<Rightarrow> task_spec \<Rightarrow> ('b rt, exn, group_output) eff" where
  "run_group E R g task =
    bracketed (g_name g) task [(''node_count'', VInt (int (length (topology g))))] []
      (walk_and_collect E R g task)"

end
