(* ===== verification/Run_Serde.thy ===== *)
theory Run_Serde
  imports Worker Group_Runner
begin

text \<open>
  \<open>runs/_serde.py\<close> and the value types of \<open>runs/__init__.py\<close>: what a persistent run store
  writes for a result and what it reads back, and the JSON view the server returns.  A
  JSON document is a value; \<open>json.loads\<close> inverts \<open>json.dumps\<close> on the documents written
  here.  Event timestamps, which nothing below reads, are left out.
\<close>

section \<open>Value types\<close>

datatype run_state = RunPending | RunRunning | RunCompleted | RunFailed | RunCancelled

fun run_state_value :: "run_state \<Rightarrow> string" where
  "run_state_value RunPending = ''pending''"
| "run_state_value RunRunning = ''running''"
| "run_state_value RunCompleted = ''completed''"
| "run_state_value RunFailed = ''failed''"
| "run_state_value RunCancelled = ''cancelled''"

definition terminal_state :: "run_state \<Rightarrow> bool" where
  "terminal_state s = (s \<in> {RunCompleted, RunFailed, RunCancelled})"

record run_progress =
  rp_total :: int
  rp_completed :: int
  rp_failed :: int
  rp_running :: int

record run_status =
  st_run_id :: string
  st_state :: run_state
  st_progress :: "run_progress option"

datatype run_event_type =
    RunAgentStarted | RunAgentCompleted | RunAgentFailed | RunGroupCompleted | RunWasCancelled

record run_event =
  re_type :: run_event_type
  re_run_id :: string
  re_agent :: "string option"
  re_task_id :: "string option"
  re_error :: "string option"

section \<open>Results as JSON documents\<close>

definition json_opt :: "('a \<Rightarrow> pyval) \<Rightarrow> 'a option \<Rightarrow> pyval" where
  "json_opt f x = (case x of None \<Rightarrow> VNone | Some y \<Rightarrow> f y)"

definition dump_metadata :: "result_metadata \<Rightarrow> pyval" where
  "dump_metadata md = VDict
    [(''duration_ms'', VInt (duration_ms md)), (''tokens_used'', VInt (tokens_used md)),
     (''cost_usd'', VFloat (cost_usd md)), (''backend'', VStr (rm_backend md)),
     (''trace_id'', json_opt VStr (trace_id md))]"

definition dump_output :: "pyval option \<Rightarrow> exn + pyval" where
  "dump_output v =
    (case v of
       None \<Rightarrow> Inr VNone
     | Some x \<Rightarrow> (case model_dump x of Inl e \<Rightarrow> Inl e | Inr fs \<Rightarrow> Inr (VDict fs)))"

definition encode_agent_result :: "agent_result \<Rightarrow> exn + pyval" where
  "encode_agent_result r =
    (case dump_output (ar_output r) of
       Inl e \<Rightarrow> Inl e
     | Inr out \<Rightarrow> Inr (VDict
         [(''kind'', VStr ''agent''), (''agent_name'', VStr (ar_agent_name r)),
          (''task_id'', VStr (ar_task_id r)), (''metadata'', dump_metadata (ar_metadata r)),
          (''output'', out), (''error'', json_opt (\<lambda>e. VStr (exn_msg e)) (ar_error r))]))"

fun encode_outputs :: "(agent_result \<Rightarrow> exn + pyval) \<Rightarrow> (string, agent_result) dict \<Rightarrow> exn + (string, pyval) dict" where
  "encode_outputs enc [] = Inr []"
| "encode_outputs enc ((n, r) # d) =
    (case enc r of
       Inl e \<Rightarrow> Inl e
     | Inr v \<Rightarrow> (case encode_outputs enc d of Inl e \<Rightarrow> Inl e | Inr vs \<Rightarrow> Inr ((n, v) # vs)))"

definition encode_result :: "group_output \<Rightarrow> exn + pyval" where
  "encode_result out =
    (case out of
       OneResult r \<Rightarrow> encode_agent_result r
     | ManyResults g \<Rightarrow>
        (case encode_outputs encode_agent_result (gr_outputs g) of
           Inl e \<Rightarrow> Inl e
         | Inr vs \<Rightarrow> Inr (VDict [(''kind'', VStr ''group''), (''outputs'', VDict vs),
                            (''metadata'', dump_metadata (gr_metadata g))])))"

text \<open>Reading: Pydantic accepts a field of the right type and defaults a missing one.\<close>

definition field_int :: "(string, pyval) dict \<Rightarrow> string \<Rightarrow> int option" where
  "field_int fs k = (case dget fs k of None \<Rightarrow> Some 0 | Some (VInt i) \<Rightarrow> Some i | _ \<Rightarrow> None)"

definition field_float :: "(string, pyval) dict \<Rightarrow> string \<Rightarrow> rat option" where
  "field_float fs k = (case dget fs k of None \<Rightarrow> Some 0 | Some (VFloat i) \<Rightarrow> Some i
     | Some (VInt i) \<Rightarrow> Some (of_int i) | _ \<Rightarrow> None)"

definition field_str :: "(string, pyval) dict \<Rightarrow> string \<Rightarrow> string option" where
  "field_str fs k = (case dget fs k of None \<Rightarrow> Some [] | Some (VStr i) \<Rightarrow> Some i | _ \<Rightarrow> None)"

definition field_opt_str :: "(string, pyval) dict \<Rightarrow> string \<Rightarrow> string option option" where
  "field_opt_str fs k = (case dget fs k of None \<Rightarrow> Some None | Some VNone \<Rightarrow> Some None
     | Some (VStr i) \<Rightarrow> Some (Some i) | _ \<Rightarrow> None)"

definition parse_metadata :: "pyval option \<Rightarrow> exn + result_metadata" where
  "parse_metadata v =
    (let fs = (case v of Some (VDict fs) \<Rightarrow> fs | _ \<Rightarrow> []) in
     case (field_int fs ''duration_ms'', field_int fs ''tokens_used'', field_float fs ''cost_usd'',
           field_str fs ''backend'', field_opt_str fs ''trace_id'') of
       (Some d, Some t, Some c, Some b, Some tr) \<Rightarrow>
         Inr \<lparr> duration_ms = d, tokens_used = t, cost_usd = c, rm_backend = b, trace_id = tr \<rparr>
     | _ \<Rightarrow> Inl (Exn PyValueError ''ResultMetadata''))"

definition rehydrate :: "(string, pyval) dict \<Rightarrow> pyval" where
  "rehydrate fs = VModel ''_RehydratedOutput'' fs"

definition decode_agent_result :: "(string, pyval) dict \<Rightarrow> exn + agent_result" where
  "decode_agent_result p =
    (case parse_metadata (dget p ''metadata'') of
       Inl e \<Rightarrow> Inl e
     | Inr md \<Rightarrow>
        (case (dget p ''agent_name'', dget p ''task_id'') of
           (Some (VStr n), Some (VStr t)) \<Rightarrow>
             Inr \<lparr> ar_output = (case dget p ''output'' of Some (VDict fs) \<Rightarrow> Some (rehydrate fs) | _ \<Rightarrow> None),
                   ar_error = (case dget p ''error'' of
                      Some (VStr x) \<Rightarrow> if x = [] then None else Some (Exn PyRuntimeError x) | _ \<Rightarrow> None),
                   ar_metadata = md, ar_agent_name = n, ar_task_id = t \<rparr>
         | _ \<Rightarrow> Inl (Exn PyKeyError ''agent_name'')))"

fun decode_outputs :: "(string, pyval) dict \<Rightarrow> exn + (string, agent_result) dict" where
  "decode_outputs [] = Inr []"
| "decode_outputs ((n, v) # d) =
    (case v of
       VDict p \<Rightarrow>
         (case decode_agent_result p of
            Inl e \<Rightarrow> Inl e
          | Inr r \<Rightarrow> (case decode_outputs d of Inl e \<Rightarrow> Inl e | Inr rs \<Rightarrow> Inr ((n, r) # rs)))
     | _ \<Rightarrow> Inl (Exn PyTypeError n))"

definition decode_result :: "pyval \<Rightarrow> exn + group_output" where
  "decode_result v =
    (case v of
       VDict p \<Rightarrow>
         (if dget p ''kind'' = Some (VStr ''group'')
          then (case dget p ''outputs'' of
                  Some (VDict outs) \<Rightarrow>
                    (case decode_outputs outs of
                       Inl e \<Rightarrow> Inl e
                     | Inr rs \<Rightarrow>
                        (case parse_metadata (dget p ''metadata'') of
                           Inl e \<Rightarrow> Inl e
                         | Inr md \<Rightarrow> Inr (ManyResults \<lparr> gr_outputs = rs, gr_metadata = md \<rparr>)))
                | _ \<Rightarrow> Inl (Exn PyKeyError ''outputs''))
          else map_sum id OneResult (decode_agent_result p))
     | _ \<Rightarrow> Inl (Exn PyTypeError ''payload''))"

section \<open>The server's view of a result\<close>

definition serialize_agent_result :: "agent_result \<Rightarrow> exn + pyval" where
  "serialize_agent_result r =
    (case dump_output (ar_output r) of
       Inl e \<Rightarrow> Inl e
     | Inr out \<Rightarrow> Inr (VDict
         [(''agent_name'', VStr (ar_agent_name r)), (''task_id'', VStr (ar_task_id r)),
          (''success'', VBool (is_ok r)), (''output'', out),
          (''error'', json_opt (\<lambda>e. VStr (exn_msg e)) (ar_error r)),
          (''metadata'', dump_metadata (ar_metadata r))]))"

definition serialize_result :: "group_output \<Rightarrow> exn + pyval" where
  "serialize_result out =
    (case out of
       OneResult r \<Rightarrow> serialize_agent_result r
     | ManyResults g \<Rightarrow>
        (case encode_outputs serialize_agent_result (gr_outputs g) of
           Inl e \<Rightarrow> Inl e
         | Inr vs \<Rightarrow> Inr (VDict [(''group'', VBool True), (''outputs'', VDict vs),
             (''success'', VBool (list_all is_ok (dvalues (gr_outputs g)))),
             (''metadata'', dump_metadata (gr_metadata g))])))"

definition result_is_ok :: "group_output \<Rightarrow> bool" where
  "result_is_ok out =
    (case out of OneResult r \<Rightarrow> is_ok r | ManyResults g \<Rightarrow> list_all is_ok (dvalues (gr_outputs g)))"

section \<open>Round trip\<close>

text \<open>What survives: everything but the class of an output and of an error.\<close>

definition stored_view :: "agent_result \<Rightarrow> agent_result" where
  "stored_view r = r
    \<lparr> ar_output := (case ar_output r of None \<Rightarrow> None
                     | Some v \<Rightarrow> (case model_dump v of Inl e \<Rightarrow> None | Inr fs \<Rightarrow> Some (rehydrate fs))),
      ar_error := (case ar_error r of None \<Rightarrow> None
                    | Some e \<Rightarrow> if exn_msg e = [] then None else Some (Exn PyRuntimeError (exn_msg e))) \<rparr>"

lemma parse_dump_metadata [simp]: "parse_metadata (Some (dump_metadata md)) = Inr md"
  by (cases "trace_id md"; cases md)
    (simp_all add: parse_metadata_def dump_metadata_def field_int_def field_float_def field_str_def
      field_opt_str_def json_opt_def)

lemma decode_encode_agent:
  assumes "encode_agent_result r = Inr v"
  shows "\<exists>p. v = VDict p \<and> dget p ''kind'' = Some (VStr ''agent'') \<and> decode_agent_result p = Inr (stored_view r)"
proof -
  obtain out where out: "dump_output (ar_output r) = Inr out" and v: "v = VDict
         [(''kind'', VStr ''agent''), (''agent_name'', VStr (ar_agent_name r)),
          (''task_id'', VStr (ar_task_id r)), (''metadata'', dump_metadata (ar_metadata r)),
          (''output'', out), (''error'', json_opt (\<lambda>e. VStr (exn_msg e)) (ar_error r))]"
    using assms by (auto simp: encode_agent_result_def split: sum.splits)
  have "(case out of VDict fs \<Rightarrow> Some (rehydrate fs) | _ \<Rightarrow> None) = ar_output (stored_view r)"
    using out by (auto simp: dump_output_def stored_view_def split: option.splits sum.splits)
  moreover have "(case json_opt (\<lambda>e. VStr (exn_msg e)) (ar_error r) of
      VStr x \<Rightarrow> if x = [] then None else Some (Exn PyRuntimeError x) | _ \<Rightarrow> None) = ar_error (stored_view r)"
    by (simp add: json_opt_def stored_view_def split: option.split)
  ultimately show ?thesis using v by (simp add: decode_agent_result_def stored_view_def)
qed

lemma decode_encode_outputs:
  "encode_outputs encode_agent_result d = Inr vs \<Longrightarrow>
    decode_outputs vs = Inr (map (\<lambda>p. (fst p, stored_view (snd p))) d)"
proof (induction d arbitrary: vs)
  case (Cons p d)
  obtain n r where p: "p = (n, r)" by force
  obtain v ws where v: "encode_agent_result r = Inr v" "encode_outputs encode_agent_result d = Inr ws" "vs = (n, v) # ws"
    using Cons.prems p by (auto split: sum.splits)
  then show ?case using Cons.IH [OF v(2)] decode_encode_agent [OF v(1)] p by auto
qed simp

definition stored_output :: "group_output \<Rightarrow> group_output" where
  "stored_output out = (case out of
      OneResult r \<Rightarrow> OneResult (stored_view r)
    | ManyResults g \<Rightarrow> ManyResults (g\<lparr>gr_outputs := map (\<lambda>p. (fst p, stored_view (snd p))) (gr_outputs g)\<rparr>))"

lemma decode_encode: "encode_result out = Inr v \<Longrightarrow> decode_result v = Inr (stored_output out)"
proof (cases out)
  case (OneResult r)
  then show "encode_result out = Inr v \<Longrightarrow> ?thesis"
    using decode_encode_agent [of r v] by (auto simp: encode_result_def decode_result_def stored_output_def)
next
  case (ManyResults g)
  then show "encode_result out = Inr v \<Longrightarrow> ?thesis"
    using decode_encode_outputs [of "gr_outputs g"]
    by (auto simp: encode_result_def decode_result_def stored_output_def split: sum.splits)
qed

text \<open>Writing what was read gives the same document.\<close>

lemma dump_value_idem: "dump_value (dump_value v) = dump_value v"
  by (induction v rule: dump_value.induct) auto

lemma model_dump_rehydrate: "model_dump v = Inr fs \<Longrightarrow> model_dump (rehydrate fs) = Inr fs"
  by (auto simp: model_dump_def rehydrate_def dump_value_idem split: pyval.splits)

definition spoken_errors :: "group_output \<Rightarrow> bool" where
  "spoken_errors out = (\<forall>r \<in> (case out of OneResult r \<Rightarrow> {r} | ManyResults g \<Rightarrow> set (dvalues (gr_outputs g))).
     \<forall>e. ar_error r = Some e \<longrightarrow> exn_msg e \<noteq> [])"

lemma encode_stored_agent:
  assumes "encode_agent_result r = Inr v" "\<And>e. ar_error r = Some e \<Longrightarrow> exn_msg e \<noteq> []"
  shows "encode_agent_result (stored_view r) = Inr v"
proof -
  have "dump_output (ar_output (stored_view r)) = dump_output (ar_output r)"
    using assms(1) model_dump_rehydrate
    by (auto simp: encode_agent_result_def dump_output_def stored_view_def split: option.splits sum.splits)
  moreover have "json_opt (\<lambda>e. VStr (exn_msg e)) (ar_error (stored_view r)) = json_opt (\<lambda>e. VStr (exn_msg e)) (ar_error r)"
    using assms(2) by (simp add: json_opt_def stored_view_def split: option.split)
  moreover have "ar_agent_name (stored_view r) = ar_agent_name r" "ar_task_id (stored_view r) = ar_task_id r"
    "ar_metadata (stored_view r) = ar_metadata r" by (simp_all add: stored_view_def)
  ultimately show ?thesis using assms(1)
    by (cases "dump_output (ar_output r)") (simp_all add: encode_agent_result_def)
qed

lemma encode_stored_outputs:
  assumes "encode_outputs encode_agent_result d = Inr vs"
    and "\<And>r e. r \<in> set (dvalues d) \<Longrightarrow> ar_error r = Some e \<Longrightarrow> exn_msg e \<noteq> []"
  shows "encode_outputs encode_agent_result (map (\<lambda>p. (fst p, stored_view (snd p))) d) = Inr vs"
  using assms
proof (induction d arbitrary: vs)
  case (Cons p d)
  obtain n r where p: "p = (n, r)" by force
  obtain v ws where v: "encode_agent_result r = Inr v" "encode_outputs encode_agent_result d = Inr ws" "vs = (n, v) # ws"
    using Cons.prems(1) p by (auto split: sum.splits)
  have "encode_agent_result (stored_view r) = Inr v"
    using encode_stored_agent [OF v(1)] Cons.prems(2) p by (auto simp: dvalues_def)
  moreover have "encode_outputs encode_agent_result (map (\<lambda>p. (fst p, stored_view (snd p))) d) = Inr ws"
    using Cons.IH [OF v(2)] Cons.prems(2) by (auto simp: dvalues_def)
  ultimately show ?case using v(3) p by simp
qed simp

lemma encode_stored:
  assumes "encode_result out = Inr v" "spoken_errors out"
  shows "encode_result (stored_output out) = Inr v"
proof (cases out)
  case (OneResult r)
  then show ?thesis using assms encode_stored_agent [of r v] by (simp add: encode_result_def stored_output_def spoken_errors_def)
next
  case (ManyResults g)
  then show ?thesis using assms encode_stored_outputs [of "gr_outputs g"]
    by (auto simp: encode_result_def stored_output_def spoken_errors_def split: sum.splits)
qed

text \<open>
  What a persistent store wrote it reads back: a single result or every leaf of a
  group result, under the same names and in the same order, with names, ids and
  metadata untouched; an output comes back as the generic envelope of the same
  fields, an error as a \<open>RuntimeError\<close> of the same text, or not at all when its
  text was empty.  Unless such an error was lost, writing what was read gives the
  same document again.
\<close>

theorem stored_result_round_trip:
  assumes "encode_result out = Inr v"
  shows "decode_result v = Inr (stored_output out)
    \<and> (spoken_errors out \<longrightarrow> encode_result (stored_output out) = Inr v)"
  using decode_encode [OF assms] encode_stored [OF assms] by blast

definition sample_leaf :: "string \<Rightarrow> exn option \<Rightarrow> agent_result" where
  "sample_leaf n e = \<lparr> ar_output = (if e = None then Some (VModel ''Out'' [(''x'', VInt 1)]) else None),
     ar_error = e, ar_metadata = default_metadata, ar_agent_name = n, ar_task_id = ''t'' \<rparr>"

lemma stored_result_round_trip_witness:
  "\<exists>v. encode_result (ManyResults \<lparr> gr_outputs = [(''l'', sample_leaf ''l'' None),
      (''m'', sample_leaf ''m'' (Some (Exn SpawnError [])))], gr_metadata = default_metadata \<rparr>) = Inr v
    \<and> (case decode_result v of Inr (ManyResults g) \<Rightarrow>
         map (\<lambda>p. (fst p, ar_output (snd p), ar_error (snd p))) (gr_outputs g) =
           [(''l'', Some (VModel ''_RehydratedOutput'' [(''x'', VInt 1)]), None), (''m'', None, None)]
       | _ \<Rightarrow> False)"
proof -
  let ?out = "ManyResults \<lparr> gr_outputs = [(''l'', sample_leaf ''l'' None),
      (''m'', sample_leaf ''m'' (Some (Exn SpawnError [])))], gr_metadata = default_metadata \<rparr>"
  obtain v where v: "encode_result ?out = Inr v"
    by (simp add: encode_result_def encode_agent_result_def dump_output_def model_dump_def sample_leaf_def)
  show ?thesis
    using stored_result_round_trip [OF v] v
    by (auto simp: stored_output_def stored_view_def sample_leaf_def model_dump_def rehydrate_def)
qed

text \<open>The flag the client reads is the one the state machine uses.\<close>

lemma serialized_success:
  "serialize_result out = Inr v \<Longrightarrow> \<exists>fs. v = VDict fs \<and> dget fs ''success'' = Some (VBool (result_is_ok out))"
  by (auto simp: serialize_result_def serialize_agent_result_def result_is_ok_def
      split: group_output.splits sum.splits)

end
