(* ===== verification/Run_Store.thy ===== *)
theory Run_Store
  imports Run_Serde
begin

text \<open>
  \<open>runs/__init__.py\<close> (the in-memory run store with its listeners and streams) and
  \<open>runs/sqlite.py\<close> (two tables).  What a server relies on is a locale of
  \<open>Run_Lifecycle\<close>.
\<close>

section \<open>The in-memory store\<close>

record run_record =
  rr_target :: string
  rr_state :: run_state
  rr_progress :: "run_progress option"
  rr_result :: "group_output option"
  rr_events :: "run_event list"
  rr_listeners :: "(nat, run_event option list) dict"

record run_store =
  sto_records :: "(string, run_record) dict"
  sto_next :: nat

definition new_record :: "string \<Rightarrow> run_record" where
  "new_record target = \<lparr> rr_target = target, rr_state = RunPending, rr_progress = None,
     rr_result = None, rr_events = [], rr_listeners = [] \<rparr>"

text \<open>A listener's queue holds events and the closing mark \<open>None\<close>.\<close>

definition put_all :: "run_event option \<Rightarrow> run_record \<Rightarrow> run_record" where
  "put_all x r = r\<lparr>rr_listeners := map (\<lambda>(q, xs). (q, xs @ [x])) (rr_listeners r)\<rparr>"

definition store_create :: "string \<Rightarrow> string \<Rightarrow> (run_store, exn, unit) eff" where
  "store_create rid target s =
    (if dhas (sto_records s) rid then (Inl (Exn RegistryError (rid @ '' already exists'')), s)
     else (Inr (), s\<lparr>sto_records := dset rid (new_record target) (sto_records s)\<rparr>))"

definition with_record ::
  "string \<Rightarrow> (run_record \<Rightarrow> 'a \<times> run_record) \<Rightarrow> (run_store, exn, 'a) eff" where
  "with_record rid f s =
    (case dget (sto_records s) rid of
       None \<Rightarrow> (Inl (Exn RegistryError (rid @ '' not found'')), s)
     | Some r \<Rightarrow> (case f r of (x, r') \<Rightarrow> (Inr x, s\<lparr>sto_records := dset rid r' (sto_records s)\<rparr>)))"

definition store_status :: "string \<Rightarrow> (run_store, exn, run_status) eff" where
  "store_status rid = with_record rid
    (\<lambda>r. (\<lparr> st_run_id = rid, st_state = rr_state r, st_progress = rr_progress r \<rparr>, r))"

definition store_result :: "string \<Rightarrow> (run_store, exn, group_output option) eff" where
  "store_result rid = with_record rid (\<lambda>r. (rr_result r, r))"

definition store_progress :: "string \<Rightarrow> run_progress \<Rightarrow> (run_store, exn, unit) eff" where
  "store_progress rid p = with_record rid (\<lambda>r. ((), r\<lparr>rr_progress := Some p\<rparr>))"

definition store_set_state :: "string \<Rightarrow> run_state \<Rightarrow> (run_store, exn, unit) eff" where
  "store_set_state rid st = with_record rid (\<lambda>r.
    ((), (if terminal_state st then put_all None else id) (r\<lparr>rr_state := st\<rparr>)))"

definition store_set_result :: "string \<Rightarrow> group_output \<Rightarrow> (run_store, exn, unit) eff" where
  "store_set_result rid out = with_record rid (\<lambda>r. ((), r\<lparr>rr_result := Some out\<rparr>))"

definition store_push :: "string \<Rightarrow> run_event \<Rightarrow> (run_store, exn, unit) eff" where
  "store_push rid e = with_record rid (\<lambda>r. ((), put_all (Some e) (r\<lparr>rr_events := rr_events r @ [e]\<rparr>)))"

section \<open>Streams\<close>

text \<open>
  The generator \<open>stream\<close>: suspended in the replay of the history it copied, then on its
  queue.  One step yields an event, ends, or finds the queue empty.
\<close>

datatype stream = NotStarted | Replaying "run_event list" | Listening nat | Ended

datatype stream_item = Yield run_event | StreamEnd | Blocked

definition listen_step :: "string \<Rightarrow> nat \<Rightarrow> run_store \<Rightarrow> stream_item \<times> stream \<times> run_store" where
  "listen_step rid q s =
    (case dget (sto_records s) rid of
       None \<Rightarrow> (StreamEnd, Ended, s)
     | Some r \<Rightarrow>
        (case dget (rr_listeners r) q of
           Some (Some e # xs) \<Rightarrow> (Yield e, Listening q,
              s\<lparr>sto_records := dset rid (r\<lparr>rr_listeners := dset q xs (rr_listeners r)\<rparr>) (sto_records s)\<rparr>)
         | Some (None # xs) \<Rightarrow> (StreamEnd, Ended,
              s\<lparr>sto_records := dset rid (r\<lparr>rr_listeners := dpop q (rr_listeners r)\<rparr>) (sto_records s)\<rparr>)
         | _ \<Rightarrow> (Blocked, Listening q, s)))"

definition after_replay :: "string \<Rightarrow> run_record \<Rightarrow> run_store \<Rightarrow> stream_item \<times> stream \<times> run_store" where
  "after_replay rid r s =
    (if terminal_state (rr_state r) then (StreamEnd, Ended, s)
     else let q = sto_next s in listen_step rid q
       (s\<lparr>sto_next := Suc q,
          sto_records := dset rid (r\<lparr>rr_listeners := rr_listeners r @ [(q, [])]\<rparr>) (sto_records s)\<rparr>))"

fun stream_step :: "string \<Rightarrow> stream \<Rightarrow> run_store \<Rightarrow> (exn + stream_item) \<times> stream \<times> run_store" where
  "stream_step rid NotStarted s =
    (case dget (sto_records s) rid of
       None \<Rightarrow> (Inl (Exn RegistryError (rid @ '' not found'')), Ended, s)
     | Some r \<Rightarrow>
        (case rr_events r of
           e # es \<Rightarrow> (Inr (Yield e), Replaying es, s)
         | [] \<Rightarrow> apfst Inr (after_replay rid r s)))"
| "stream_step rid (Replaying (e # es)) s = (Inr (Yield e), Replaying es, s)"
| "stream_step rid (Replaying []) s =
    (case dget (sto_records s) rid of
       None \<Rightarrow> (Inr StreamEnd, Ended, s)
     | Some r \<Rightarrow> apfst Inr (after_replay rid r s))"
| "stream_step rid (Listening q) s = apfst Inr (listen_step rid q s)"
| "stream_step rid Ended s = (Inr StreamEnd, Ended, s)"

text \<open>What a client reads until its stream ends or would wait.\<close>

fun read_stream :: "nat \<Rightarrow> string \<Rightarrow> stream \<Rightarrow> run_store \<Rightarrow> run_event list \<times> stream \<times> run_store" where
  "read_stream 0 rid st s = ([], st, s)"
| "read_stream (Suc n) rid st s =
    (case stream_step rid st s of
       (Inr (Yield e), st', s') \<Rightarrow> (case read_stream n rid st' s' of (es, x) \<Rightarrow> (e # es, x))
     | (_, st', s') \<Rightarrow> ([], st', s'))"

section \<open>SQLite\<close>

record run_row =
  row_target :: string
  row_state :: run_state
  row_progress :: "run_progress option"
  row_result :: "pyval option"

record sqlite_store =
  sq_runs :: "(string, run_row) dict"
  sq_events :: "(string \<times> nat \<times> run_event) list"

definition sqlite_create :: "string \<Rightarrow> string \<Rightarrow> (sqlite_store, exn, unit) eff" where
  "sqlite_create rid target s =
    (if dhas (sq_runs s) rid then (Inl (Exn RegistryError (rid @ '' already exists'')), s)
     else (Inr (), s\<lparr>sq_runs := dset rid \<lparr> row_target = target, row_state = RunPending,
             row_progress = None, row_result = None \<rparr> (sq_runs s)\<rparr>))"

text \<open>An \<open>UPDATE\<close> that matches no row raises.\<close>

definition sqlite_update :: "string \<Rightarrow> (run_row \<Rightarrow> run_row) \<Rightarrow> (sqlite_store, exn, unit) eff" where
  "sqlite_update rid f s =
    (case dget (sq_runs s) rid of
       None \<Rightarrow> (Inl (Exn RegistryError (rid @ '' not found'')), s)
     | Some r \<Rightarrow> (Inr (), s\<lparr>sq_runs := dset rid (f r) (sq_runs s)\<rparr>))"

definition sqlite_status :: "string \<Rightarrow> (sqlite_store, exn, run_status) eff" where
  "sqlite_status rid s =
    (case dget (sq_runs s) rid of
       None \<Rightarrow> (Inl (Exn RegistryError (rid @ '' not found'')), s)
     | Some r \<Rightarrow> (Inr \<lparr> st_run_id = rid, st_state = row_state r, st_progress = row_progress r \<rparr>, s))"

definition sqlite_result :: "string \<Rightarrow> (sqlite_store, exn, group_output option) eff" where
  "sqlite_result rid s =
    (case dget (sq_runs s) rid of
       None \<Rightarrow> (Inl (Exn RegistryError (rid @ '' not found'')), s)
     | Some r \<Rightarrow>
        (case row_result r of
           None \<Rightarrow> (Inr None, s)
         | Some v \<Rightarrow> (map_sum id Some (decode_result v), s)))"

definition sqlite_progress :: "string \<Rightarrow> run_progress \<Rightarrow> (sqlite_store, exn, unit) eff" where
  "sqlite_progress rid p = sqlite_update rid (\<lambda>r. r\<lparr>row_progress := Some p\<rparr>)"

definition sqlite_set_state :: "string \<Rightarrow> run_state \<Rightarrow> (sqlite_store, exn, unit) eff" where
  "sqlite_set_state rid st = sqlite_update rid (\<lambda>r. r\<lparr>row_state := st\<rparr>)"

definition sqlite_set_result :: "string \<Rightarrow> group_output \<Rightarrow> (sqlite_store, exn, unit) eff" where
  "sqlite_set_result rid out s =
    (case encode_result out of
       Inl e \<Rightarrow> (Inl e, s)
     | Inr v \<Rightarrow> sqlite_update rid (\<lambda>r. r\<lparr>row_result := Some v\<rparr>) s)"

definition next_seq :: "string \<Rightarrow> sqlite_store \<Rightarrow> nat" where
  "next_seq rid s = fold (\<lambda>(r, n, e) m. if r = rid then max m (Suc n) else m) (sq_events s) 0"

definition sqlite_push :: "string \<Rightarrow> run_event \<Rightarrow> (sqlite_store, exn, unit) eff" where
  "sqlite_push rid e s = (Inr (), s\<lparr>sq_events := sq_events s @ [(rid, next_seq rid s, e)]\<rparr>)"

definition sqlite_events_after :: "string \<Rightarrow> int \<Rightarrow> sqlite_store \<Rightarrow> (nat \<times> run_event) list" where
  "sqlite_events_after rid seen s =
    sort_key fst (map snd (filter (\<lambda>(r, n, e). r = rid \<and> int n > seen) (sq_events s)))"

section \<open>Streams of the persistent stores\<close>

text \<open>
  One turn of a polling stream: the events after the last one seen, then the status;
  the stream ends on a terminal state and waits to be woken otherwise.
\<close>

definition poll_turn :: "(nat \<times> run_event) list \<Rightarrow> run_state \<Rightarrow> int \<Rightarrow> run_event list \<times> int \<times> bool" where
  "poll_turn evs st seen =
    (map snd evs, if evs = [] then seen else int (fst (last evs)), terminal_state st)"

definition sqlite_turn :: "string \<Rightarrow> int \<Rightarrow> sqlite_store \<Rightarrow> exn + run_event list \<times> int \<times> bool" where
  "sqlite_turn rid seen s =
    (case fst (sqlite_status rid s) of
       Inl e \<Rightarrow> Inl e
     | Inr st \<Rightarrow> Inr (poll_turn (sqlite_events_after rid seen s) (st_state st) seen))"

end
