(* ===== verification/Run_Server.thy ===== *)
theory Run_Server
  imports Run_Store
begin

text \<open>
  \<open>server/app.py\<close> over any run store: registration, the guards of a request, submit,
  the background execution of a run, cancel and the two polling routes.  A store is
  the record of its operations; a request reaches a route through the bearer guard
  and the shutdown guard.  The background task is split where it awaits the runtime.
\<close>

section \<open>Stores as operations\<close>

record 'st store_ops =
  so_create :: "string \<Rightarrow> string \<Rightarrow> ('st, exn, unit) eff"
  so_status :: "string \<Rightarrow> ('st, exn, run_status) eff"
  so_result :: "string \<Rightarrow> ('st, exn, group_output option) eff"
  so_set_state :: "string \<Rightarrow> run_state \<Rightarrow> ('st, exn, unit) eff"
  so_set_result :: "string \<Rightarrow> group_output \<Rightarrow> ('st, exn, unit) eff"
  so_push :: "string \<Rightarrow> run_event \<Rightarrow> ('st, exn, unit) eff"

definition memory_ops :: "run_store store_ops" where
  "memory_ops = \<lparr> so_create = store_create, so_status = store_status, so_result = store_result,
     so_set_state = store_set_state, so_set_result = store_set_result, so_push = store_push \<rparr>"

definition sqlite_ops :: "sqlite_store store_ops" where
  "sqlite_ops = \<lparr> so_create = sqlite_create, so_status = sqlite_status, so_result = sqlite_result,
     so_set_state = sqlite_set_state, so_set_result = sqlite_set_result, so_push = sqlite_push \<rparr>"

section \<open>The server's state\<close>

record ('st, 'r) server =
  sv_store :: 'st
  sv_rt :: 'r
  sv_active :: "(string, unit) dict"
  sv_agents :: "(string, agent) dict"
  sv_groups :: "(string, group) dict"
  sv_shutting_down :: bool

definition on_store :: "('st, exn, 'a) eff \<Rightarrow> (('st, 'r) server, exn, 'a) eff" where
  "on_store m s = (case m (sv_store s) of (r, t) \<Rightarrow> (r, s\<lparr>sv_store := t\<rparr>))"

definition server_register :: "agent \<Rightarrow> ('st, 'r) server \<Rightarrow> ('st, 'r) server" where
  "server_register a s = s\<lparr>sv_agents := dset (a_name a) a (sv_agents s)\<rparr>"

definition dsetdefault :: "'k \<Rightarrow> 'v \<Rightarrow> ('k, 'v) dict \<Rightarrow> ('k, 'v) dict" where
  "dsetdefault k v d = (if dhas d k then d else dset k v d)"

definition server_register_group :: "group \<Rightarrow> ('st, 'r) server \<Rightarrow> ('st, 'r) server" where
  "server_register_group g s =
    s\<lparr>sv_agents := fold (\<lambda>a. dsetdefault (a_name a) a) (group_agents g) (sv_agents s),
      sv_groups := dset (g_name g) g (sv_groups s)\<rparr>"

definition require_agent :: "string \<Rightarrow> (('st, 'r) server, exn, agent) eff" where
  "require_agent n s =
    (case dget (sv_agents s) n of
       None \<Rightarrow> (Inl (Exn RegistryError (n @ '' is not registered'')), s) | Some a \<Rightarrow> (Inr a, s))"

definition require_group :: "string \<Rightarrow> (('st, 'r) server, exn, group) eff" where
  "require_group n s =
    (case dget (sv_groups s) n of
       None \<Rightarrow> (Inl (Exn RegistryError (n @ '' is not registered'')), s) | Some g \<Rightarrow> (Inr g, s))"

section \<open>Guards\<close>

record http_request =
  rq_path :: string
  rq_authorization :: "string option"
  rq_request_id :: "string option"

datatype http_response =
    Passed
  | Refused nat string

definition auth_guard :: "string option \<Rightarrow> http_request \<Rightarrow> http_response" where
  "auth_guard token rq =
    (case token of
       None \<Rightarrow> Passed
     | Some t \<Rightarrow>
        if rq_path rq \<in> {''/health'', ''/healthz'', ''/readyz''} then Passed
        else if rq_authorization rq \<noteq> Some (''Bearer '' @ t) then Refused 401 ''Unauthorized''
        else Passed)"

definition shutdown_guard :: "bool \<Rightarrow> http_request \<Rightarrow> http_response" where
  "shutdown_guard shutting rq =
    (if rq_path rq \<in> {''/healthz'', ''/readyz''} then Passed
     else if shutting then Refused 503 ''ServerShuttingDown''
     else Passed)"

text \<open>The middleware added last runs outermost.\<close>

definition request_guards :: "string option \<Rightarrow> bool \<Rightarrow> http_request \<Rightarrow> http_response" where
  "request_guards token shutting rq =
    (case auth_guard token rq of Passed \<Rightarrow> shutdown_guard shutting rq | r \<Rightarrow> r)"

definition readyz :: "bool \<Rightarrow> bool option \<Rightarrow> http_response" where
  "readyz shutting job_started =
    (if shutting then Refused 503 ''shutting_down''
     else if job_started = Some False then Refused 503 ''broker_not_started''
     else Passed)"

definition with_request_id :: "task_spec \<Rightarrow> string option \<Rightarrow> string option \<Rightarrow> task_spec" where
  "with_request_id t body_id state_id =
    (let rid = (case body_id of
                  Some (c # cs) \<Rightarrow> c # cs
                | _ \<Rightarrow> (case state_id of None \<Rightarrow> ts_request_id t | Some r \<Rightarrow> r))
     in if rid = ts_request_id t then t else t\<lparr>ts_request_id := rid\<rparr>)"

section \<open>Dispatch\<close>

definition server_dispatch ::
  "group_env \<Rightarrow> 'b runtime \<Rightarrow> string \<Rightarrow> bool \<Rightarrow> task_spec \<Rightarrow> (('st, 'b rt) server, exn, group_output) eff" where
  "server_dispatch E R target is_group t =
    (if is_group
     then bnd (require_group target) (\<lambda>g s.
            case run_group E R g t (sv_rt s) of (r, u) \<Rightarrow> (r, s\<lparr>sv_rt := u\<rparr>))
     else bnd (require_agent target) (\<lambda>a s.
            case run R (ByAgent a) t (sv_rt s) of (r, u) \<Rightarrow> (map_sum id OneResult r, s\<lparr>sv_rt := u\<rparr>)))"

text \<open>The synchronous routes.\<close>

definition route_run ::
  "group_env \<Rightarrow> 'b runtime \<Rightarrow> string \<Rightarrow> bool \<Rightarrow> task_spec \<Rightarrow> string option \<Rightarrow> string option
    \<Rightarrow> (('st, 'b rt) server, exn, pyval) eff" where
  "route_run E R target is_group t body_id state_id =
    bnd (server_dispatch E R target is_group (with_request_id t body_id state_id))
      (\<lambda>out s. (serialize_result out, s))"

fun serialize_all :: "agent_result list \<Rightarrow> exn + pyval list" where
  "serialize_all [] = Inr []"
| "serialize_all (r # rs) =
    (case serialize_agent_result r of
       Inl e \<Rightarrow> Inl e
     | Inr v \<Rightarrow> (case serialize_all rs of Inl e \<Rightarrow> Inl e | Inr vs \<Rightarrow> Inr (v # vs)))"

definition route_gather ::
  "'b runtime \<Rightarrow> string \<Rightarrow> task_spec list \<Rightarrow> int \<Rightarrow> string option \<Rightarrow> string option
    \<Rightarrow> (('st, 'b rt) server, exn, pyval) eff" where
  "route_gather R target ts mc body_id state_id =
    bnd (require_agent target) (\<lambda>a s.
      case gather R (ByAgent a) (map (\<lambda>t. with_request_id t body_id state_id) ts) mc False (sv_rt s) of
        (r, u) \<Rightarrow>
          ((case r of Inl e \<Rightarrow> Inl e | Inr rs \<Rightarrow> map_sum id VList (serialize_all rs)), s\<lparr>sv_rt := u\<rparr>))"

section \<open>Submitted runs\<close>

definition run_level_event :: "run_event_type \<Rightarrow> string \<Rightarrow> string option \<Rightarrow> string option \<Rightarrow> run_event" where
  "run_level_event ty rid agent err =
    \<lparr> re_type = ty, re_run_id = rid, re_agent = agent, re_task_id = None, re_error = err \<rparr>"

definition submit ::
  "'st store_ops \<Rightarrow> string \<Rightarrow> string \<Rightarrow> bool \<Rightarrow> (('st, 'r) server, exn, string) eff" where
  "submit ops rid target is_group =
    bnd (if is_group then bnd (require_group target) (\<lambda>_. ret ()) else bnd (require_agent target) (\<lambda>_. ret ()))
      (\<lambda>_. bnd (on_store (so_create ops rid target)) (\<lambda>_. ret rid))"

definition begin_run :: "'st store_ops \<Rightarrow> string \<Rightarrow> string \<Rightarrow> (('st, 'r) server, exn, unit) eff" where
  "begin_run ops rid target =
    bnd (modify (\<lambda>s. s\<lparr>sv_active := dset rid () (sv_active s)\<rparr>)) (\<lambda>_.
    bnd (on_store (so_set_state ops rid RunRunning)) (\<lambda>_.
    on_store (so_push ops rid (run_level_event RunAgentStarted rid (Some target) None))))"

definition try_except :: "('s, exn, 'a) eff \<Rightarrow> (exn \<Rightarrow> ('s, exn, 'a) eff) \<Rightarrow> ('s, exn, 'a) eff" where
  "try_except m h s =
    (case m s of
       (Inl e, t) \<Rightarrow> if isinstance e PyException then h e t else (Inl e, t)
     | (Inr x, t) \<Rightarrow> (Inr x, t))"

definition outcome_event :: "bool \<Rightarrow> run_event_type" where
  "outcome_event is_group = (if is_group then RunGroupCompleted else RunAgentCompleted)"

definition record_outcome ::
  "'st store_ops \<Rightarrow> string \<Rightarrow> string \<Rightarrow> bool \<Rightarrow> exn + group_output \<Rightarrow> (('st, 'r) server, exn, unit) eff" where
  "record_outcome ops rid target is_group r =
    (case r of
       Inl e \<Rightarrow> raise e
     | Inr out \<Rightarrow>
        bnd (on_store (so_set_result ops rid out)) (\<lambda>_.
        bnd (on_store (so_set_state ops rid (if result_is_ok out then RunCompleted else RunFailed))) (\<lambda>_.
        on_store (so_push ops rid (run_level_event (outcome_event is_group) rid (Some target) None)))))"

definition record_failure ::
  "'st store_ops \<Rightarrow> string \<Rightarrow> string \<Rightarrow> exn \<Rightarrow> (('st, 'r) server, exn, unit) eff" where
  "record_failure ops rid target e =
    bnd (on_store (so_set_state ops rid RunFailed)) (\<lambda>_.
    on_store (so_push ops rid (run_level_event RunAgentFailed rid (Some target) (Some (exn_msg e)))))"

definition finish_run ::
  "'st store_ops \<Rightarrow> string \<Rightarrow> string \<Rightarrow> bool \<Rightarrow> exn + group_output \<Rightarrow> (('st, 'r) server, exn, unit) eff" where
  "finish_run ops rid target is_group r =
    finally_do (try_except (record_outcome ops rid target is_group r) (record_failure ops rid target))
      (\<lambda>s. s\<lparr>sv_active := dpop rid (sv_active s)\<rparr>)"

definition execute_run ::
  "'st store_ops \<Rightarrow> group_env \<Rightarrow> 'b runtime \<Rightarrow> string \<Rightarrow> string \<Rightarrow> bool \<Rightarrow> task_spec
    \<Rightarrow> (('st, 'b rt) server, exn, unit) eff" where
  "execute_run ops E R rid target is_group t =
    bnd (begin_run ops rid target) (\<lambda>_ s.
      case server_dispatch E R target is_group t s of
        (r, u) \<Rightarrow> finish_run ops rid target is_group r u)"

definition cancel_run :: "'st store_ops \<Rightarrow> string \<Rightarrow> (('st, 'r) server, exn, run_state) eff" where
  "cancel_run ops rid =
    bnd (on_store (so_status ops rid)) (\<lambda>st.
      if terminal_state (st_state st) then ret (st_state st)
      else bnd (on_store (so_set_state ops rid RunCancelled)) (\<lambda>_.
           bnd (on_store (so_push ops rid (run_level_event RunWasCancelled rid None None))) (\<lambda>_.
           ret RunCancelled)))"

definition http_409 :: "string \<Rightarrow> exn" where
  "http_409 detail = Exn (PyOther ''HTTPException'') (''409: '' @ detail)"

definition get_run_result :: "'st store_ops \<Rightarrow> string \<Rightarrow> (('st, 'r) server, exn, pyval) eff" where
  "get_run_result ops rid =
    bnd (on_store (so_status ops rid)) (\<lambda>st.
      if st_state st \<notin> {RunCompleted, RunFailed}
      then raise (http_409 (run_state_value (st_state st)))
      else bnd (on_store (so_result ops rid)) (\<lambda>r.
        case r of
          None \<Rightarrow> raise (Exn RegistryError (rid @ '' has no result''))
        | Some out \<Rightarrow> (\<lambda>s. (serialize_result out, s))))"

end
