(* ===== verification/Run_Lifecycle.thy ===== *)
theory Run_Lifecycle
  imports Run_Server
begin

text \<open>
  What the server gets from any run store, as a locale with the in-memory and the
  SQLite store as its interpretations; how a submitted run settles, with and without
  a cancellation; and what a live stream of the in-memory store sees of it.
\<close>

section \<open>The contract of a run store\<close>

text \<open>
  \<open>view\<close> is what a result looks like when it is read back, \<open>writable\<close> which results the
  store can write, \<open>good\<close> the store's own invariant.
\<close>

locale run_store_core =
  fixes ops :: "'st store_ops"
    and good :: "'st \<Rightarrow> bool"
    and state_of :: "'st \<Rightarrow> string \<Rightarrow> run_state option"
    and result_of :: "'st \<Rightarrow> string \<Rightarrow> group_output option"
    and events_of :: "'st \<Rightarrow> string \<Rightarrow> run_event list"
    and view :: "group_output \<Rightarrow> group_output"
    and writable :: "group_output \<Rightarrow> bool"
  assumes status: "good s \<Longrightarrow> state_of s rid = Some x \<Longrightarrow> \<exists>st. so_status ops rid s = (Inr st, s) \<and> st_state st = x"
    and result: "good s \<Longrightarrow> state_of s rid \<noteq> None \<Longrightarrow> so_result ops rid s = (Inr (result_of s rid), s)"
    and create: "good s \<Longrightarrow> state_of s rid = None \<Longrightarrow> \<exists>s'. so_create ops rid t s = (Inr (), s') \<and> good s'
      \<and> state_of s' = (state_of s)(rid := Some RunPending)"
    and set_result: "good s \<Longrightarrow> state_of s rid \<noteq> None \<Longrightarrow> writable out \<Longrightarrow>
      \<exists>s'. so_set_result ops rid out s = (Inr (), s') \<and> good s'
      \<and> state_of s' = state_of s \<and> result_of s' = (result_of s)(rid := Some (view out)) \<and> events_of s' = events_of s"
    and push: "good s \<Longrightarrow> state_of s rid \<noteq> None \<Longrightarrow> \<exists>s'. so_push ops rid e s = (Inr (), s') \<and> good s'
      \<and> state_of s' = state_of s \<and> result_of s' = result_of s
      \<and> events_of s' = (events_of s)(rid := events_of s rid @ [e])"
begin

lemma result_effect:
  assumes "good (sv_store s)" "state_of (sv_store s) rid = Some x" "x \<in> {RunCompleted, RunFailed}"
    and "result_of (sv_store s) rid = Some out"
  shows "get_run_result ops rid s = (serialize_result out, s)"
proof -
  obtain st where st: "so_status ops rid (sv_store s) = (Inr st, sv_store s)" "st_state st = x"
    using status [OF assms(1,2)] by blast
  have "so_result ops rid (sv_store s) = (Inr (Some out), sv_store s)"
    using result [OF assms(1)] assms(2,4) by simp
  then show ?thesis using st assms(3) by (auto simp: get_run_result_def on_store_def bnd_def)
qed

lemma no_result_effect:
  assumes "good (sv_store s)" "state_of (sv_store s) rid = Some x" "x \<notin> {RunCompleted, RunFailed}"
  shows "get_run_result ops rid s = (Inl (http_409 (run_state_value x)), s)"
  using status [OF assms(1,2)] assms(3) by (auto simp: get_run_result_def on_store_def bnd_def)

end

text \<open>
  A store that lets any state be overwritten, and one whose terminal states are final.
\<close>

locale run_store_laws = run_store_core ops good state_of result_of events_of view writable
  for ops :: "'st store_ops" and good state_of result_of events_of view writable +
  assumes set_state: "good s \<Longrightarrow> state_of s rid \<noteq> None \<Longrightarrow> \<exists>s'. so_set_state ops rid x s = (Inr (), s') \<and> good s'
      \<and> state_of s' = (state_of s)(rid := Some x) \<and> result_of s' = result_of s \<and> events_of s' = events_of s"
begin

text \<open>The observable effect of a step of the server on its store.\<close>

definition effect ::
  "('st, 'r) server \<Rightarrow> ('st, 'r) server \<Rightarrow> string \<Rightarrow> run_state \<Rightarrow> group_output option \<Rightarrow> run_event list \<Rightarrow> bool" where
  "effect s s' rid x out es =
    (good (sv_store s')
     \<and> state_of (sv_store s') = (state_of (sv_store s))(rid := Some x)
     \<and> result_of (sv_store s') = (case out of None \<Rightarrow> result_of (sv_store s)
          | Some o' \<Rightarrow> (result_of (sv_store s))(rid := Some (view o')))
     \<and> events_of (sv_store s') = (events_of (sv_store s))(rid := events_of (sv_store s) rid @ es)
     \<and> sv_rt s' = sv_rt s)"

lemma set_then_push:
  assumes "good (sv_store s)" "state_of (sv_store s) rid \<noteq> None"
  shows "\<exists>s'. bnd (on_store (so_set_state ops rid x)) (\<lambda>_. on_store (so_push ops rid e)) s = (Inr (), s')
    \<and> effect s s' rid x None [e] \<and> sv_active s' = sv_active s"
proof -
  obtain t1 where t1: "so_set_state ops rid x (sv_store s) = (Inr (), t1)" "good t1"
    "state_of t1 = (state_of (sv_store s))(rid := Some x)" "result_of t1 = result_of (sv_store s)"
    "events_of t1 = events_of (sv_store s)" using set_state [OF assms] by blast
  obtain t2 where t2: "so_push ops rid e t1 = (Inr (), t2)" "good t2" "state_of t2 = state_of t1"
    "result_of t2 = result_of t1" "events_of t2 = (events_of t1)(rid := events_of t1 rid @ [e])"
    using push [of t1 rid e] t1 by auto
  show ?thesis
    by (rule exI [of _ "s\<lparr>sv_store := t2\<rparr>"]) (use t1 t2 in \<open>simp add: on_store_def bnd_def effect_def\<close>)
qed

lemma begin_effect:
  assumes "good (sv_store s)" "state_of (sv_store s) rid \<noteq> None"
  shows "\<exists>s'. begin_run ops rid target s = (Inr (), s')
    \<and> effect s s' rid RunRunning None [run_level_event RunAgentStarted rid (Some target) None]"
  using set_then_push [of "s\<lparr>sv_active := dset rid () (sv_active s)\<rparr>" rid RunRunning
      "run_level_event RunAgentStarted rid (Some target) None"] assms
  by (auto simp: begin_run_def bnd_def effect_def)

lemma failure_effect:
  assumes "good (sv_store s)" "state_of (sv_store s) rid \<noteq> None"
  shows "\<exists>s'. record_failure ops rid target e s = (Inr (), s')
    \<and> effect s s' rid RunFailed None [run_level_event RunAgentFailed rid (Some target) (Some (exn_msg e))]"
  using set_then_push [OF assms] unfolding record_failure_def by blast

lemma outcome_effect:
  assumes "good (sv_store s)" "state_of (sv_store s) rid \<noteq> None" "writable out"
  shows "\<exists>s'. record_outcome ops rid target ig (Inr out) s = (Inr (), s')
    \<and> effect s s' rid (if result_is_ok out then RunCompleted else RunFailed) (Some out)
        [run_level_event (outcome_event ig) rid (Some target) None]"
proof -
  obtain t where t: "so_set_result ops rid out (sv_store s) = (Inr (), t)" "good t"
    "state_of t = state_of (sv_store s)" "result_of t = (result_of (sv_store s))(rid := Some (view out))"
    "events_of t = events_of (sv_store s)" using set_result [OF assms] by blast
  then show ?thesis
    using set_then_push [of "s\<lparr>sv_store := t\<rparr>" rid] assms(2)
    by (auto simp: record_outcome_def on_store_def [of "so_set_result ops rid out"] bnd_def effect_def)
qed

lemma finish_effect:
  assumes "good (sv_store s)" "state_of (sv_store s) rid \<noteq> None"
  shows "writable out \<Longrightarrow> \<exists>s'. finish_run ops rid target ig (Inr out) s = (Inr (), s')
      \<and> effect s s' rid (if result_is_ok out then RunCompleted else RunFailed) (Some out)
          [run_level_event (outcome_event ig) rid (Some target) None]"
    and "isinstance e PyException \<Longrightarrow> \<exists>s'. finish_run ops rid target ig (Inl e) s = (Inr (), s')
      \<and> effect s s' rid RunFailed None [run_level_event RunAgentFailed rid (Some target) (Some (exn_msg e))]"
proof -
  show "\<exists>s'. finish_run ops rid target ig (Inr out) s = (Inr (), s')
      \<and> effect s s' rid (if result_is_ok out then RunCompleted else RunFailed) (Some out)
          [run_level_event (outcome_event ig) rid (Some target) None]" if "writable out"
    using outcome_effect [OF assms that, of target ig]
    by (auto simp: finish_run_def finally_do_def try_except_def effect_def)
  show "\<exists>s'. finish_run ops rid target ig (Inl e) s = (Inr (), s')
      \<and> effect s s' rid RunFailed None [run_level_event RunAgentFailed rid (Some target) (Some (exn_msg e))]"
    if "isinstance e PyException"
    using failure_effect [OF assms, of target e] that
    by (auto simp: finish_run_def finally_do_def try_except_def record_outcome_def effect_def)
qed

lemma cancel_effect:
  assumes "good (sv_store s)" "state_of (sv_store s) rid = Some x" "\<not> terminal_state x"
  shows "\<exists>s'. cancel_run ops rid s = (Inr RunCancelled, s')
    \<and> effect s s' rid RunCancelled None [run_level_event RunWasCancelled rid None None]"
proof -
  obtain st where st: "so_status ops rid (sv_store s) = (Inr st, sv_store s)" "st_state st = x"
    using status [OF assms(1,2)] by blast
  obtain s' where s': "bnd (on_store (so_set_state ops rid RunCancelled))
      (\<lambda>_. on_store (so_push ops rid (run_level_event RunWasCancelled rid None None))) s = (Inr (), s')"
    "effect s s' rid RunCancelled None [run_level_event RunWasCancelled rid None None]"
    using set_then_push [OF assms(1), of rid] assms(2) by blast
  have "on_store (so_status ops rid) s = (Inr st, s)" using st(1) by (simp add: on_store_def)
  then have "cancel_run ops rid s = bnd (bnd (on_store (so_set_state ops rid RunCancelled))
      (\<lambda>_. on_store (so_push ops rid (run_level_event RunWasCancelled rid None None)))) (\<lambda>_. ret RunCancelled) s"
    using st(2) assms(3) by (simp add: cancel_run_def bnd_assoc)
  then show ?thesis using s' by simp
qed

text \<open>A run that is cancelled while it executes, and then ends with a result.\<close>

lemma cancelled_then_finished:
  assumes "good (sv_store s)" "state_of (sv_store s) rid \<noteq> None" "writable out"
  shows "\<exists>s1 s2 s3. begin_run ops rid target s = (Inr (), s1) \<and> cancel_run ops rid s1 = (Inr RunCancelled, s2)
    \<and> state_of (sv_store s2) rid = Some RunCancelled
    \<and> finish_run ops rid target ig (Inr out) s2 = (Inr (), s3)
    \<and> state_of (sv_store s3) rid = Some (if result_is_ok out then RunCompleted else RunFailed)
    \<and> events_of (sv_store s3) rid = events_of (sv_store s) rid
        @ [run_level_event RunAgentStarted rid (Some target) None, run_level_event RunWasCancelled rid None None,
           run_level_event (outcome_event ig) rid (Some target) None]
    \<and> get_run_result ops rid s3 = (serialize_result (view out), s3)"
proof -
  obtain s1 where s1: "begin_run ops rid target s = (Inr (), s1)"
    "effect s s1 rid RunRunning None [run_level_event RunAgentStarted rid (Some target) None]"
    using begin_effect [OF assms(1,2)] by blast
  obtain s2 where s2: "cancel_run ops rid s1 = (Inr RunCancelled, s2)"
    "effect s1 s2 rid RunCancelled None [run_level_event RunWasCancelled rid None None]"
    using cancel_effect [of s1 rid RunRunning] s1(2) by (auto simp: effect_def terminal_state_def)
  obtain s3 where s3: "finish_run ops rid target ig (Inr out) s2 = (Inr (), s3)"
    "effect s2 s3 rid (if result_is_ok out then RunCompleted else RunFailed) (Some out)
       [run_level_event (outcome_event ig) rid (Some target) None]"
    using finish_effect(1) [of s2 rid out] s2(2) assms(3) by (auto simp: effect_def)
  have "get_run_result ops rid s3 = (serialize_result (view out), s3)"
    by (rule result_effect [where x = "if result_is_ok out then RunCompleted else RunFailed"])
      (use s3(2) in \<open>simp_all add: effect_def\<close>)
  then show ?thesis using s1 s2 s3 by (auto simp: effect_def)
qed

end

section \<open>The two stores\<close>

definition mem_state :: "run_store \<Rightarrow> string \<Rightarrow> run_state option" where
  "mem_state s rid = map_option rr_state (dget (sto_records s) rid)"

definition mem_result :: "run_store \<Rightarrow> string \<Rightarrow> group_output option" where
  "mem_result s rid = (case dget (sto_records s) rid of None \<Rightarrow> None | Some r \<Rightarrow> rr_result r)"

definition mem_events :: "run_store \<Rightarrow> string \<Rightarrow> run_event list" where
  "mem_events s rid = (case dget (sto_records s) rid of None \<Rightarrow> [] | Some r \<Rightarrow> rr_events r)"

lemma dset_same: "dget d k = Some v \<Longrightarrow> dset k v d = d"
  by (induction d) (auto split: if_splits)

lemma put_all_fields [simp]:
  "rr_state (put_all x r) = rr_state r" "rr_result (put_all x r) = rr_result r"
  "rr_events (put_all x r) = rr_events r" "rr_progress (put_all x r) = rr_progress r"
  by (simp_all add: put_all_def)

interpretation mem: run_store_laws memory_ops "\<lambda>s. True" mem_state mem_result mem_events id "\<lambda>out. True"
proof
  fix s :: run_store and rid x
  show "mem_state s rid = Some x \<Longrightarrow> \<exists>st. so_status memory_ops rid s = (Inr st, s) \<and> st_state st = x"
    by (auto simp: mem_state_def memory_ops_def store_status_def with_record_def dset_same)
  show "mem_state s rid \<noteq> None \<Longrightarrow> so_result memory_ops rid s = (Inr (mem_result s rid), s)"
    by (auto simp: mem_state_def mem_result_def memory_ops_def store_result_def with_record_def dset_same)
  show "mem_state s rid = None \<Longrightarrow> \<exists>s'. so_create memory_ops rid t s = (Inr (), s') \<and> True
      \<and> mem_state s' = (mem_state s)(rid := Some RunPending)" for t
    by (auto simp: mem_state_def memory_ops_def store_create_def new_record_def dhas_def fun_eq_iff simp del: dhas_iff)
  show "mem_state s rid \<noteq> None \<Longrightarrow> \<exists>s'. so_set_state memory_ops rid x s = (Inr (), s') \<and> True
      \<and> mem_state s' = (mem_state s)(rid := Some x) \<and> mem_result s' = mem_result s \<and> mem_events s' = mem_events s"
    by (auto simp: mem_state_def mem_result_def mem_events_def memory_ops_def store_set_state_def with_record_def fun_eq_iff)
  show "mem_state s rid \<noteq> None \<Longrightarrow> True \<Longrightarrow> \<exists>s'. so_set_result memory_ops rid out s = (Inr (), s') \<and> True
      \<and> mem_state s' = mem_state s \<and> mem_result s' = (mem_result s)(rid := Some (id out))
      \<and> mem_events s' = mem_events s" for out
    by (auto simp: mem_state_def mem_result_def mem_events_def memory_ops_def store_set_result_def with_record_def fun_eq_iff)
  show "mem_state s rid \<noteq> None \<Longrightarrow> \<exists>s'. so_push memory_ops rid e s = (Inr (), s') \<and> True
      \<and> mem_state s' = mem_state s \<and> mem_result s' = mem_result s
      \<and> mem_events s' = (mem_events s)(rid := mem_events s rid @ [e])" for e
    by (auto simp: mem_state_def mem_result_def mem_events_def memory_ops_def store_push_def with_record_def fun_eq_iff)
qed

definition sql_state :: "sqlite_store \<Rightarrow> string \<Rightarrow> run_state option" where
  "sql_state s rid = map_option row_state (dget (sq_runs s) rid)"

definition sql_result :: "sqlite_store \<Rightarrow> string \<Rightarrow> group_output option" where
  "sql_result s rid =
    (case dget (sq_runs s) rid of
       None \<Rightarrow> None
     | Some r \<Rightarrow> (case row_result r of
          None \<Rightarrow> None
        | Some v \<Rightarrow> (case decode_result v of Inl e \<Rightarrow> None | Inr out \<Rightarrow> Some out)))"

text \<open>The history of a run: its rows by sequence number.\<close>

definition sql_events :: "sqlite_store \<Rightarrow> string \<Rightarrow> run_event list" where
  "sql_events s rid = map snd (sqlite_events_after rid (- 1) s)"

definition sql_rows :: "string \<Rightarrow> sqlite_store \<Rightarrow> (nat \<times> run_event) list" where
  "sql_rows rid s = map snd (filter (\<lambda>(r, n, e). r = rid) (sq_events s))"

definition sql_good :: "sqlite_store \<Rightarrow> bool" where
  "sql_good s =
    ((\<forall>rid r v. dget (sq_runs s) rid = Some r \<longrightarrow> row_result r = Some v \<longrightarrow> (\<exists>out. decode_result v = Inr out))
     \<and> (\<forall>rid. sorted (map fst (sql_rows rid s)) \<and> (\<forall>x\<in>set (sql_rows rid s). fst x < next_seq rid s)))"

definition sql_writable :: "group_output \<Rightarrow> bool" where
  "sql_writable out = (\<exists>v. encode_result out = Inr v)"

lemma sql_events_rows: "sql_good s \<Longrightarrow> sql_events s rid = map snd (sql_rows rid s)"
proof -
  assume "sql_good s"
  then have "sorted (map fst (sql_rows rid s))" by (simp add: sql_good_def)
  moreover have "filter (\<lambda>(r, n, e). r = rid \<and> int n > - 1) xs = filter (\<lambda>(r, n, e). r = rid) xs"
    for xs :: "(string \<times> nat \<times> run_event) list"
    by (induction xs) auto
  ultimately show ?thesis
    by (simp add: sql_events_def sqlite_events_after_def sql_rows_def sort_key_id_if_sorted)
qed

lemma sql_push_rows:
  "sql_rows r (snd (sqlite_push rid e s)) = (if r = rid then sql_rows rid s @ [(next_seq rid s, e)] else sql_rows r s)"
  "next_seq r (snd (sqlite_push rid e s)) = (if r = rid then Suc (next_seq rid s) else next_seq r s)"
  by (simp_all add: sql_rows_def sqlite_push_def next_seq_def max_def)

lemma sql_push_good: "sql_good s \<Longrightarrow> sql_good (snd (sqlite_push rid e s))"
  unfolding sql_good_def sql_push_rows
  by (auto simp: sqlite_push_def sorted_append less_imp_le less_SucI)

lemma sql_update:
  assumes "sql_good s" "dget (sq_runs s) rid = Some r"
    and "\<And>v. row_result (f r) = Some v \<Longrightarrow> \<exists>out. decode_result v = Inr out"
  shows "\<exists>s'. sqlite_update rid f s = (Inr (), s') \<and> sql_good s' \<and> sql_events s' = sql_events s
    \<and> sq_runs s' = dset rid (f r) (sq_runs s)"
proof -
  let ?s = "s\<lparr>sq_runs := dset rid (f r) (sq_runs s)\<rparr>"
  have "sql_good ?s" using assms by (auto simp: sql_good_def sql_rows_def next_seq_def)
  moreover have "sql_events ?s = sql_events s" by (rule ext) (simp add: sql_events_def sqlite_events_after_def)
  ultimately show ?thesis using assms(2) by (simp add: sqlite_update_def)
qed

interpretation sql: run_store_laws sqlite_ops sql_good sql_state sql_result sql_events stored_output sql_writable
proof
  fix s :: sqlite_store and rid x
  assume good: "sql_good s"
  note defs = sql_state_def sql_result_def sqlite_ops_def sqlite_set_state_def sqlite_set_result_def
  have row: "\<exists>out. decode_result v = Inr out" if "dget (sq_runs s) rid = Some r" "row_result r = Some v" for r v
    using good that by (auto simp: sql_good_def)
  show "sql_state s rid = Some x \<Longrightarrow> \<exists>st. so_status sqlite_ops rid s = (Inr st, s) \<and> st_state st = x"
    by (auto simp: defs sqlite_status_def)
  show "sql_state s rid \<noteq> None \<Longrightarrow> so_result sqlite_ops rid s = (Inr (sql_result s rid), s)"
    using row by (fastforce simp: defs sqlite_result_def split: option.split)
  show "sql_state s rid = None \<Longrightarrow> \<exists>s'. so_create sqlite_ops rid t s = (Inr (), s') \<and> sql_good s'
      \<and> sql_state s' = (sql_state s)(rid := Some RunPending)" for t
    using good by (auto simp: defs sqlite_create_def dhas_def fun_eq_iff sql_good_def sql_rows_def next_seq_def
        simp del: dhas_iff split: if_splits)
  show "sql_state s rid \<noteq> None \<Longrightarrow> \<exists>s'. so_set_state sqlite_ops rid x s = (Inr (), s') \<and> sql_good s'
      \<and> sql_state s' = (sql_state s)(rid := Some x) \<and> sql_result s' = sql_result s \<and> sql_events s' = sql_events s"
  proof -
    assume "sql_state s rid \<noteq> None"
    then obtain r where r: "dget (sq_runs s) rid = Some r" by (auto simp: sql_state_def)
    then show ?thesis using sql_update [OF good r, of "\<lambda>r. r\<lparr>row_state := x\<rparr>"] row
      by (auto simp: defs fun_eq_iff)
  qed
  show "sql_state s rid \<noteq> None \<Longrightarrow> sql_writable out \<Longrightarrow> \<exists>s'. so_set_result sqlite_ops rid out s = (Inr (), s') \<and> sql_good s'
      \<and> sql_state s' = sql_state s \<and> sql_result s' = (sql_result s)(rid := Some (stored_output out))
      \<and> sql_events s' = sql_events s" for out
  proof -
    assume "sql_state s rid \<noteq> None" "sql_writable out"
    then obtain r v where r: "dget (sq_runs s) rid = Some r" and v: "encode_result out = Inr v"
      by (auto simp: sql_state_def sql_writable_def)
    show ?thesis using sql_update [OF good r, of "\<lambda>r. r\<lparr>row_result := Some v\<rparr>"] v r decode_encode [OF v]
      by (auto simp: defs fun_eq_iff)
  qed
  show "sql_state s rid \<noteq> None \<Longrightarrow> \<exists>s'. so_push sqlite_ops rid e s = (Inr (), s') \<and> sql_good s'
      \<and> sql_state s' = sql_state s \<and> sql_result s' = sql_result s
      \<and> sql_events s' = (sql_events s)(rid := sql_events s rid @ [e])" for e
  proof -
    let ?s = "snd (sqlite_push rid e s)"
    have "sql_events ?s = (sql_events s)(rid := sql_events s rid @ [e])"
      using sql_events_rows [OF good] sql_events_rows [OF sql_push_good [OF good]] sql_push_rows(1)
      by (auto simp: fun_eq_iff)
    then show ?thesis using sql_push_good [OF good]
      by (intro exI [of _ ?s]) (simp add: defs sqlite_push_def fun_eq_iff)
  qed
qed

section \<open>Cancellation\<close>

definition cancelled_course ::
  "'st store_ops \<Rightarrow> string \<Rightarrow> string \<Rightarrow> bool \<Rightarrow> group_output \<Rightarrow> ('st, 'r) server
    \<Rightarrow> (exn + run_state) \<times> ('st, 'r) server \<times> ('st, 'r) server" where
  "cancelled_course ops rid target ig out s =
    (let s1 = snd (begin_run ops rid target s) in
     case cancel_run ops rid s1 of
       (c, s2) \<Rightarrow> (c, s2, snd (finish_run ops rid target ig (Inr out) s2)))"

text \<open>
  A run cancelled while it executes does not stay cancelled, on either store: the
  cancel request reports success and the run shows as cancelled, but when the agent
  ends the run settles by its outcome as if nobody had cancelled it, and its result
  is served.
\<close>

theorem cancelled_run_is_overwritten:
  assumes "mem_state (sv_store s) rid \<noteq> None"
    and "sql_good (sv_store t)" "sql_state (sv_store t) rid \<noteq> None" "encode_result out = Inr v"
  shows "(case cancelled_course memory_ops rid target ig out s of (c, s2, s3) \<Rightarrow>
        c = Inr RunCancelled \<and> mem_state (sv_store s2) rid = Some RunCancelled
        \<and> mem_state (sv_store s3) rid = Some (if result_is_ok out then RunCompleted else RunFailed)
        \<and> fst (get_run_result memory_ops rid s3) = serialize_result out)
    \<and> (case cancelled_course sqlite_ops rid target ig out t of (c, t2, t3) \<Rightarrow>
        c = Inr RunCancelled \<and> sql_state (sv_store t2) rid = Some RunCancelled
        \<and> sql_state (sv_store t3) rid = Some (if result_is_ok out then RunCompleted else RunFailed)
        \<and> fst (get_run_result sqlite_ops rid t3) = serialize_result (stored_output out))"
proof -
  have w: "sql_writable out" using assms(4) by (simp add: sql_writable_def)
  show ?thesis
    using mem.cancelled_then_finished [OF TrueI assms(1) TrueI, of target ig out]
      sql.cancelled_then_finished [OF assms(2,3) w, of target ig]
    by (auto simp: cancelled_course_def)
qed

definition desk_server :: "'st \<Rightarrow> ('st, unit) server" where
  "desk_server st = \<lparr> sv_store = st, sv_rt = (), sv_active = [], sv_agents = [], sv_groups = [],
     sv_shutting_down = False \<rparr>"

definition desk_store :: run_store where
  "desk_store = snd (store_create ''r1'' ''a'' \<lparr> sto_records = [], sto_next = 0 \<rparr>)"

definition desk_sqlite :: sqlite_store where
  "desk_sqlite = snd (sqlite_create ''r1'' ''a'' \<lparr> sq_runs = [], sq_events = [] \<rparr>)"

lemma cancelled_run_is_overwritten_witness:
  "case cancelled_course memory_ops ''r1'' ''a'' False (OneResult (sample_leaf ''a'' None)) (desk_server desk_store) of
     (c, s2, s3) \<Rightarrow> c = Inr RunCancelled \<and> mem_state (sv_store s3) ''r1'' = Some RunCompleted"
proof -
  have g: "sql_good desk_sqlite"
    by (auto simp: sql_good_def desk_sqlite_def sqlite_create_def sql_rows_def split: if_splits)
  obtain v where v: "encode_result (OneResult (sample_leaf ''a'' None)) = Inr v"
    by (simp add: encode_result_def encode_agent_result_def dump_output_def model_dump_def sample_leaf_def)
  have st: "mem_state (sv_store (desk_server desk_store)) ''r1'' \<noteq> None"
    "sql_state (sv_store (desk_server desk_sqlite)) ''r1'' \<noteq> None"
    by (simp_all add: desk_server_def desk_store_def desk_sqlite_def store_create_def sqlite_create_def
        mem_state_def sql_state_def)
  have ok: "result_is_ok (OneResult (sample_leaf ''a'' None))"
    by (simp add: result_is_ok_def sample_leaf_def is_ok_def)
  show ?thesis
    using cancelled_run_is_overwritten [OF st(1) _ st(2) v, of "''a''" False] g ok
    by (auto simp: desk_server_def)
qed

section \<open>Live streams\<close>

lemma dget_put_all: "dget (rr_listeners (put_all x r)) q = map_option (\<lambda>xs. xs @ [x]) (dget (rr_listeners r) q)"
proof -
  have "dget (map (\<lambda>(q, xs). (q, xs @ [x])) d) q = map_option (\<lambda>xs. xs @ [x]) (dget d q)"
    for d :: "(nat, run_event option list) dict"
    by (induction d) auto
  then show ?thesis by (simp add: put_all_def)
qed

lemma read_listening:
  assumes "dget (sto_records s) rid = Some r" "dget (rr_listeners r) q = Some (map Some es @ None # xs)"
    and "length es < n"
  shows "\<exists>s'. read_stream n rid (Listening q) s = (es, Ended, s')"
  using assms
proof (induction es arbitrary: s r n)
  case Nil
  then obtain k where "n = Suc k" by (cases n) auto
  then show ?case using Nil by (simp add: listen_step_def)
next
  case (Cons e es)
  then obtain k where k: "n = Suc k" "length es < k" by (cases n) auto
  let ?r = "r\<lparr>rr_listeners := dset q (map Some es @ None # xs) (rr_listeners r)\<rparr>"
  let ?s = "s\<lparr>sto_records := dset rid ?r (sto_records s)\<rparr>"
  have "\<exists>s'. read_stream k rid (Listening q) ?s = (es, Ended, s')"
    by (rule Cons.IH [of _ ?r]) (use k in simp_all)
  then show ?case using Cons.prems(1,2) k by (auto simp: listen_step_def)
qed

lemma read_replay:
  assumes "dget (sto_records s) rid = Some r" "terminal_state (rr_state r)" "length es < n"
  shows "read_stream n rid (Replaying es) s = (es, Ended, s)"
  using assms
proof (induction es arbitrary: n)
  case Nil
  then obtain k where "n = Suc k" by (cases n) auto
  then show ?case using Nil by (simp add: after_replay_def)
next
  case (Cons e es)
  then obtain k where "n = Suc k" "length es < k" by (cases n) auto
  then show ?case using Cons by simp
qed

lemma read_fresh:
  assumes "dget (sto_records s) rid = Some r" "terminal_state (rr_state r)" "length (rr_events r) < n"
  shows "read_stream n rid NotStarted s = (rr_events r, Ended, s)"
proof (cases "rr_events r")
  case Nil
  then obtain k where "n = Suc k" using assms by (cases n) auto
  then show ?thesis using assms Nil by (simp add: after_replay_def)
next
  case (Cons e es)
  then obtain k where "n = Suc k" "length es < k" using assms by (cases n) auto
  then show ?thesis using assms(1) Cons read_replay [OF assms(1,2), of es k] by simp
qed

definition final_event :: "string \<Rightarrow> string \<Rightarrow> bool \<Rightarrow> exn + group_output \<Rightarrow> run_event" where
  "final_event rid target ig r =
    (case r of
       Inl e \<Rightarrow> run_level_event RunAgentFailed rid (Some target) (Some (exn_msg e))
     | Inr out \<Rightarrow> run_level_event (outcome_event ig) rid (Some target) None)"

lemma finish_record:
  assumes "dget (sto_records (sv_store s)) rid = Some r" "\<And>e. res = Inl e \<Longrightarrow> isinstance e PyException"
  shows "\<exists>r'. dget (sto_records (sv_store (snd (finish_run memory_ops rid target ig res s)))) rid = Some r'
    \<and> terminal_state (rr_state r') \<and> rr_events r' = rr_events r @ [final_event rid target ig res]
    \<and> rr_listeners r' = rr_listeners (put_all (Some (final_event rid target ig res)) (put_all None r))"
proof (cases res)
  case (Inl e)
  then show ?thesis using assms
    by (simp add: finish_run_def finally_do_def try_except_def record_outcome_def record_failure_def bnd_def on_store_def
        memory_ops_def store_set_state_def store_push_def with_record_def terminal_state_def final_event_def put_all_def)
next
  case (Inr out)
  then show ?thesis using assms
    by (simp add: finish_run_def finally_do_def try_except_def record_outcome_def bnd_def on_store_def
        memory_ops_def store_set_state_def store_set_result_def store_push_def with_record_def terminal_state_def
        final_event_def put_all_def)
qed

text \<open>
  A client that follows a run live never sees how it ends: whatever the outcome,
  its stream delivers the events it was still owed and ends, the closing mark being
  queued before the terminal event; a client that connects afterwards gets the whole
  history, the terminal event last.
\<close>

theorem live_stream_misses_the_outcome:
  assumes "dget (sto_records (sv_store s)) rid = Some r"
    and "dget (rr_listeners r) q = Some (map Some es)" "\<And>e. res = Inl e \<Longrightarrow> isinstance e PyException"
    and t: "t = sv_store (snd (finish_run memory_ops rid target ig res s))"
  shows "fst (read_stream (Suc (length es)) rid (Listening q) t) = es
    \<and> read_stream (Suc (Suc (length (rr_events r)))) rid NotStarted t
        = (rr_events r @ [final_event rid target ig res], Ended, t)"
proof -
  obtain r' where r': "dget (sto_records t) rid = Some r'" "terminal_state (rr_state r')"
    "rr_events r' = rr_events r @ [final_event rid target ig res]"
    "rr_listeners r' = rr_listeners (put_all (Some (final_event rid target ig res)) (put_all None r))"
    using finish_record [where res = res and target = target and ig = ig, OF assms(1)] assms(3) unfolding t by blast
  have "dget (rr_listeners r') q = Some (map Some es @ None # [Some (final_event rid target ig res)])"
    using r'(4) assms(2) by (simp add: dget_put_all)
  from read_listening [OF r'(1) this, of "Suc (length es)"] read_fresh [OF r'(1,2)] r'(3)
  show ?thesis by (auto simp del: read_stream.simps)
qed

lemma live_stream_misses_the_outcome_witness:
  "case stream_step ''r1'' (Replaying []) (sv_store (snd (begin_run memory_ops ''r1'' ''a'' (desk_server desk_store)))) of
     (x, Listening q, st) \<Rightarrow>
       (let t = sv_store (snd (finish_run memory_ops ''r1'' ''a'' False (Inr (OneResult (sample_leaf ''a'' None)))
                 (desk_server st)))
        in fst (read_stream 1 ''r1'' (Listening q) t) = []
         \<and> map re_type (fst (read_stream 3 ''r1'' NotStarted t)) = [RunAgentStarted, RunAgentCompleted])
   | _ \<Rightarrow> False"
proof -
  let ?b = "sv_store (snd (begin_run memory_ops ''r1'' ''a'' (desk_server desk_store)))"
  let ?e = "run_level_event RunAgentStarted ''r1'' (Some ''a'') None"
  let ?r = "(new_record ''a'')\<lparr>rr_state := RunRunning, rr_events := [?e]\<rparr>"
  have b: "?b = \<lparr> sto_records = [(''r1'', ?r)], sto_next = 0 \<rparr>"
    by (simp add: begin_run_def bnd_def on_store_def memory_ops_def store_set_state_def store_push_def with_record_def
        desk_server_def desk_store_def store_create_def new_record_def terminal_state_def put_all_def)
  let ?st = "\<lparr> sto_records = [(''r1'', ?r\<lparr>rr_listeners := [(0, [])]\<rparr>)], sto_next = Suc 0 \<rparr>"
  have s: "stream_step ''r1'' (Replaying []) ?b = (Inr Blocked, Listening 0, ?st)"
    by (simp add: b after_replay_def listen_step_def terminal_state_def new_record_def)
  let ?t = "sv_store (snd (finish_run memory_ops ''r1'' ''a'' False (Inr (OneResult (sample_leaf ''a'' None))) (desk_server ?st)))"
  have "fst (read_stream (Suc (length ([] :: run_event list))) ''r1'' (Listening 0) ?t) = []
      \<and> read_stream (Suc (Suc (length (rr_events (?r\<lparr>rr_listeners := [(0, [])]\<rparr>))))) ''r1'' NotStarted ?t
        = (rr_events (?r\<lparr>rr_listeners := [(0, [])]\<rparr>)
            @ [final_event ''r1'' ''a'' False (Inr (OneResult (sample_leaf ''a'' None)))], Ended, ?t)"
    by (rule live_stream_misses_the_outcome [OF _ _ _ refl]) (simp_all add: desk_server_def)
  then show ?thesis
    unfolding s
    by (simp del: read_stream.simps stream_step.simps add: final_event_def outcome_event_def run_level_event_def
        numeral_3_eq_3)
qed

end
