(* ===== verification/Run_Backends.thy ===== *)
theory Run_Backends
  imports Run_Lifecycle
begin

text \<open>
  \<open>runs/rocksdb.py\<close> (an ordered key-value map with a cached sequence counter per run)
  and \<open>runs/redis.py\<close> (a hash and a stream per run, a state script that keeps terminal
  states, expiry of ended runs), each against the contract of a run store.  The keys
  of a run's events are the pairs of its id and a sequence number; the fixed width of
  the printed number makes their order the numeric one.
\<close>

section \<open>RocksDB\<close>

record rocks_store =
  rk_runs :: "(string, run_row) dict"
  rk_events :: "(string \<times> nat, run_event) dict"
  rk_counters :: "(string, nat) dict"

definition rocks_create :: "string \<Rightarrow> string \<Rightarrow> (rocks_store, exn, unit) eff" where
  "rocks_create rid target s =
    (if dhas (rk_runs s) rid then (Inl (Exn RegistryError (rid @ '' already exists'')), s)
     else (Inr (), s\<lparr>rk_runs := dset rid \<lparr> row_target = target, row_state = RunPending,
             row_progress = None, row_result = None \<rparr> (rk_runs s)\<rparr>))"

definition rocks_read :: "string \<Rightarrow> (rocks_store, exn, run_row) eff" where
  "rocks_read rid s =
    (case dget (rk_runs s) rid of
       None \<Rightarrow> (Inl (Exn RegistryError (rid @ '' not found'')), s)
     | Some r \<Rightarrow> (Inr r, s))"

definition rocks_write :: "string \<Rightarrow> run_row \<Rightarrow> (rocks_store, exn, unit) eff" where
  "rocks_write rid r = modify (\<lambda>s. s\<lparr>rk_runs := dset rid r (rk_runs s)\<rparr>)"

definition rocks_status :: "string \<Rightarrow> (rocks_store, exn, run_status) eff" where
  "rocks_status rid = bnd (rocks_read rid) (\<lambda>r.
    ret \<lparr> st_run_id = rid, st_state = row_state r, st_progress = row_progress r \<rparr>)"

definition rocks_result :: "string \<Rightarrow> (rocks_store, exn, group_output option) eff" where
  "rocks_result rid = bnd (rocks_read rid) (\<lambda>r.
    case row_result r of
      None \<Rightarrow> ret None
    | Some v \<Rightarrow> (case decode_result v of Inl e \<Rightarrow> raise e | Inr out \<Rightarrow> ret (Some out)))"

definition rocks_progress :: "string \<Rightarrow> run_progress \<Rightarrow> (rocks_store, exn, unit) eff" where
  "rocks_progress rid p = bnd (rocks_read rid) (\<lambda>r. rocks_write rid (r\<lparr>row_progress := Some p\<rparr>))"

definition rocks_set_state :: "string \<Rightarrow> run_state \<Rightarrow> (rocks_store, exn, unit) eff" where
  "rocks_set_state rid st = bnd (rocks_read rid) (\<lambda>r. rocks_write rid (r\<lparr>row_state := st\<rparr>))"

definition rocks_set_result :: "string \<Rightarrow> group_output \<Rightarrow> (rocks_store, exn, unit) eff" where
  "rocks_set_result rid out = bnd (rocks_read rid) (\<lambda>r.
    case encode_result out of
      Inl e \<Rightarrow> raise e
    | Inr v \<Rightarrow> rocks_write rid (r\<lparr>row_result := Some v\<rparr>))"

text \<open>\<open>seek_for_prev\<close> from the end of the prefix: the largest sequence number, or \<open>-1\<close>.\<close>

definition rocks_scan_max :: "string \<Rightarrow> rocks_store \<Rightarrow> int" where
  "rocks_scan_max rid s = fold (\<lambda>((r, n), e) m. if r = rid then max m (int n) else m) (rk_events s) (- 1)"

definition rocks_next_seq :: "string \<Rightarrow> rocks_store \<Rightarrow> nat" where
  "rocks_next_seq rid s =
    (case dget (rk_counters s) rid of Some c \<Rightarrow> c | None \<Rightarrow> nat (rocks_scan_max rid s + 1))"

definition rocks_push :: "string \<Rightarrow> run_event \<Rightarrow> (rocks_store, exn, unit) eff" where
  "rocks_push rid e = bnd (rocks_read rid) (\<lambda>r. modify (\<lambda>s.
    let seq = rocks_next_seq rid s in
    s\<lparr>rk_counters := dset rid (seq + 1) (rk_counters s), rk_events := dset (rid, seq) e (rk_events s)\<rparr>))"

definition rocks_events_after :: "string \<Rightarrow> int \<Rightarrow> rocks_store \<Rightarrow> (nat \<times> run_event) list" where
  "rocks_events_after rid seen s =
    sort_key fst (map (\<lambda>((r, n), e). (n, e)) (filter (\<lambda>((r, n), e). r = rid \<and> int n > seen) (rk_events s)))"

definition rocks_turn :: "string \<Rightarrow> int \<Rightarrow> rocks_store \<Rightarrow> exn + run_event list \<times> int \<times> bool" where
  "rocks_turn rid seen s =
    (case fst (rocks_status rid s) of
       Inl e \<Rightarrow> Inl e
     | Inr st \<Rightarrow> Inr (poll_turn (rocks_events_after rid seen s) (st_state st) seen))"

text \<open>\<open>close\<close> and a new store on the same path: the counters start over.\<close>

definition rocks_reopen :: "rocks_store \<Rightarrow> rocks_store" where
  "rocks_reopen s = s\<lparr>rk_counters := []\<rparr>"

definition rocks_ops :: "rocks_store store_ops" where
  "rocks_ops = \<lparr> so_create = rocks_create, so_status = rocks_status, so_result = rocks_result,
     so_set_state = rocks_set_state, so_set_result = rocks_set_result, so_push = rocks_push \<rparr>"

section \<open>Redis\<close>

text \<open>
  Stream entries carry ids that grow with every \<open>XADD\<close>; a reader starts from 0.  The
  marks of expiry are the keys that got a time to live; a key that does not exist
  gets none.
\<close>

record redis_store =
  rd_runs :: "(string, run_row) dict"
  rd_streams :: "(string, (nat \<times> run_event) list) dict"
  rd_last_id :: nat
  rd_ttl :: int
  rd_expiring_runs :: "string list"
  rd_expiring_streams :: "string list"

definition redis_init :: "bool \<Rightarrow> bool \<Rightarrow> exn + bool" where
  "redis_init has_url has_client =
    (if has_url = has_client then Inl (Exn PyValueError ''pass exactly one of url= or client='')
     else Inr (\<not> has_client))"

definition redis_create :: "string \<Rightarrow> string \<Rightarrow> (redis_store, exn, unit) eff" where
  "redis_create rid target s =
    (if dhas (rd_runs s) rid then (Inl (Exn RegistryError (rid @ '' already exists'')), s)
     else (Inr (), s\<lparr>rd_runs := dset rid \<lparr> row_target = target, row_state = RunPending,
             row_progress = None, row_result = None \<rparr> (rd_runs s)\<rparr>))"

definition redis_read :: "string \<Rightarrow> (redis_store, exn, run_row) eff" where
  "redis_read rid s =
    (case dget (rd_runs s) rid of
       None \<Rightarrow> (Inl (Exn RegistryError (rid @ '' not found'')), s)
     | Some r \<Rightarrow> (Inr r, s))"

definition redis_hset :: "string \<Rightarrow> run_row \<Rightarrow> (redis_store, exn, unit) eff" where
  "redis_hset rid r = modify (\<lambda>s. s\<lparr>rd_runs := dset rid r (rd_runs s)\<rparr>)"

definition redis_status :: "string \<Rightarrow> (redis_store, exn, run_status) eff" where
  "redis_status rid = bnd (redis_read rid) (\<lambda>r.
    ret \<lparr> st_run_id = rid, st_state = row_state r, st_progress = row_progress r \<rparr>)"

definition redis_result :: "string \<Rightarrow> (redis_store, exn, group_output option) eff" where
  "redis_result rid = bnd (redis_read rid) (\<lambda>r.
    case row_result r of
      None \<Rightarrow> ret None
    | Some v \<Rightarrow> (case decode_result v of Inl e \<Rightarrow> raise e | Inr out \<Rightarrow> ret (Some out)))"

definition redis_progress :: "string \<Rightarrow> run_progress \<Rightarrow> (redis_store, exn, unit) eff" where
  "redis_progress rid p = bnd (redis_read rid) (\<lambda>r. redis_hset rid (r\<lparr>row_progress := Some p\<rparr>))"

text \<open>The script: \<open>-1\<close> for an unknown run, 0 for a terminal one, 1 after the update.\<close>

definition redis_state_script :: "string \<Rightarrow> run_state \<Rightarrow> (redis_store, exn, int) eff" where
  "redis_state_script rid st s =
    (case dget (rd_runs s) rid of
       None \<Rightarrow> (Inr (- 1), s)
     | Some r \<Rightarrow>
        if terminal_state (row_state r) then (Inr 0, s)
        else (Inr 1, s\<lparr>rd_runs := dset rid (r\<lparr>row_state := st\<rparr>) (rd_runs s)\<rparr>))"

definition expire_terminal :: "string \<Rightarrow> redis_store \<Rightarrow> redis_store" where
  "expire_terminal rid s =
    (if rd_ttl s \<le> 0 then s
     else s\<lparr>rd_expiring_runs := (if dhas (rd_runs s) rid then List.insert rid else id) (rd_expiring_runs s),
            rd_expiring_streams := (if dhas (rd_streams s) rid then List.insert rid else id) (rd_expiring_streams s)\<rparr>)"

definition redis_set_state :: "string \<Rightarrow> run_state \<Rightarrow> (redis_store, exn, unit) eff" where
  "redis_set_state rid st = bnd (redis_state_script rid st) (\<lambda>code.
    if code = - 1 then raise (Exn RegistryError (rid @ '' not found''))
    else modify (if terminal_state st then expire_terminal rid else id))"

definition redis_set_result :: "string \<Rightarrow> group_output \<Rightarrow> (redis_store, exn, unit) eff" where
  "redis_set_result rid out = bnd (redis_read rid) (\<lambda>r.
    case encode_result out of
      Inl e \<Rightarrow> raise e
    | Inr v \<Rightarrow> redis_hset rid (r\<lparr>row_result := Some v\<rparr>))"

definition redis_push :: "string \<Rightarrow> run_event \<Rightarrow> (redis_store, exn, unit) eff" where
  "redis_push rid e = bnd (redis_read rid) (\<lambda>r. modify (\<lambda>s.
    s\<lparr>rd_last_id := Suc (rd_last_id s),
      rd_streams := dset rid (dget_or (rd_streams s) rid [] @ [(Suc (rd_last_id s), e)]) (rd_streams s)\<rparr>))"

text \<open>\<open>XREAD\<close> with \<open>count=100\<close>, and one pass of the polling loop with its last drain.\<close>

definition xread :: "string \<Rightarrow> nat \<Rightarrow> redis_store \<Rightarrow> (nat \<times> run_event) list" where
  "xread rid seen s = take 100 (filter (\<lambda>x. fst x > seen) (dget_or (rd_streams s) rid []))"

definition last_read :: "(nat \<times> run_event) list \<Rightarrow> nat \<Rightarrow> nat" where
  "last_read xs seen = (if xs = [] then seen else fst (last xs))"

definition redis_turn :: "string \<Rightarrow> nat \<Rightarrow> redis_store \<Rightarrow> run_event list \<times> nat \<times> bool" where
  "redis_turn rid seen s =
    (let xs = xread rid seen s; seen1 = last_read xs seen in
     case fst (redis_status rid s) of
       Inl e \<Rightarrow> (map snd xs, seen1, True)
     | Inr st \<Rightarrow>
        if terminal_state (st_state st)
        then let ys = xread rid seen1 s in (map snd (xs @ ys), last_read ys seen1, True)
        else (map snd xs, seen1, False))"

definition redis_ops :: "redis_store store_ops" where
  "redis_ops = \<lparr> so_create = redis_create, so_status = redis_status, so_result = redis_result,
     so_set_state = redis_set_state, so_set_result = redis_set_result, so_push = redis_push \<rparr>"

section \<open>RocksDB keeps the contract\<close>

definition rows_decodable :: "(string, run_row) dict \<Rightarrow> bool" where
  "rows_decodable d \<longleftrightarrow>
    (\<forall>rid r v. dget d rid = Some r \<longrightarrow> row_result r = Some v \<longrightarrow> (\<exists>out. decode_result v = Inr out))"

definition row_output :: "run_row option \<Rightarrow> group_output option" where
  "row_output r =
    (case r of None \<Rightarrow> None
     | Some r \<Rightarrow> (case row_result r of
          None \<Rightarrow> None
        | Some v \<Rightarrow> (case decode_result v of Inl e \<Rightarrow> None | Inr out \<Rightarrow> Some out)))"

definition rk_state :: "rocks_store \<Rightarrow> string \<Rightarrow> run_state option" where
  "rk_state s rid = map_option row_state (dget (rk_runs s) rid)"

definition rk_result :: "rocks_store \<Rightarrow> string \<Rightarrow> group_output option" where
  "rk_result s rid = row_output (dget (rk_runs s) rid)"

definition rk_history :: "rocks_store \<Rightarrow> string \<Rightarrow> run_event list" where
  "rk_history s rid = map snd (rocks_events_after rid (- 1) s)"

definition rk_good :: "rocks_store \<Rightarrow> bool" where
  "rk_good s \<longleftrightarrow> rows_decodable (rk_runs s)
    \<and> (\<forall>rid c. dget (rk_counters s) rid = Some c \<longrightarrow> (\<forall>n e. ((rid, n), e) \<in> set (rk_events s) \<longrightarrow> n < c))"

lemma rows_decodable_dset:
  "rows_decodable d \<Longrightarrow> (\<And>v. row_result r = Some v \<Longrightarrow> \<exists>out. decode_result v = Inr out) \<Longrightarrow>
    rows_decodable (dset rid r d)"
  by (auto simp: rows_decodable_def)

lemma scan_max_bound: "((rid, n), e) \<in> set (rk_events s) \<Longrightarrow> int n \<le> rocks_scan_max rid s"
proof -
  have mono: "m \<le> fold (\<lambda>((r, n), e :: run_event) m. if r = rid then max m (int n) else m) xs m" for xs m
    by (induction xs arbitrary: m) (auto split: prod.split, smt (verit) max.bounded_iff)
  have "((rid, n), e) \<in> set xs \<Longrightarrow>
      int n \<le> fold (\<lambda>((r, n), e :: run_event) m. if r = rid then max m (int n) else m) xs m" for xs m
  proof (induction xs arbitrary: m)
    case (Cons x xs)
    then show ?case using mono [of "max m (int n)" xs] by auto
  qed simp
  then show "((rid, n), e) \<in> set (rk_events s) \<Longrightarrow> int n \<le> rocks_scan_max rid s"
    by (simp add: rocks_scan_max_def)
qed

text \<open>The next sequence number is new, with or without a cached counter.\<close>

lemma next_seq_fresh: "rk_good s \<Longrightarrow> ((rid, n), e) \<in> set (rk_events s) \<Longrightarrow> n < rocks_next_seq rid s"
  using scan_max_bound [of rid n e s]
  by (auto simp: rk_good_def rocks_next_seq_def split: option.split)

lemma insort_key_snoc: "f x \<le> f y \<Longrightarrow> insort_key f x (zs @ [y]) = insort_key f x zs @ [y]"
  by (induction zs) auto

lemma sort_key_snoc_max: "\<forall>x \<in> set xs. f x \<le> f y \<Longrightarrow> sort_key f (xs @ [y]) = sort_key f xs @ [y]"
  by (induction xs) (simp_all add: insort_key_snoc)

lemma rocks_push_history:
  assumes "rk_good s" "dget (rk_runs s) rid = Some r" "rocks_push rid e s = (x, t)"
  shows "x = Inr () \<and> rk_good t \<and> rk_runs t = rk_runs s \<and> rk_history t = (rk_history s)(rid := rk_history s rid @ [e])"
proof -
  let ?n = "rocks_next_seq rid s"
  have fresh: "(rid, ?n) \<notin> fst ` set (rk_events s)" using next_seq_fresh [OF assms(1)] by fastforce
  have t: "x = Inr ()" "t = s\<lparr>rk_counters := dset rid (?n + 1) (rk_counters s), rk_events := rk_events s @ [((rid, ?n), e)]\<rparr>"
    using assms(2,3) dset_fresh [OF fresh] by (auto simp: rocks_push_def rocks_read_def bnd_def Let_def)
  have "rk_good t" using assms(1) next_seq_fresh [OF assms(1)] unfolding t
    by (fastforce simp: rk_good_def less_SucI split: if_splits)
  moreover have "rk_history t q = (if q = rid then rk_history s rid @ [e] else rk_history s q)" for q
  proof (cases "q = rid")
    case True
    let ?xs = "map (\<lambda>((r, n), e). (n, e)) (filter (\<lambda>((r, n), e). r = rid \<and> int n > - 1) (rk_events s))"
    have "\<forall>x \<in> set ?xs. fst x \<le> fst (?n, e)" using next_seq_fresh [OF assms(1)] by fastforce
    from sort_key_snoc_max [OF this] show ?thesis using True
      unfolding t by (simp add: rk_history_def rocks_events_after_def)
  qed (simp add: t rk_history_def rocks_events_after_def)
  ultimately show ?thesis using t by (auto simp: fun_eq_iff)
qed

interpretation rocks: run_store_laws rocks_ops rk_good rk_state rk_result rk_history stored_output sql_writable
proof
  fix s :: rocks_store and rid x
  assume good: "rk_good s"
  note defs = rocks_ops_def rocks_read_def rocks_write_def rk_state_def rk_result_def row_output_def bnd_def fun_eq_iff
  have row: "\<exists>out. decode_result v = Inr out" if "dget (rk_runs s) rid = Some r" "row_result r = Some v" for r v
    using good that by (auto simp: rk_good_def rows_decodable_def)
  have keep: "rk_good (s\<lparr>rk_runs := d\<rparr>) = rows_decodable d" for d using good by (simp add: rk_good_def)
  have hist: "rk_history (s\<lparr>rk_runs := d\<rparr>) = rk_history s" for d
    by (simp add: fun_eq_iff rk_history_def rocks_events_after_def)
  have upd: "rows_decodable (dset rid r (rk_runs s))"
    if "\<And>v. row_result r = Some v \<Longrightarrow> \<exists>out. decode_result v = Inr out" for r
    using rows_decodable_dset good that by (simp add: rk_good_def)
  show "rk_state s rid = Some x \<Longrightarrow> \<exists>st. so_status rocks_ops rid s = (Inr st, s) \<and> st_state st = x"
    by (auto simp: defs rocks_status_def)
  show "rk_state s rid \<noteq> None \<Longrightarrow> so_result rocks_ops rid s = (Inr (rk_result s rid), s)"
    using row by (fastforce simp: defs rocks_result_def split: option.split sum.split)
  show "rk_state s rid = None \<Longrightarrow> \<exists>s'. so_create rocks_ops rid t s = (Inr (), s') \<and> rk_good s'
      \<and> rk_state s' = (rk_state s)(rid := Some RunPending)" for t
    by (auto simp: defs rocks_create_def dhas_def keep simp del: dhas_iff intro!: upd)
  show "rk_state s rid \<noteq> None \<Longrightarrow> \<exists>s'. so_set_state rocks_ops rid x s = (Inr (), s') \<and> rk_good s'
      \<and> rk_state s' = (rk_state s)(rid := Some x) \<and> rk_result s' = rk_result s \<and> rk_history s' = rk_history s"
  proof -
    assume "rk_state s rid \<noteq> None"
    then obtain r where r: "dget (rk_runs s) rid = Some r" by (auto simp: rk_state_def)
    have "rows_decodable (dset rid (r\<lparr>row_state := x\<rparr>) (rk_runs s))" by (rule upd) (use row [OF r] in simp)
    then show ?thesis using r by (simp add: defs rocks_set_state_def keep hist)
  qed
  show "rk_state s rid \<noteq> None \<Longrightarrow> sql_writable out \<Longrightarrow> \<exists>s'. so_set_result rocks_ops rid out s = (Inr (), s') \<and> rk_good s'
      \<and> rk_state s' = rk_state s \<and> rk_result s' = (rk_result s)(rid := Some (stored_output out))
      \<and> rk_history s' = rk_history s" for out
    using decode_encode [of out] by (auto simp: defs rocks_set_result_def keep hist sql_writable_def intro!: upd)
  show "rk_state s rid \<noteq> None \<Longrightarrow> \<exists>s'. so_push rocks_ops rid e s = (Inr (), s') \<and> rk_good s'
      \<and> rk_state s' = rk_state s \<and> rk_result s' = rk_result s
      \<and> rk_history s' = (rk_history s)(rid := rk_history s rid @ [e])" for e
  proof -
    assume "rk_state s rid \<noteq> None"
    then obtain r where "dget (rk_runs s) rid = Some r" by (auto simp: rk_state_def)
    with rocks_push_history [OF good this, of e] show ?thesis
      by (cases "rocks_push rid e s") (auto simp: rocks_ops_def rk_state_def rk_result_def fun_eq_iff)
  qed
qed

section \<open>Redis keeps terminal states\<close>

locale final_run_store = run_store_core ops good state_of result_of events_of view writable
  for ops :: "'st store_ops" and good state_of result_of events_of view writable +
  assumes set_state: "good s \<Longrightarrow> state_of s rid = Some y \<Longrightarrow> \<exists>s'. so_set_state ops rid x s = (Inr (), s') \<and> good s'
      \<and> state_of s' = (if terminal_state y then state_of s else (state_of s)(rid := Some x))
      \<and> result_of s' = result_of s \<and> events_of s' = events_of s"
begin

lemma set_then_push:
  assumes "good (sv_store s)" "state_of (sv_store s) rid = Some y"
  shows "\<exists>s'. bnd (on_store (so_set_state ops rid x)) (\<lambda>_. on_store (so_push ops rid e)) s = (Inr (), s')
    \<and> good (sv_store s') \<and> state_of (sv_store s') rid = Some (if terminal_state y then y else x)
    \<and> events_of (sv_store s') rid = events_of (sv_store s) rid @ [e]"
proof -
  obtain t1 where t1: "so_set_state ops rid x (sv_store s) = (Inr (), t1)" "good t1"
    "state_of t1 rid = Some (if terminal_state y then y else x)" "events_of t1 = events_of (sv_store s)"
    using set_state [OF assms, of x] assms(2) by (auto split: if_splits)
  obtain t2 where t2: "so_push ops rid e t1 = (Inr (), t2)" "good t2" "state_of t2 = state_of t1"
    "events_of t2 = (events_of t1)(rid := events_of t1 rid @ [e])"
    using push [of t1 rid e] t1 by auto
  show ?thesis
    by (rule exI [of _ "s\<lparr>sv_store := t2\<rparr>"]) (use t1 t2 in \<open>simp add: on_store_def bnd_def\<close>)
qed

lemma cancelled_stays_cancelled:
  assumes "good (sv_store s)" "state_of (sv_store s) rid = Some y" "\<not> terminal_state y" "writable out"
  shows "\<exists>s1 s2 s3. begin_run ops rid target s = (Inr (), s1) \<and> cancel_run ops rid s1 = (Inr RunCancelled, s2)
    \<and> finish_run ops rid target ig (Inr out) s2 = (Inr (), s3)
    \<and> state_of (sv_store s2) rid = Some RunCancelled \<and> state_of (sv_store s3) rid = Some RunCancelled
    \<and> get_run_result ops rid s3 = (Inl (http_409 (run_state_value RunCancelled)), s3)"
proof -
  obtain s1 where s1: "begin_run ops rid target s = (Inr (), s1)" "good (sv_store s1)"
    "state_of (sv_store s1) rid = Some RunRunning"
    using set_then_push [of "s\<lparr>sv_active := dset rid () (sv_active s)\<rparr>" rid y RunRunning
        "run_level_event RunAgentStarted rid (Some target) None"] assms(1-3)
    by (auto simp: begin_run_def bnd_def)
  obtain st where "so_status ops rid (sv_store s1) = (Inr st, sv_store s1)" "st_state st = RunRunning"
    using status [OF s1(2,3)] by blast
  then have c: "cancel_run ops rid s1 = bnd (bnd (on_store (so_set_state ops rid RunCancelled))
      (\<lambda>_. on_store (so_push ops rid (run_level_event RunWasCancelled rid None None)))) (\<lambda>_. ret RunCancelled) s1"
    by (simp add: cancel_run_def bnd_assoc on_store_def [of "so_status ops rid"] bnd_def [of "\<lambda>s. case so_status ops rid _ of _ \<Rightarrow> _"]
        terminal_state_def)
  obtain s2 where s2: "cancel_run ops rid s1 = (Inr RunCancelled, s2)" "good (sv_store s2)"
    "state_of (sv_store s2) rid = Some RunCancelled"
    using set_then_push [OF s1(2,3), of RunCancelled "run_level_event RunWasCancelled rid None None"]
    unfolding c by (auto simp: terminal_state_def)
  obtain t where t: "so_set_result ops rid out (sv_store s2) = (Inr (), t)" "good t"
    "state_of t rid = Some RunCancelled"
    using set_result [OF s2(2), of rid out] s2(3) assms(4) by auto
  obtain u where u: "bnd (on_store (so_set_state ops rid (if result_is_ok out then RunCompleted else RunFailed)))
      (\<lambda>_. on_store (so_push ops rid (run_level_event (outcome_event ig) rid (Some target) None))) (s2\<lparr>sv_store := t\<rparr>)
      = (Inr (), u)" "good (sv_store u)" "state_of (sv_store u) rid = Some RunCancelled"
    using set_then_push [of "s2\<lparr>sv_store := t\<rparr>" rid RunCancelled] t by (auto simp: terminal_state_def)
  have r: "record_outcome ops rid target ig (Inr out) s2 = (Inr (), u)"
    using t(1) u(1) by (simp add: record_outcome_def on_store_def [of "so_set_result ops rid out"] bnd_def)
  let ?s3 = "u\<lparr>sv_active := dpop rid (sv_active u)\<rparr>"
  have s3: "finish_run ops rid target ig (Inr out) s2 = (Inr (), ?s3)"
    using r by (simp add: finish_run_def finally_do_def try_except_def)
  have "get_run_result ops rid ?s3 = (Inl (http_409 (run_state_value RunCancelled)), ?s3)"
    using no_result_effect [of ?s3 rid RunCancelled] u by simp
  then show ?thesis using s1 s2 s3 u by auto
qed

end

definition rd_state :: "redis_store \<Rightarrow> string \<Rightarrow> run_state option" where
  "rd_state s rid = map_option row_state (dget (rd_runs s) rid)"

definition rd_result :: "redis_store \<Rightarrow> string \<Rightarrow> group_output option" where
  "rd_result s rid = row_output (dget (rd_runs s) rid)"

definition rd_history :: "redis_store \<Rightarrow> string \<Rightarrow> run_event list" where
  "rd_history s rid = map snd (dget_or (rd_streams s) rid [])"

definition rd_good :: "redis_store \<Rightarrow> bool" where
  "rd_good s \<longleftrightarrow> rows_decodable (rd_runs s)
    \<and> (\<forall>rid. sorted_wrt (<) (map fst (dget_or (rd_streams s) rid []))
         \<and> (\<forall>x \<in> set (dget_or (rd_streams s) rid []). 0 < fst x \<and> fst x \<le> rd_last_id s))"

lemma rd_push_good: "rd_good s \<Longrightarrow> rd_good (s\<lparr>rd_last_id := Suc (rd_last_id s),
    rd_streams := dset rid (dget_or (rd_streams s) rid [] @ [(Suc (rd_last_id s), e)]) (rd_streams s)\<rparr>)"
  by (auto simp: rd_good_def sorted_wrt_append less_Suc_eq_le) (fastforce simp: le_Suc_eq)+

interpretation redis: final_run_store redis_ops rd_good rd_state rd_result rd_history stored_output sql_writable
proof
  fix s :: redis_store and rid x
  assume good: "rd_good s"
  note defs = redis_ops_def redis_read_def redis_hset_def rd_state_def rd_result_def row_output_def bnd_def fun_eq_iff
  have row: "\<exists>out. decode_result v = Inr out" if "dget (rd_runs s) rid = Some r" "row_result r = Some v" for r v
    using good that by (auto simp: rd_good_def rows_decodable_def)
  have keep: "rd_good (s\<lparr>rd_runs := d\<rparr>) = rows_decodable d" for d using good by (simp add: rd_good_def)
  have exp: "rd_good (expire_terminal rid u) = rd_good u" "rd_runs (expire_terminal rid u) = rd_runs u"
    "rd_streams (expire_terminal rid u) = rd_streams u" for u
    by (simp_all add: expire_terminal_def rd_good_def)
  have upd: "rows_decodable (dset rid r (rd_runs s))"
    if "\<And>v. row_result r = Some v \<Longrightarrow> \<exists>out. decode_result v = Inr out" for r
    using rows_decodable_dset good that by (simp add: rd_good_def)
  show "rd_state s rid = Some x \<Longrightarrow> \<exists>st. so_status redis_ops rid s = (Inr st, s) \<and> st_state st = x"
    by (auto simp: defs redis_status_def)
  show "rd_state s rid \<noteq> None \<Longrightarrow> so_result redis_ops rid s = (Inr (rd_result s rid), s)"
    using row by (fastforce simp: defs redis_result_def split: option.split sum.split)
  show "rd_state s rid = None \<Longrightarrow> \<exists>s'. so_create redis_ops rid t s = (Inr (), s') \<and> rd_good s'
      \<and> rd_state s' = (rd_state s)(rid := Some RunPending)" for t
    by (auto simp: defs redis_create_def dhas_def keep simp del: dhas_iff intro!: upd)
  show "rd_state s rid \<noteq> None \<Longrightarrow> sql_writable out \<Longrightarrow> \<exists>s'. so_set_result redis_ops rid out s = (Inr (), s') \<and> rd_good s'
      \<and> rd_state s' = rd_state s \<and> rd_result s' = (rd_result s)(rid := Some (stored_output out))
      \<and> rd_history s' = rd_history s" for out
    using decode_encode [of out] by (auto simp: defs redis_set_result_def keep rd_history_def sql_writable_def intro!: upd)
  show "rd_state s rid \<noteq> None \<Longrightarrow> \<exists>s'. so_push redis_ops rid e s = (Inr (), s') \<and> rd_good s'
      \<and> rd_state s' = rd_state s \<and> rd_result s' = rd_result s
      \<and> rd_history s' = (rd_history s)(rid := rd_history s rid @ [e])" for e
    using rd_push_good [OF good, of rid e]
    by (auto simp: defs redis_push_def rd_history_def)
  show "rd_state s rid = Some y \<Longrightarrow> \<exists>s'. so_set_state redis_ops rid x s = (Inr (), s') \<and> rd_good s'
      \<and> rd_state s' = (if terminal_state y then rd_state s else (rd_state s)(rid := Some x))
      \<and> rd_result s' = rd_result s \<and> rd_history s' = rd_history s" for y
  proof -
    assume y: "rd_state s rid = Some y"
    then obtain r where r: "dget (rd_runs s) rid = Some r" "row_state r = y" by (auto simp: rd_state_def)
    have "rows_decodable (dset rid (r\<lparr>row_state := x\<rparr>) (rd_runs s))" by (rule upd) (use row [OF r(1)] in simp)
    then show ?thesis using r good by (simp add: defs redis_set_state_def redis_state_script_def keep exp rd_history_def)
  qed
qed


definition desk_redis :: redis_store where
  "desk_redis = snd (redis_create ''r1'' ''a'' \<lparr> rd_runs = [], rd_streams = [], rd_last_id = 0, rd_ttl = 3600,
     rd_expiring_runs = [], rd_expiring_streams = [] \<rparr>)"


section \<open>A finished run replays its history\<close>

lemma xread_sorted:
  assumes "sorted_wrt (<) (map fst xs)" "\<forall>x \<in> set xs. 0 < fst x"
  shows "filter (\<lambda>x. fst x > last_read (take n xs) 0) xs = drop n xs"
proof (cases "take n xs = []")
  case True
  then show ?thesis using assms(2) by (auto simp: last_read_def filter_id_conv)
next
  case False
  let ?k = "last (take n xs)"
  have split: "xs = take n xs @ drop n xs" by simp
  have s: "sorted_wrt (<) (map fst (take n xs @ drop n xs))" using assms(1) by simp
  have below: "fst x \<le> fst ?k" if "x \<in> set (take n xs)" for x
  proof -
    have "take n xs = butlast (take n xs) @ [?k]" using False by simp
    then have "sorted_wrt (<) (map fst (butlast (take n xs) @ [?k]))"
      using s by (metis map_append sorted_wrt_append)
    then have "\<forall>z \<in> set (butlast (take n xs)). fst z < fst ?k" by (simp add: sorted_wrt_append)
    moreover have "x \<in> set (butlast (take n xs)) \<or> x = ?k"
      using that \<open>take n xs = butlast (take n xs) @ [?k]\<close> by (metis Un_iff set_append set_ConsD empty_iff list.set(1))
    ultimately show ?thesis by fastforce
  qed
  have above: "fst ?k < fst x" if "x \<in> set (drop n xs)" for x
  proof -
    have "sorted_wrt (<) (map fst (take n xs) @ map fst (drop n xs))" using s by (simp only: map_append)
    then show ?thesis using that last_in_set [OF False] by (auto simp: sorted_wrt_append)
  qed
  have "filter (\<lambda>x. fst x > fst ?k) (take n xs) = []" "filter (\<lambda>x. fst x > fst ?k) (drop n xs) = drop n xs"
    using below above by (auto simp: filter_id_conv filter_empty_conv not_less)
  then have "filter (\<lambda>x. fst x > fst ?k) (take n xs @ drop n xs) = drop n xs" by (simp only: filter_append append_Nil)
  then show ?thesis using False by (simp add: last_read_def)
qed

text \<open>
  A stream opened on a run that has ended delivers the whole history of the run and
  ends, on the in-memory, the SQLite and the RocksDB store, the last one also after it
  was closed and opened again; on Redis it delivers the first two hundred events.
\<close>

theorem finished_run_replays:
  assumes "terminal_state x" "mem_state m rid = Some x" "sql_state q rid = Some x" "rk_state k rid = Some x"
    and "rd_good d" "rd_state d rid = Some x"
  shows "fst (read_stream (Suc (length (mem_events m rid))) rid NotStarted m) = mem_events m rid
    \<and> map_sum id fst (sqlite_turn rid (- 1) q) = Inr (sql_events q rid)
    \<and> map_sum id fst (rocks_turn rid (- 1) k) = Inr (rk_history k rid)
    \<and> rocks_turn rid (- 1) (rocks_reopen k) = rocks_turn rid (- 1) k
    \<and> fst (redis_turn rid 0 d) = take 200 (rd_history d rid)
    \<and> snd (snd (redis_turn rid 0 d))"
proof -
  obtain r where r: "dget (sto_records m) rid = Some r" "rr_state r = x" using assms(2) by (auto simp: mem_state_def)
  have "mem_events m rid = rr_events r" using r by (simp add: mem_events_def)
  then have mem: "fst (read_stream (Suc (length (mem_events m rid))) rid NotStarted m) = mem_events m rid"
    using read_fresh [OF r(1), of "Suc (length (rr_events r))"] r(2) assms(1) by simp
  have sql: "map_sum id fst (sqlite_turn rid (- 1) q) = Inr (sql_events q rid)"
    using assms(3) by (auto simp: sql_state_def sqlite_turn_def sqlite_status_def poll_turn_def sql_events_def)
  have rocks: "map_sum id fst (rocks_turn rid (- 1) k) = Inr (rk_history k rid)"
    "rocks_turn rid (- 1) (rocks_reopen k) = rocks_turn rid (- 1) k"
    using assms(4) by (auto simp: rk_state_def rocks_turn_def rocks_status_def rocks_read_def bnd_def poll_turn_def
        rk_history_def rocks_reopen_def rocks_events_after_def)
  let ?xs = "dget_or (rd_streams d) rid []"
  have good: "sorted_wrt (<) (map fst ?xs)" "\<forall>x \<in> set ?xs. 0 < fst x" using assms(5) by (simp_all add: rd_good_def)
  have first: "xread rid 0 d = take 100 ?xs" using good(2) by (simp add: xread_def filter_id_conv)
  have second: "xread rid (last_read (take 100 ?xs) 0) d = take 100 (drop 100 ?xs)"
    using xread_sorted [OF good, of 100] by (simp add: xread_def)
  have "take 100 ?xs @ take 100 (drop 100 ?xs) = take 200 ?xs"
    using take_add [of 100 100 ?xs] by simp
  then have "map snd (take 100 ?xs) @ map snd (take 100 (drop 100 ?xs)) = map snd (take 200 ?xs)"
    by (metis map_append)
  then have "redis_turn rid 0 d = (map snd (take 200 ?xs), last_read (take 100 (drop 100 ?xs)) (last_read (take 100 ?xs) 0), True)"
    using assms(1,6) first second
    by (auto simp: redis_turn_def redis_status_def redis_read_def bnd_def rd_state_def Let_def)
  then show ?thesis using mem sql rocks by (simp add: rd_history_def take_map)
qed

definition ended_row :: run_row where
  "ended_row = \<lparr> row_target = ''a'', row_state = RunCompleted, row_progress = None, row_result = None \<rparr>"

definition started_event :: run_event where
  "started_event = run_level_event RunAgentStarted ''r1'' (Some ''a'') None"

text \<open>A run that ended after one event, on each of the four stores.\<close>

lemma finished_run_replays_witness:
  "map_sum id fst (sqlite_turn ''r1'' (- 1) \<lparr> sq_runs = [(''r1'', ended_row)], sq_events = [(''r1'', 0, started_event)] \<rparr>)
     = Inr [started_event]
   \<and> fst (redis_turn ''r1'' 0 \<lparr> rd_runs = [(''r1'', ended_row)], rd_streams = [(''r1'', [(1, started_event)])],
        rd_last_id = 1, rd_ttl = 0, rd_expiring_runs = [], rd_expiring_streams = [] \<rparr>) = [started_event]"
proof -
  let ?m = "\<lparr> sto_records = [(''r1'', (new_record ''a'')\<lparr>rr_state := RunCompleted, rr_events := [started_event]\<rparr>)],
     sto_next = 0 \<rparr>"
  let ?q = "\<lparr> sq_runs = [(''r1'', ended_row)], sq_events = [(''r1'', 0, started_event)] \<rparr>"
  let ?k = "\<lparr> rk_runs = [(''r1'', ended_row)], rk_events = [((''r1'', 0), started_event)], rk_counters = [] \<rparr>"
  let ?d = "\<lparr> rd_runs = [(''r1'', ended_row)], rd_streams = [(''r1'', [(1, started_event)])],
     rd_last_id = 1, rd_ttl = 0, rd_expiring_runs = [], rd_expiring_streams = [] \<rparr>"
  have "rd_good ?d" by (auto simp: rd_good_def rows_decodable_def dget_or_def ended_row_def split: if_splits)
  from finished_run_replays [OF _ _ _ _ this, of RunCompleted ?m "''r1''" ?q ?k]
  have "map_sum id fst (sqlite_turn ''r1'' (- 1) ?q) = Inr (sql_events ?q ''r1'')
      \<and> fst (redis_turn ''r1'' 0 ?d) = take 200 (rd_history ?d ''r1'')"
    by (simp add: terminal_state_def mem_state_def sql_state_def rk_state_def rd_state_def ended_row_def)
  then show ?thesis
    by (simp add: sql_events_def sqlite_events_after_def rd_history_def dget_or_def)
qed

end
