(* ===== verification/Event_Store.thy ===== *)
theory Event_Store
  imports Types
begin

text \<open>
  \<open>events/store/memory.py\<close>: the bounded in-memory event store with its index of child
  traces.  Timestamps are rationals, the deque is a list with its oldest event first,
  and a set of trace ids is a list without repetition, whose order no result depends on.
\<close>

section \<open>The in-memory store\<close>

record event_store =
  es_max_rows :: nat
  es_ttl :: "rat option"
  es_events :: "runtime_event list"
  es_children :: "(string, string list) dict"

definition event_store_init :: "nat \<Rightarrow> rat option \<Rightarrow> event_store" where
  "event_store_init n ttl = \<lparr> es_max_rows = n, es_ttl = ttl, es_events = [], es_children = [] \<rparr>"

definition keep_last :: "nat \<Rightarrow> 'a list \<Rightarrow> 'a list" where
  "keep_last n xs = drop (length xs - n) xs"

definition prune_ttl :: "rat \<Rightarrow> event_store \<Rightarrow> event_store" where
  "prune_ttl tm s =
    (case es_ttl s of
       None \<Rightarrow> s
     | Some ttl \<Rightarrow> s\<lparr>es_events := dropWhile (\<lambda>e. timestamp e < tm - ttl) (es_events s)\<rparr>)"

definition event_append :: "rat \<Rightarrow> runtime_event \<Rightarrow> event_store \<Rightarrow> event_store" where
  "event_append tm e s =
    (let s1 = s\<lparr>es_events := keep_last (es_max_rows s) (es_events s @ [e])\<rparr>;
         s2 = (case ev_parent_trace_id e of
                 None \<Rightarrow> s1
               | Some p \<Rightarrow> s1\<lparr>es_children :=
                   dset p (List.insert (ev_trace_id e) (dget_or (es_children s1) p [])) (es_children s1)\<rparr>)
     in prune_ttl tm s2)"

definition event_matches ::
  "rat option \<Rightarrow> rat option \<Rightarrow> string option \<Rightarrow> event_type list option \<Rightarrow> runtime_event \<Rightarrow> bool" where
  "event_matches since until tid types e =
    ((case since of None \<Rightarrow> True | Some t \<Rightarrow> \<not> timestamp e < t)
     \<and> (case until of None \<Rightarrow> True | Some t \<Rightarrow> \<not> timestamp e > t)
     \<and> (case tid of None \<Rightarrow> True | Some t \<Rightarrow> ev_trace_id e = t)
     \<and> (case types of None \<Rightarrow> True | Some ts \<Rightarrow> event_type e \<in> set ts))"

text \<open>The scan: append, then stop once the limit is reached.\<close>

fun scan :: "(runtime_event \<Rightarrow> bool) \<Rightarrow> int \<Rightarrow> runtime_event list \<Rightarrow> runtime_event list \<Rightarrow> runtime_event list" where
  "scan P limit [] out = out"
| "scan P limit (e # es) out =
    (if \<not> P e then scan P limit es out
     else if int (length (out @ [e])) \<ge> limit then out @ [e]
     else scan P limit es (out @ [e]))"

definition event_query ::
  "rat option \<Rightarrow> rat option \<Rightarrow> string option \<Rightarrow> event_type list option \<Rightarrow> int \<Rightarrow> event_store
    \<Rightarrow> runtime_event list" where
  "event_query since until tid types limit s =
    scan (event_matches since until tid types) limit (rev (es_events s)) []"

definition children_of :: "event_store \<Rightarrow> string \<Rightarrow> string list" where
  "children_of s tid = dget_or (es_children s) tid []"

text \<open>One level of the breadth-first walk: the new frontier, marking as it goes.\<close>

fun visit_all :: "string list \<Rightarrow> string list \<Rightarrow> string list \<Rightarrow> string list \<times> string list" where
  "visit_all [] reachable next = (reachable, next)"
| "visit_all (c # cs) reachable next =
    (if c \<in> set reachable then visit_all cs reachable next
     else visit_all cs (c # reachable) (next @ [c]))"

definition known_traces :: "event_store \<Rightarrow> string set" where
  "known_traces s = set (concat (map snd (es_children s)))"

lemma visit_all_facts:
  "visit_all cs R N = (R', N') \<Longrightarrow> set R' = set R \<union> set cs \<and> set N' = set N \<union> (set cs - set R)"
  by (induction cs arbitrary: R N) (auto split: if_splits)

lemma children_known: "set (concat (map (children_of s) F)) \<subseteq> known_traces s"
proof
  fix c assume "c \<in> set (concat (map (children_of s) F))"
  then obtain f where "c \<in> set (children_of s f)" by auto
  then obtain cs where "dget (es_children s) f = Some cs" "c \<in> set cs"
    unfolding children_of_def dget_or_def by (cases "dget (es_children s) f") auto
  then show "c \<in> known_traces s" using dget_in_set [of "es_children s" f cs] by (force simp: known_traces_def)
qed

function walk :: "event_store \<Rightarrow> string list \<Rightarrow> string list \<Rightarrow> string list" where
  "walk s reachable frontier =
    (if frontier = [] then reachable
     else case visit_all (concat (map (children_of s) frontier)) reachable [] of
       (reachable', next) \<Rightarrow> walk s reachable' next)"
  by pat_completeness auto
termination
proof (relation "measure (\<lambda>(s, R, F). 2 * card (known_traces s - set R) + (if F = [] then 0 else 1))", goal_cases)
  case (2 s R F R' N)
  then have v: "visit_all (concat (map (children_of s) F)) R [] = (R', N)" by metis
  have facts: "set R' = set R \<union> set (concat (map (children_of s) F))"
    "set N = set (concat (map (children_of s) F)) - set R"
    using visit_all_facts [OF v] by simp_all
  have fin: "finite (known_traces s)" by (simp add: known_traces_def)
  show ?case
  proof (cases "N = []")
    case True
    have "card (known_traces s - set R') \<le> card (known_traces s - set R)"
      by (rule card_mono) (use fin facts in auto)
    then show ?thesis using True 2(1) v by simp
  next
    case False
    then obtain c where "c \<in> set N" by (cases N) auto
    then have c: "c \<in> known_traces s" "c \<notin> set R" "c \<in> set R'" using facts children_known [of s F] by auto
    have "card (known_traces s - set R') < card (known_traces s - set R)"
      by (rule psubset_card_mono) (use fin facts c in auto)
    then show ?thesis using False v by simp
  qed
qed simp

declare walk.simps [simp del]

definition event_tree :: "string \<Rightarrow> event_store \<Rightarrow> runtime_event list" where
  "event_tree tid s =
    sort_key timestamp (filter (\<lambda>e. ev_trace_id e \<in> set (walk s [tid] [tid])) (es_events s))"

fun latest_traces :: "rat option \<Rightarrow> runtime_event list \<Rightarrow> (string, rat) dict \<Rightarrow> (string, rat) dict" where
  "latest_traces since [] seen = seen"
| "latest_traces since (e # es) seen =
    latest_traces since es
      (if ev_parent_trace_id e \<noteq> None \<or> (case since of None \<Rightarrow> False | Some t \<Rightarrow> timestamp e < t) then seen
       else case dget seen (ev_trace_id e) of
         None \<Rightarrow> dset (ev_trace_id e) (timestamp e) seen
       | Some t \<Rightarrow> if timestamp e > t then dset (ev_trace_id e) (timestamp e) seen else seen)"

definition ordered_top_level :: "rat option \<Rightarrow> event_store \<Rightarrow> (string \<times> rat) list" where
  "ordered_top_level since s = sort_key (\<lambda>kv. - snd kv) (latest_traces since (es_events s) [])"

text \<open>A Python slice: a negative bound counts from the end, and both are cut to the list.\<close>

definition py_bound :: "nat \<Rightarrow> int \<Rightarrow> nat" where
  "py_bound n i = nat (if i < 0 then max 0 (i + int n) else min i (int n))"

definition py_slice :: "int \<Rightarrow> int \<Rightarrow> 'a list \<Rightarrow> 'a list" where
  "py_slice a b xs = (let i = py_bound (length xs) a; j = py_bound (length xs) b in take (j - i) (drop i xs))"

lemma py_slice_window:
  assumes "0 \<le> l" "0 \<le> k"
  shows "py_slice k (k + l) xs = take (nat l) (drop (nat k) xs)"
proof -
  have "py_bound (length xs) (k + l) - py_bound (length xs) k
      = min (nat l) (length xs - nat k) \<or> length xs \<le> nat k"
    using assms unfolding py_bound_def min_def by (auto; arith)
  moreover have "drop (py_bound (length xs) k) xs = drop (nat k) xs"
    using assms by (simp add: py_bound_def min_def)
  ultimately show ?thesis by (auto simp: py_slice_def Let_def min_def)
qed

definition list_traces :: "rat option \<Rightarrow> int \<Rightarrow> int \<Rightarrow> event_store \<Rightarrow> string list" where
  "list_traces since limit offset s = map fst (py_slice offset (offset + limit) (ordered_top_level since s))"

definition count_traces :: "rat option \<Rightarrow> event_store \<Rightarrow> nat" where
  "count_traces since s = length (ordered_top_level since s)"

section \<open>What the store answers\<close>

lemma scan_take:
  "int (length out) < max 1 limit \<Longrightarrow>
    scan P limit es out = take (nat (max 1 limit)) (out @ filter P es)"
proof (induction es arbitrary: out)
  case (Cons e es)
  show ?case
  proof (cases "P e")
    case True
    show ?thesis
    proof (cases "int (length (out @ [e])) \<ge> limit")
      case reached: True
      then have "nat (max 1 limit) = length (out @ [e])" using Cons.prems by auto
      then show ?thesis using True reached by simp
    next
      case False
      then show ?thesis using True Cons.IH [of "out @ [e]"] by auto
    qed
  next
    case False
    then show ?thesis using Cons by simp
  qed
qed auto

text \<open>A query is the newest matching events, at most \<open>limit\<close> of them, but at least one.\<close>

lemma event_query_spec:
  "event_query since until tid types limit s =
    take (nat (max 1 limit)) (filter (event_matches since until tid types) (rev (es_events s)))"
  by (simp add: event_query_def scan_take)

definition child_link :: "event_store \<Rightarrow> (string \<times> string) set" where
  "child_link s = {(p, c). c \<in> set (children_of s p)}"

lemma walk_reaches:
  assumes "set F \<subseteq> set R" "\<And>x y. x \<in> set R - set F \<Longrightarrow> (x, y) \<in> child_link s \<Longrightarrow> y \<in> set R"
  shows "set (walk s R F) = (child_link s)\<^sup>* `` set R"
  using assms
proof (induction s R F rule: walk.induct)
  case (1 s R F)
  show ?case
  proof (cases "F = []")
    case True
    have "(child_link s)\<^sup>* `` set R \<subseteq> set R"
      by (rule Image_closed_trancl [THEN equalityD1]) (use 1(3) True in auto)
    then show ?thesis using True by (subst walk.simps) auto
  next
    case False
    obtain R' N where v: "visit_all (concat (map (children_of s) F)) R [] = (R', N)" by force
    let ?C = "set (concat (map (children_of s) F))"
    have facts: "set R' = set R \<union> ?C" "set N = ?C - set R" using visit_all_facts [OF v] by simp_all
    have w: "set (walk s R' N) = (child_link s)\<^sup>* `` set R'"
    proof (rule "1.IH" [OF False v [symmetric]])
      show "set N \<subseteq> set R'" using facts by auto
      show "y \<in> set R'" if "x \<in> set R' - set N" "(x, y) \<in> child_link s" for x y
      proof (cases "x \<in> set F")
        case True
        then have "y \<in> ?C" using that(2) by (auto simp: child_link_def)
        then show ?thesis using facts by simp
      next
        case False
        then show ?thesis using that facts 1(3) by auto
      qed
    qed
    have "?C \<subseteq> child_link s `` set R" using 1(2) by (auto simp: child_link_def)
    then have "(child_link s)\<^sup>* `` ?C \<subseteq> (child_link s)\<^sup>* `` (child_link s `` set R)"
      by (rule Image_mono [OF subset_refl])
    also have "\<dots> \<subseteq> (child_link s)\<^sup>* `` set R"
      by (auto intro: converse_rtrancl_into_rtrancl)
    finally have "(child_link s)\<^sup>* `` ?C \<subseteq> (child_link s)\<^sup>* `` set R" .
    then have "(child_link s)\<^sup>* `` set R' = (child_link s)\<^sup>* `` set R"
      unfolding facts(1) Image_Un by blast
    then show ?thesis using False v w by (subst walk.simps) simp
  qed
qed

text \<open>Every link an event of the store bears is in the index.\<close>

definition links_indexed :: "event_store \<Rightarrow> bool" where
  "links_indexed s = (\<forall>e \<in> set (es_events s). \<forall>p. ev_parent_trace_id e = Some p \<longrightarrow> (p, ev_trace_id e) \<in> child_link s)"

lemma append_links:
  assumes "links_indexed s"
  shows "links_indexed (event_append tm e s) \<and> child_link s \<subseteq> child_link (event_append tm e s)
    \<and> length (es_events (event_append tm e s)) \<le> es_max_rows s"
proof -
  have prune: "set (es_events (prune_ttl tm u)) \<subseteq> set (es_events u)" "es_children (prune_ttl tm u) = es_children u"
    "length (es_events (prune_ttl tm u)) \<le> length (es_events u)" for u
    by (auto simp: prune_ttl_def dest: set_dropWhileD split: option.split intro: length_dropWhile_le)
  have keep: "set (keep_last n xs) \<subseteq> set xs" "length (keep_last n xs) \<le> n" for n and xs :: "runtime_event list"
    by (auto simp: keep_last_def dest: in_set_dropD)
  let ?s1 = "s\<lparr>es_events := keep_last (es_max_rows s) (es_events s @ [e])\<rparr>"
  let ?s2 = "case ev_parent_trace_id e of None \<Rightarrow> ?s1
    | Some p \<Rightarrow> ?s1\<lparr>es_children := dset p (List.insert (ev_trace_id e) (dget_or (es_children ?s1) p [])) (es_children ?s1)\<rparr>"
  have ev: "es_events ?s2 = keep_last (es_max_rows s) (es_events s @ [e])" by (simp split: option.split)
  have link: "child_link ?s2 = child_link s \<union> {(p, ev_trace_id e) |p. ev_parent_trace_id e = Some p}"
    by (auto simp: child_link_def children_of_def dget_or_def split: option.splits if_splits)
  have same: "child_link (prune_ttl tm ?s2) = child_link ?s2" by (simp add: child_link_def children_of_def prune(2))
  have app: "event_append tm e s = prune_ttl tm ?s2" by (simp add: event_append_def Let_def)
  have sub: "set (es_events (prune_ttl tm ?s2)) \<subseteq> insert e (set (es_events s))"
  proof -
    have "set (es_events ?s2) \<subseteq> insert e (set (es_events s))"
      unfolding ev using keep(1) [of "es_max_rows s" "es_events s @ [e]"] by auto
    then show ?thesis using prune(1) [of ?s2] by blast
  qed
  have "length (es_events (prune_ttl tm ?s2)) \<le> es_max_rows s"
    using prune(3) [of ?s2] keep(2) [of "es_max_rows s" "es_events s @ [e]"] unfolding ev by linarith
  moreover have "links_indexed (prune_ttl tm ?s2)"
    unfolding links_indexed_def same link
  proof (intro ballI allI impI)
    fix x p assume "x \<in> set (es_events (prune_ttl tm ?s2))" "ev_parent_trace_id x = Some p"
    then have "x = e \<or> x \<in> set (es_events s)" using sub by blast
    then show "(p, ev_trace_id x) \<in> child_link s \<union> {(p, ev_trace_id e) |p. ev_parent_trace_id e = Some p}"
      using assms \<open>ev_parent_trace_id x = Some p\<close> unfolding links_indexed_def by blast
  qed
  moreover have "child_link s \<subseteq> child_link (prune_ttl tm ?s2)" unfolding same link by blast
  ultimately show ?thesis unfolding app by blast
qed

fun append_all :: "(rat \<times> runtime_event) list \<Rightarrow> event_store \<Rightarrow> event_store" where
  "append_all [] s = s"
| "append_all ((tm, e) # es) s = append_all es (event_append tm e s)"

lemma append_all_links:
  "links_indexed s \<Longrightarrow> links_indexed (append_all es s) \<and> child_link s \<subseteq> child_link (append_all es s)"
  by (induction es s rule: append_all.induct) (use append_links in \<open>simp, metis subset_trans append_all.simps(2)\<close>)

lemma append_max_rows: "es_max_rows (event_append tm e s) = es_max_rows s"
  by (simp add: event_append_def prune_ttl_def Let_def split: option.split)

lemma append_all_max_rows: "es_max_rows (append_all es s) = es_max_rows s"
  by (induction es s rule: append_all.induct) (simp_all add: append_max_rows)

lemma append_all_bound:
  "length (es_events s) \<le> es_max_rows s \<Longrightarrow> links_indexed s \<Longrightarrow>
    length (es_events (append_all es s)) \<le> es_max_rows s"
proof (induction es s rule: append_all.induct)
  case (2 tm e es s)
  then show ?case using append_links [of s tm e] by (simp add: append_max_rows)
qed simp

text \<open>The descendants of a trace, through the parent links the stored events bear themselves.\<close>

definition event_link :: "event_store \<Rightarrow> (string \<times> string) set" where
  "event_link s = {(p, ev_trace_id e) |p e. e \<in> set (es_events s) \<and> ev_parent_trace_id e = Some p}"

text \<open>
  C24. However many events arrive, in whatever order of their times, the store keeps
  at most \<open>max_rows\<close> of them; the walk for the tree of a trace ends, and the tree is,
  oldest first, exactly the stored events whose trace the index reaches from the
  root, among them every event of the cascade whose chain of parents is stored.
\<close>

theorem event_tree_is_the_cascade:
  "let s = append_all es (event_store_init n ttl) in
     length (es_events s) \<le> n \<and> sorted (map timestamp (event_tree tid s))
     \<and> set (event_tree tid s) = {e \<in> set (es_events s). (tid, ev_trace_id e) \<in> (child_link s)\<^sup>*}
     \<and> {e \<in> set (es_events s). (tid, ev_trace_id e) \<in> (event_link s)\<^sup>*} \<subseteq> set (event_tree tid s)"
proof -
  let ?init = "event_store_init n ttl" and ?s = "append_all es (event_store_init n ttl)"
  have start: "links_indexed ?init" by (simp add: links_indexed_def event_store_init_def)
  have "length (es_events ?init) \<le> es_max_rows ?init" "es_max_rows ?init = n" 
    by (simp_all add: event_store_init_def)
  moreover have "es_max_rows ?s = es_max_rows ?init" by (rule append_all_max_rows)
  ultimately have "length (es_events ?s) \<le> n"
    using append_all_bound [of ?init es, OF _ start] by simp
  moreover have "set (event_tree tid ?s) = {e \<in> set (es_events ?s). (tid, ev_trace_id e) \<in> (child_link ?s)\<^sup>*}"
    using walk_reaches [of "[tid]" "[tid]" ?s] by (auto simp: event_tree_def)
  moreover have "links_indexed ?s" using append_all_links [OF start, of es] by blast
  then have "event_link ?s \<subseteq> child_link ?s" unfolding event_link_def links_indexed_def by blast
  then have "(event_link ?s)\<^sup>* \<subseteq> (child_link ?s)\<^sup>*" by (rule rtrancl_mono)
  ultimately show ?thesis by (auto simp: event_tree_def Let_def)
qed

end
