(* ===== verification/Event_Protocol.thy ===== *)
theory Event_Protocol
  imports Event_Store "HOL-Library.Multiset"
begin

text \<open>
  \<open>core/protocols/event_store.py\<close>: the operations every event store offers, and what they
  promise about the events appended so far.  The reference is the plain list of those
  events; a store keeps the contract when it answers what the list answers, as long as
  it has dropped nothing and events arrived in the order of their times.
\<close>

section \<open>What a list of events says\<close>

text \<open>The traces whose events name a trace as their parent, and the links between traces.\<close>

definition children_in :: "runtime_event list \<Rightarrow> string \<Rightarrow> string list" where
  "children_in es t = map ev_trace_id (filter (\<lambda>e. ev_parent_trace_id e = Some t) es)"

definition parent_link :: "runtime_event list \<Rightarrow> (string \<times> string) set" where
  "parent_link es = {(p, c). c \<in> set (children_in es p)}"

lemma parent_link_simps [simp]:
  "parent_link [] = {}"
  "parent_link (e # es) = {(p, ev_trace_id e) |p. ev_parent_trace_id e = Some p} \<union> parent_link es"
  by (auto simp: parent_link_def children_in_def split: if_splits)

text \<open>Every top-level trace with the time of its latest event in the window.\<close>

definition top_level_since :: "rat option \<Rightarrow> runtime_event \<Rightarrow> bool" where
  "top_level_since since e =
    (ev_parent_trace_id e = None \<and> (case since of None \<Rightarrow> True | Some t \<Rightarrow> timestamp e \<ge> t))"

definition trace_groups :: "rat option \<Rightarrow> runtime_event list \<Rightarrow> (string \<times> rat) list" where
  "trace_groups since es =
    (let top_events = filter (top_level_since since) es in
     map (\<lambda>t. (t, Max (timestamp ` {e \<in> set top_events. ev_trace_id e = t}))) (remdups (map ev_trace_id top_events)))"

section \<open>Sorting by distinct keys\<close>

lemma sort_key_unique:
  fixes f :: "'a \<Rightarrow> 'k::linorder"
  assumes "mset xs = mset ys" "inj_on f (set xs)" "sorted (map f ys)"
  shows "sort_key f xs = ys"
proof -
  have sets: "set (sort_key f xs) = set xs" "set ys = set xs" using mset_eq_setD [OF assms(1)] by simp_all
  have m: "mset (map f (sort_key f xs)) = mset (map f ys)" using assms(1) by simp
  have "sort (map f ys) = map f (sort_key f xs)" by (rule properties_for_sort [OF m]) simp
  then have "map f (sort_key f xs) = map f ys" using assms(3) by (simp add: sort_key_id_if_sorted sorted_sort_id)
  moreover have "inj_on f (set (sort_key f xs) \<union> set ys)" using assms(2) unfolding sets by simp
  ultimately show ?thesis by (rule map_inj_on)
qed

lemma strict_inj:
  "sorted_wrt (<) (map f xs) \<Longrightarrow> inj_on f (set xs) \<and> distinct xs" for f :: "'a \<Rightarrow> 'k::linorder"
  by (induction xs) auto

lemma sort_key_uminus_rev:
  fixes f :: "'a \<Rightarrow> rat"
  assumes "sorted_wrt (<) (map f xs)"
  shows "sort_key (\<lambda>x. - f x) xs = rev xs"
proof (rule sort_key_unique)
  show "inj_on (\<lambda>x. - f x) (set xs)" using strict_inj [OF assms] by (auto simp: inj_on_def)
  have "sorted_wrt (\<lambda>x y. f x < f y) xs" using assms by (simp add: sorted_wrt_map)
  then show "sorted (map (\<lambda>x. - f x) (rev xs))"
    by (auto simp: sorted_map sorted_wrt_rev intro: sorted_wrt_mono_rel [rotated])
qed simp

lemma sorted_wrt_filter_map: "sorted_wrt (<) (map f xs) \<Longrightarrow> sorted_wrt (<) (map f (filter P xs))"
  by (induction xs) auto

section \<open>Latest traces\<close>

definition trace_times :: "rat option \<Rightarrow> runtime_event list \<Rightarrow> string \<Rightarrow> rat set" where
  "trace_times since es t = timestamp ` {e \<in> set (filter (top_level_since since) es). ev_trace_id e = t}"

lemma trace_times_simps [simp]:
  "trace_times since [] t = {}"
  "trace_times since (e # es) t =
    (if top_level_since since e \<and> ev_trace_id e = t then insert (timestamp e) (trace_times since es t)
     else trace_times since es t)"
  by (auto simp: trace_times_def)

lemma finite_trace_times [simp]: "finite (trace_times since es t)"
  by (simp add: trace_times_def)

definition newest_of :: "rat set \<Rightarrow> rat option" where
  "newest_of S = (if S = {} then None else Some (Max S))"

lemma latest_traces_step:
  "latest_traces since (e # es) seen = latest_traces since es
    (if \<not> top_level_since since e then seen
     else case dget seen (ev_trace_id e) of
       None \<Rightarrow> dset (ev_trace_id e) (timestamp e) seen
     | Some t \<Rightarrow> if timestamp e > t then dset (ev_trace_id e) (timestamp e) seen else seen)"
  by (auto simp: top_level_since_def not_less split: option.split)

lemma newest_insert:
  assumes "finite S"
  shows "newest_of (insert x (insert u S)) = newest_of (insert (if x > u then x else u) S)"
  using assms by (cases "S = {}") (auto simp: newest_of_def max_def)

lemma latest_traces_get:
  "dget (latest_traces since es seen) t = newest_of (trace_times since es t \<union> set_option (dget seen t))"
proof (induction es arbitrary: seen)
  case Nil
  then show ?case by (cases "dget seen t") (simp_all add: newest_of_def)
next
  case (Cons e es)
  define S where "S = trace_times since es t"
  have "finite S" by (simp add: S_def)
  show ?case
    unfolding latest_traces_step Cons.IH
  proof (cases "top_level_since since e \<and> ev_trace_id e = t")
    case True
    show "newest_of (trace_times since es t \<union> set_option (dget (if \<not> top_level_since since e then seen
       else case dget seen (ev_trace_id e) of
         None \<Rightarrow> dset (ev_trace_id e) (timestamp e) seen
       | Some t \<Rightarrow> if timestamp e > t then dset (ev_trace_id e) (timestamp e) seen else seen) t)) =
      newest_of (trace_times since (e # es) t \<union> set_option (dget seen t))"
    proof (cases "dget seen t")
      case None
      then show ?thesis using True by simp
    next
      case (Some u)
      then show ?thesis using True newest_insert [OF \<open>finite S\<close>, of "timestamp e" u]
        by (auto simp: S_def [symmetric] insert_commute [of "timestamp e" u S])
    qed
  qed (auto split: option.split)
qed

lemma latest_traces_ok: "dict_ok seen \<Longrightarrow> dict_ok (latest_traces since es seen)"
proof (induction es arbitrary: seen)
  case (Cons e es)
  then show ?case unfolding latest_traces_step by (auto split: option.split)
qed simp

lemma latest_traces_set:
  "set (latest_traces since es []) = set (trace_groups since es)"
proof -
  have ok: "dict_ok (latest_traces since es [])" by (rule latest_traces_ok) simp
  have "(t, m) \<in> set (latest_traces since es []) \<longleftrightarrow> (t, m) \<in> set (trace_groups since es)" for t m
  proof -
    have "(t, m) \<in> set (latest_traces since es []) \<longleftrightarrow> newest_of (trace_times since es t) = Some m"
      using dget_eq_Some_iff [OF ok, of t m] latest_traces_get [of since es "[]" t] by simp
    also have "\<dots> \<longleftrightarrow> (t, m) \<in> set (trace_groups since es)"
      by (auto simp: newest_of_def trace_times_def trace_groups_def Let_def)
    finally show ?thesis .
  qed
  then show ?thesis by auto
qed

section \<open>The order of top-level traces\<close>

lemma ordered_agree:
  assumes "sorted_wrt (<) (map timestamp es)"
  shows "sort_key (\<lambda>kv. - snd kv) (latest_traces since es []) = sort_key (\<lambda>g. - snd g) (trace_groups since es)"
proof (rule sort_key_unique)
  let ?l = "latest_traces since es []" and ?g = "trace_groups since es"
  have "distinct ?l" using latest_traces_ok [of "[]" since es] by (simp add: dict_ok_def distinct_map)
  moreover have "distinct ?g" by (simp add: trace_groups_def Let_def distinct_map inj_on_def)
  ultimately have "mset ?l = mset ?g" using latest_traces_set [of since es] by (simp add: set_eq_iff_mset_eq_distinct)
  then show "mset ?l = mset (sort_key (\<lambda>g. - snd g) ?g)" by simp
  show "inj_on (\<lambda>kv. - snd kv) (set ?l)"
  proof (rule inj_onI)
    have ok: "dict_ok ?l" by (rule latest_traces_ok) simp
    have src: "\<exists>e \<in> set es. ev_trace_id e = fst x \<and> timestamp e = snd x" if "x \<in> set ?l" for x
    proof -
      have "dget ?l (fst x) = Some (snd x)" using dget_eq_Some_iff [OF ok, of "fst x" "snd x"] that by simp
      then have "newest_of (trace_times since es (fst x)) = Some (snd x)" by (simp add: latest_traces_get)
      then have "snd x \<in> trace_times since es (fst x)"
        by (metis Max_in finite_trace_times newest_of_def option.distinct(1) option.inject)
      then show ?thesis by (auto simp: trace_times_def)
    qed
    fix x y assume xy: "x \<in> set ?l" "y \<in> set ?l" "- snd x = - snd y"
    obtain d where d: "d \<in> set es" "ev_trace_id d = fst x" "timestamp d = snd x" using src [OF xy(1)] by blast
    obtain e where e: "e \<in> set es" "ev_trace_id e = fst y" "timestamp e = snd y" using src [OF xy(2)] by blast
    have "d = e" using strict_inj [OF assms] d(1,3) e(1,3) xy(3) by (auto simp: inj_on_def)
    then show "x = y" using d(2) e(2) xy(3) by (simp add: prod_eq_iff)
  qed
qed simp

lemma trace_groups_length:
  "length (trace_groups since es) = card (ev_trace_id ` set (filter (top_level_since since) es))"
  by (simp add: trace_groups_def Let_def length_remdups_card_conv)

section \<open>The reference\<close>

definition history_query ::
  "rat option \<Rightarrow> rat option \<Rightarrow> string option \<Rightarrow> event_type list option \<Rightarrow> int \<Rightarrow> runtime_event list
    \<Rightarrow> runtime_event list" where
  "history_query since until tid types limit es = take (nat limit) (filter (event_matches since until tid types) (rev es))"

definition history_tree :: "string \<Rightarrow> runtime_event list \<Rightarrow> runtime_event list" where
  "history_tree tid es = sort_key timestamp (filter (\<lambda>e. (tid, ev_trace_id e) \<in> (parent_link es)\<^sup>*) es)"

definition history_traces :: "rat option \<Rightarrow> runtime_event list \<Rightarrow> string list" where
  "history_traces since es = map fst (sort_key (\<lambda>g. - snd g) (trace_groups since es))"

lemma mset_history_traces:
  "mset (history_traces since es) = mset (remdups (map ev_trace_id (filter (top_level_since since) es)))"
proof -
  have "mset (map f (sort_key g xs)) = mset (map f xs)" for f :: "string \<times> rat \<Rightarrow> string" and g :: "string \<times> rat \<Rightarrow> rat" and xs
    by (metis mset_map mset_sort)
  then show ?thesis by (simp add: history_traces_def trace_groups_def Let_def comp_def del: mset_map)
qed

lemma history_traces_distinct [simp]: "distinct (history_traces since es)"
  using mset_history_traces by (metis distinct_remdups mset_eq_imp_distinct_iff)

lemma set_history_traces: "set (history_traces since es) = ev_trace_id ` set (filter (top_level_since since) es)"
  using mset_eq_setD [OF mset_history_traces] by simp

lemma length_history_traces:
  "length (history_traces since es) = card (ev_trace_id ` set (filter (top_level_since since) es))"
  by (metis distinct_card history_traces_distinct set_history_traces)

text \<open>The time of the latest top-level event of a trace; traces are listed newest first.\<close>

definition latest_of :: "runtime_event list \<Rightarrow> string \<Rightarrow> rat" where
  "latest_of es t = Max (timestamp ` {e \<in> set es. ev_parent_trace_id e = None \<and> ev_trace_id e = t})"

lemma history_traces_newest_first:
  "sorted_wrt (\<lambda>t u. latest_of es u \<le> latest_of es t) (history_traces None es)"
proof -
  let ?g = "trace_groups None es"
  have val: "snd x = latest_of es (fst x)" if "x \<in> set ?g" for x
    using that by (auto simp: trace_groups_def latest_of_def top_level_since_def Let_def intro!: arg_cong [where f = Max])
  have "sorted (map (\<lambda>g. - snd g) (sort_key (\<lambda>g. - snd g) ?g))" by simp
  then have "sorted_wrt (\<lambda>x y. snd y \<le> snd x) (sort_key (\<lambda>g. - snd g) ?g)" by (simp add: sorted_map)
  then have "sorted_wrt (\<lambda>x y. latest_of es (fst y) \<le> latest_of es (fst x)) (sort_key (\<lambda>g. - snd g) ?g)"
    by (rule sorted_wrt_mono_rel [rotated]) (simp add: val)
  then show ?thesis by (simp add: history_traces_def sorted_wrt_map)
qed

section \<open>The interface\<close>

text \<open>The clock is an argument of \<open>append\<close>; every operation may raise.\<close>

record 'st event_ops =
  eo_append :: "rat \<Rightarrow> runtime_event \<Rightarrow> ('st, exn, unit) eff"
  eo_query :: "rat option \<Rightarrow> rat option \<Rightarrow> string option \<Rightarrow> event_type list option \<Rightarrow> int
    \<Rightarrow> ('st, exn, runtime_event list) eff"
  eo_tree :: "string \<Rightarrow> ('st, exn, runtime_event list) eff"
  eo_list_traces :: "rat option \<Rightarrow> int \<Rightarrow> int \<Rightarrow> ('st, exn, string list) eff"
  eo_count_traces :: "rat option \<Rightarrow> ('st, exn, nat) eff"

fun append_events :: "'st event_ops \<Rightarrow> (rat \<times> runtime_event) list \<Rightarrow> ('st, exn, unit) eff" where
  "append_events ops [] = ret ()"
| "append_events ops ((tm, e) # ts) = bnd (eo_append ops tm e) (\<lambda>_. append_events ops ts)"

text \<open>A computation that changes nothing and answers what a reference answers.\<close>

definition reads_as ::
  "('s, 'e, 'a) eff \<Rightarrow> 's \<Rightarrow> ('h, 'e, 'a) eff \<Rightarrow> 'h \<Rightarrow> bool" where
  "reads_as m s h es = (\<exists>r. m s = (r, s) \<and> h es = (r, es))"

lemma reads_as_ret [intro, simp]: "reads_as (ret x) s (ret x) es"
  by (simp add: reads_as_def)

lemma reads_as_raise [intro, simp]: "reads_as (raise e) s (raise e) es"
  by (simp add: reads_as_def)

lemma reads_as_bnd [intro]:
  "reads_as m s h es \<Longrightarrow> (\<And>x. reads_as (f x) s (g x) es) \<Longrightarrow> reads_as (bnd m f) s (bnd h g) es"
  unfolding reads_as_def bnd_def by (force split: sum.split)

lemma reads_as_agree: "reads_as m s h es \<Longrightarrow> reads_as m' t h es \<Longrightarrow> fst (m s) = fst (m' t)"
  by (auto simp: reads_as_def)

text \<open>The list of events as a store.\<close>

definition history_ops :: "runtime_event list event_ops" where
  "history_ops = \<lparr> eo_append = (\<lambda>tm e. modify (\<lambda>es. es @ [e])),
     eo_query = (\<lambda>since until tid types limit. gets (history_query since until tid types limit)),
     eo_tree = (\<lambda>tid. gets (history_tree tid)),
     eo_list_traces = (\<lambda>since l k. gets (\<lambda>es. take (nat l) (drop (nat k) (history_traces since es)))),
     eo_count_traces = (\<lambda>since. gets (\<lambda>es. length (history_traces since es))) \<rparr>"

text \<open>
  \<open>events\<close> is what a state holds, and \<open>room s es\<close> says that the state can take \<open>es\<close>
  without dropping or refusing any event.  A limit below one and an empty list of
  types are outside the contract: there the stores differ.
\<close>

locale event_store_contract =
  fixes ops :: "'st event_ops" and good :: "'st \<Rightarrow> bool" and events :: "'st \<Rightarrow> runtime_event list"
    and room :: "'st \<Rightarrow> runtime_event list \<Rightarrow> bool"
  assumes append_law: "good s \<Longrightarrow> room s (e # es) \<Longrightarrow>
      \<exists>t. eo_append ops tm e s = (Inr (), t) \<and> good t \<and> events t = events s @ [e] \<and> room t es"
    and query_law: "good s \<Longrightarrow> types \<noteq> Some [] \<Longrightarrow> 1 \<le> limit \<Longrightarrow>
      eo_query ops since until tr types limit s = (Inr (history_query since until tr types limit (events s)), s)"
    and tree_law: "good s \<Longrightarrow> eo_tree ops tid s = (Inr (history_tree tid (events s)), s)"
    and list_law: "good s \<Longrightarrow> 0 \<le> l \<Longrightarrow> 0 \<le> k \<Longrightarrow>
      eo_list_traces ops since l k s = (Inr (take (nat l) (drop (nat k) (history_traces since (events s)))), s)"
    and count_law: "good s \<Longrightarrow> eo_count_traces ops since s = (Inr (length (history_traces since (events s))), s)"
begin

lemma query_reads:
  "good s \<Longrightarrow> types \<noteq> Some [] \<Longrightarrow> 1 \<le> limit \<Longrightarrow>
    reads_as (eo_query ops since until tr types limit) s (eo_query history_ops since until tr types limit) (events s)"
  by (simp add: reads_as_def query_law history_ops_def)

lemma tree_reads: "good s \<Longrightarrow> reads_as (eo_tree ops tid) s (eo_tree history_ops tid) (events s)"
  by (simp add: reads_as_def tree_law history_ops_def)

lemma list_reads:
  "good s \<Longrightarrow> 0 \<le> l \<Longrightarrow> 0 \<le> k \<Longrightarrow>
    reads_as (eo_list_traces ops since l k) s (eo_list_traces history_ops since l k) (events s)"
  by (simp add: reads_as_def list_law history_ops_def)

lemma count_reads: "good s \<Longrightarrow> reads_as (eo_count_traces ops since) s (eo_count_traces history_ops since) (events s)"
  by (simp add: reads_as_def count_law history_ops_def)

lemmas reading_laws = query_reads tree_reads list_reads count_reads

lemma append_events_law:
  "good s \<Longrightarrow> room s (map snd ts) \<Longrightarrow>
    \<exists>t. append_events ops ts s = (Inr (), t) \<and> good t \<and> events t = events s @ map snd ts"
proof (induction ts arbitrary: s)
  case (Cons x ts)
  obtain tm e where x: "x = (tm, e)" by force
  from append_law [of s e "map snd ts" tm] Cons.prems x obtain t where
    t: "eo_append ops tm e s = (Inr (), t)" "good t" "events t = events s @ [e]" "room t (map snd ts)" by auto
  from Cons.IH [OF t(2,4)] t x show ?case by simp
qed simp

end

interpretation history: event_store_contract history_ops "\<lambda>es. True" "\<lambda>es. es" "\<lambda>s es. True"
  by unfold_locales (simp_all add: history_ops_def)

section \<open>The in-memory store keeps the contract\<close>

definition memory_event_ops :: "event_store event_ops" where
  "memory_event_ops = \<lparr> eo_append = (\<lambda>tm e. modify (event_append tm e)),
     eo_query = (\<lambda>since until tid types limit. gets (event_query since until tid types limit)),
     eo_tree = (\<lambda>tid. gets (event_tree tid)),
     eo_list_traces = (\<lambda>since limit offset. gets (list_traces since limit offset)),
     eo_count_traces = (\<lambda>since. gets (count_traces since)) \<rparr>"

definition memory_good :: "event_store \<Rightarrow> bool" where
  "memory_good s = (sorted_wrt (<) (map timestamp (es_events s)) \<and> child_link s = parent_link (es_events s))"

definition memory_room :: "event_store \<Rightarrow> runtime_event list \<Rightarrow> bool" where
  "memory_room s es =
    (es_ttl s = None \<and> length (es_events s) + length es \<le> es_max_rows s
     \<and> sorted_wrt (<) (map timestamp (es_events s @ es)))"

lemma append_keeps_all:
  assumes "es_ttl s = None" "length (es_events s) < es_max_rows s"
  shows "es_events (event_append tm e s) = es_events s @ [e]" "es_ttl (event_append tm e s) = None"
  using assms by (simp_all add: event_append_def prune_ttl_def keep_last_def Let_def split: option.split)

lemma append_child_link:
  "child_link (event_append tm e s) = child_link s \<union> {(p, ev_trace_id e) |p. ev_parent_trace_id e = Some p}"
proof -
  have "es_children (prune_ttl tm u) = es_children u" for u by (simp add: prune_ttl_def split: option.split)
  then show ?thesis
    by (auto simp: event_append_def child_link_def children_of_def dget_or_def Let_def split: option.splits if_splits)
qed

lemma parent_link_append: "parent_link (es @ fs) = parent_link es \<union> parent_link fs"
  by (induction es) auto

interpretation memory: event_store_contract memory_event_ops memory_good es_events memory_room
proof (unfold_locales, goal_cases)
  case (1 s e es tm)
  then have fits: "es_ttl s = None" "length (es_events s) < es_max_rows s" by (simp_all add: memory_room_def)
  from 1 append_keeps_all [OF fits, of tm e] show ?case
    by (simp add: memory_event_ops_def memory_good_def memory_room_def append_child_link parent_link_append
        append_max_rows sorted_wrt_append)
next
  case (3 s tid)
  have "set (walk s [tid] [tid]) = (parent_link (es_events s))\<^sup>* `` {tid}"
    using walk_reaches [of "[tid]" "[tid]" s] 3 by (simp add: memory_good_def)
  then show ?case by (simp add: memory_event_ops_def event_tree_def history_tree_def)
next
  case (4 s l k since)
  then have "ordered_top_level since s = sort_key (\<lambda>g. - snd g) (trace_groups since (es_events s))"
    by (simp add: ordered_top_level_def memory_good_def ordered_agree)
  then show ?case using 4 by (simp add: memory_event_ops_def list_traces_def history_traces_def py_slice_window drop_map take_map)
next
  case (5 s since)
  then show ?case
    by (simp add: memory_event_ops_def count_traces_def ordered_top_level_def history_traces_def memory_good_def ordered_agree)
qed (simp add: memory_event_ops_def event_query_spec history_query_def)

end
