(* ===== verification/Dashboard.thy ===== *)
theory Dashboard
  imports Event_Protocol Messages
begin

text \<open>
  The rollups over stored events: \<open>events/store/usage.py\<close>, \<open>events/store/tools.py\<close>,
  \<open>server/runs_page.py\<close>, \<open>server/stats.py\<close>, and the routes of \<open>server/app.py\<close> that
  serve them.  Numbers that crossed JSON are \<open>VInt\<close> or \<open>VFloat\<close>; a Python \<open>bool\<close> is an
  \<open>int\<close> where the code does not exclude it.  A moment is its count of seconds, floats
  are rationals, and the rendering of an absolute moment as text is left out.
\<close>

definition trunc_int :: "rat \<Rightarrow> int" where
  "trunc_int r = (if r < 0 then - \<lfloor>- r\<rfloor> else \<lfloor>r\<rfloor>)"

section \<open>Token usage\<close>

datatype usage_group_by = ByAgentName | ByTrace | ByModel | ByNone

definition parse_group_by :: "string \<Rightarrow> usage_group_by option" where
  "parse_group_by v =
    (if v = ''agent'' then Some ByAgentName else if v = ''trace'' then Some ByTrace
     else if v = ''model'' then Some ByModel else if v = ''none'' then Some ByNone else None)"

definition coerce_int :: "pyval option \<Rightarrow> int" where
  "coerce_int v = (case v of Some (VInt i) \<Rightarrow> i | Some (VFloat r) \<Rightarrow> trunc_int r | _ \<Rightarrow> 0)"

record bucket =
  bu_tokens :: int
  bu_events :: nat

definition add_tokens :: "int \<Rightarrow> bucket \<Rightarrow> bucket" where
  "add_tokens t b = b\<lparr>bu_tokens := bu_tokens b + t, bu_events := bu_events b + 1\<rparr>"

definition empty_bucket :: bucket where
  "empty_bucket = \<lparr> bu_tokens = 0, bu_events = 0 \<rparr>"

definition usage_key :: "usage_group_by \<Rightarrow> runtime_event \<Rightarrow> string" where
  "usage_key g e =
    (case g of
       ByAgentName \<Rightarrow> ev_agent_name e
     | ByTrace \<Rightarrow> ev_trace_id e
     | _ \<Rightarrow> (case dget (payload e) ''model'' of
              Some (VStr m) \<Rightarrow> if m = [] then ''unknown'' else m | _ \<Rightarrow> ''unknown''))"

fun usage_loop ::
  "usage_group_by \<Rightarrow> runtime_event list \<Rightarrow> bucket \<Rightarrow> (string, bucket) dict \<Rightarrow> bucket \<times> (string, bucket) dict" where
  "usage_loop g [] totals groups = (totals, groups)"
| "usage_loop g (e # es) totals groups =
    (if event_type e \<noteq> AGENT_COMPLETED then usage_loop g es totals groups
     else let t = coerce_int (dget (payload e) ''tokens_used'') in
       usage_loop g es (add_tokens t totals)
         (if g = ByNone then groups
          else dset (usage_key g e) (add_tokens t (dget_or groups (usage_key g e) empty_bucket)) groups))"

definition compute_usage ::
  "runtime_event list \<Rightarrow> usage_group_by \<Rightarrow> bucket \<times> (string \<times> bucket) list" where
  "compute_usage es g =
    (case usage_loop g es empty_bucket [] of
       (totals, groups) \<Rightarrow> (totals, sort_key (\<lambda>r. - bu_tokens (snd r)) groups))"

section \<open>Tool latencies\<close>

datatype tools_group_by = ByTool | ByAgentTool

definition parse_tools_group_by :: "string \<Rightarrow> tools_group_by option" where
  "parse_tools_group_by v =
    (if v = ''tool'' then Some ByTool else if v = ''agent_tool'' then Some ByAgentTool else None)"

record tool_bucket =
  tb_tool :: string
  tb_agent :: "string option"
  tb_calls :: nat
  tb_failures :: nat
  tb_durations :: "int list"

definition bool_int :: "bool \<Rightarrow> int" where
  "bool_int b = (if b then 1 else 0)"

definition duration_of :: "pyval option \<Rightarrow> int list" where
  "duration_of v = (case v of Some (VInt i) \<Rightarrow> [i] | Some (VBool b) \<Rightarrow> [bool_int b]
     | Some (VFloat r) \<Rightarrow> [trunc_int r] | _ \<Rightarrow> [])"

definition tools_step :: "tools_group_by \<Rightarrow> runtime_event \<Rightarrow> (string, tool_bucket) dict \<Rightarrow> (string, tool_bucket) dict" where
  "tools_step g e bs =
    (if event_type e \<notin> {TOOL_CALL_COMPLETED, TOOL_CALL_FAILED} then bs
     else case dget (payload e) ''tool_name'' of
       Some (VStr (c # cs)) \<Rightarrow>
         let tool = c # cs;
             key = (if g = ByAgentTool then ev_agent_name e @ ''::'' @ tool else tool);
             b = dget_or bs key \<lparr> tb_tool = tool,
                   tb_agent = (if g = ByAgentTool then Some (ev_agent_name e) else None),
                   tb_calls = 0, tb_failures = 0, tb_durations = [] \<rparr>
         in dset key (b\<lparr>tb_calls := tb_calls b + 1,
                        tb_failures := tb_failures b + (if event_type e = TOOL_CALL_FAILED then 1 else 0),
                        tb_durations := tb_durations b @ duration_of (dget (payload e) ''duration_ms'')\<rparr>) bs
     | _ \<Rightarrow> bs)"

text \<open>Python rounds a half to the even neighbour.\<close>

definition py_round :: "rat \<Rightarrow> int" where
  "py_round r =
    (let f = \<lfloor>r\<rfloor>; d = r - of_int f in
     if d < 1 / 2 then f else if d > 1 / 2 then f + 1 else if even f then f else f + 1)"

definition percentile :: "int list \<Rightarrow> rat \<Rightarrow> int" where
  "percentile xs q =
    (if xs = [] then 0
     else xs ! nat (max 0 (min (int (length xs) - 1) (py_round (q * (of_nat (length xs) - 1))))))"

definition summarise :: "int list \<Rightarrow> int \<times> int \<times> int \<times> int" where
  "summarise ds =
    (if ds = [] then (0, 0, 0, 0)
     else let s = sort ds in
       (percentile s (1 / 2), percentile s (19 / 20), percentile s (99 / 100), sum_list s div int (length s)))"

definition compute_tools ::
  "runtime_event list \<Rightarrow> tools_group_by \<Rightarrow> (string \<times> tool_bucket \<times> int \<times> int \<times> int \<times> int) list" where
  "compute_tools es g =
    sort_key (\<lambda>r. - int (tb_calls (fst (snd r))))
      (map (\<lambda>(k, b). (k, b, summarise (tb_durations b))) (fold (tools_step g) es []))"

section \<open>The runs page\<close>

datatype page_status = Spawned | Running | Completed | Failed | Rejected

definition parse_run_status :: "string \<Rightarrow> page_status option" where
  "parse_run_status v =
    (if v = ''spawned'' then Some Spawned else if v = ''running'' then Some Running
     else if v = ''completed'' then Some Completed else if v = ''failed'' then Some Failed
     else if v = ''rejected'' then Some Rejected else None)"

fun status_by_type :: "event_type \<Rightarrow> page_status option" where
  "status_by_type AGENT_DISPATCHED = Some Spawned"
| "status_by_type AGENT_SPAWNED = Some Running"
| "status_by_type AGENT_COMPLETED = Some Completed"
| "status_by_type AGENT_FAILED = Some Failed"
| "status_by_type BUDGET_EXCEEDED = Some Rejected"
| "status_by_type DEPTH_LIMIT_EXCEEDED = Some Rejected"
| "status_by_type _ = None"

record run_summary =
  su_trace_id :: string
  su_agent_name :: string
  su_status :: page_status
  su_started_at :: "rat option"
  su_duration_ms :: int
  su_tokens_used :: int
  su_backend :: string
  su_trust_level :: string

definition payload_str :: "runtime_event \<Rightarrow> string \<Rightarrow> string" where
  "payload_str e k = (case dget (payload e) k of Some (VStr s) \<Rightarrow> s | _ \<Rightarrow> [])"

definition payload_int :: "runtime_event \<Rightarrow> string \<Rightarrow> int \<Rightarrow> int" where
  "payload_int e k d = (case dget (payload e) k of Some (VInt i) \<Rightarrow> i | _ \<Rightarrow> d)"

definition nonempty :: "string \<Rightarrow> string \<Rightarrow> string" where
  "nonempty x old = (if x = [] then old else x)"

definition summary_step :: "runtime_event \<Rightarrow> run_summary \<Rightarrow> run_summary" where
  "summary_step e s =
    (let s1 = s\<lparr>su_status := (case status_by_type (event_type e) of None \<Rightarrow> su_status s | Some x \<Rightarrow> x),
                su_backend := nonempty (payload_str e ''backend'') (su_backend s),
                su_trust_level := nonempty (payload_str e ''trust_level'') (su_trust_level s)\<rparr>;
         s2 = (if event_type e \<in> {AGENT_SPAWNED, AGENT_DISPATCHED} then s1\<lparr>su_started_at := Some (timestamp e)\<rparr> else s1)
     in if event_type e \<in> {AGENT_COMPLETED, AGENT_FAILED}
        then s2\<lparr>su_duration_ms := payload_int e ''duration_ms'' (su_duration_ms s2),
                su_tokens_used := payload_int e ''tokens_used'' (su_tokens_used s2)\<rparr>
        else s2)"

definition summarise_trace :: "runtime_event list \<Rightarrow> run_summary option" where
  "summarise_trace es =
    (case sort_key timestamp es of
       [] \<Rightarrow> None
     | first # rest \<Rightarrow> Some (fold summary_step (first # rest)
         \<lparr> su_trace_id = ev_trace_id first, su_agent_name = ev_agent_name first, su_status = Spawned,
           su_started_at = None, su_duration_ms = 0, su_tokens_used = 0, su_backend = [], su_trust_level = [] \<rparr>))"

definition page_row :: "page_status option \<Rightarrow> runtime_event list \<Rightarrow> run_summary list" where
  "page_row status es =
    (case summarise_trace es of
       None \<Rightarrow> []
     | Some r \<Rightarrow> if status \<noteq> None \<and> status \<noteq> Some (su_status r) then [] else [r])"

fun page_rows :: "'st event_ops \<Rightarrow> page_status option \<Rightarrow> string list \<Rightarrow> ('st, exn, run_summary list) eff" where
  "page_rows ops status [] = ret []"
| "page_rows ops status (t # ts) =
    bnd (eo_query ops None None (Some t) None 1000) (\<lambda>es.
    bnd (page_rows ops status ts) (\<lambda>rows. ret (page_row status es @ rows)))"

definition assemble_runs_page ::
  "'st event_ops \<Rightarrow> int \<Rightarrow> int \<Rightarrow> page_status option \<Rightarrow> ('st, exn, run_summary list \<times> nat) eff" where
  "assemble_runs_page ops limit offset status =
    bnd (eo_list_traces ops None limit offset) (\<lambda>tids.
    bnd (page_rows ops status tids) (\<lambda>rows.
    bnd (eo_count_traces ops None) (\<lambda>n. ret (rows, n))))"

section \<open>Runtime statistics\<close>

definition tokens_from :: "runtime_event \<Rightarrow> int" where
  "tokens_from e = (case dget (payload e) ''tokens_used'' of Some (VInt i) \<Rightarrow> i | Some (VBool b) \<Rightarrow> bool_int b | _ \<Rightarrow> 0)"

definition tokens_total :: "runtime_event list \<Rightarrow> int" where
  "tokens_total es = sum_list (map tokens_from (filter (\<lambda>e. event_type e = AGENT_COMPLETED) es))"

definition burn_step :: "rat \<Rightarrow> nat \<Rightarrow> runtime_event \<Rightarrow> int list \<Rightarrow> int list" where
  "burn_step tm minutes e buckets =
    (if event_type e \<noteq> AGENT_COMPLETED \<or> timestamp e < tm - of_nat minutes * 60 then buckets
     else let idx = int minutes - 1 - \<lfloor>(tm - timestamp e) / 60\<rfloor> in
       if 0 \<le> idx \<and> idx < int minutes then buckets[nat idx := buckets ! nat idx + tokens_from e] else buckets)"

definition burn_rate :: "runtime_event list \<Rightarrow> rat \<Rightarrow> nat \<Rightarrow> int list" where
  "burn_rate es tm minutes = fold (burn_step tm minutes) es (replicate minutes 0)"

definition rejection_step :: "runtime_event \<Rightarrow> (string, nat) dict \<Rightarrow> (string, nat) dict" where
  "rejection_step e c =
    (if event_type e = BUDGET_EXCEEDED then dset ''budget'' (dget_or c ''budget'' 0 + 1) c
     else if event_type e = DEPTH_LIMIT_EXCEEDED then dset ''depth'' (dget_or c ''depth'' 0 + 1) c
     else if event_type e = AGENT_FAILED \<and> dhas c (payload_str e ''reason'')
     then dset (payload_str e ''reason'') (dget_or c (payload_str e ''reason'') 0 + 1) c
     else c)"

definition rejection_counts :: "runtime_event list \<Rightarrow> (string, nat) dict" where
  "rejection_counts es =
    fold rejection_step es [(''budget'', 0), (''cycle'', 0), (''depth'', 0), (''cap'', 0), (''timeout'', 0)]"

definition observed_spawn_count :: "runtime_event list \<Rightarrow> nat" where
  "observed_spawn_count es = length (filter (\<lambda>e. event_type e = AGENT_SPAWNED) es)"

text \<open>\<open>str.split(":", 1)[0].strip()\<close>, on the whitespace of 8-bit text.\<close>

definition is_space :: "char \<Rightarrow> bool" where
  "is_space c = (of_char c \<in> ({9, 10, 11, 12, 13, 28, 29, 30, 31, 32, 133, 160} :: nat set))"

definition strip :: "string \<Rightarrow> string" where
  "strip s = rev (dropWhile is_space (rev (dropWhile is_space s)))"

definition failure_class :: "runtime_event \<Rightarrow> string" where
  "failure_class e =
    (let err = nonempty (payload_str e ''error'') ''UnknownError''
     in nonempty (strip (takeWhile (\<lambda>c. c \<noteq> CHR '':'') err)) ''UnknownError'')"

fun humanise :: "rat \<Rightarrow> string" where
  "humanise delta =
    (let total = trunc_int delta in
     if total < 60 then json_int total @ ''s ago''
     else if total < 3600
     then json_int (total div 60) @ ''m ''
       @ (if total mod 60 \<noteq> 0 then json_int (total mod 60) @ ''s ago'' else ''ago'')
     else json_int (total div 3600) @ ''h ''
       @ (if (total mod 3600) div 60 \<noteq> 0 then json_int ((total mod 3600) div 60) @ ''m ago'' else ''ago''))"

declare humanise.simps [simp del]

record error_group =
  eg_class :: string
  eg_count :: nat
  eg_last :: string
  eg_top_agent :: string

text \<open>\<open>Counter.most_common(1)\<close>: the largest count, on a tie the name met first.\<close>

fun most_common :: "string list \<Rightarrow> string list \<Rightarrow> string" where
  "most_common all [] = []"
| "most_common all [x] = x"
| "most_common all (x # y # ys) =
    (if count_list all y > count_list all x then most_common all (y # ys) else most_common all (x # ys))"

definition error_step :: "rat \<Rightarrow> runtime_event \<Rightarrow> (string, runtime_event list) dict
    \<Rightarrow> (string, runtime_event list) dict" where
  "error_step tm e d =
    (if event_type e \<noteq> AGENT_FAILED \<or> timestamp e < tm - 24 * 3600 then d
     else dset (failure_class e) (dget_or d (failure_class e) [] @ [e]) d)"

definition error_row :: "rat \<Rightarrow> string \<Rightarrow> runtime_event list \<Rightarrow> error_group" where
  "error_row tm cls es =
    (let evs = sort_key (\<lambda>e. - timestamp e) es in
     \<lparr> eg_class = cls, eg_count = length evs, eg_last = humanise (tm - timestamp (hd evs)),
       eg_top_agent = most_common (map ev_agent_name evs) (map ev_agent_name evs) \<rparr>)"

definition error_groups :: "runtime_event list \<Rightarrow> rat \<Rightarrow> error_group list" where
  "error_groups es tm =
    sort_key (\<lambda>r. - int (eg_count r)) (map (\<lambda>(c, l). error_row tm c l) (fold (error_step tm) es []))"

section \<open>The fleet, from its heartbeats\<close>

datatype fleet_status = Healthy | Stale | Down

record worker_info =
  wi_id :: string
  wi_broker :: string
  wi_subscribed :: "string list"
  wi_concurrency :: int
  wi_in_flight :: int
  wi_last_hb :: string
  wi_status :: fleet_status

definition runtime_of :: "runtime_event \<Rightarrow> string" where
  "runtime_of e = nonempty (payload_str e ''runtime_id'') (ev_agent_name e)"

definition heartbeat_step ::
  "runtime_event \<Rightarrow> (string, runtime_event) dict \<times> (string, rat) dict
    \<Rightarrow> (string, runtime_event) dict \<times> (string, rat) dict" where
  "heartbeat_step e st =
    (case st of (latest, stopped) \<Rightarrow>
       if event_type e = WORKER_HEARTBEAT then
         (case dget latest (runtime_of e) of
            None \<Rightarrow> (dset (runtime_of e) e latest, stopped)
          | Some p \<Rightarrow> if timestamp e > timestamp p then (dset (runtime_of e) e latest, stopped) else (latest, stopped))
       else if event_type e = WORKER_STOPPED then
         (case dget stopped (runtime_of e) of
            None \<Rightarrow> (latest, dset (runtime_of e) (timestamp e) stopped)
          | Some p \<Rightarrow> if timestamp e > p then (latest, dset (runtime_of e) (timestamp e) stopped) else (latest, stopped))
       else (latest, stopped))"

definition fleet_status_of :: "rat \<Rightarrow> rat \<Rightarrow> rat \<Rightarrow> rat option \<Rightarrow> rat \<Rightarrow> fleet_status" where
  "fleet_status_of tm stale_after down_after stop beat =
    (let cleanly_stopped = (case stop of None \<Rightarrow> False | Some t \<Rightarrow> t \<ge> beat) in
     if cleanly_stopped \<or> tm - beat \<ge> down_after then Down
     else if tm - beat \<ge> stale_after then Stale
     else Healthy)"

definition int_or_zero :: "pyval option \<Rightarrow> int" where
  "int_or_zero v = (case v of Some (VInt i) \<Rightarrow> i | Some (VBool b) \<Rightarrow> bool_int b | _ \<Rightarrow> 0)"

definition strings_in :: "pyval option \<Rightarrow> string list" where
  "strings_in v =
    (case v of Some (VList xs) \<Rightarrow> concat (map (\<lambda>x. case x of VStr s \<Rightarrow> [s] | _ \<Rightarrow> []) xs) | _ \<Rightarrow> [])"

text \<open>The dash shown without a broker scheme is one non-ASCII character: its three UTF-8 bytes.\<close>

definition dash :: string where
  "dash = [CHR 0xE2, CHR 0x80, CHR 0x94]"

definition worker_row ::
  "rat \<Rightarrow> rat \<Rightarrow> rat \<Rightarrow> (string, rat) dict \<Rightarrow> string \<Rightarrow> runtime_event \<Rightarrow> worker_info" where
  "worker_row tm stale_after down_after stopped rid e =
    \<lparr> wi_id = rid, wi_broker = nonempty (payload_str e ''broker_scheme'') dash,
      wi_subscribed = strings_in (dget (payload e) ''agent_subscriptions''),
      wi_concurrency = int_or_zero (dget (payload e) ''concurrency_cap''),
      wi_in_flight = int_or_zero (dget (payload e) ''in_flight''),
      wi_last_hb = humanise (tm - timestamp e),
      wi_status = fleet_status_of tm stale_after down_after (dget stopped rid) (timestamp e) \<rparr>"

definition workers_from_heartbeats ::
  "runtime_event list \<Rightarrow> rat \<Rightarrow> rat \<Rightarrow> rat \<Rightarrow> worker_info list" where
  "workers_from_heartbeats es tm stale_after down_after =
    (case fold heartbeat_step es ([], []) of
       (latest, stopped) \<Rightarrow>
         sort_key wi_id (map (\<lambda>(rid, e). worker_row tm stale_after down_after stopped rid e) latest))"

section \<open>The composite report\<close>

record mcp_row =
  mr_name :: string
  mr_mode :: string
  mr_tools_count :: nat
  mr_tools :: "string list"
  mr_eager :: bool
  mr_status :: string

definition mcp_servers_from_enrollments :: "string list \<Rightarrow> mcp_row list" where
  "mcp_servers_from_enrollments names =
    map (\<lambda>n. \<lparr> mr_name = n, mr_mode = ''embedded'', mr_tools_count = 1, mr_tools = [n], mr_eager = True,
               mr_status = ''connected'' \<rparr>) names"

text \<open>
  What the report reads of the runtime; \<open>rv_job_started\<close> is \<open>None\<close> for a backend that is
  not a \<open>JobBackend\<close>.
\<close>

record runtime_view =
  rv_id :: string
  rv_broker_url :: "string option"
  rv_job_started :: "bool option"
  rv_spawn_count :: nat
  rv_max_total_spawns :: "nat option"
  rv_budget_limit :: "int option"

record runtime_stats =
  rs_id :: string
  rs_broker :: "string option"
  rs_broker_status :: string
  rs_sse_status :: string
  rs_spawn_count :: nat
  rs_max_total_spawns :: "nat option"
  rs_tokens_used :: int
  rs_token_budget :: "int option"
  rs_workers_count :: nat
  rs_mcp_count :: nat

record stats_response =
  sr_runtime :: runtime_stats
  sr_burn_rate :: "int list"
  sr_rejections :: "(string, nat) dict"
  sr_errors :: "error_group list"
  sr_workers :: "worker_info list"
  sr_mcp :: "mcp_row list"

definition build_stats ::
  "runtime_view \<Rightarrow> runtime_event list \<Rightarrow> bool \<Rightarrow> string list \<Rightarrow> worker_info list option \<Rightarrow> rat \<Rightarrow> stats_response" where
  "build_stats rv es sse_active enrolled workers tm =
    (let fleet = (case workers of Some ws \<Rightarrow> ws | None \<Rightarrow> workers_from_heartbeats es tm 90 300);
         servers = mcp_servers_from_enrollments enrolled
     in \<lparr> sr_runtime = \<lparr> rs_id = rv_id rv, rs_broker = rv_broker_url rv,
            rs_broker_status = (if rv_job_started rv = Some False then ''failed'' else ''connected''),
            rs_sse_status = (if sse_active then ''connected'' else ''failed''),
            rs_spawn_count = max (rv_spawn_count rv) (observed_spawn_count es),
            rs_max_total_spawns = rv_max_total_spawns rv, rs_tokens_used = tokens_total es,
            rs_token_budget = rv_budget_limit rv, rs_workers_count = length fleet,
            rs_mcp_count = length servers \<rparr>,
          sr_burn_rate = burn_rate es tm 60, sr_rejections = rejection_counts es,
          sr_errors = error_groups es tm, sr_workers = fleet, sr_mcp = servers \<rparr>)"

section \<open>The routes\<close>

text \<open>
  A route runs over the store it was given and answers a value or raises.
  \<open>fromiso\<close> is \<open>datetime.fromisoformat\<close>, which raises on text it cannot read.
\<close>

definition http_400 :: "string \<Rightarrow> exn" where
  "http_400 detail = Exn (PyOther ''HTTPException'') (''400: '' @ detail)"

definition http_404 :: "string \<Rightarrow> exn" where
  "http_404 detail = Exn (PyOther ''HTTPException'') (''404: '' @ detail)"

definition parse_iso :: "(string \<Rightarrow> rat option) \<Rightarrow> string option \<Rightarrow> ('st, exn, rat option) eff" where
  "parse_iso fromiso v =
    (case v of None \<Rightarrow> ret None
     | Some t \<Rightarrow> (case fromiso t of None \<Rightarrow> raise (Exn PyValueError t) | Some r \<Rightarrow> ret (Some r)))"

definition windowed ::
  "(string \<Rightarrow> rat option) \<Rightarrow> string option \<Rightarrow> string option
    \<Rightarrow> (rat option \<Rightarrow> rat option \<Rightarrow> ('st, exn, 'a) eff) \<Rightarrow> ('st, exn, 'a) eff" where
  "windowed fromiso since until body =
    bnd (parse_iso fromiso since) (\<lambda>a. bnd (parse_iso fromiso until) (body a))"

definition list_runs ::
  "'st event_ops \<Rightarrow> int \<Rightarrow> int \<Rightarrow> string option \<Rightarrow> ('st, exn, run_summary list \<times> nat \<times> int \<times> int) eff" where
  "list_runs ops limit offset status =
    (let parsed = (case status of None \<Rightarrow> None | Some t \<Rightarrow> parse_run_status t);
         l = max 1 (min limit 500); off = max 0 offset
     in if status \<noteq> None \<and> parsed = None then raise (http_400 ''status'')
        else bnd (assemble_runs_page ops l off parsed) (\<lambda>(rows, n). ret (rows, n, l, off)))"

text \<open>\<open>isofmt\<close> is \<open>datetime.isoformat\<close>.\<close>

definition event_to_dict :: "(rat \<Rightarrow> string) \<Rightarrow> runtime_event \<Rightarrow> (string, pyval) dict" where
  "event_to_dict isofmt e =
    (let opt = (\<lambda>x. case x of None \<Rightarrow> VNone | Some v \<Rightarrow> VStr v) in
     [(''event_type'', VStr (event_type_value (event_type e))), (''timestamp'', VStr (isofmt (timestamp e))),
      (''agent_name'', VStr (ev_agent_name e)), (''task_id'', opt (ev_task_id e)), (''trace_id'', VStr (ev_trace_id e)),
      (''parent_trace_id'', opt (ev_parent_trace_id e)), (''payload'', VDict (payload e))])"

definition get_run_tree ::
  "(rat \<Rightarrow> string) \<Rightarrow> 'st event_ops \<Rightarrow> string \<Rightarrow> ('st, exn, (string, pyval) dict list) eff" where
  "get_run_tree isofmt ops tid =
    bnd (eo_tree ops tid) (\<lambda>es. if es = [] then raise (http_404 tid) else ret (map (event_to_dict isofmt) es))"

definition query_events ::
  "(string \<Rightarrow> rat option) \<Rightarrow> (rat \<Rightarrow> string) \<Rightarrow> 'st event_ops \<Rightarrow> string option \<Rightarrow> string option
    \<Rightarrow> string option \<Rightarrow> string option \<Rightarrow> int \<Rightarrow> ('st, exn, (string, pyval) dict list) eff" where
  "query_events fromiso isofmt ops tid et since until limit =
    bnd (case et of None \<Rightarrow> ret None
         | Some v \<Rightarrow> (case event_type_of v of None \<Rightarrow> raise (Exn PyValueError v) | Some x \<Rightarrow> ret (Some [x]))) (\<lambda>types.
    bnd (windowed fromiso since until (\<lambda>a b. eo_query ops a b tid types limit)) (\<lambda>es.
    ret (map (event_to_dict isofmt) es)))"

definition get_usage ::
  "(string \<Rightarrow> rat option) \<Rightarrow> 'st event_ops \<Rightarrow> string \<Rightarrow> string option \<Rightarrow> string option
    \<Rightarrow> ('st, exn, bucket \<times> (string \<times> bucket) list) eff" where
  "get_usage fromiso ops by since until =
    (case parse_group_by by of None \<Rightarrow> raise (http_400 ''group_by'')
     | Some g \<Rightarrow> windowed fromiso since until (\<lambda>a b.
         bnd (eo_query ops a b None None 100000) (\<lambda>es. ret (compute_usage es g))))"

definition get_tools ::
  "(string \<Rightarrow> rat option) \<Rightarrow> 'st event_ops \<Rightarrow> string \<Rightarrow> string option \<Rightarrow> string option
    \<Rightarrow> ('st, exn, (string \<times> tool_bucket \<times> int \<times> int \<times> int \<times> int) list) eff" where
  "get_tools fromiso ops by since until =
    (case parse_tools_group_by by of None \<Rightarrow> raise (http_400 ''group_by'')
     | Some g \<Rightarrow> windowed fromiso since until (\<lambda>a b.
         bnd (eo_query ops a b None None 100000) (\<lambda>es. ret (compute_tools es g))))"

definition get_runtime_stats ::
  "runtime_view \<Rightarrow> 'st event_ops \<Rightarrow> bool \<Rightarrow> string list \<Rightarrow> rat \<Rightarrow> ('st, exn, stats_response) eff" where
  "get_runtime_stats rv ops sse_active enrolled tm =
    bnd (eo_query ops None None None None 100000) (\<lambda>es. ret (build_stats rv es sse_active enrolled None tm))"

section \<open>The routes over a store that keeps the contract\<close>

lemma parse_iso_reads [intro, simp]: "reads_as (parse_iso fromiso v) s (parse_iso fromiso v) es"
  by (simp add: parse_iso_def split: option.split)

context event_store_contract begin

lemma windowed_reads:
  assumes "\<And>a b. reads_as (f a b) s (g a b) es"
  shows "reads_as (windowed fromiso since until f) s (windowed fromiso since until g) es"
  unfolding windowed_def by (intro reads_as_bnd parse_iso_reads assms)

lemma page_rows_reads: "good s \<Longrightarrow> reads_as (page_rows ops status ts) s (page_rows history_ops status ts) (events s)"
  by (induction ts) (auto intro!: reads_as_bnd query_reads)

lemma assemble_reads:
  "good s \<Longrightarrow> 0 \<le> l \<Longrightarrow> 0 \<le> k \<Longrightarrow>
    reads_as (assemble_runs_page ops l k status) s (assemble_runs_page history_ops l k status) (events s)"
  unfolding assemble_runs_page_def by (intro reads_as_bnd reads_as_ret reading_laws page_rows_reads)

lemma list_runs_reads:
  "good s \<Longrightarrow> reads_as (list_runs ops limit offset status) s (list_runs history_ops limit offset status) (events s)"
  by (auto simp: list_runs_def Let_def intro!: reads_as_bnd assemble_reads)

lemma get_run_tree_reads: "good s \<Longrightarrow> reads_as (get_run_tree isofmt ops tid) s (get_run_tree isofmt history_ops tid) (events s)"
  by (auto simp: get_run_tree_def intro!: reads_as_bnd tree_reads)

lemma query_events_reads:
  assumes "good s" "1 \<le> limit"
  shows "reads_as (query_events fromiso isofmt ops tr et since until limit) s
    (query_events fromiso isofmt history_ops tr et since until limit) (events s)"
proof -
  have start: "bnd (ret x) f = f x" "bnd (raise e) f = raise e"
    for x :: 'x and e :: exn and f :: "'x \<Rightarrow> ('u, exn, 'y) eff"
    by (simp_all add: bnd_def fun_eq_iff)
  show ?thesis using assms
    by (auto simp: query_events_def start intro!: reads_as_bnd windowed_reads query_reads split: option.split)
qed

lemma get_usage_reads:
  "good s \<Longrightarrow> reads_as (get_usage fromiso ops by since until) s (get_usage fromiso history_ops by since until) (events s)"
  by (auto simp: get_usage_def intro!: windowed_reads reads_as_bnd query_reads split: option.split)

lemma get_tools_reads:
  "good s \<Longrightarrow> reads_as (get_tools fromiso ops by since until) s (get_tools fromiso history_ops by since until) (events s)"
  by (auto simp: get_tools_def intro!: windowed_reads reads_as_bnd query_reads split: option.split)

lemma get_runtime_stats_reads:
  "good s \<Longrightarrow> reads_as (get_runtime_stats rv ops sse_active enrolled tm) s
    (get_runtime_stats rv history_ops sse_active enrolled tm) (events s)"
  by (auto simp: get_runtime_stats_def intro!: reads_as_bnd query_reads)

end

section \<open>Paging through the history\<close>

text \<open>The rows of \<open>n\<close> pages of \<open>l\<close> runs each, asked for one after the other.\<close>

fun history_pages :: "'st event_ops \<Rightarrow> int \<Rightarrow> nat \<Rightarrow> int \<Rightarrow> ('st, exn, run_summary list) eff" where
  "history_pages ops l 0 offset = ret []"
| "history_pages ops l (Suc n) offset =
    bnd (list_runs ops l offset None) (\<lambda>(rows, _).
    bnd (history_pages ops l n (offset + l)) (\<lambda>rest. ret (rows @ rest)))"

lemma summary_step_trace: "su_trace_id (summary_step e s) = su_trace_id s"
  by (simp add: summary_step_def Let_def)

lemma summary_fold_trace: "su_trace_id (fold summary_step es s) = su_trace_id s"
  by (induction es arbitrary: s) (simp_all add: summary_step_trace)

lemma summarise_trace_id:
  assumes "es \<noteq> []" "\<And>e. e \<in> set es \<Longrightarrow> ev_trace_id e = t"
  shows "map su_trace_id (page_row None es) = [t]"
proof -
  obtain f rest where s: "sort_key timestamp es = f # rest" using assms(1) by (metis length_0_conv length_sort neq_Nil_conv)
  then have "f \<in> set es" by (metis list.set_intros(1) set_sort)
  then show ?thesis using assms(2) [of f] by (simp add: page_row_def summarise_trace_def s summary_fold_trace summary_step_trace)
qed

text \<open>A page of the unfiltered history has one row for each trace it lists.\<close>

lemma history_page_rows:
  "set ts \<subseteq> ev_trace_id ` set es \<Longrightarrow>
    \<exists>rows. page_rows history_ops None ts es = (Inr rows, es) \<and> map su_trace_id rows = ts"
proof (induction ts)
  case (Cons t ts)
  let ?es = "history_query None None (Some t) None 1000 es"
  obtain e where "e \<in> set es" "ev_trace_id e = t" using Cons.prems by auto
  then have "filter (event_matches None None (Some t) None) (rev es) \<noteq> []"
    by (auto simp: filter_empty_conv event_matches_def)
  then have "?es \<noteq> []" by (simp add: history_query_def)
  moreover have "ev_trace_id x = t" if "x \<in> set ?es" for x
    using that by (auto simp: history_query_def event_matches_def dest: in_set_takeD)
  ultimately have row: "map su_trace_id (page_row None ?es) = [t]" by (rule summarise_trace_id)
  from Cons obtain rows where "page_rows history_ops None ts es = (Inr rows, es)" "map su_trace_id rows = ts" by auto
  then show ?case using row by (simp add: history_ops_def)
qed simp

lemma history_list_runs:
  assumes "1 \<le> l" "l \<le> 500" "0 \<le> k"
  shows "\<exists>rows. list_runs history_ops l k None es = (Inr (rows, length (history_traces None es), l, k), es)
    \<and> map su_trace_id rows = take (nat l) (drop (nat k) (history_traces None es))"
proof -
  let ?ts = "take (nat l) (drop (nat k) (history_traces None es))"
  have "set ?ts \<subseteq> set (history_traces None es)" by (meson in_set_dropD in_set_takeD subsetI)
  also have "\<dots> \<subseteq> ev_trace_id ` set es" by (auto simp: set_history_traces)
  finally obtain rows where rows: "page_rows history_ops None ?ts es = (Inr rows, es)" "map su_trace_id rows = ?ts"
    using history_page_rows by blast
  have "eo_list_traces history_ops None l k es = (Inr ?ts, es)"
    "eo_count_traces history_ops None es = (Inr (length (history_traces None es)), es)" by (simp_all add: history_ops_def)
  then show ?thesis using assms rows by (simp add: list_runs_def assemble_runs_page_def Let_def)
qed

lemma history_pages_cover:
  assumes "1 \<le> l" "l \<le> 500" "0 \<le> k"
  shows "\<exists>rows. history_pages history_ops l n k es = (Inr rows, es)
    \<and> map su_trace_id rows = take (n * nat l) (drop (nat k) (history_traces None es))"
  using assms(3)
proof (induction n arbitrary: k)
  case (Suc n)
  from history_list_runs [OF assms(1,2) Suc.prems, of es] obtain rows where
    r: "list_runs history_ops l k None es = (Inr (rows, length (history_traces None es), l, k), es)"
    "map su_trace_id rows = take (nat l) (drop (nat k) (history_traces None es))" by blast
  have "0 \<le> k + l" using Suc.prems assms(1) by simp
  from Suc.IH [OF this] obtain rest where
    rest: "history_pages history_ops l n (k + l) es = (Inr rest, es)"
    "map su_trace_id rest = take (n * nat l) (drop (nat (k + l)) (history_traces None es))" by blast
  have "nat (k + l) = nat k + nat l" using assms(1) Suc.prems by simp
  then have "map su_trace_id (rows @ rest) = take (Suc n * nat l) (drop (nat k) (history_traces None es))"
    by (simp add: r(2) rest(2) take_add add.commute)
  then show ?case using r(1) rest(1) by simp
qed simp

lemma history_page_rows_pure: "\<exists>rows. page_rows history_ops status ts es = (Inr rows, es)"
  by (induction ts) (auto simp: history_ops_def)

lemma history_total_is_unfiltered:
  assumes "list_runs history_ops limit k status es = (Inr (rows, n, l, o'), t)"
  shows "n = length (history_traces None es)"
proof -
  have page: "\<exists>rs. assemble_runs_page history_ops l k st es = (Inr (rs, length (history_traces None es)), es)" for l k st
  proof -
    let ?ts = "take (nat l) (drop (nat k) (history_traces None es))"
    have "eo_list_traces history_ops None l k es = (Inr ?ts, es)"
      "eo_count_traces history_ops None es = (Inr (length (history_traces None es)), es)" by (simp_all add: history_ops_def)
    moreover obtain rs where "page_rows history_ops st ?ts es = (Inr rs, es)" using history_page_rows_pure by blast
    ultimately show ?thesis by (simp add: assemble_runs_page_def)
  qed
  obtain rs where "assemble_runs_page history_ops (max 1 (min limit 500)) (max 0 k)
      (case status of None \<Rightarrow> None | Some t \<Rightarrow> parse_run_status t) es = (Inr (rs, length (history_traces None es)), es)"
    using page by blast
  then show ?thesis using assms by (auto simp: list_runs_def Let_def split: if_splits)
qed

context event_store_contract begin

lemma history_pages_reads:
  "good s \<Longrightarrow> reads_as (history_pages ops l n k) s (history_pages history_ops l n k) (events s)"
  by (induction n arbitrary: k) (auto intro!: reads_as_bnd list_runs_reads)

text \<open>Enough pages list every top-level trace once, newest first, and the total counts them.\<close>

lemma pages_list_every_run:
  assumes "good s" "1 \<le> l" "l \<le> 500" "length (history_traces None (events s)) \<le> n * nat l"
  shows "\<exists>rows. history_pages ops l n 0 s = (Inr rows, s) \<and> map su_trace_id rows = history_traces None (events s)"
proof -
  obtain rows where "history_pages history_ops l n 0 (events s) = (Inr rows, events s)"
    "map su_trace_id rows = history_traces None (events s)"
    using history_pages_cover [OF assms(2,3), of 0 n "events s"] assms(4) by auto
  then show ?thesis using history_pages_reads [OF assms(1), of l n 0] by (auto simp: reads_as_def)
qed

lemma page_total:
  assumes "good s" "1 \<le> l" "l \<le> 500" "0 \<le> k"
  shows "\<exists>rows. list_runs ops l k None s = (Inr (rows, length (history_traces None (events s)), l, k), s)"
  using list_runs_reads [OF assms(1), of l k None] history_list_runs [OF assms(2-4), of "events s"]
  by (auto simp: reads_as_def)

text \<open>The total does not depend on the status a page is filtered by.\<close>

lemma list_runs_total_is_unfiltered:
  "good s \<Longrightarrow> list_runs ops limit k status s = (Inr (rows, n, l, o'), t) \<Longrightarrow> n = length (history_traces None (events s))"
  using list_runs_reads [of s limit k status] history_total_is_unfiltered by (fastforce simp: reads_as_def)

end

section \<open>What the rollups add up to\<close>

lemma usage_loop_sums:
  "g \<noteq> ByNone \<Longrightarrow> dict_ok groups \<Longrightarrow> usage_loop g es totals groups = (totals', groups') \<Longrightarrow>
    dict_ok groups'
    \<and> sum_list (map (bu_tokens \<circ> snd) groups') - bu_tokens totals' = sum_list (map (bu_tokens \<circ> snd) groups) - bu_tokens totals
    \<and> sum_list (map ((\<lambda>b. int (bu_events b)) \<circ> snd) groups') - int (bu_events totals')
      = sum_list (map ((\<lambda>b. int (bu_events b)) \<circ> snd) groups) - int (bu_events totals)"
proof (induction g es totals groups rule: usage_loop.induct)
  case (2 g e es totals groups)
  show ?case
  proof (cases "event_type e = AGENT_COMPLETED")
    case True
    then show ?thesis using 2
      by (simp add: Let_def sum_list_map_dset [where f = bu_tokens, unfolded comp_def]
          sum_list_map_dset [where f = "\<lambda>b. int (bu_events b)", unfolded comp_def] add_tokens_def empty_bucket_def dget_or_def split: option.splits)
  qed (use 2 in simp)
qed simp

lemma usage_groups_partition:
  assumes "g \<noteq> ByNone" "compute_usage es g = (totals, rows)"
  shows "bu_tokens totals = sum_list (map (bu_tokens \<circ> snd) rows)"
    and "int (bu_events totals) = sum_list (map ((\<lambda>b. int (bu_events b)) \<circ> snd) rows)"
proof -
  obtain d where d: "usage_loop g es empty_bucket [] = (totals, d)"
    and r: "rows = sort_key (\<lambda>r. - bu_tokens (snd r)) d"
    using assms(2) by (auto simp: compute_usage_def split: prod.splits)
  have m: "mset rows = mset d" by (simp add: r)
  have s: "sum_list (map f rows) = sum_list (map f d)" for f :: "string \<times> bucket \<Rightarrow> int"
    using m by (metis mset_map sum_mset_sum_list)
  show "bu_tokens totals = sum_list (map (bu_tokens \<circ> snd) rows)"
    and "int (bu_events totals) = sum_list (map ((\<lambda>b. int (bu_events b)) \<circ> snd) rows)"
    using usage_loop_sums [OF assms(1) dict_ok_Nil d] by (simp_all add: s empty_bucket_def)
qed

lemma burn_rate_width: "length (burn_rate es tm minutes) = minutes"
proof -
  have "length (fold (burn_step tm minutes) es bs) = length bs" for bs
    by (induction es arbitrary: bs) (auto simp: burn_step_def Let_def)
  then show ?thesis by (simp add: burn_rate_def)
qed

text \<open>A run killed by a cycle, the cap or a timeout is counted only under a \<open>reason\<close> that
  says so; a failure event without that key changes no count.\<close>

lemma reasonless_failure_is_not_counted:
  "event_type e = AGENT_FAILED \<Longrightarrow> dget (payload e) ''reason'' = None \<Longrightarrow> \<not> dhas c [] \<Longrightarrow> rejection_step e c = c"
  by (simp add: rejection_step_def payload_str_def del: dhas_iff)

section \<open>The fleet shows the last word of every worker\<close>

definition newest :: "(runtime_event \<Rightarrow> bool) \<Rightarrow> runtime_event list \<Rightarrow> string \<Rightarrow> rat \<Rightarrow> bool" where
  "newest P es rid t \<longleftrightarrow>
    (\<exists>e \<in> set es. P e \<and> runtime_of e = rid \<and> timestamp e = t)
    \<and> (\<forall>e \<in> set es. P e \<and> runtime_of e = rid \<longrightarrow> timestamp e \<le> t)"

definition tracks ::
  "(runtime_event \<Rightarrow> bool) \<Rightarrow> ('v \<Rightarrow> rat) \<Rightarrow> runtime_event list \<Rightarrow> (string, 'v) dict \<Rightarrow> bool" where
  "tracks P val es d \<longleftrightarrow>
    (\<forall>rid. case dget d rid of
       None \<Rightarrow> \<forall>e \<in> set es. P e \<longrightarrow> runtime_of e \<noteq> rid
     | Some v \<Rightarrow> newest P es rid (val v))"

lemma newest_snoc:
  "\<not> (P e \<and> runtime_of e = rid) \<Longrightarrow> newest P (es @ [e]) rid t = newest P es rid t"
  "P e \<Longrightarrow> \<forall>x \<in> set es. P x \<longrightarrow> runtime_of x \<noteq> runtime_of e \<Longrightarrow> newest P (es @ [e]) (runtime_of e) (timestamp e)"
  "newest P es (runtime_of e) t \<Longrightarrow> P e \<Longrightarrow> t < timestamp e \<Longrightarrow> newest P (es @ [e]) (runtime_of e) (timestamp e)"
  "newest P es (runtime_of e) t \<Longrightarrow> timestamp e \<le> t \<Longrightarrow> newest P (es @ [e]) (runtime_of e) t"
  by (auto simp: newest_def)

lemma tracks_miss: "\<not> P e \<Longrightarrow> tracks P val (es @ [e]) d = tracks P val es d"
  by (auto simp: tracks_def newest_snoc(1) split: option.splits)

lemma tracks_put:
  assumes "tracks P val es d" "P e" "val v = timestamp e"
    "case dget d (runtime_of e) of None \<Rightarrow> True | Some p \<Rightarrow> val p < timestamp e"
  shows "tracks P val (es @ [e]) (dset (runtime_of e) v d)"
proof -
  have here: "newest P (es @ [e]) (runtime_of e) (timestamp e)"
  proof (cases "dget d (runtime_of e)")
    case None
    then show ?thesis using spec [OF assms(1) [unfolded tracks_def], of "runtime_of e"] newest_snoc(2) [of P e es] assms(2)
      by simp
  next
    case (Some p)
    then show ?thesis
      using spec [OF assms(1) [unfolded tracks_def], of "runtime_of e"] assms(2,4) newest_snoc(3) [of P es e]
      by simp
  qed
  show ?thesis unfolding tracks_def
  proof
    fix rid
    show "case dget (dset (runtime_of e) v d) rid of
        None \<Rightarrow> \<forall>x \<in> set (es @ [e]). P x \<longrightarrow> runtime_of x \<noteq> rid | Some v \<Rightarrow> newest P (es @ [e]) rid (val v)"
      using here assms(1,3) unfolding tracks_def
      by (cases "rid = runtime_of e") (auto simp: newest_snoc(1) split: option.splits dest!: spec [of _ rid])
  qed
qed

lemma tracks_keep:
  assumes "tracks P val es d" "dget d (runtime_of e) = Some p" "timestamp e \<le> val p"
  shows "tracks P val (es @ [e]) d"
  unfolding tracks_def
proof
  fix rid
  show "case dget d rid of
      None \<Rightarrow> \<forall>x \<in> set (es @ [e]). P x \<longrightarrow> runtime_of x \<noteq> rid | Some v \<Rightarrow> newest P (es @ [e]) rid (val v)"
    using assms spec [OF assms(1) [unfolded tracks_def], of rid] newest_snoc(4) [of P es e "val p"]
    by (cases "rid = runtime_of e") (auto simp: newest_snoc(1) split: option.splits)
qed

abbreviation (input) beats :: "runtime_event \<Rightarrow> bool" where
  "beats \<equiv> \<lambda>e. event_type e = WORKER_HEARTBEAT"

abbreviation (input) halts :: "runtime_event \<Rightarrow> bool" where
  "halts \<equiv> \<lambda>e. event_type e = WORKER_STOPPED"

definition fleet_inv :: "runtime_event list \<Rightarrow> (string, runtime_event) dict \<times> (string, rat) dict \<Rightarrow> bool" where
  "fleet_inv es st \<longleftrightarrow> dict_ok (fst st) \<and> tracks beats timestamp es (fst st) \<and> tracks halts id es (snd st)"

lemma fleet_inv_step: "fleet_inv es st \<Longrightarrow> fleet_inv (es @ [e]) (heartbeat_step e st)"
proof -
  assume inv: "fleet_inv es st"
  obtain latest stopped where st: "st = (latest, stopped)" by (cases st)
  have t: "dict_ok latest" "tracks beats timestamp es latest" "tracks halts id es stopped"
    using inv by (simp_all add: fleet_inv_def st)
  consider "beats e" | "halts e" | "\<not> beats e" "\<not> halts e" by blast
  then show ?thesis
  proof cases
    case 1
    then have "tracks halts id (es @ [e]) stopped" using t(3) by (simp add: tracks_miss)
    then show ?thesis using 1 t(1) tracks_put [OF t(2), of e e] tracks_keep [OF t(2), of e]
      by (auto simp: fleet_inv_def heartbeat_step_def st not_less split: option.split)
  next
    case 2
    then have "tracks beats timestamp (es @ [e]) latest" using t(2) by (simp add: tracks_miss)
    then show ?thesis using 2 t(1) tracks_put [OF t(3), of e "timestamp e"] tracks_keep [OF t(3), of e]
      by (auto simp: fleet_inv_def heartbeat_step_def st not_less split: option.split)
  next
    case 3
    then show ?thesis using t by (simp add: fleet_inv_def heartbeat_step_def st tracks_miss)
  qed
qed

lemma fleet_inv_fold: "fleet_inv es (fold heartbeat_step es ([], []))"
proof (induction es rule: rev_induct)
  case Nil
  then show ?case by (simp add: fleet_inv_def tracks_def)
next
  case (snoc e es)
  then show ?case by (simp add: fleet_inv_step)
qed

lemma fleet_row_is_the_last_word:
  assumes "w \<in> set (workers_from_heartbeats es tm stale_after down_after)"
  shows "\<exists>beat. newest beats es (wi_id w) beat
    \<and> (wi_status w = Down \<longleftrightarrow>
         (\<exists>e \<in> set es. halts e \<and> runtime_of e = wi_id w \<and> beat \<le> timestamp e) \<or> down_after \<le> tm - beat)
    \<and> (wi_status w = Healthy \<longrightarrow> tm - beat < stale_after \<and> tm - beat < down_after)"
proof -
  obtain latest stopped where f: "fold heartbeat_step es ([], []) = (latest, stopped)" by fastforce
  have inv: "dict_ok latest" "tracks beats timestamp es latest" "tracks halts id es stopped"
    using fleet_inv_fold [of es] by (simp_all add: fleet_inv_def f)
  obtain rid b where b: "(rid, b) \<in> set latest" and w: "w = worker_row tm stale_after down_after stopped rid b"
    using assms by (auto simp: workers_from_heartbeats_def f)
  have "newest beats es rid (timestamp b)"
    using spec [OF inv(2) [unfolded tracks_def], of rid] in_set_dget [OF inv(1) b] by simp
  moreover have "(case dget stopped rid of None \<Rightarrow> False | Some t \<Rightarrow> timestamp b \<le> t) \<longleftrightarrow>
      (\<exists>e \<in> set es. halts e \<and> runtime_of e = rid \<and> timestamp b \<le> timestamp e)"
    using spec [OF inv(3) [unfolded tracks_def], of rid]
    by (auto simp: newest_def split: option.splits intro: order_trans)
  ultimately show ?thesis
    by (intro exI [of _ "timestamp b"]) (auto simp: w worker_row_def fleet_status_of_def Let_def split: if_splits)
qed

lemma fleet_lists_every_worker_once:
  "let ws = workers_from_heartbeats es tm stale_after down_after in
     distinct (map wi_id ws) \<and> sorted (map wi_id ws) \<and> set (map wi_id ws) = runtime_of ` {e \<in> set es. beats e}"
proof -
  obtain latest stopped where f: "fold heartbeat_step es ([], []) = (latest, stopped)" by fastforce
  let ?rows = "map (\<lambda>(rid, e). worker_row tm stale_after down_after stopped rid e) latest"
  have inv: "dict_ok latest" "tracks beats timestamp es latest"
    using fleet_inv_fold [of es] by (simp_all add: fleet_inv_def f)
  have ids: "map wi_id ?rows = map fst latest" by (auto simp: worker_row_def)
  have ws: "workers_from_heartbeats es tm stale_after down_after = sort_key wi_id ?rows"
    by (simp add: workers_from_heartbeats_def f)
  have perm: "mset (map wi_id (sort_key wi_id ?rows)) = mset (map wi_id ?rows)"
    unfolding mset_map mset_sort by (rule refl)
  have "distinct (map wi_id (sort_key wi_id ?rows))"
    using inv(1) perm mset_eq_imp_distinct_iff ids unfolding dict_ok_def by metis
  moreover have "rid \<in> fst ` set latest \<longleftrightarrow> (\<exists>e \<in> set es. beats e \<and> runtime_of e = rid)" for rid
    using spec [OF inv(2) [unfolded tracks_def], of rid]
    by (cases "dget latest rid") (auto simp: newest_def dget_None_iff dest: dget_in_set intro: rev_image_eqI)
  then have "set (map wi_id (sort_key wi_id ?rows)) = runtime_of ` {e \<in> set es. beats e}"
    using ids by (auto simp flip: set_map) (auto simp: image_iff)
  ultimately show ?thesis unfolding ws Let_def by simp
qed

text \<open>
  The fleet view lists every worker that ever sent a heartbeat exactly once, in
  the order of the ids, whatever the order of the events; a row speaks for the newest
  heartbeat of its worker: it is down exactly if the worker said it stopped at or
  after that heartbeat or the heartbeat is too old, and healthy only if it is recent.
\<close>

theorem fleet_view:
  "let ws = workers_from_heartbeats es tm stale_after down_after in
     distinct (map wi_id ws) \<and> sorted (map wi_id ws) \<and> set (map wi_id ws) = runtime_of ` {e \<in> set es. beats e}
     \<and> (\<forall>w \<in> set ws. \<exists>beat. newest beats es (wi_id w) beat
          \<and> (wi_status w = Down \<longleftrightarrow>
               (\<exists>e \<in> set es. halts e \<and> runtime_of e = wi_id w \<and> beat \<le> timestamp e) \<or> down_after \<le> tm - beat)
          \<and> (wi_status w = Healthy \<longrightarrow> tm - beat < stale_after \<and> tm - beat < down_after))"
  unfolding Let_def
  using fleet_lists_every_worker_once [of es tm stale_after down_after, unfolded Let_def]
  by (intro conjI ballI fleet_row_is_the_last_word) (elim conjE; assumption)+

definition sample_beat :: "rat \<Rightarrow> runtime_event" where
  "sample_beat t = \<lparr> event_type = WORKER_HEARTBEAT, timestamp = t, ev_agent_name = ''w1'', ev_task_id = None,
     ev_trace_id = ''w1'', ev_parent_trace_id = None, payload = [] \<rparr>"

text \<open>Two heartbeats out of order, and a stop right after the newer one.\<close>

lemma fleet_view_witness:
  "\<exists>w \<in> set (workers_from_heartbeats
      [sample_beat 60, sample_beat 30, (sample_beat 61)\<lparr>event_type := WORKER_STOPPED\<rparr>] 70 90 300).
    wi_id w = ''w1'' \<and> wi_status w = Down"
proof -
  let ?es = "[sample_beat 60, sample_beat 30, (sample_beat 61)\<lparr>event_type := WORKER_STOPPED\<rparr>]"
  note f = fleet_view [of ?es 70 90 300, unfolded Let_def]
  have rid: "runtime_of e = ''w1''" if "e \<in> set ?es" for e
    using that by (auto simp: sample_beat_def runtime_of_def nonempty_def payload_str_def)
  have "sample_beat 60 \<in> {e \<in> set ?es. beats e}" by (simp add: sample_beat_def)
  then have "''w1'' \<in> runtime_of ` {e \<in> set ?es. beats e}" using rid by force
  then have "''w1'' \<in> set (map wi_id (workers_from_heartbeats ?es 70 90 300))"
    unfolding f [THEN conjunct2, THEN conjunct2, THEN conjunct1] .
  then obtain w where w: "w \<in> set (workers_from_heartbeats ?es 70 90 300)" "wi_id w = ''w1''" by auto
  have "newest beats ?es ''w1'' beat \<Longrightarrow> beat = 60" for beat
    by (auto simp: newest_def sample_beat_def runtime_of_def nonempty_def payload_str_def)
  moreover obtain beat where "newest beats ?es ''w1'' beat"
    "wi_status w = Down \<longleftrightarrow>
       (\<exists>e \<in> set ?es. halts e \<and> runtime_of e = ''w1'' \<and> beat \<le> timestamp e) \<or> 300 \<le> 70 - beat"
    using f [THEN conjunct2, THEN conjunct2, THEN conjunct2, rule_format, OF w(1), unfolded w(2)]
    by (elim exE conjE)
  ultimately have "wi_status w = Down \<longleftrightarrow>
       (\<exists>e \<in> set ?es. halts e \<and> runtime_of e = ''w1'' \<and> 60 \<le> timestamp e) \<or> 300 \<le> (70 :: rat) - 60"
    by metis
  then have "wi_status w = Down" using rid by (simp add: sample_beat_def)
  then show ?thesis using w by blast
qed

end
