(* ===== verification/Event_Sqlite.thy ===== *)
theory Event_Sqlite
  imports Dashboard
begin

text \<open>
  \<open>events/store/sqlite.py\<close>: the durable event store, against the in-memory one.  A table
  is the list of its rows with their ids, oldest id first.  Times are rationals as
  elsewhere: all stamps are UTC, so the order of their ISO texts, which the queries
  compare, is the order of time.  Rows that tie in an \<open>ORDER BY\<close> come in any order in
  SQL and in that of their ids here; no theorem depends on it.
\<close>

section \<open>Rows\<close>

text \<open>\<open>json.dumps\<close> fails on a value that is not JSON; what it wrote reads back as it was.\<close>

fun jsonable :: "pyval \<Rightarrow> bool" where
  "jsonable (VModel c fs) = False"
| "jsonable (VList vs) = list_all jsonable vs"
| "jsonable (VDict fs) = list_all (\<lambda>kv. jsonable (snd kv)) fs"
| "jsonable v = True"

record event_row =
  er_id :: nat
  er_event :: runtime_event

record sqlite_events =
  sq_rows :: "event_row list"
  sq_next_id :: nat
  sq_max_rows :: int
  sq_ttl :: "rat option"
  sq_pruning :: bool
  sq_closed :: bool

definition sqlite_events_init :: "int \<Rightarrow> rat option \<Rightarrow> sqlite_events" where
  "sqlite_events_init n ttl = \<lparr> sq_rows = [], sq_next_id = 1, sq_max_rows = n, sq_ttl = ttl,
     sq_pruning = False, sq_closed = False \<rparr>"

definition on_conn :: "(sqlite_events, exn, 'a) eff \<Rightarrow> (sqlite_events, exn, 'a) eff" where
  "on_conn m s = (if sq_closed s then (Inl (Exn (PyOther ''ProgrammingError'') ''closed database''), s) else m s)"

definition events_in :: "sqlite_events \<Rightarrow> runtime_event list" where
  "events_in s = map er_event (sq_rows s)"

section \<open>Operations\<close>

definition sql_insert :: "runtime_event \<Rightarrow> (sqlite_events, exn, unit) eff" where
  "sql_insert e = on_conn (\<lambda>s.
    if jsonable (VDict (payload e))
    then (Inr (), s\<lparr>sq_rows := sq_rows s @ [\<lparr> er_id = sq_next_id s, er_event = e \<rparr>], sq_next_id := sq_next_id s + 1\<rparr>)
    else (Inl (Exn PyTypeError ''not JSON serializable''), s))"

text \<open>\<open>LIMIT\<close>: a negative bound is none.\<close>

definition sql_limit :: "int \<Rightarrow> 'a list \<Rightarrow> 'a list" where
  "sql_limit n xs = (if n < 0 then xs else take (nat n) xs)"

definition sql_where ::
  "rat option \<Rightarrow> rat option \<Rightarrow> string option \<Rightarrow> event_type list option \<Rightarrow> runtime_event \<Rightarrow> bool" where
  "sql_where since until tid types e =
    ((case since of None \<Rightarrow> True | Some t \<Rightarrow> timestamp e \<ge> t)
     \<and> (case until of None \<Rightarrow> True | Some t \<Rightarrow> timestamp e \<le> t)
     \<and> (case tid of None \<Rightarrow> True | Some t \<Rightarrow> ev_trace_id e = t)
     \<and> (case types of Some (t # ts) \<Rightarrow> event_type e \<in> set (t # ts) | _ \<Rightarrow> True))"

definition sql_query ::
  "rat option \<Rightarrow> rat option \<Rightarrow> string option \<Rightarrow> event_type list option \<Rightarrow> int
    \<Rightarrow> (sqlite_events, exn, runtime_event list) eff" where
  "sql_query since until tid types limit = on_conn (gets (\<lambda>s.
    sql_limit limit (sort_key (\<lambda>e. - timestamp e) (filter (sql_where since until tid types) (events_in s)))))"

definition traces_in :: "runtime_event list \<Rightarrow> string set" where
  "traces_in es = ev_trace_id ` set es"

text \<open>
  The recursive query: a queue of traces, each taken once, each adding the traces of
  the events that name it as their parent, unless they are known (\<open>UNION\<close>).
\<close>

definition news :: "runtime_event list \<Rightarrow> string list \<Rightarrow> string \<Rightarrow> string list" where
  "news es known t = remdups (filter (\<lambda>c. c \<notin> set known) (children_in es t))"

lemma set_news: "set (news es known t) = set (children_in es t) - set known"
  by (auto simp: news_def)

function descendants :: "runtime_event list \<Rightarrow> string list \<Rightarrow> string list \<Rightarrow> string list" where
  "descendants es known [] = known"
| "descendants es known (t # q) = descendants es (known @ news es known t) (q @ news es known t)"
  by pat_completeness auto
termination
proof (relation "(\<lambda>(es, known, q). card (traces_in es - set known)) <*mlex*> measure (\<lambda>(es, known, q). length q)",
    goal_cases)
  case (2 es known t q)
  show ?case
  proof (cases "news es known t = []")
    case True
    then show ?thesis by (simp add: mlex_leq)
  next
    case False
    then obtain c where c: "c \<in> set (news es known t)" by (cases "news es known t") auto
    then have "c \<in> traces_in es - set known" by (auto simp: set_news children_in_def traces_in_def)
    then have "traces_in es - set (known @ news es known t) \<subset> traces_in es - set known" using c by auto
    then have "card (traces_in es - set (known @ news es known t)) < card (traces_in es - set known)"
      by (intro psubset_card_mono) (auto simp: traces_in_def)
    then show ?thesis by (simp add: mlex_less)
  qed
qed (simp add: wf_mlex)

definition sql_tree :: "string \<Rightarrow> (sqlite_events, exn, runtime_event list) eff" where
  "sql_tree tid = on_conn (gets (\<lambda>s.
    sort_key timestamp (filter (\<lambda>e. ev_trace_id e \<in> set (descendants (events_in s) [tid] [tid])) (events_in s))))"

definition sql_list_traces :: "rat option \<Rightarrow> int \<Rightarrow> int \<Rightarrow> (sqlite_events, exn, string list) eff" where
  "sql_list_traces since limit offset = on_conn (gets (\<lambda>s.
    map fst (sql_limit limit (drop (nat offset) (sort_key (\<lambda>g. - snd g) (trace_groups since (events_in s)))))))"

definition sql_count_traces :: "rat option \<Rightarrow> (sqlite_events, exn, nat) eff" where
  "sql_count_traces since = on_conn (gets (\<lambda>s.
    card (ev_trace_id ` set (filter (top_level_since since) (events_in s)))))"

text \<open>One pass of the retention task: first by age, then the oldest beyond the cap.\<close>

definition sql_prune :: "rat \<Rightarrow> (sqlite_events, exn, unit) eff" where
  "sql_prune tm = on_conn (modify (\<lambda>s.
    let rows = (case sq_ttl s of None \<Rightarrow> sq_rows s
                | Some ttl \<Rightarrow> filter (\<lambda>r. \<not> timestamp (er_event r) < tm - ttl) (sq_rows s));
        excess = int (length rows) - sq_max_rows s;
        doomed = map er_id (take (nat excess) (sort_key (\<lambda>r. timestamp (er_event r)) rows))
    in s\<lparr>sq_rows := (if excess > 0 then filter (\<lambda>r. er_id r \<notin> set doomed) rows else rows)\<rparr>))"

text \<open>
  The retention task: a pass at each of the moments it wakes up, its database errors
  logged and dropped, until it is cancelled.
\<close>

definition sqlite_error :: "exn \<Rightarrow> bool" where
  "sqlite_error e = (exn_cls e \<in> PyOther ` {''Error'', ''DatabaseError'', ''DataError'', ''OperationalError'', ''IntegrityError'',
     ''InternalError'', ''ProgrammingError'', ''NotSupportedError'', ''InterfaceError''})"

definition prune_pass :: "rat \<Rightarrow> (sqlite_events, exn, unit) eff" where
  "prune_pass tm s =
    (case sql_prune tm s of
       (Inl e, t) \<Rightarrow> (if sqlite_error e then Inr () else Inl e, t)
     | (Inr x, t) \<Rightarrow> (Inr x, t))"

fun prune_loop :: "rat list \<Rightarrow> (sqlite_events, exn, unit) eff" where
  "prune_loop [] = ret ()"
| "prune_loop (tm # tms) = bnd (prune_pass tm) (\<lambda>_. prune_loop tms)"

definition start_pruning :: "sqlite_events \<Rightarrow> sqlite_events" where
  "start_pruning s = s\<lparr>sq_pruning := True\<rparr>"

definition stop_pruning :: "sqlite_events \<Rightarrow> sqlite_events" where
  "stop_pruning s = s\<lparr>sq_pruning := False\<rparr>"

definition sql_close :: "sqlite_events \<Rightarrow> sqlite_events" where
  "sql_close s = (stop_pruning s)\<lparr>sq_closed := True\<rparr>"

section \<open>The recursive query\<close>

lemma descendants_reach:
  assumes "set q \<subseteq> set known" "\<And>x y. x \<in> set known - set q \<Longrightarrow> (x, y) \<in> parent_link es \<Longrightarrow> y \<in> set known"
  shows "set (descendants es known q) = (parent_link es)\<^sup>* `` set known"
  using assms
proof (induction es known q rule: descendants.induct)
  case (1 es known)
  have "(parent_link es)\<^sup>* `` set known \<subseteq> set known"
    by (rule Image_closed_trancl [THEN equalityD1]) (use 1(2) in auto)
  then show ?case by auto
next
  case (2 es known t q)
  let ?known = "known @ news es known t"
  have step: "set ?known = set known \<union> set (children_in es t)" by (auto simp: set_news)
  have "set (descendants es ?known (q @ news es known t)) = (parent_link es)\<^sup>* `` set ?known"
  proof (rule "2.IH")
    show "set (q @ news es known t) \<subseteq> set ?known" using 2(2) by auto
    show "y \<in> set ?known" if "x \<in> set ?known - set (q @ news es known t)" "(x, y) \<in> parent_link es" for x y
    proof (cases "x = t")
      case True
      then show ?thesis using that(2) by (auto simp: set_news parent_link_def)
    next
      case False
      then show ?thesis using that 2(3) [of x y] by auto
    qed
  qed
  moreover have "set (children_in es t) \<subseteq> parent_link es `` set known"
    using 2(2) by (auto simp: parent_link_def)
  then have "(parent_link es)\<^sup>* `` set (children_in es t) \<subseteq> (parent_link es)\<^sup>* `` set known"
    by (auto intro: converse_rtrancl_into_rtrancl)
  ultimately show ?case unfolding step by auto
qed

section \<open>The durable store keeps the contract\<close>

text \<open>The coroutines of the class: each holds the lock and hands its work to a thread.\<close>

definition sqlite_event_ops :: "sqlite_events event_ops" where
  "sqlite_event_ops = \<lparr> eo_append = (\<lambda>tm. sql_insert), eo_query = sql_query, eo_tree = sql_tree,
     eo_list_traces = sql_list_traces, eo_count_traces = sql_count_traces \<rparr>"

definition events_good :: "sqlite_events \<Rightarrow> bool" where
  "events_good s = (\<not> sq_closed s \<and> sorted_wrt (<) (map timestamp (events_in s)))"

definition events_room :: "sqlite_events \<Rightarrow> runtime_event list \<Rightarrow> bool" where
  "events_room s es =
    (list_all (\<lambda>e. jsonable (VDict (payload e))) es \<and> sorted_wrt (<) (map timestamp (events_in s @ es)))"

lemma sql_where_matches: "types \<noteq> Some [] \<Longrightarrow> sql_where since until tid types = event_matches since until tid types"
  by (intro ext) (auto simp: sql_where_def event_matches_def split: option.split list.split)

interpretation durable: event_store_contract sqlite_event_ops events_good events_in events_room
proof (unfold_locales, goal_cases)
  case (1 s e es tm)
  then show ?case
    by (simp add: sqlite_event_ops_def events_good_def events_room_def sql_insert_def on_conn_def events_in_def sorted_wrt_append)
next
  case (2 s types limit since until tr)
  have "sort_key (\<lambda>e. - timestamp e) (filter P (events_in s)) = rev (filter P (events_in s))" for P
    using 2(1) by (intro sort_key_uminus_rev sorted_wrt_filter_map) (simp add: events_good_def)
  then show ?case using 2
    by (simp add: sqlite_event_ops_def sql_query_def on_conn_def events_good_def sql_where_matches history_query_def
        sql_limit_def rev_filter)
next
  case (3 s tid)
  have "set (descendants (events_in s) [tid] [tid]) = (parent_link (events_in s))\<^sup>* `` {tid}"
    using descendants_reach [of "[tid]" "[tid]" "events_in s"] by simp
  then show ?case using 3 by (simp add: sqlite_event_ops_def sql_tree_def on_conn_def events_good_def history_tree_def)
next
  case (4 s l k since)
  then show ?case
    by (simp add: sqlite_event_ops_def sql_list_traces_def on_conn_def events_good_def history_traces_def sql_limit_def
        take_map drop_map)
next
  case (5 s since)
  then show ?case by (simp add: sqlite_event_ops_def sql_count_traces_def on_conn_def events_good_def length_history_traces)
qed

section \<open>The two stores agree\<close>

definition recorded_in_memory :: "nat \<Rightarrow> (rat \<times> runtime_event) list \<Rightarrow> event_store" where
  "recorded_in_memory n ts = snd (append_events memory_event_ops ts (event_store_init n None))"

definition recorded_on_disk :: "int \<Rightarrow> rat option \<Rightarrow> (rat \<times> runtime_event) list \<Rightarrow> sqlite_events" where
  "recorded_on_disk m ttl ts = snd (append_events sqlite_event_ops ts (sqlite_events_init m ttl))"

lemma both_record:
  assumes "sorted_wrt (<) (map (\<lambda>x. timestamp (snd x)) ts)" "length ts \<le> n"
    and "list_all (\<lambda>x. jsonable (VDict (payload (snd x)))) ts"
  shows "memory_good (recorded_in_memory n ts)" "es_events (recorded_in_memory n ts) = map snd ts"
    and "events_good (recorded_on_disk m ttl ts)" "events_in (recorded_on_disk m ttl ts) = map snd ts"
proof -
  have m: "memory_good (event_store_init n None)" "memory_room (event_store_init n None) (map snd ts)"
    using assms by (simp_all add: memory_good_def memory_room_def event_store_init_def child_link_def children_of_def
        dget_or_def comp_def)
  show "memory_good (recorded_in_memory n ts)" "es_events (recorded_in_memory n ts) = map snd ts"
    using memory.append_events_law [OF m] by (auto simp: recorded_in_memory_def event_store_init_def)
  have d: "events_good (sqlite_events_init m ttl)" "events_room (sqlite_events_init m ttl) (map snd ts)"
    using assms by (simp_all add: events_good_def events_room_def sqlite_events_init_def events_in_def comp_def list.pred_map)
  show "events_good (recorded_on_disk m ttl ts)" "events_in (recorded_on_disk m ttl ts) = map snd ts"
    using durable.append_events_law [OF d] by (auto simp: recorded_on_disk_def sqlite_events_init_def events_in_def)
qed

text \<open>
  On events that JSON can carry, appended in the order of their times, the durable
  store answers what the in-memory one answers while neither has dropped anything: the
  same tree of a trace, the same page of top-level traces and count of them, and the
  same query, unless the limit is below one or the list of types is empty.
\<close>

theorem sqlite_store_agrees_with_memory:
  assumes "sorted_wrt (<) (map (\<lambda>x. timestamp (snd x)) ts)" "length ts \<le> n"
    and "list_all (\<lambda>x. jsonable (VDict (payload (snd x)))) ts"
  shows "let s = recorded_in_memory n ts; q = recorded_on_disk m ttl ts in
    fst (sql_tree tid q) = Inr (event_tree tid s)
    \<and> fst (sql_list_traces since (int l) (int k) q) = Inr (list_traces since (int l) (int k) s)
    \<and> fst (sql_count_traces since q) = Inr (count_traces since s)
    \<and> (types \<noteq> Some [] \<longrightarrow> 1 \<le> limit \<longrightarrow>
        fst (sql_query since until tr types limit q) = Inr (event_query since until tr types limit s))"
  using both_record(1,2) [OF assms] both_record(3,4) [OF assms, of m ttl]
    memory.tree_law [of "recorded_in_memory n ts" tid] durable.tree_law [of "recorded_on_disk m ttl ts" tid]
    memory.list_law [of "recorded_in_memory n ts" "int l" "int k" since]
    durable.list_law [of "recorded_on_disk m ttl ts" "int l" "int k" since]
    memory.count_law [of "recorded_in_memory n ts" since] durable.count_law [of "recorded_on_disk m ttl ts" since]
    memory.query_law [of "recorded_in_memory n ts" types limit since until tr]
    durable.query_law [of "recorded_on_disk m ttl ts" types limit since until tr]
  by (simp add: Let_def sqlite_event_ops_def memory_event_ops_def)

text \<open>A root, its child and a later root.\<close>

definition sample_event :: "rat \<Rightarrow> string \<Rightarrow> string option \<Rightarrow> runtime_event" where
  "sample_event t tr p = \<lparr> event_type = AGENT_COMPLETED, timestamp = t, ev_agent_name = ''a'', ev_task_id = None,
     ev_trace_id = tr, ev_parent_trace_id = p, payload = [(''tokens_used'', VInt 7)] \<rparr>"

definition sample_history :: "(rat \<times> runtime_event) list" where
  "sample_history = [(9, sample_event 1 ''r'' None), (9, sample_event 2 ''c'' (Some ''r'')), (9, sample_event 3 ''x'' None)]"

lemma sample_history_fits:
  "sorted_wrt (<) (map (\<lambda>x. timestamp (snd x)) sample_history)" "length sample_history \<le> 5"
  "list_all (\<lambda>x. jsonable (VDict (payload (snd x)))) sample_history"
  by (simp_all add: sample_history_def sample_event_def)


section \<open>Retention\<close>

definition rows_ok :: "sqlite_events \<Rightarrow> bool" where
  "rows_ok s = (distinct (map er_id (sq_rows s)) \<and> (\<forall>r \<in> set (sq_rows s). er_id r < sq_next_id s))"

lemma sql_insert_rows: "rows_ok s \<Longrightarrow> rows_ok (snd (sql_insert e s))"
  by (force simp: rows_ok_def sql_insert_def on_conn_def)

text \<open>Deleting the rows whose ids are the first of a sorted copy leaves the rest of the copy.\<close>

lemma delete_by_id:
  assumes "distinct (map f rows)" "mset srt = mset rows"
  shows "set (filter (\<lambda>r. f r \<notin> set (map f (take n srt))) rows) = set (drop n srt)"
    and "length (filter (\<lambda>r. f r \<notin> set (map f (take n srt))) rows) = length rows - n"
proof -
  let ?kept = "filter (\<lambda>r. f r \<notin> set (map f (take n srt))) rows"
  have same: "set srt = set rows" "length srt = length rows" using assms(2) by (metis mset_eq_setD, metis size_mset)
  have dist: "distinct srt" using assms by (metis distinct_map mset_eq_imp_distinct_iff)
  have inj: "inj_on f (set rows)" using assms(1) by (simp add: distinct_map)
  have "x \<in> set ?kept \<longleftrightarrow> x \<in> set (drop n srt)" for x
  proof (cases "x \<in> set rows")
    case True
    have "f x \<in> f ` set (take n srt) \<longleftrightarrow> x \<in> set (take n srt)"
      using inj True same(1) by (auto simp: inj_on_def dest: in_set_takeD)
    moreover have "x \<in> set (take n srt) \<longleftrightarrow> x \<notin> set (drop n srt)"
      using dist True same(1) by (metis Un_iff append_take_drop_id disjoint_iff distinct_append set_append)
    ultimately show ?thesis using True by simp
  next
    case False
    then show ?thesis using same(1) by (auto dest: in_set_dropD)
  qed
  then show kept: "set ?kept = set (drop n srt)" by blast
  have "distinct ?kept" "distinct (drop n srt)" using assms(1) dist by (simp_all add: distinct_map)
  then show "length ?kept = length rows - n" using kept same(2) by (metis distinct_card length_drop)
qed

lemma sorted_take_drop:
  assumes "sorted (map f xs)" "x \<in> set (take n xs)" "y \<in> set (drop n xs)"
  shows "f x \<le> f y"
proof -
  have "sorted (map f (take n xs @ drop n xs))" using assms(1) by simp
  then show ?thesis using assms(2,3) by (simp only: map_append sorted_append) auto
qed

text \<open>
  A pass of the retention task leaves at most \<open>max_rows\<close> rows, none older than the time
  to live, and of the rows young enough it drops only the oldest.
\<close>

theorem prune_keeps_the_newest:
  assumes "rows_ok s" "\<not> sq_closed s" "0 \<le> sq_max_rows s" "r \<in> set (sq_rows s)" "d \<in> set (sq_rows s)"
  shows "let u = snd (sql_prune tm s); young = (\<lambda>r. \<forall>ttl. sq_ttl s = Some ttl \<longrightarrow> tm - ttl \<le> timestamp (er_event r)) in
    rows_ok u \<and> int (length (sq_rows u)) \<le> sq_max_rows s
    \<and> (r \<in> set (sq_rows u) \<longrightarrow> young r)
    \<and> (r \<in> set (sq_rows u) \<longrightarrow> young d \<longrightarrow> d \<notin> set (sq_rows u) \<longrightarrow> timestamp (er_event d) \<le> timestamp (er_event r))"
proof -
  let ?time = "\<lambda>r. timestamp (er_event r)"
  let ?young = "\<lambda>r. \<forall>ttl. sq_ttl s = Some ttl \<longrightarrow> tm - ttl \<le> ?time r"
  define rows where "rows = (case sq_ttl s of None \<Rightarrow> sq_rows s | Some ttl \<Rightarrow> filter (\<lambda>r. \<not> ?time r < tm - ttl) (sq_rows s))"
  define excess where "excess = nat (int (length rows) - sq_max_rows s)"
  define kept where "kept = filter (\<lambda>r. er_id r \<notin> set (map er_id (take excess (sort_key ?time rows)))) rows"
  have rows: "set rows = {r \<in> set (sq_rows s). ?young r}" "distinct (map er_id rows)"
    using assms(1) by (auto simp: rows_def rows_ok_def not_less distinct_map_filter split: option.split)
  have u: "snd (sql_prune tm s) = s\<lparr>sq_rows := kept\<rparr>"
    using assms(2) by (auto simp: sql_prune_def on_conn_def kept_def rows_def excess_def Let_def)
  have kept: "set kept = set (drop excess (sort_key ?time rows))" "length kept = length rows - excess"
    unfolding kept_def using delete_by_id [OF rows(2), of "sort_key ?time rows" excess] by simp_all
  have len: "int (length kept) \<le> sq_max_rows s" using assms(3) by (simp add: kept(2) excess_def)
  have old: "?time d \<le> ?time r" if "r \<in> set kept" "?young d" "d \<notin> set kept"
  proof -
    have "d \<in> set (sort_key ?time rows)" using that(2) assms(5) rows(1) by simp
    then have "d \<in> set (take excess (sort_key ?time rows))"
      using that(3) kept(1) by (metis Un_iff append_take_drop_id set_append)
    then show ?thesis using that(1) kept(1) by (intro sorted_take_drop [of ?time "sort_key ?time rows" d excess r]) simp_all
  qed
  have "rows_ok (s\<lparr>sq_rows := kept\<rparr>)" "?young r" if "r \<in> set kept"
    using assms(1) rows that by (auto simp: rows_ok_def kept_def distinct_map_filter)
  moreover have "rows_ok (s\<lparr>sq_rows := kept\<rparr>)"
    using assms(1) rows by (auto simp: rows_ok_def kept_def distinct_map_filter)
  ultimately show ?thesis using len old by (simp add: u Let_def)
qed

text \<open>The task never ends on an error of the database, and each wake-up restores the cap.\<close>

lemma prune_pass_result:
  "fst (prune_pass tm s) = Inr () \<and> sq_closed (snd (prune_pass tm s)) = sq_closed s
    \<and> sq_max_rows (snd (prune_pass tm s)) = sq_max_rows s"
  by (auto simp: prune_pass_def sql_prune_def on_conn_def sqlite_error_def Let_def)

lemma prune_loop_result:
  "fst (prune_loop tms s) = Inr () \<and> sq_closed (snd (prune_loop tms s)) = sq_closed s
    \<and> sq_max_rows (snd (prune_loop tms s)) = sq_max_rows s"
proof (induction tms arbitrary: s)
  case (Cons tm tms)
  then show ?case using prune_pass_result [of tm s] by (simp add: bnd_def split: prod.split sum.split) (metis fst_conv snd_conv Inl_Inr_False)
qed simp

section \<open>Where the stores differ\<close>

text \<open>An empty list of types is no filter in SQL and matches nothing in memory; so with the bounds.\<close>

lemma stores_differ_on_no_types:
  assumes "\<not> sq_closed q" "events_in q = es_events s"
  shows "fst (sql_query None None None (Some []) (- 1) q) = Inr (sort_key (\<lambda>e. - timestamp e) (es_events s))"
    and "event_query None None None (Some []) limit s = []"
    and "fst (sql_query None None None None 0 q) = Inr []"
  using assms
  by (simp_all add: sql_query_def on_conn_def sql_limit_def sql_where_def event_query_spec event_matches_def)

text \<open>A payload JSON cannot hold makes an append raise, and a closed store raises on everything.\<close>

lemma sql_insert_errors:
  "\<not> sq_closed q \<Longrightarrow> \<not> jsonable (VDict (payload e)) \<Longrightarrow>
    sql_insert e q = (Inl (Exn PyTypeError ''not JSON serializable''), q)"
  "sql_insert e (sql_close q) = (Inl (Exn (PyOther ''ProgrammingError'') ''closed database''), sql_close q)"
  by (simp_all add: sql_insert_def on_conn_def sql_close_def stop_pruning_def)


section \<open>The history tab\<close>

text \<open>
  C32. Asking the runs page of either store for enough pages lists every top-level run
  exactly once, the run with the latest event first, with the same rows from both; and
  the total on any page is the number of those runs.
\<close>

theorem history_lists_every_run_once:
  assumes "sorted_wrt (<) (map (\<lambda>x. timestamp (snd x)) ts)" "length ts \<le> n"
    and "list_all (\<lambda>x. jsonable (VDict (payload (snd x)))) ts"
    and "1 \<le> l" "l \<le> 500" "card (ev_trace_id ` {e \<in> snd ` set ts. ev_parent_trace_id e = None}) \<le> pages * nat l"
  shows "let s = recorded_in_memory n ts; q = recorded_on_disk m ttl ts; es = map snd ts in
    \<exists>rows. history_pages memory_event_ops l pages 0 s = (Inr rows, s) \<and> history_pages sqlite_event_ops l pages 0 q = (Inr rows, q)
      \<and> distinct (map su_trace_id rows)
      \<and> su_trace_id ` set rows = ev_trace_id ` {e \<in> set es. ev_parent_trace_id e = None}
      \<and> sorted_wrt (\<lambda>t u. latest_of es u \<le> latest_of es t) (map su_trace_id rows)
      \<and> (\<forall>k. \<exists>page. fst (list_runs sqlite_event_ops l (int k) None q) = Inr (page, length rows, l, int k))"
proof -
  let ?es = "map snd ts"
  note held = both_record(1,2) [OF assms(1-3)] both_record(3,4) [OF assms(1-3), of m ttl]
  have found: "set (history_traces None ?es) = ev_trace_id ` {e \<in> set ?es. ev_parent_trace_id e = None}"
    by (auto simp: set_history_traces top_level_since_def)
  have "length (history_traces None ?es) \<le> pages * nat l"
    using assms(6) found by (simp add: distinct_card [symmetric])
  then obtain rows where rows: "history_pages sqlite_event_ops l pages 0 (recorded_on_disk m ttl ts) = (Inr rows, recorded_on_disk m ttl ts)"
    "map su_trace_id rows = history_traces None ?es"
    using durable.pages_list_every_run [OF held(3) assms(4,5)] held(4) by auto
  have "history_pages memory_event_ops l pages 0 (recorded_in_memory n ts) = (Inr rows, recorded_in_memory n ts)"
    using memory.history_pages_reads [OF held(1), of l pages 0] durable.history_pages_reads [OF held(3), of l pages 0] rows(1)
    unfolding held by (auto simp: reads_as_def)
  moreover have "\<exists>page. fst (list_runs sqlite_event_ops l (int k) None (recorded_on_disk m ttl ts)) = Inr (page, length rows, l, int k)" for k
    using durable.page_total [OF held(3) assms(4,5), of "int k"] held(4) rows(2) by (auto simp: length_map [of su_trace_id rows, symmetric])
  ultimately show ?thesis
    using rows history_traces_newest_first [of ?es] found by (auto simp: Let_def set_map [symmetric] simp del: set_map)
qed

lemma history_lists_every_run_once_witness:
  "\<exists>rows. history_pages sqlite_event_ops 1 2 0 (recorded_on_disk 5 None sample_history)
      = (Inr rows, recorded_on_disk 5 None sample_history)
    \<and> su_trace_id ` set rows = {''r'', ''x''}"
proof -
  have roots: "{e \<in> snd ` set sample_history. ev_parent_trace_id e = None} = {sample_event 1 ''r'' None, sample_event 3 ''x'' None}"
    by (auto simp: sample_history_def sample_event_def)
  then have "card (ev_trace_id ` {e \<in> snd ` set sample_history. ev_parent_trace_id e = None}) \<le> 2 * nat 1"
    by (simp add: sample_event_def)
  from history_lists_every_run_once [OF sample_history_fits _ _ this, of 5 None] show ?thesis
    using roots by (auto simp: Let_def sample_event_def)
qed

end
