(* ===== verification/Group_Graph.thy ===== *)
theory Group_Graph
  imports Agent_Groups "HOL-Library.Multiset"
begin

text \<open>
  Correctness of the graph algorithms of \<open>groups/spec.py\<close>: the depth-first cycle
  check decides acyclicity, and Kahn's algorithm, in both of its forms, lists every
  node of an acyclic topology after all its predecessors.
\<close>

section \<open>Topological lists\<close>

text \<open>Each element's \<open>below\<close>-neighbours come before it.\<close>

inductive layered :: "('a \<Rightarrow> 'a set) \<Rightarrow> 'a list \<Rightarrow> bool" for below where
  layered_Nil: "layered below []"
| layered_snoc: "layered below xs \<Longrightarrow> n \<notin> set xs \<Longrightarrow> below n \<subseteq> set xs \<Longrightarrow> layered below (xs @ [n])"

lemma layered_append:
  assumes "layered below xs" "distinct ys" "set ys \<inter> set xs = {}" "\<forall>y \<in> set ys. below y \<subseteq> set xs"
  shows "layered below (xs @ ys)"
  using assms(2-)
proof (induction ys rule: rev_induct)
  case (snoc y ys)
  then have "layered below (xs @ ys)" by simp
  moreover have "y \<notin> set (xs @ ys)" "below y \<subseteq> set (xs @ ys)" using snoc.prems by auto
  ultimately show ?case using layered_snoc [of below "xs @ ys" y] by simp
qed (simp add: assms(1))

lemma layered_distinct: "layered below xs \<Longrightarrow> distinct xs"
  by (induction rule: layered.induct) auto

lemma layered_below:
  "layered below xs \<Longrightarrow> s \<in> set xs \<Longrightarrow> t \<in> below s \<Longrightarrow> t \<in> set xs \<and> index_of t xs < index_of s xs"
proof (induction rule: layered.induct)
  case (layered_snoc xs n)
  show ?case
  proof (cases "s = n")
    case True
    then have "t \<in> set xs" using layered_snoc by blast
    moreover have "index_of t xs < length xs" using calculation by simp
    ultimately show ?thesis using True layered_snoc by (simp add: index_of_append)
  next
    case False
    then show ?thesis using layered_snoc by (auto simp: index_of_append)
  qed
qed simp

lemma layered_acyclic:
  assumes "layered below xs"
  shows "acyclic {(s, t). s \<in> set xs \<and> t \<in> below s}"
proof -
  have "{(s, t). s \<in> set xs \<and> t \<in> below s}\<inverse> \<subseteq> measure (\<lambda>x. index_of x xs)"
    using layered_below [OF assms] by auto
  then have "acyclic ({(s, t). s \<in> set xs \<and> t \<in> below s}\<inverse>)"
    using wf_acyclic wf_measure wf_subset by metis
  then show ?thesis by (simp add: acyclic_converse)
qed

section \<open>The topology as a relation\<close>

definition edge_rel :: "group \<Rightarrow> (agent \<times> agent) set" where
  "edge_rel g = {(s, t). s \<in> set (group_agents g) \<and> t \<in> set (targets_of g s)}"

definition preds :: "group \<Rightarrow> agent \<Rightarrow> agent set" where
  "preds g t = {s \<in> set (group_agents g). t \<in> set (targets_of g s)}"

lemma distinct_agents: "dict_ok (topology g) \<Longrightarrow> distinct (group_agents g)"
  by (simp add: dict_ok_def group_agents_def dkeys_def)

lemma dangling_Nil_iff:
  "dangling g = [] \<longleftrightarrow> (\<forall>n \<in> set (group_agents g). set (targets_of g n) \<subseteq> set (group_agents g))"
  by (auto simp: dangling_def filter_empty_conv)

lemma finite_edge_rel [simp]: "finite (edge_rel g)"
proof (rule finite_subset)
  show "edge_rel g \<subseteq> (SIGMA s : set (group_agents g). set (targets_of g s))"
    by (auto simp: edge_rel_def)
qed simp

section \<open>The cycle check\<close>

lemma visit_white: "set (snd (visit f ns W G)) \<subseteq> set W"
proof (induction f ns W G rule: visit.induct)
  case (2 f node rest white gray)
  obtain b w where v: "visit f (f node) (removeAll node white) (node # gray) = (b, w)" by fastforce
  consider "node \<in> set gray" | "node \<notin> set gray" "node \<notin> set white"
    | "node \<notin> set gray" "node \<in> set white" by blast
  then show ?case
  proof cases
    case 3
    have "set w \<subseteq> set white" using "2.IH"(2) 3 v by auto
    moreover have "\<not> b \<Longrightarrow> set (snd (visit f rest w gray)) \<subseteq> set w"
      using "2.IH"(3) [OF _ _ v [symmetric]] 3 by simp
    ultimately show ?thesis using 3 v by (cases b) auto
  qed (use "2.IH"(1) in auto)
qed simp

lemma visit_sound:
  assumes "visit f ns W G = (True, W')" "set W \<subseteq> N"
    and "\<forall>g \<in> set G. \<forall>n \<in> set ns. (g, n) \<in> {(s, t). s \<in> N \<and> t \<in> set (f s)}\<^sup>+"
  shows "\<exists>x. (x, x) \<in> {(s, t). s \<in> N \<and> t \<in> set (f s)}\<^sup>+"
  using assms
proof (induction f ns W G arbitrary: W' rule: visit.induct)
  case (2 f node rest white gray)
  let ?E = "{(s, t). s \<in> N \<and> t \<in> set (f s)}"
  consider "node \<in> set gray" | "node \<notin> set gray" "node \<notin> set white"
    | "node \<notin> set gray" "node \<in> set white" by blast
  then show ?case
  proof cases
    case 1
    then show ?thesis using 2(6) by auto
  next
    case 2
    then show ?thesis using "2.IH"(1) "2.prems" by simp
  next
    case 3
    obtain b w' where v: "visit f (f node) (removeAll node white) (node # gray) = (b, w')" by fastforce
    have step: "(node, t) \<in> ?E\<^sup>+" if "t \<in> set (f node)" for t
      using that 3 "2.prems"(2) by auto
    show ?thesis
    proof (cases b)
      case True
      have "\<forall>g \<in> set (node # gray). \<forall>n \<in> set (f node). (g, n) \<in> ?E\<^sup>+"
        using step "2.prems"(3) by (auto intro: trancl_trans)
      then show ?thesis using "2.IH"(2) [of w'] 3 v True "2.prems"(2) by auto
    next
      case False
      have "set w' \<subseteq> set (removeAll node white)"
        using visit_white [of f "f node" "removeAll node white" "node # gray"] v by simp
      then show ?thesis using "2.IH"(3) [OF _ _ v [symmetric]] 3 v False "2.prems" by auto
    qed
  qed
qed simp

lemma visit_complete:
  assumes "visit f ns W G = (False, W')" "set ns \<subseteq> N" "\<forall>n \<in> N. set (f n) \<subseteq> N"
    and "set W \<subseteq> N" "set G \<subseteq> N" "set G \<inter> set W = {}"
    and "layered (\<lambda>n. set (f n)) xs" "set xs = N - set W - set G"
  shows "\<exists>ys. layered (\<lambda>n. set (f n)) ys \<and> set ys = N - set W' - set G
    \<and> set ns \<subseteq> set ys \<and> set W' \<subseteq> set W"
  using assms
proof (induction f ns W G arbitrary: W' xs rule: visit.induct)
  case (1 f white gray)
  then show ?case by auto
next
  case (2 f node rest white gray)
  show ?case
  proof (cases "node \<in> set white")
    case False
    then obtain ys where "layered (\<lambda>n. set (f n)) ys" "set ys = N - set W' - set gray"
      "set rest \<subseteq> set ys" "set W' \<subseteq> set white"
      using "2.IH"(1) [of W' xs] "2.prems" by (auto split: if_splits)
    then show ?thesis using False "2.prems" by (intro exI [of _ ys]) (auto split: if_splits)
  next
    case True
    then have ng: "node \<notin> set gray" using "2.prems"(6) by auto
    obtain b w where v: "visit f (f node) (removeAll node white) (node # gray) = (b, w)" by fastforce
    have nb: "\<not> b" and rest: "visit f rest w gray = (False, W')"
      using "2.prems"(1) True ng v by (auto split: bool.splits)
    obtain ys where ys: "layered (\<lambda>n. set (f n)) ys" "set ys = N - set w - set (node # gray)"
      "set (f node) \<subseteq> set ys" "set w \<subseteq> set (removeAll node white)"
    proof -
      have eq: "set xs = N - set (removeAll node white) - set (node # gray)"
        using True "2.prems"(8) by auto
      have "node \<in> N" using True "2.prems" by auto
      then have "\<exists>ys. layered (\<lambda>n. set (f n)) ys \<and> set ys = N - set w - set (node # gray)
          \<and> set (f node) \<subseteq> set ys \<and> set w \<subseteq> set (removeAll node white)"
        using v nb True "2.prems" by (intro "2.IH"(2) [OF ng _ _ _ _ _ _ _ _ eq]) auto
      then show ?thesis using that by blast
    qed
    have zs: "layered (\<lambda>n. set (f n)) (ys @ [node])" using ys by (intro layered_snoc) auto
    have "set (ys @ [node]) = N - set w - set gray" using ys True ng "2.prems" by auto
    then have "\<exists>us. layered (\<lambda>n. set (f n)) us \<and> set us = N - set W' - set gray
        \<and> set rest \<subseteq> set us \<and> set W' \<subseteq> set w"
      using nb rest zs True ys(4) "2.prems"
      by (intro "2.IH"(3) [OF ng _ v [symmetric], of W' "ys @ [node]"]) auto
    then obtain us where us: "layered (\<lambda>n. set (f n)) us" "set us = N - set W' - set gray"
      "set rest \<subseteq> set us" "set W' \<subseteq> set w" by blast
    moreover have "node \<in> set us" "set W' \<subseteq> set white"
      using us(2,4) ys(4) ng "2.prems"(2) by auto
    ultimately show ?thesis by (intro exI [of _ us]) simp
  qed
qed

lemma visit_decides:
  assumes "\<forall>n \<in> N. set (f n) \<subseteq> N" "set ns = N" "set W = N"
  shows "fst (visit f ns W []) \<longleftrightarrow> \<not> acyclic {(s, t). s \<in> N \<and> t \<in> set (f s)}"
proof (cases "visit f ns W []")
  case (Pair b w)
  show ?thesis
  proof (cases b)
    case True
    then show ?thesis using Pair visit_sound [of f ns W "[]" w N] assms by (auto simp: acyclic_def)
  next
    case False
    obtain ys where ys: "layered (\<lambda>n. set (f n)) ys" "set ys = N - set w" "set ns \<subseteq> set ys"
      using visit_complete [of f ns W "[]" w N "[]"] Pair False assms layered_Nil by fastforce
    then have "set ys = N" using assms by auto
    then show ?thesis using layered_acyclic [OF ys(1)] Pair False by simp
  qed
qed

section \<open>In-degrees\<close>

definition inn :: "('a \<Rightarrow> 'a list) \<Rightarrow> 'a set \<Rightarrow> 'a \<Rightarrow> nat" where
  "inn f S t = (\<Sum>s \<in> S. count_list (f s) t)"

lemma inn_concat: "distinct S \<Longrightarrow> count_list (concat (map f S)) t = inn f (set S) t"
  by (induction S) (auto simp: inn_def)

lemma inn_split: "finite S \<Longrightarrow> L \<subseteq> S \<Longrightarrow> inn f S t = inn f L t + inn f (S - L) t"
  unfolding inn_def by (metis add.commute sum.subset_diff)

lemma inn_0_iff: "finite S \<Longrightarrow> inn f S t = 0 \<longleftrightarrow> (\<forall>s \<in> S. t \<notin> set (f s))"
  by (auto simp: inn_def count_list_0_iff)

lemma count_fold:
  "dget_or (fold (\<lambda>t d. dset t (dget_or d t 0 + 1) d) ts d) x 0
     = dget_or d x 0 + int (count_list ts x)"
  by (induction ts arbitrary: d) (auto simp: dget_or_def)

lemma keys_fold:
  "set ts \<subseteq> fst ` set d \<Longrightarrow> map fst (fold (\<lambda>t d. dset t (dget_or d t 0 + 1) d) ts d) = map fst d"
proof (induction ts arbitrary: d)
  case (Cons t ts)
  have "set ts \<subseteq> fst ` set (dset t (dget_or d t 0 + 1) d)" using Cons.prems by auto
  then show ?case
    unfolding list.simps fold_Cons comp_apply using Cons.IH Cons.prems by (auto simp: map_fst_dset)
qed simp

lemma indegrees_fold:
  "indegrees g = fold (\<lambda>t d. dset t (dget_or d t 0 + 1) d)
     (concat (map (targets_of g) (group_agents g))) (map (\<lambda>a. (a, 0)) (group_agents g))"
proof -
  have "fold (\<lambda>s d. fold F (f s) d) xs e = fold F (concat (map f xs)) e" for F f xs and e :: 'e
    by (induction xs arbitrary: e) auto
  then show ?thesis by (simp add: indegrees_def)
qed

lemma dget_or_zeros: "dget_or (map (\<lambda>a. (a, 0::int)) xs) x 0 = 0"
  by (induction xs) (auto simp: dget_or_def)

lemma indegrees_count:
  "dict_ok (topology g) \<Longrightarrow>
     dget_or (indegrees g) t 0 = int (inn (targets_of g) (set (group_agents g)) t)"
  by (simp add: indegrees_fold count_fold dget_or_zeros inn_concat distinct_agents)

lemma indegrees_keys: "dangling g = [] \<Longrightarrow> map fst (indegrees g) = group_agents g"
  unfolding indegrees_fold dangling_Nil_iff
  by (subst keys_fold) (auto simp: comp_def image_image)

section \<open>Kahn's algorithm\<close>

lemma release_counts:
  "release ts d = (d', r) \<Longrightarrow> dget_or d' x 0 = dget_or d x 0 - int (count_list ts x)"
  by (induction ts arbitrary: d d' r)
    (auto simp: Let_def dget_or_def split: prod.splits if_splits option.splits)

lemma release_ready:
  assumes "release ts d = (d', r)" "\<forall>x. int (count_list ts x) \<le> dget_or d x 0"
  shows "distinct r \<and> set r = {x \<in> set ts. dget_or d x 0 = int (count_list ts x)}"
  using assms
proof (induction ts arbitrary: d d' r)
  case (Cons t ts)
  obtain e q where eq: "release ts (dset t (dget_or d t 0 - 1) d) = (e, q)" by fastforce
  have upd: "dget_or (dset t (dget_or d t 0 - 1) d) x 0 = (if x = t then dget_or d t 0 - 1 else dget_or d x 0)" for x
    by (simp add: dget_or_def)
  have "\<forall>x. int (count_list ts x) \<le> dget_or (dset t (dget_or d t 0 - 1) d) x 0"
  proof
    fix x show "int (count_list ts x) \<le> dget_or (dset t (dget_or d t 0 - 1) d) x 0"
      using Cons.prems(2) [rule_format, of x] by (auto simp: upd split: if_splits)
  qed
  from Cons.IH [OF eq this]
  have q: "distinct q" "set q = {x \<in> set ts. (if x = t then dget_or d t 0 - 1 else dget_or d x 0) = int (count_list ts x)}"
    by (simp_all add: upd)
  have t0: "dget_or d t 0 - 1 = 0 \<Longrightarrow> t \<notin> set ts"
    using Cons.prems(2) [rule_format, of t] by (auto simp: count_list_0_iff [symmetric])
  have t1: "dget_or d t 0 - 1 = int (count_list ts t) \<Longrightarrow> dget_or d t 0 - 1 \<noteq> 0 \<Longrightarrow> t \<in> set ts"
    by (metis count_list_0_iff of_nat_0)
  have r: "r = (if dget_or d t 0 - 1 = 0 then t # q else q)"
    using Cons.prems(1) eq by (simp add: Let_def split: if_splits)
  show ?case
  proof (cases "dget_or d t 0 - 1 = 0")
    case True
    then show ?thesis using q r t0 by (auto simp: count_list_0_iff)
  next
    case False
    have "x \<in> set q \<longleftrightarrow> x \<in> set (t # ts) \<and> dget_or d x 0 = int (count_list (t # ts) x)" for x
    proof (cases "x = t")
      case True
      have "t \<in> set ts \<or> dget_or d t 0 - 1 \<noteq> int (count_list ts t)" using t1 False by blast
      moreover have "dget_or d t 0 = int (count_list (t # ts) t) \<longleftrightarrow> dget_or d t 0 - 1 = int (count_list ts t)"
        by simp linarith
      ultimately show ?thesis unfolding True q(2) mem_Collect_eq by force
    qed (simp add: q(2))
    then have "set q = {x \<in> set (t # ts). dget_or d x 0 = int (count_list (t # ts) x)}" by blast
    moreover have "r = q" using r False by simp
    ultimately show ?thesis using q(1) by metis
  qed
qed simp

text \<open>
  What every pass keeps: the nodes listed so far and those ready are exactly the
  nodes whose predecessors have all been listed.
\<close>

definition kahn_inv ::
  "group \<Rightarrow> agent list \<Rightarrow> (agent, int) dict \<Rightarrow> agent list \<Rightarrow> bool" where
  "kahn_inv g listed indeg ready \<longleftrightarrow>
     distinct (listed @ ready) \<and> set (listed @ ready) \<subseteq> set (group_agents g)
   \<and> (\<forall>t. dget_or indeg t 0 = int (inn (targets_of g) (set (group_agents g) - set listed) t))
   \<and> (\<forall>t \<in> set (group_agents g). preds g t \<subseteq> set listed \<longleftrightarrow> t \<in> set (listed @ ready))
   \<and> layered (preds g) listed"

lemma preds_subset_iff:
  "preds g t \<subseteq> S \<longleftrightarrow> inn (targets_of g) (set (group_agents g) - S) t = 0"
  by (subst inn_0_iff) (auto simp: preds_def)

lemma kahn_inv_step:
  assumes inv: "kahn_inv g D d (L @ Q)" and closed: "dangling g = []"
    and rel: "release (concat (map (targets_of g) L)) d = (d', r)" and perm: "mset q = mset (Q @ r)"
  shows "kahn_inv g (D @ L) d' q"
proof -
  let ?N = "set (group_agents g)" and ?f = "targets_of g"
  let ?ts = "concat (map ?f L)"
  have dis: "distinct (D @ L @ Q)" and sub: "set (D @ L @ Q) \<subseteq> ?N"
    and deg: "\<And>t. dget_or d t 0 = int (inn ?f (?N - set D) t)"
    and rdy: "\<And>t. t \<in> ?N \<Longrightarrow> preds g t \<subseteq> set D \<longleftrightarrow> t \<in> set (D @ L @ Q)"
    and lay: "layered (preds g) D"
    using inv by (auto simp: kahn_inv_def)
  have cnt: "count_list ?ts t = inn ?f (set L) t" for t using dis by (simp add: inn_concat)
  have LD: "set L \<subseteq> ?N - set D" using dis sub by auto
  have split: "inn ?f (?N - set D) t = inn ?f (set L) t + inn ?f (?N - set (D @ L)) t" for t
    using inn_split [OF _ LD, of ?f t] by (simp add: Diff_Un [symmetric] Diff_eq Int_assoc)
  have deg': "dget_or d' t 0 = int (inn ?f (?N - set (D @ L)) t)" for t
    using release_counts [OF rel, of t] deg cnt split by simp
  have rd: "distinct r" and rs: "set r = {t \<in> set ?ts. inn ?f (?N - set (D @ L)) t = 0}"
    using release_ready [OF rel] deg cnt split by auto
  have old: "t \<notin> set r" if "t \<in> set (D @ L @ Q)" for t
  proof -
    have "inn ?f (?N - set D) t = 0" using rdy that sub preds_subset_iff by blast
    then show ?thesis using split [of t] cnt [of t] rs by (auto simp: count_list_0_iff)
  qed
  have tsN: "set ?ts \<subseteq> ?N" using closed LD by (auto simp: dangling_Nil_iff)
  have new: "preds g t \<subseteq> set (D @ L) \<longleftrightarrow> t \<in> set (D @ L @ Q @ r)" if t: "t \<in> ?N" for t
  proof -
    have "inn ?f (?N - set (D @ L)) t = 0 \<longleftrightarrow> inn ?f (?N - set D) t = 0 \<or> t \<in> set r"
      using split [of t] cnt [of t] rs by (auto simp: count_list_0_iff)
    then show ?thesis using rdy [OF t] by (auto simp: preds_subset_iff)
  qed
  have qs: "set q = set Q \<union> set r" and qd: "distinct q \<longleftrightarrow> distinct (Q @ r)"
    using mset_eq_setD [OF perm] mset_eq_imp_distinct_iff [OF perm] by auto
  have "distinct ((D @ L) @ q)" using dis rd old qs qd by auto
  moreover have "set ((D @ L) @ q) \<subseteq> ?N" using sub rs tsN qs by auto
  moreover have "layered (preds g) (D @ L)"
    using dis sub rdy by (intro layered_append [OF lay]) auto
  ultimately show ?thesis using deg' new qs by (auto simp: kahn_inv_def)
qed

lemma kahn_inv_start:
  assumes "dict_ok (topology g)"
  shows "kahn_inv g [] (indegrees g) (filter (\<lambda>a. dget_or (indegrees g) a 0 = 0) (group_agents g))"
  using assms preds_subset_iff [of g _ "{}"]
  by (auto simp: kahn_inv_def indegrees_count distinct_agents intro: layered_Nil)

text \<open>With nothing ready, an acyclic topology has been listed completely.\<close>

lemma kahn_inv_done:
  assumes "kahn_inv g D d []" "acyclic (edge_rel g)"
  shows "distinct D \<and> set D = set (group_agents g) \<and> layered (preds g) D"
proof -
  have "wf (edge_rel g)" using assms(2) by (simp add: finite_acyclic_wf)
  have "set (group_agents g) \<subseteq> set D"
  proof (rule ccontr)
    assume "\<not> set (group_agents g) \<subseteq> set D"
    then obtain a where "a \<in> set (group_agents g) - set D" by auto
    with \<open>wf (edge_rel g)\<close> obtain z where z: "z \<in> set (group_agents g) - set D"
      "\<And>y. (y, z) \<in> edge_rel g \<Longrightarrow> y \<notin> set (group_agents g) - set D"
      by (rule wfE_min) blast
    then have "preds g z \<subseteq> set D" by (auto simp: preds_def edge_rel_def)
    then show False using z(1) assms(1) by (auto simp: kahn_inv_def)
  qed
  then show ?thesis using assms(1) by (auto simp: kahn_inv_def)
qed

end
