(* ===== verification/Group_Topology.thy ===== *)
theory Group_Topology
  imports Group_Graph
begin

text \<open>
  What \<open>AgentGroup\<close> promises once constructed: construction accepts exactly the
  non-empty, closed, acyclic topologies with sound routing tables, the topological
  order and tiers exist and are determined by the dependencies, and a heterogeneous
  fan-out sends each item to exactly one handler.
\<close>

section \<open>Kahn's two loops\<close>

lemma kahn_loop_correct:
  assumes "kahn_inv g D d Q" "dangling g = []" "acyclic (edge_rel g)"
    and "kahn_loop (targets_of g) d Q D = order"
  shows "distinct order \<and> set order = set (group_agents g) \<and> layered (preds g) order"
  using assms
proof (induction "targets_of g" d Q D rule: kahn_loop.induct)
  case (1 indeg order)
  then show ?case using kahn_inv_done by simp
next
  case (2 indeg node queue D)
  obtain d' r where rel: "release (targets_of g node) indeg = (d', r)" by fastforce
  have "kahn_inv g (D @ [node]) d' (queue @ r)"
    by (rule kahn_inv_step [of g D indeg "[node]" queue]) (use 2 rel in simp_all)
  then show ?case using 2 rel by simp
qed

text \<open>Tier by tier, a tier is exactly the set of nodes that are ready, in declaration order.\<close>

definition ready_after :: "group \<Rightarrow> agent list \<Rightarrow> agent list" where
  "ready_after g listed =
    filter (\<lambda>t. t \<notin> set listed \<and> preds g t \<subseteq> set listed) (group_agents g)"

lemma sort_by_index:
  assumes "distinct N" "distinct r" "set r \<subseteq> set N"
  shows "sort_key (\<lambda>a. index_of a N) r = filter (\<lambda>a. a \<in> set r) N"
proof -
  let ?k = "\<lambda>a. index_of a N"
  have inj: "inj_on ?k (set N)" by (rule inj_onI) (metis nth_index_of)
  have "map ?k N = [0..<length N]"
    using assms(1)
  proof (induction N rule: rev_induct)
    case (snoc x N)
    have "map (\<lambda>a. index_of a (N @ [x])) N = map (\<lambda>a. index_of a N) N"
      by (rule map_cong) (simp_all add: index_of_append)
    moreover have "index_of x (N @ [x]) = length N" using snoc.prems by (simp add: index_of_append)
    ultimately show ?case using snoc by (simp del: map_eq_conv)
  qed simp
  then have "sorted (map ?k (filter (\<lambda>a. a \<in> set r) N))"
    by (metis sorted_filter sorted_upt)
  moreover have "sorted (map ?k (sort_key ?k r))" by simp
  moreover have inj': "inj_on ?k (set (sort_key ?k r) \<union> set (filter (\<lambda>a. a \<in> set r) N))"
    by (rule inj_on_subset [OF inj]) (use assms(3) in auto)
  moreover have "distinct (map ?k (sort_key ?k r))" "distinct (map ?k (filter (\<lambda>a. a \<in> set r) N))"
    using assms inj_on_subset [OF inj'] by (auto simp: distinct_map)
  moreover have "set (sort_key ?k r) = set (filter (\<lambda>a. a \<in> set r) N)" using assms(3) by auto
  ultimately show ?thesis by (metis map_sorted_distinct_set_unique)
qed

lemma kahn_inv_ready:
  assumes "kahn_inv g D d Q" "dict_ok (topology g)"
  shows "filter (\<lambda>a. a \<in> set Q) (group_agents g) = ready_after g D"
  using assms by (auto simp: kahn_inv_def ready_after_def intro!: filter_cong)

definition tiers_upto :: "group \<Rightarrow> agent list list \<Rightarrow> bool" where
  "tiers_upto g tiers \<longleftrightarrow>
     (\<forall>i < length tiers. tiers ! i \<noteq> [] \<and> tiers ! i = ready_after g (concat (take i tiers)))"

lemma tiers_upto_snoc:
  "tiers_upto g tiers \<Longrightarrow> L \<noteq> [] \<Longrightarrow> L = ready_after g (concat tiers) \<Longrightarrow> tiers_upto g (tiers @ [L])"
  by (auto simp: tiers_upto_def nth_append less_Suc_eq)

lemma tiers_loop_correct:
  assumes "kahn_inv g (concat tiers) d Q" "Q = ready_after g (concat tiers)"
    and "dangling g = []" "acyclic (edge_rel g)" "dict_ok (topology g)" "tiers_upto g tiers"
    and "tiers_loop (targets_of g) (group_agents g) d Q tiers = out"
  shows "distinct (concat out) \<and> set (concat out) = set (group_agents g) \<and> tiers_upto g out"
  using assms
proof (induction "targets_of g" "group_agents g" d Q tiers rule: tiers_loop.induct)
  case (1 indeg ready tiers)
  show ?case
  proof (cases "ready = []")
    case True
    then show ?thesis
      using 1(2-) kahn_inv_done [of g "concat tiers" indeg] by (simp add: tiers_loop.simps)
  next
    case False
    obtain d' r where rel: "release (concat (map (targets_of g) ready)) indeg = (d', r)" by fastforce
    let ?next = "sort_key (\<lambda>a. index_of a (group_agents g)) r"
    have inv: "kahn_inv g (concat tiers @ ready) d' ?next"
      by (rule kahn_inv_step [of g "concat tiers" indeg ready "[]"]) (use 1 rel in simp_all)
    have "distinct r" "set r \<subseteq> set (group_agents g)" using inv by (auto simp: kahn_inv_def)
    then have "?next = filter (\<lambda>a. a \<in> set ?next) (group_agents g)"
      using distinct_agents [OF 1(6)] sort_by_index [of "group_agents g" r] by (metis set_sort)
    also have "\<dots> = ready_after g (concat (tiers @ [ready]))"
      using kahn_inv_ready [OF inv 1(6)] by simp
    finally have rdy: "?next = ready_after g (concat (tiers @ [ready]))" .
    have "tiers_loop (targets_of g) (group_agents g) d' ?next (tiers @ [ready]) = out"
      using 1(8) False rel tiers_loop.simps [of "targets_of g" "group_agents g" indeg ready tiers]
      by simp
    moreover have "kahn_inv g (concat (tiers @ [ready])) d' ?next" using inv by simp
    ultimately show ?thesis
      using rdy 1(4-6) tiers_upto_snoc [OF 1(7) False 1(3)]
      by (intro 1(1) [OF False rel [symmetric]])
  qed
qed

section \<open>Entries and terminals\<close>

lemma targets_Nil_iff: "list_all (\<lambda>e. edge_to e = []) (outgoing_edges g s) \<longleftrightarrow> targets_of g s = []"
  by (auto simp: targets_of_def list_all_iff)

lemma entry_nodes_preds: "entry_nodes g = filter (\<lambda>a. preds g a = {}) (group_agents g)"
  by (auto simp: entry_nodes_def preds_def intro!: filter_cong)

lemma acyclic_minimal:
  assumes "acyclic r" "finite r" "S \<noteq> {}"
  shows "\<exists>z \<in> S. \<forall>y. (y, z) \<in> r \<longrightarrow> y \<notin> S"
proof -
  obtain a where "a \<in> S" using assms(3) by blast
  then show ?thesis using wfE_min [OF finite_acyclic_wf [OF assms(2,1)], of a S] by metis
qed

lemma agents_nonempty: "set (group_agents g) \<noteq> {} \<longleftrightarrow> topology g \<noteq> []"
  by (simp add: group_agents_def dkeys_def)

lemma has_entry:
  assumes "acyclic (edge_rel g)" "topology g \<noteq> []"
  shows "entry_nodes g \<noteq> []"
proof -
  have "\<exists>z \<in> set (group_agents g). \<forall>y. (y, z) \<in> edge_rel g \<longrightarrow> y \<notin> set (group_agents g)"
    by (rule acyclic_minimal) (use assms agents_nonempty in simp_all)
  then obtain z where "z \<in> set (group_agents g)" "\<forall>y. (y, z) \<in> edge_rel g \<longrightarrow> y \<notin> set (group_agents g)"
    by (elim bexE)
  then have "s \<notin> preds g z" for s
    unfolding preds_def edge_rel_def mem_Collect_eq prod.case by blast
  then have "preds g z = {}" by blast
  then have "z \<in> set (entry_nodes g)"
    using \<open>z \<in> set (group_agents g)\<close> by (simp add: entry_nodes_preds)
  then show ?thesis by auto
qed

lemma has_terminal:
  assumes "acyclic (edge_rel g)" "topology g \<noteq> []" "dangling g = []"
  shows "terminal_nodes g \<noteq> []"
proof -
  have ac: "acyclic ((edge_rel g)\<inverse>)" using assms(1) by (simp add: acyclic_converse)
  have fin: "finite ((edge_rel g)\<inverse>)" by simp
  have "\<exists>z \<in> set (group_agents g). \<forall>y. (y, z) \<in> (edge_rel g)\<inverse> \<longrightarrow> y \<notin> set (group_agents g)"
    by (rule acyclic_minimal [OF ac fin]) (use assms agents_nonempty in simp_all)
  then obtain z where z: "z \<in> set (group_agents g)"
    "\<forall>y. (y, z) \<in> (edge_rel g)\<inverse> \<longrightarrow> y \<notin> set (group_agents g)"
    by (elim bexE)
  have "t \<notin> set (targets_of g z)" for t
  proof
    assume "t \<in> set (targets_of g z)"
    then have "(z, t) \<in> edge_rel g" "t \<in> set (group_agents g)"
      using z(1) assms(3) by (auto simp: edge_rel_def dangling_Nil_iff)
    then show False using z(2) by simp
  qed
  then have "targets_of g z = []" by (meson last_in_set)
  then have "z \<in> set (terminal_nodes g)" using z(1) by (simp add: terminal_nodes_def targets_Nil_iff)
  then show ?thesis by auto
qed

lemma has_cycle_iff: "dangling g = [] \<Longrightarrow> has_cycle g \<longleftrightarrow> \<not> acyclic (edge_rel g)"
  unfolding has_cycle_def edge_rel_def
  by (rule visit_decides) (simp_all add: dangling_Nil_iff)

lemma group_init_Inr:
  "group_init C g = Inr h \<longleftrightarrow>
     h = g \<and> topology g \<noteq> [] \<and> dangling g = [] \<and> acyclic (edge_rel g)
   \<and> check_heterogeneous C g (group_agents g) = None"
  using has_entry [of g] has_terminal [of g] has_cycle_iff [of g]
  by (auto simp: group_init_def split: list.splits option.splits)

section \<open>Routing tables\<close>

lemma first_target_input_table:
  "first_target_input types as tb = Inr table \<Longrightarrow> dict_ok tb \<Longrightarrow>
     table = tb @ map (\<lambda>a. (the (input_type a), a)) as \<and> dict_ok table
   \<and> (\<forall>a \<in> set as. input_type a \<noteq> None)"
proof (induction types as tb rule: first_target_input.induct)
  case (2 types a as tb)
  obtain t where t: "input_type a = Some t" "dget tb t = None"
    using 2(2) by (auto split: option.splits)
  then have "dset t a tb = tb @ [(t, a)]" by (simp add: dset_fresh dget_None_iff [symmetric])
  then show ?case using 2 t by auto
qed simp

lemma related_members_False:
  assumes "\<not> related_members C ts" "t \<in> set ts" "u \<in> set ts" "issubclass_of C t u"
  shows "t = u"
  using assms by (induction ts) auto

lemma heterogeneous_table:
  assumes "heterogeneous_dispatch_for C g src = Inr (Some table)"
  obtains field types where "get_fan_out_field C (output_type src) = Inr (Some (field, types))"
    and "\<not> related_members C types" "dict_ok table"
    and "table = map (\<lambda>a. (the (input_type a), a)) (targets_of g src)"
    and "\<forall>a \<in> set (targets_of g src). \<exists>t \<in> set types. input_type a = Some t"
    and "\<forall>t \<in> set types. t \<in> fst ` set table"
proof -
  obtain field types where f: "get_fan_out_field C (output_type src) = Inr (Some (field, types))"
    and r: "routing_table C src (targets_of g src) types = Inr (Some table)"
    using assms by (auto simp: heterogeneous_dispatch_for_def split: sum.splits option.splits if_splits)
  have t: "first_target_input types (targets_of g src) [] = Inr table" "\<not> related_members C types"
    "\<forall>t \<in> set types. dhas table t"
    "\<forall>a \<in> set (targets_of g src). \<exists>t \<in> set types. input_type a = Some t"
    using r by (auto simp: routing_table_def split: sum.splits if_splits option.splits)
  show ?thesis
    by (rule that [OF f t(2)]) (use first_target_input_table [OF t(1)] t(3,4) in auto)
qed

lemma check_heterogeneous_None:
  "check_heterogeneous C g srcs = None \<longleftrightarrow>
     (\<forall>s \<in> set srcs. \<exists>t. heterogeneous_dispatch_for C g s = Inr t)"
  by (induction srcs) (auto split: sum.splits)

lemma fan_out_matches_error:
  "fan_out_matches m hs found = Inl e \<Longrightarrow> exn_cls e = SpecValidationError"
  by (induction m hs found rule: fan_out_matches.induct)
    (auto split: inner_hint.splits option.splits if_splits)

lemma first_target_input_error:
  "first_target_input types as tb = Inl e \<Longrightarrow> exn_cls e = SpecValidationError"
  by (induction types as tb rule: first_target_input.induct) (auto split: option.splits)

lemma heterogeneous_error:
  "heterogeneous_dispatch_for C g s = Inl e \<Longrightarrow> exn_cls e = SpecValidationError"
  unfolding heterogeneous_dispatch_for_def get_fan_out_field_def routing_table_def
  by (auto dest: fan_out_matches_error first_target_input_error
      split: sum.splits option.splits if_splits list.splits)

lemma check_heterogeneous_error:
  "check_heterogeneous C g srcs = Some e \<Longrightarrow> exn_cls e = SpecValidationError"
  by (induction srcs) (auto dest: heterogeneous_error split: sum.splits)

lemma zero_keys:
  "dict_ok d \<Longrightarrow> map fst (filter (\<lambda>p. snd p = (0::int)) d)
     = filter (\<lambda>a. dget_or d a 0 = 0) (map fst d)"
proof (induction d)
  case (Cons p d)
  obtain k v where p: "p = (k, v)" by fastforce
  have "filter (\<lambda>a. dget_or (p # d) a 0 = 0) (map fst d) = filter (\<lambda>a. dget_or d a 0 = 0) (map fst d)"
    using Cons.prems p by (intro filter_cong) (auto simp: dict_ok_def dget_or_def)
  then show ?case using Cons p by (auto simp: dict_ok_def dget_or_def)
qed simp

section \<open>Properties\<close>

text \<open>
  C11. Constructing a group succeeds exactly for a non-empty topology without
  dangling targets, without a cycle and with sound routing tables; the entry and
  terminal checks never fire.  Every failure is a specification error, and the
  cycle check gives the same answer whatever order it visits the nodes in.
\<close>

theorem group_construction_decides:
  "(group_init C g = Inr h \<longleftrightarrow>
      h = g \<and> topology g \<noteq> [] \<and> dangling g = [] \<and> acyclic (edge_rel g)
    \<and> (\<forall>src \<in> set (group_agents g). \<exists>t. heterogeneous_dispatch_for C g src = Inr t))
 \<and> (group_init C g = Inl e \<longrightarrow> isinstance e SpecValidationError
      \<and> e \<noteq> Exn TopologyError (g_name g @ '' has no entry node'')
      \<and> e \<noteq> Exn TopologyError (g_name g @ '' has no terminal node''))
 \<and> (dangling g = [] \<and> set ns = set (group_agents g) \<longrightarrow>
      (fst (visit (targets_of g) ns ns []) \<longleftrightarrow> \<not> acyclic (edge_rel g)))"
proof (intro conjI impI)
  show "group_init C g = Inr h \<longleftrightarrow>
      h = g \<and> topology g \<noteq> [] \<and> dangling g = [] \<and> acyclic (edge_rel g)
    \<and> (\<forall>src \<in> set (group_agents g). \<exists>t. heterogeneous_dispatch_for C g src = Inr t)"
    by (simp add: group_init_Inr check_heterogeneous_None)
next
  assume "group_init C g = Inl e"
  note init = this has_entry [of g] has_terminal [of g] has_cycle_iff [of g]
  show "isinstance e SpecValidationError"
    using init by (auto simp: group_init_def isinstance_def issubclass_def
        dest: check_heterogeneous_error split: list.splits option.splits if_splits)
  show "e \<noteq> Exn TopologyError (g_name g @ '' has no entry node'')"
    using init by (auto simp: group_init_def
        dest: check_heterogeneous_error split: list.splits option.splits if_splits)
  show "e \<noteq> Exn TopologyError (g_name g @ '' has no terminal node'')"
    using init by (auto simp: group_init_def
        dest: check_heterogeneous_error split: list.splits option.splits if_splits)
next
  assume a: "dangling g = [] \<and> set ns = set (group_agents g)"
  show "fst (visit (targets_of g) ns ns []) \<longleftrightarrow> \<not> acyclic (edge_rel g)"
    unfolding edge_rel_def by (rule visit_decides) (use a in \<open>auto simp: dangling_Nil_iff\<close>)
qed

text \<open>Both forms of Kahn's algorithm succeed on a constructed group.\<close>

lemma group_orders:
  assumes "dangling g = []" "acyclic (edge_rel g)" "dict_ok (topology g)"
  shows "\<exists>order tiers. topological_order g = Inr order \<and> topological_tiers g = Inr tiers
    \<and> distinct order \<and> set order = set (group_agents g) \<and> layered (preds g) order
    \<and> distinct (concat tiers) \<and> set (concat tiers) = set (group_agents g) \<and> tiers_upto g tiers"
proof -
  let ?start = "filter (\<lambda>a. dget_or (indegrees g) a 0 = 0) (group_agents g)"
  have inv: "kahn_inv g [] (indegrees g) ?start" by (rule kahn_inv_start [OF assms(3)])
  have keys: "map fst (indegrees g) = group_agents g" by (rule indegrees_keys [OF assms(1)])
  have "dict_ok (indegrees g)" using keys distinct_agents [OF assms(3)] by (simp add: dict_ok_def)
  then have start: "map fst (filter (\<lambda>p. snd p = 0) (indegrees g)) = ?start"
    using zero_keys keys by metis
  have len: "length (topology g) = length (group_agents g)" by (simp add: group_agents_def dkeys_def)
  define order where "order = kahn_loop (targets_of g) (indegrees g) ?start []"
  have o: "distinct order" "set order = set (group_agents g)" "layered (preds g) order"
    using kahn_loop_correct [OF inv assms(1,2), of order] by (simp_all add: order_def)
  define tiers where "tiers = tiers_loop (targets_of g) (group_agents g) (indegrees g) ?start []"
  have "?start = ready_after g (concat [])"
    using kahn_inv_ready [OF inv assms(3)] by (simp cong: filter_cong)
  moreover have "tiers_upto g []" by (simp add: tiers_upto_def)
  ultimately have t: "distinct (concat tiers)" "set (concat tiers) = set (group_agents g)" "tiers_upto g tiers"
    using tiers_loop_correct [OF _ _ assms, of "[]" "indegrees g" ?start tiers] inv
    unfolding tiers_def by simp_all
  have "length order = length (group_agents g)" "length (concat tiers) = length (group_agents g)"
    using o t distinct_agents [OF assms(3)] by (metis distinct_card)+
  then have "topological_order g = Inr order" "topological_tiers g = Inr tiers"
    by (simp_all add: topological_order_def topological_tiers_def Let_def start len
        order_def [symmetric] tiers_def [symmetric])
  then show ?thesis using o t by blast
qed

text \<open>
  C12. For a constructed group the topological order and the tiers both exist and
  list every node once; the order goes along every edge, and each tier holds, in
  declaration order, exactly the nodes whose predecessors are all in earlier tiers.
\<close>

theorem group_walk_order:
  assumes "group_init C g = Inr h" "dict_ok (topology g)"
  shows "\<exists>order tiers. topological_order h = Inr order \<and> topological_tiers h = Inr tiers
    \<and> mset order = mset (group_agents h) \<and> mset (concat tiers) = mset (group_agents h)
    \<and> (\<forall>(s, t) \<in> edge_rel h. index_of s order < index_of t order)
    \<and> (\<forall>i < length tiers. tiers ! i \<noteq> [] \<and> tiers ! i =
         filter (\<lambda>t. t \<notin> set (concat (take i tiers)) \<and> preds h t \<subseteq> set (concat (take i tiers)))
           (group_agents h))"
proof -
  have h: "h = g" "dangling g = []" "acyclic (edge_rel g)" using assms(1) by (auto simp: group_init_Inr)
  obtain order tiers where o: "topological_order g = Inr order" "topological_tiers g = Inr tiers"
    "distinct order" "set order = set (group_agents g)" "layered (preds g) order"
    "distinct (concat tiers)" "set (concat tiers) = set (group_agents g)" "tiers_upto g tiers"
    using group_orders [OF h(2,3) assms(2)] by blast
  have "mset order = mset (group_agents g)" "mset (concat tiers) = mset (group_agents g)"
    using o distinct_agents [OF assms(2)] by (metis set_eq_iff_mset_eq_distinct)+
  moreover have "\<forall>(s, t) \<in> edge_rel g. index_of s order < index_of t order"
    using layered_below [OF o(5)] o(4) h(2) by (fastforce simp: edge_rel_def preds_def dangling_Nil_iff)
  ultimately show ?thesis using o(1,2,8) h(1) by (auto simp: tiers_upto_def ready_after_def)
qed

text \<open>
  Under a heterogeneous fan-out source, when no item class inherits from two
  unrelated classes, every item that belongs to the declared union is accepted by
  exactly one of the source's handlers.
\<close>

theorem heterogeneous_routing_is_exact:
  assumes "heterogeneous_dispatch_for C g src = Inr (Some table)"
    and "get_fan_out_field C (output_type src) = Inr (Some (field, types))"
    and "\<exists>t \<in> set types. isinstance_of C item t"
    and "\<forall>t u. isinstance_of C item t \<and> isinstance_of C item u
           \<longrightarrow> issubclass_of C t u \<or> issubclass_of C u t"
  shows "\<exists>!a. a \<in> set (targets_of g src) \<and> (\<exists>t. input_type a = Some t \<and> isinstance_of C item t)"
proof -
  obtain f ts where c: "get_fan_out_field C (output_type src) = Inr (Some (f, ts))"
    "\<not> related_members C ts" "dict_ok table"
    "table = map (\<lambda>a. (the (input_type a), a)) (targets_of g src)"
    "\<forall>a \<in> set (targets_of g src). \<exists>t \<in> set ts. input_type a = Some t"
    "\<forall>t \<in> set ts. t \<in> fst ` set table"
    by (rule heterogeneous_table [OF assms(1)])
  have ts: "ts = types" using c(1) assms(2) by simp
  obtain t where t: "t \<in> set types" "isinstance_of C item t" using assms(3) by blast
  obtain a where a: "a \<in> set (targets_of g src)" "the (input_type a) = t"
    using c(4,6) t(1) ts by auto
  then have at: "input_type a = Some t" using c(5) by force
  have uniq: "b = a" if "b \<in> set (targets_of g src)" "input_type b = Some u" "isinstance_of C item u" for b u
  proof -
    have "u \<in> set types" using c(5) that ts by force
    then have "u = t"
      using related_members_False [OF c(2)] assms(4) t that(3) ts by metis
    moreover have "inj_on (\<lambda>a. the (input_type a)) (set (targets_of g src))"
      using c(3,4) by (simp add: dict_ok_def distinct_map comp_def)
    ultimately show ?thesis using a at that by (simp add: inj_on_def)
  qed
  show ?thesis using a(1) at t(2) uniq by blast
qed

section \<open>A concrete group\<close>

definition sample_node :: "string \<Rightarrow> string \<Rightarrow> string option \<Rightarrow> agent" where
  "sample_node name out inp =
    \<lparr> a_name = name, a_model = ModelName ''test'', fallback_models = [], instructions = '''',
      output_type = out, input_type = inp, a_tools = {}, mcp_servers = [], builtin_tools = [],
      max_concurrent_requests = None, model_concurrency_limiter = None, model_settings = None,
      trust_level = MEDIUM, a_context_passer = NullContextPasser, a_backend = ''async'',
      pre_process = [], post_process = [] \<rparr>"

text \<open>\<open>Plan\<close> has a field \<open>pets: FanOut[list[Dog | Cat]]\<close>; \<open>Chimera\<close> inherits from both.\<close>

definition sample_classes :: class_env where
  "sample_classes =
    \<lparr> hints_of = (\<lambda>c. if c = ''Plan''
         then [(''title'', HPlain ''str''),
               (''pets'', HAnnotated (HList (Some (ItemUnion [''Dog'', ''Cat'', ''Dog'']))) [True])]
         else []),
      mro_of = (\<lambda>c. if c = ''Puppy'' then [''Puppy'', ''Dog'']
         else if c = ''Chimera'' then [''Chimera'', ''Dog'', ''Cat''] else [c]) \<rparr>"

definition sample_group :: group where
  "sample_group =
    \<lparr> g_name = ''pets'', topology =
       [(sample_node ''merge'' ''Report'' None, OneEdge edge_terminal),
        (sample_node ''plan'' ''Plan'' None,
          OneEdge (default_edge\<lparr>edge_to := [sample_node ''cat'' ''Note'' (Some ''Cat''),
                                          sample_node ''dog'' ''Note'' (Some ''Dog'')]\<rparr>)),
        (sample_node ''dog'' ''Note'' (Some ''Dog''),
          Edges [default_edge\<lparr>edge_to := [sample_node ''merge'' ''Report'' None]\<rparr>]),
        (sample_node ''cat'' ''Note'' (Some ''Cat''),
          Edges [default_edge\<lparr>edge_to := [sample_node ''merge'' ''Report'' None]\<rparr>])] \<rparr>"

lemmas sample_defs = sample_group_def sample_node_def sample_classes_def default_edge_def
  edge_terminal_def

lemma sample_targets:
  "targets_of sample_group (sample_node ''plan'' ''Plan'' None)
     = [sample_node ''cat'' ''Note'' (Some ''Cat''), sample_node ''dog'' ''Note'' (Some ''Dog'')]"
  "targets_of sample_group (sample_node ''dog'' ''Note'' (Some ''Dog''))
     = [sample_node ''merge'' ''Report'' None]"
  "targets_of sample_group (sample_node ''cat'' ''Note'' (Some ''Cat''))
     = [sample_node ''merge'' ''Report'' None]"
  "targets_of sample_group (sample_node ''merge'' ''Report'' None) = []"
  by (simp_all add: targets_of_def outgoing_edges_def sample_defs)

lemma sample_agents:
  "group_agents sample_group =
    [sample_node ''merge'' ''Report'' None, sample_node ''plan'' ''Plan'' None,
     sample_node ''dog'' ''Note'' (Some ''Dog''), sample_node ''cat'' ''Note'' (Some ''Cat'')]"
  by (simp add: group_agents_def dkeys_def sample_group_def)

lemma sample_node_eq [simp]:
  "sample_node n a b = sample_node m c d \<longleftrightarrow> n = m \<and> a = c \<and> b = d"
  by (simp add: sample_node_def)

lemma sample_dict_ok: "dict_ok (topology sample_group)"
  by (simp add: dict_ok_def sample_group_def)

lemma sample_table:
  "heterogeneous_dispatch_for sample_classes sample_group (sample_node ''plan'' ''Plan'' None)
     = Inr (Some [(''Cat'', sample_node ''cat'' ''Note'' (Some ''Cat'')),
                  (''Dog'', sample_node ''dog'' ''Note'' (Some ''Dog''))])"
  by code_simp

lemma sample_init: "group_init sample_classes sample_group = Inr sample_group"
proof -
  have "case group_init sample_classes sample_group of Inr g \<Rightarrow> True | Inl e \<Rightarrow> False" by code_simp
  then show ?thesis by (auto simp: group_init_Inr split: sum.splits)
qed

definition sample_loop :: group where
  "sample_loop =
    \<lparr> g_name = ''loop'', topology =
       [(sample_node ''a'' ''Note'' None,
          OneEdge (default_edge\<lparr>edge_to := [sample_node ''b'' ''Note'' None]\<rparr>)),
        (sample_node ''b'' ''Note'' None,
          Edges [edge_terminal, default_edge\<lparr>edge_to := [sample_node ''a'' ''Note'' None]\<rparr>])] \<rparr>"

lemma group_construction_decides_witness:
  "acyclic (edge_rel sample_group)
 \<and> \<not> acyclic (edge_rel sample_loop)
 \<and> isinstance (Exn TopologyError ''loop topology has a cycle'') SpecValidationError"
proof (intro conjI)
  show "acyclic (edge_rel sample_group)"
    using group_construction_decides [of sample_classes sample_group sample_group] sample_init by blast
next
  have "case group_init sample_classes sample_loop of
      Inl e \<Rightarrow> e = Exn TopologyError ''loop topology has a cycle'' | Inr g \<Rightarrow> False" by code_simp
  then have init: "group_init sample_classes sample_loop = Inl (Exn TopologyError ''loop topology has a cycle'')"
    by (auto split: sum.splits)
  then show "isinstance (Exn TopologyError ''loop topology has a cycle'') SpecValidationError"
    using group_construction_decides [of sample_classes sample_loop _ "Exn TopologyError ''loop topology has a cycle''"]
    by blast
  have "length (dangling sample_loop) = 0" by code_simp
  moreover have "fst (visit (targets_of sample_loop) (group_agents sample_loop) (group_agents sample_loop) [])"
    by code_simp
  ultimately show "\<not> acyclic (edge_rel sample_loop)"
    using group_construction_decides [of sample_classes sample_loop _ _ "group_agents sample_loop"]
    by simp
qed

lemma preds_filter: "preds g t = set (filter (\<lambda>s. t \<in> set (targets_of g s)) (group_agents g))"
  by (simp add: preds_def)

lemma group_walk_order_witness:
  "\<exists>order tiers. topological_order sample_group = Inr order \<and> topological_tiers sample_group = Inr tiers
    \<and> mset order = mset (group_agents sample_group) \<and> tiers ! 0 =
       [sample_node ''plan'' ''Plan'' None]"
proof -
  have p: "preds sample_group (sample_node ''plan'' ''Plan'' None) = {}"
    "preds sample_group (sample_node ''merge'' ''Report'' None) \<noteq> {}"
    "preds sample_group (sample_node ''dog'' ''Note'' (Some ''Dog'')) \<noteq> {}"
    "preds sample_group (sample_node ''cat'' ''Note'' (Some ''Cat'')) \<noteq> {}"
    by (simp_all add: preds_filter sample_agents sample_targets)
  obtain order tiers where r: "topological_order sample_group = Inr order"
    "topological_tiers sample_group = Inr tiers" "mset order = mset (group_agents sample_group)"
    "mset (concat tiers) = mset (group_agents sample_group)"
    "\<forall>i < length tiers. tiers ! i \<noteq> [] \<and> tiers ! i =
         filter (\<lambda>t. t \<notin> set (concat (take i tiers)) \<and> preds sample_group t \<subseteq> set (concat (take i tiers)))
           (group_agents sample_group)"
    using group_walk_order [OF sample_init sample_dict_ok] by blast
  moreover have "tiers \<noteq> []" using r(4) by (auto simp: sample_agents)
  then have "tiers ! 0 = filter (\<lambda>t. preds sample_group t = {}) (group_agents sample_group)"
    using r(5) [rule_format, of 0] by simp
  then have "tiers ! 0 = [sample_node ''plan'' ''Plan'' None]" using p by (simp add: sample_agents)
  ultimately show ?thesis by blast
qed

lemma heterogeneous_routing_is_exact_witness:
  "\<exists>!a. a \<in> set (targets_of sample_group (sample_node ''plan'' ''Plan'' None))
     \<and> (\<exists>t. input_type a = Some t \<and> isinstance_of sample_classes (VModel ''Puppy'' []) t)"
proof (rule heterogeneous_routing_is_exact [OF sample_table])
  show "get_fan_out_field sample_classes (output_type (sample_node ''plan'' ''Plan'' None))
     = Inr (Some (''pets'', [''Dog'', ''Cat'']))" by code_simp
qed (auto simp: isinstance_of_def issubclass_of_def sample_classes_def)

text \<open>
  The validator compares the union members with each other only, so an item
  class that inherits from two of them passes construction and is accepted by two
  handlers: the routing by isinstance is not unambiguous for every item.
\<close>

theorem diamond_item_reaches_two_handlers:
  "\<exists>C g src item a b. group_init C g = Inr g
     \<and> a \<in> set (targets_of g src) \<and> b \<in> set (targets_of g src) \<and> a \<noteq> b
     \<and> (\<exists>t. input_type a = Some t \<and> isinstance_of C item t)
     \<and> (\<exists>t. input_type b = Some t \<and> isinstance_of C item t)"
proof -
  let ?dog = "sample_node ''dog'' ''Note'' (Some ''Dog'')" and ?cat = "sample_node ''cat'' ''Note'' (Some ''Cat'')"
  have "isinstance_of sample_classes (VModel ''Chimera'' []) ''Dog''"
    "isinstance_of sample_classes (VModel ''Chimera'' []) ''Cat''" by code_simp+
  moreover have "input_type ?dog = Some ''Dog''" "input_type ?cat = Some ''Cat''"
    by (simp_all add: sample_node_def)
  ultimately show ?thesis
    using sample_init sample_targets(1)
    by (intro exI [of _ sample_classes] exI [of _ sample_group] exI [of _ "sample_node ''plan'' ''Plan'' None"]
        exI [of _ "VModel ''Chimera'' []"] exI [of _ ?dog] exI [of _ ?cat]) auto
qed

end
