(* ===== verification/Group_Walk.thy ===== *)
theory Group_Walk
  imports Group_Runner Group_Topology
begin

text \<open>
  What the walk of a constructed group guarantees: every node is settled exactly once,
  after everything it depends on; which nodes are skipped is a function of the
  results alone; the shape of the returned value; the contract of an aggregating node.
\<close>

section \<open>Incoming edges\<close>

lemma incoming_fold:
  "dget_or (fold (\<lambda>(src, e, tgt) d. dset tgt (dget_or d tgt [] @ [(src, e)]) d) es d) t []
     = dget_or d t [] @ map (\<lambda>(s, e, x). (s, e)) (filter (\<lambda>(s, e, x). x = t) es)"
proof (induction es arbitrary: d)
  case (Cons p es)
  obtain s e x where "p = (s, e, x)" by (cases p) auto
  then show ?case using Cons by (simp add: dget_or_def)
qed simp

lemma incoming_set:
  "set (dget_or (incoming_edges g) t []) =
     {(s, e). s \<in> set (group_agents g) \<and> e \<in> set (outgoing_edges g s) \<and> t \<in> set (edge_to e)}"
  unfolding incoming_edges_def incoming_fold by (force simp: dget_or_def)

lemma incoming_pred:
  "(u, e) \<in> set (dget_or (incoming_edges g) t []) \<Longrightarrow> u \<in> preds g t"
  by (auto simp: incoming_set preds_def targets_of_def)

section \<open>Which nodes are skipped\<close>

text \<open>
  A node is skipped when its only incoming edge comes from a node that was skipped
  or produced nothing, or when the edge's condition is false of the upstream output.
\<close>

definition edge_skips :: "agent \<Rightarrow> agent \<Rightarrow> edge \<Rightarrow> (agent, node_output) dict \<Rightarrow> agent list \<Rightarrow> bool" where
  "edge_skips node u e results skipped =
    (u \<in> set skipped \<or>
      (case dget results u of
         None \<Rightarrow> True
       | Some out \<Rightarrow>
          (case filter_successes out (a_name u) of
             Inl exc \<Rightarrow> False
           | Inr typed \<Rightarrow> condition_fires e u node typed = Inr False)))"

definition skips :: "group \<Rightarrow> agent \<Rightarrow> (agent, node_output) dict \<Rightarrow> agent list \<Rightarrow> bool" where
  "skips g node results skipped =
    (case dget_or (incoming_edges g) node [] of
       [(u, e)] \<Rightarrow> edge_skips node u e results skipped
     | _ \<Rightarrow> False)"

lemma dispatch_input_not_skipped: "dispatch_input R node mc inp s = (Inr d, t) \<Longrightarrow> d \<noteq> Skipped"
  by (auto simp: dispatch_input_def bnd_Inr_iff split: sum.splits downstream_input.splits)

lemma resolve_node_skips:
  assumes "resolve_node E R task (incoming_edges g) results skipped node s = (Inr d, t)"
  shows "d = Skipped \<longleftrightarrow> skips g node results skipped"
proof -
  consider "dget_or (incoming_edges g) node [] = []"
    | u e where "dget_or (incoming_edges g) node [] = [(u, e)]"
    | p q ps where "dget_or (incoming_edges g) node [] = p # q # ps"
    by (metis list.exhaust surj_pair)
  then show ?thesis
  proof cases
    case 1
    then show ?thesis using assms dispatch_input_not_skipped
      by (fastforce simp: resolve_node_def skips_def)
  next
    case 2
    then show ?thesis using assms dispatch_input_not_skipped
      by (fastforce simp: resolve_node_def skips_def edge_skips_def dispatch_single_input_def
          split: if_splits option.splits sum.splits bool.splits)
  next
    case 3
    then show ?thesis using assms dispatch_input_not_skipped
      by (fastforce simp: resolve_node_def skips_def dispatch_multi_input_def
          split: sum.splits prod.splits)
  qed
qed

text \<open>Whether a node is skipped depends only on what is known of its predecessors.\<close>

lemma skips_cong:
  assumes "\<forall>u \<in> preds g node. dget results u = dget results' u \<and> (u \<in> set sk \<longleftrightarrow> u \<in> set sk')"
  shows "skips g node results sk \<longleftrightarrow> skips g node results' sk'"
proof -
  have "edge_skips node u e results sk \<longleftrightarrow> edge_skips node u e results' sk'"
    if "dget_or (incoming_edges g) node [] = [(u, e)]" for u e
  proof -
    have "u \<in> preds g node" using that incoming_pred [of u e g node] by simp
    then show ?thesis using assms by (simp add: edge_skips_def)
  qed
  then show ?thesis by (auto simp: skips_def split: list.splits)
qed

section \<open>The walk invariant\<close>

definition settled :: "group \<Rightarrow> agent list \<Rightarrow> walk_state \<Rightarrow> bool" where
  "settled g D w \<longleftrightarrow> (case w of (results, skipped) \<Rightarrow>
     set (dkeys results) \<union> set skipped = set D \<and> set (dkeys results) \<inter> set skipped = {}
   \<and> (\<forall>n \<in> set D. n \<in> set skipped \<longleftrightarrow> skips g n results skipped))"

definition store_all :: "(agent, dispatched) dict \<Rightarrow> agent list \<Rightarrow> walk_state \<Rightarrow> walk_state" where
  "store_all ds tier w =
     fold (\<lambda>n w. case dget ds n of Some d \<Rightarrow> store_node n d w | None \<Rightarrow> w) tier w"

lemma dkeys_dset [simp]: "set (dkeys (dset k v d)) = insert k (set (dkeys d))"
  by (simp add: dkeys_def)

lemma dkeys_dget: "n \<in> set (dkeys d) \<longleftrightarrow> dget d n \<noteq> None"
  by (simp add: dget_None_iff dkeys_def)

lemma store_all_facts:
  assumes "set L \<subseteq> set (dkeys ds)"
  shows "set (dkeys (fst (store_all ds L w))) = set (dkeys (fst w)) \<union> {n \<in> set L. dget ds n \<noteq> Some Skipped}
    \<and> set (snd (store_all ds L w)) = set (snd w) \<union> {n \<in> set L. dget ds n = Some Skipped}
    \<and> (\<forall>m. m \<notin> set L \<longrightarrow> dget (fst (store_all ds L w)) m = dget (fst w) m)"
  using assms
proof (induction L arbitrary: w)
  case (Cons n L)
  obtain d where d: "dget ds n = Some d" using Cons.prems by (auto simp: dkeys_dget)
  obtain r sk where w: "w = (r, sk)" by fastforce
  have "store_all ds (n # L) w = store_all ds L (store_node n d w)" by (simp add: store_all_def d)
  then show ?case using Cons.IH [of "store_node n d w"] Cons.prems d w by (cases d) auto
qed (simp add: store_all_def)

lemma settled_step:
  assumes ok: "settled g D w" and tier: "\<forall>n \<in> set L. preds g n \<subseteq> set D" "set L \<inter> set D = {}"
    and closed: "\<forall>n \<in> set D. preds g n \<subseteq> set D"
    and keys: "set L \<subseteq> set (dkeys ds)"
    and sk: "\<forall>n \<in> set L. dget ds n = Some Skipped \<longleftrightarrow> skips g n (fst w) (snd w)"
  shows "settled g (D @ L) (store_all ds L w)"
proof -
  obtain r k where w: "w = (r, k)" by fastforce
  obtain r' k' where w': "store_all ds L w = (r', k')" by fastforce
  have f: "set (dkeys r') = set (dkeys r) \<union> {n \<in> set L. dget ds n \<noteq> Some Skipped}"
    "set k' = set k \<union> {n \<in> set L. dget ds n = Some Skipped}"
    "\<And>m. m \<notin> set L \<Longrightarrow> dget r' m = dget r m"
    using store_all_facts [OF keys, of w] w w' by auto
  have o: "set (dkeys r) \<union> set k = set D" "set (dkeys r) \<inter> set k = {}"
    "\<And>n. n \<in> set D \<Longrightarrow> n \<in> set k \<longleftrightarrow> skips g n r k"
    using ok w by (auto simp: settled_def)
  have same: "skips g n r' k' \<longleftrightarrow> skips g n r k" if "preds g n \<subseteq> set D" for n
    by (rule skips_cong) (use that tier(2) f(2) in \<open>auto intro!: f(3)\<close>)
  have "n \<in> set k' \<longleftrightarrow> skips g n r' k'" if "n \<in> set (D @ L)" for n
  proof (cases "n \<in> set D")
    case True
    then show ?thesis using o(3) f(2) tier(2) closed same by auto
  next
    case False
    then have "n \<in> set L" "n \<notin> set k" using that o(1) by auto
    then show ?thesis using f(2) sk tier(1) same w by auto
  qed
  moreover have "set (dkeys r') \<union> set k' = set (D @ L)" using f o by auto
  moreover have "set (dkeys r') \<inter> set k' = {}" using f o tier(2) by auto
  ultimately show ?thesis using w' by (simp add: settled_def)
qed

section \<open>The walk keeps it\<close>

lemma run_siblings_facts:
  assumes "run_siblings resolve w ns s = (Inr ds, t)"
  shows "dkeys ds = ns \<and> (\<forall>(n, d) \<in> set ds. \<exists>s' t'. resolve w n s' = (Inr d, t'))"
  using assms
proof (induction ns arbitrary: ds s t)
  case (Cons n ns)
  obtain d s1 ds' s2 where d: "with_frame (current_spawn s) (resolve w n) s = (Inr d, s1)"
    and r: "run_siblings resolve w ns s1 = (Inr ds', s2)" "ds = (n, d) # ds'"
    using Cons.prems by (auto simp: bnd_Inr_iff)
  obtain s' t' where "resolve w n s' = (Inr d, t')"
    using d by (auto simp: with_frame_def finally_do_def split: prod.splits)
  then show ?case using Cons.IH [OF r(1)] r(2) by (auto simp: dkeys_def)
qed (simp add: dkeys_def)

lemma walk_tier_store:
  assumes "(case tier of [n] \<Rightarrow> walk_one resolve n w | _ \<Rightarrow> dispatch_tier_parallel resolve order tier w) s
      = (Inr w', t)" and "set (order tier) = set tier" "distinct tier"
    and "\<And>n d s t. n \<in> set tier \<Longrightarrow> resolve w n s = (Inr d, t) \<Longrightarrow> d = Skipped \<longleftrightarrow> Q n"
  shows "\<exists>ds. w' = store_all ds tier w \<and> set tier \<subseteq> set (dkeys ds)
    \<and> (\<forall>n \<in> set tier. dget ds n = Some Skipped \<longleftrightarrow> Q n)"
proof (cases "\<exists>n. tier = [n]")
  case True
  then obtain n where n: "tier = [n]" by blast
  then obtain d s' where "resolve w n s = (Inr d, s')" "w' = store_node n d w"
    using assms(1) by (auto simp: walk_one_def bnd_Inr_iff)
  then show ?thesis using n assms(4) [of n s d s']
    by (intro exI [of _ "[(n, d)]"]) (auto simp: store_all_def dkeys_def)
next
  case False
  then have "dispatch_tier_parallel resolve order tier w s = (Inr w', t)"
    using assms(1) by (auto split: list.splits)
  then obtain ds s' where ds: "run_siblings resolve w (order tier) s = (Inr ds, s')"
    "w' = store_all ds tier w"
    by (auto simp: dispatch_tier_parallel_def bnd_Inr_iff store_all_def)
  have k: "set (dkeys ds) = set tier" "\<forall>(n, d) \<in> set ds. \<exists>s' t'. resolve w n s' = (Inr d, t')"
    using run_siblings_facts [OF ds(1)] assms(2) by auto
  have "dget ds n = Some Skipped \<longleftrightarrow> Q n" if n: "n \<in> set tier" for n
  proof -
    have "n \<in> set (dkeys ds)" using n k(1) by simp
    then obtain d where d: "dget ds n = Some d" by (auto simp: dkeys_dget)
    then obtain s' t' where "resolve w n s' = (Inr d, t')" using k(2) dget_in_set by fastforce
    then show ?thesis using assms(4) [OF n] d by auto
  qed
  then show ?thesis using ds(2) k(1) by auto
qed

text \<open>A list of tiers, each only depending on the nodes listed before it.\<close>

fun tiers_from :: "group \<Rightarrow> agent list \<Rightarrow> agent list list \<Rightarrow> bool" where
  "tiers_from g D [] = True"
| "tiers_from g D (L # Ls) =
    (distinct L \<and> set L \<inter> set D = {} \<and> (\<forall>n \<in> set L. preds g n \<subseteq> set D) \<and> tiers_from g (D @ L) Ls)"

lemma tiers_upto_from:
  "distinct (concat (us @ ts)) \<Longrightarrow> tiers_upto g (us @ ts) \<Longrightarrow> tiers_from g (concat us) ts"
proof (induction ts arbitrary: us)
  case (Cons t ts)
  have "t = ready_after g (concat us)"
    using Cons.prems(2) [unfolded tiers_upto_def, rule_format, of "length us"] by simp
  then have "\<forall>n \<in> set t. preds g n \<subseteq> set (concat us)" by (simp add: ready_after_def)
  moreover have "tiers_from g (concat (us @ [t])) ts"
    using Cons.prems by (intro Cons.IH) simp_all
  moreover have "distinct t \<and> set t \<inter> set (concat us) = {}" using Cons.prems(1) by auto
  ultimately show ?case by simp
qed simp

lemma walk_tiers_settled:
  assumes "walk_tiers (\<lambda>(r, k). resolve_node E R task (incoming_edges g) r k) order tiers w s = (Inr w', t)"
    and "\<forall>L. set (order L) = set L" "settled g D w" "tiers_from g D tiers"
    and "\<forall>n \<in> set D. preds g n \<subseteq> set D"
  shows "settled g (D @ concat tiers) w'"
  using assms(1,3-)
proof (induction tiers arbitrary: w s D)
  case (Cons L Ls)
  let ?res = "\<lambda>(r, k). resolve_node E R task (incoming_edges g) r k"
  obtain w1 s1 where one: "(case L of [n] \<Rightarrow> walk_one ?res n w | _ \<Rightarrow> dispatch_tier_parallel ?res order L w) s
      = (Inr w1, s1)" and rest: "walk_tiers ?res order Ls w1 s1 = (Inr w', t)"
    using Cons.prems(1) by (auto simp: bnd_Inr_iff)
  have L: "distinct L" "set L \<inter> set D = {}" "\<forall>n \<in> set L. preds g n \<subseteq> set D" "tiers_from g (D @ L) Ls"
    using Cons.prems(3) by auto
  have "d = Skipped \<longleftrightarrow> skips g n (fst w) (snd w)" if "?res w n s' = (Inr d, t')" for n d s' t'
    using that resolve_node_skips [where results = "fst w" and skipped = "snd w"]
    by (simp add: case_prod_beta)
  then obtain ds where ds: "w1 = store_all ds L w" "set L \<subseteq> set (dkeys ds)"
    "\<forall>n \<in> set L. dget ds n = Some Skipped \<longleftrightarrow> skips g n (fst w) (snd w)"
    using walk_tier_store [OF one, of "\<lambda>n. skips g n (fst w) (snd w)"] assms(2) L(1) by blast
  have "settled g (D @ L) w1"
    unfolding ds(1) by (rule settled_step) (use Cons.prems L ds in auto)
  then have "settled g ((D @ L) @ concat Ls) w'"
    using L Cons.prems(4) by (intro Cons.IH [OF rest]) auto
  then show ?case by simp
qed simp

lemma walk_group_settled:
  assumes "walk_group (\<lambda>(r, k). resolve_node E R task (incoming_edges g) r k) order task tiers s = (Inr w', t)"
    and "\<forall>L. set (order L) = set L" "tiers_from g [] tiers"
  shows "settled g (concat tiers) w'"
proof -
  let ?res = "\<lambda>(r, k). resolve_node E R task (incoming_edges g) r k"
  have start: "settled g [] ([], [])" by (simp add: settled_def dkeys_def)
  have plain: "settled g (concat tiers) w'"
    if "walk_tiers ?res order tiers ([], []) s = (Inr w', t)"
    using walk_tiers_settled [OF that assms(2) start assms(3)] by simp
  show ?thesis
  proof (cases "\<exists>e u us. tiers = [e] # u # us \<and> current_spawn s = None")
    case True
    then obtain e u us where ts: "tiers = [e] # u # us" "current_spawn s = None" by blast
    obtain w1 s1 where w1: "walk_tiers ?res order [[e]] ([], []) s = (Inr w1, s1)"
      and w2: "with_frame (Some (entry_frame e task)) (walk_tiers ?res order (u # us) w1) s1 = (Inr w', t)"
      using assms(1) ts by (auto simp: walk_group_def bnd_Inr_iff)
    obtain s2 t2 where w3: "walk_tiers ?res order (u # us) w1 s2 = (Inr w', t2)"
      using w2 by (auto simp: with_frame_def finally_do_def split: prod.splits)
    have a: "settled g [e] w1"
      using walk_tiers_settled [OF w1 assms(2) start] assms(3) ts(1) by simp
    show ?thesis
      using walk_tiers_settled [OF w3 assms(2) a] assms(3) ts(1) by simp
  next
    case False
    then have "walk_tiers ?res order tiers ([], []) s = (Inr w', t)"
      using assms(1) by (auto simp: walk_group_def split: list.splits if_splits)
    then show ?thesis by (rule plain)
  qed
qed

section \<open>Outcome\<close>

definition store_leaf :: "(agent, node_output) dict \<Rightarrow> agent \<Rightarrow> (string, agent_result) dict \<Rightarrow> (string, agent_result) dict" where
  "store_leaf results t acc = (case dget results t of Some (Single r) \<Rightarrow> dset (a_name t) r acc | _ \<Rightarrow> acc)"

lemma leaf_results_Inr:
  "leaf_results results ts acc = Inr leaves \<longleftrightarrow>
     leaves = fold (store_leaf results) ts acc \<and> (\<forall>t \<in> set ts. \<exists>r. dget results t = Some (Single r))"
  by (induction ts arbitrary: acc) (auto simp: store_leaf_def split: option.splits node_output.splits)

lemma leaf_results_Batch:
  "(\<exists>t \<in> set ts. \<exists>rs. dget results t = Some (Batch rs)) \<Longrightarrow> \<forall>t \<in> set ts. dhas results t \<Longrightarrow>
     \<exists>m. leaf_results results ts acc = Inl (Exn TopologyError m)"
proof (induction ts arbitrary: acc)
  case (Cons t ts)
  obtain out where "dget results t = Some out"
    using Cons.prems(2) by (auto simp: dhas_def simp del: dhas_iff)
  then show ?case using Cons by (cases out) auto
qed simp

lemma fold_store_leaf_keys:
  "\<forall>t \<in> set ts. \<exists>r. dget results t = Some (Single r) \<Longrightarrow>
     fst ` set (fold (store_leaf results) ts acc) = fst ` set acc \<union> a_name ` set ts"
proof (induction ts arbitrary: acc)
  case (Cons t ts)
  obtain r where "dget results t = Some (Single r)" using Cons.prems by auto
  then have "fst ` set (store_leaf results t acc) = insert (a_name t) (fst ` set acc)"
    by (simp add: store_leaf_def)
  then show ?case using Cons by simp
qed simp

lemma fold_store_leaf_ok:
  "dict_ok acc \<Longrightarrow> dict_ok (fold (store_leaf results) ts acc)"
  by (induction ts arbitrary: acc) (auto simp: store_leaf_def split: option.splits node_output.splits)

lemma fold_store_leaf_distinct:
  "\<forall>t \<in> set ts. dget results t = Some (Single (f t)) \<Longrightarrow> distinct (map a_name ts)
     \<Longrightarrow> a_name ` set ts \<inter> fst ` set acc = {}
     \<Longrightarrow> fold (store_leaf results) ts acc = acc @ map (\<lambda>t. (a_name t, f t)) ts"
  by (induction ts arbitrary: acc) (auto simp: store_leaf_def dset_fresh)

lemma group_outcome_many:
  "length fired \<noteq> 0 \<Longrightarrow> length fired \<noteq> 1 \<Longrightarrow> fired = filter (\<lambda>t. dhas results t) (terminal_nodes g) \<Longrightarrow>
     group_outcome g task results =
       (case leaf_results results fired [] of
          Inl e \<Rightarrow> Inl e
        | Inr leaves \<Rightarrow> Inr (ManyResults
            \<lparr> gr_outputs = leaves, gr_metadata = aggregate_group_metadata leaves task \<rparr>))"
  by (auto simp: group_outcome_def split: list.splits)

lemma bracketed_body: "bracketed n task a b body s = (r, t) \<Longrightarrow> \<exists>s' t'. body s' = (r, t')"
  by (auto simp: bracketed_def finally_do_def emit_def bnd_def split: prod.splits)

lemma skips_iff:
  assumes "\<And>u e. dget_or (incoming_edges g) n [] = [(u, e)] \<Longrightarrow> dget r u \<noteq> None \<or> u \<in> set k"
  shows "skips g n r k \<longleftrightarrow> (\<exists>u e. dget_or (incoming_edges g) n [] = [(u, e)] \<and>
           (u \<in> set k \<or> (\<exists>node_out typed. dget r u = Some node_out
              \<and> filter_successes node_out (a_name u) = Inr typed
              \<and> condition_fires e u n typed = Inr False)))"
proof (cases "\<exists>u e. dget_or (incoming_edges g) n [] = [(u, e)]")
  case True
  then obtain u e where ue: "dget_or (incoming_edges g) n [] = [(u, e)]" by blast
  have "edge_skips n u e r k \<longleftrightarrow> u \<in> set k \<or> (\<exists>node_out typed. dget r u = Some node_out
              \<and> filter_successes node_out (a_name u) = Inr typed
              \<and> condition_fires e u n typed = Inr False)"
  proof (cases "u \<in> set k")
    case False
    then obtain y where "dget r u = Some y" using assms [OF ue] by blast
    then show ?thesis
      using False by (cases "filter_successes y (a_name u)") (simp_all add: edge_skips_def)
  qed (simp add: edge_skips_def)
  then show ?thesis using ue by (simp add: skips_def)
next
  case False
  then show ?thesis by (auto simp: skips_def split: list.splits)
qed

lemma walk_and_collect_Inr:
  assumes "walk_and_collect E R g task s = (Inr out, t)" "topological_tiers g = Inr tiers"
  shows "\<exists>r k. walk_group (\<lambda>(r, k). resolve_node E R task (incoming_edges g) r k)
      (ge_order E) task tiers s = (Inr (r, k), t) \<and> group_outcome g task r = Inr out"
proof -
  obtain r k u where w: "walk_group (\<lambda>(r, k). resolve_node E R task (incoming_edges g) r k)
      (ge_order E) task tiers s = (Inr (r, k), u)"
    and c: "(case group_outcome g task r of Inl e \<Rightarrow> raise e | Inr out \<Rightarrow> ret out) u = (Inr out, t)"
    using assms by (auto simp: walk_and_collect_def bnd_Inr_iff split: if_splits)
  from c have "group_outcome g task r = Inr out \<and> u = t" by (cases "group_outcome g task r") simp_all
  then show ?thesis using w by blast
qed

text \<open>
  C13. A successful group run has settled every node of the group exactly once, as
  dispatched or as skipped; a node is skipped exactly when its only incoming edge
  comes from a skipped node or has a false condition on what the upstream returned.
  The returned value is a function of the dispatched nodes.
\<close>

theorem group_run_settles_every_node:
  assumes "group_init C g = Inr g" "dict_ok (topology g)" "\<forall>L. set (ge_order E L) = set L"
    and "run_group E R g task s = (Inr out, t)"
  shows "\<exists>results skipped.
      set (dkeys results) \<union> set skipped = set (group_agents g)
    \<and> set (dkeys results) \<inter> set skipped = {}
    \<and> (\<forall>n \<in> set (group_agents g). n \<in> set skipped \<longleftrightarrow>
        (\<exists>u e. dget_or (incoming_edges g) n [] = [(u, e)] \<and>
           (u \<in> set skipped \<or> (\<exists>node_out typed. dget results u = Some node_out
              \<and> filter_successes node_out (a_name u) = Inr typed
              \<and> condition_fires e u n typed = Inr False))))
    \<and> group_outcome g task results = Inr out"
proof -
  have g: "dangling g = []" "acyclic (edge_rel g)" using assms(1) by (auto simp: group_init_Inr)
  obtain tiers where t: "topological_tiers g = Inr tiers" "distinct (concat tiers)"
    "set (concat tiers) = set (group_agents g)" "tiers_upto g tiers"
    using group_orders [OF g assms(2)] by blast
  have tf: "tiers_from g [] tiers" using tiers_upto_from [of "[]" tiers] t by simp
  obtain s1 t1 where "walk_and_collect E R g task s1 = (Inr out, t1)"
    using assms(4) bracketed_body unfolding run_group_def by blast
  then obtain r k s2 where w: "walk_group (\<lambda>(r, k). resolve_node E R task (incoming_edges g) r k)
      (ge_order E) task tiers s1 = (Inr (r, k), s2)" and o: "group_outcome g task r = Inr out"
    using walk_and_collect_Inr [OF _ t(1)] by blast
  have st: "settled g (concat tiers) (r, k)"
    by (rule walk_group_settled [OF w assms(3) tf])
  have known: "dget r u \<noteq> None \<or> u \<in> set k"
    if "dget_or (incoming_edges g) n [] = [(u, e)]" for n u e
  proof -
    have "u \<in> set (group_agents g)" using that incoming_pred [of u e g n] by (auto simp: preds_def)
    then have "u \<in> set (dkeys r) \<or> u \<in> set k" using st t(3) by (auto simp: settled_def)
    then show ?thesis unfolding dkeys_dget .
  qed

  show ?thesis
  proof (intro exI [of _ r] exI [of _ k] conjI ballI)
    show "set (dkeys r) \<union> set k = set (group_agents g)" "set (dkeys r) \<inter> set k = {}"
      using st t(3) by (simp_all add: settled_def)
    show "n \<in> set k \<longleftrightarrow> (\<exists>u e. dget_or (incoming_edges g) n [] = [(u, e)] \<and>
           (u \<in> set k \<or> (\<exists>node_out typed. dget r u = Some node_out
              \<and> filter_successes node_out (a_name u) = Inr typed
              \<and> condition_fires e u n typed = Inr False)))" if "n \<in> set (group_agents g)" for n
    proof -
      have "n \<in> set k \<longleftrightarrow> skips g n r k" using st that unfolding settled_def prod.case t(3) by blast
      also have "\<dots> \<longleftrightarrow> (\<exists>u e. dget_or (incoming_edges g) n [] = [(u, e)] \<and>
           (u \<in> set k \<or> (\<exists>node_out typed. dget r u = Some node_out
              \<and> filter_successes node_out (a_name u) = Inr typed
              \<and> condition_fires e u n typed = Inr False)))"
        by (rule skips_iff) (rule known)
      finally show ?thesis .
    qed
  qed (rule o)
qed

text \<open>
  The shape of a group's result: an error when no terminal fired or when one of
  them holds an unaggregated batch; the single terminal's result; or one entry per
  distinct name of the fired terminals, every terminal's own when names differ, with
  tokens and costs summed and the longest duration.
\<close>

theorem group_outcome_shape:
  assumes "fired = filter (\<lambda>t. dhas results t) (terminal_nodes g)"
  shows "(fired = [] \<longrightarrow> (\<exists>m. group_outcome g task results = Inl (Exn TopologyError m)))
    \<and> ((\<exists>t \<in> set fired. \<exists>rs. dget results t = Some (Batch rs)) \<longrightarrow>
         (\<exists>m. group_outcome g task results = Inl (Exn TopologyError m)))
    \<and> (group_outcome g task results = Inr (OneResult r) \<longleftrightarrow>
         (\<exists>t. fired = [t] \<and> dget results t = Some (Single r)))
    \<and> (group_outcome g task results = Inr (ManyResults gr) \<longrightarrow>
         length fired \<ge> 2 \<and> dkeys (gr_outputs gr) \<noteq> []
       \<and> length (gr_outputs gr) = card (a_name ` set fired)
       \<and> tokens_used (gr_metadata gr) =
           sum_list (map (\<lambda>r. tokens_used (ar_metadata r)) (dvalues (gr_outputs gr)))
       \<and> (\<forall>f. distinct (map a_name fired) \<and> (\<forall>t \<in> set fired. dget results t = Some (Single (f t)))
            \<longrightarrow> gr_outputs gr = map (\<lambda>t. (a_name t, f t)) fired))"
proof (intro conjI impI)
  show "\<exists>m. group_outcome g task results = Inl (Exn TopologyError m)" if "fired = []"
    using assms that [symmetric] by (simp add: group_outcome_def)
next
  assume b: "\<exists>t \<in> set fired. \<exists>rs. dget results t = Some (Batch rs)"
  have has: "\<forall>t \<in> set fired. dhas results t" using assms by auto
  show "\<exists>m. group_outcome g task results = Inl (Exn TopologyError m)"
  proof (cases "length fired = 1")
    case True
    then obtain t where "fired = [t]" by (auto simp: length_Suc_conv)
    then show ?thesis using assms b by (auto simp: group_outcome_def)
  next
    case False
    have "length fired \<noteq> 0" using b by auto
    then show ?thesis
      using leaf_results_Batch [OF b has, of "[]"] group_outcome_many [OF _ False assms] by auto
  qed
next
  show "group_outcome g task results = Inr (OneResult r) \<longleftrightarrow>
         (\<exists>t. fired = [t] \<and> dget results t = Some (Single r))"
    unfolding assms group_outcome_def
    by (auto split: list.splits option.splits node_output.splits sum.splits)
next
  assume a: "group_outcome g task results = Inr (ManyResults gr)"
  have n: "length fired \<noteq> 0" "length fired \<noteq> 1"
    using a assms by (auto simp: group_outcome_def length_Suc_conv split: option.splits node_output.splits)
  obtain leaves where l: "leaf_results results fired [] = Inr leaves"
    and gr: "gr = \<lparr> gr_outputs = leaves, gr_metadata = aggregate_group_metadata leaves task \<rparr>"
    using a group_outcome_many [OF n assms, of task] by (auto split: sum.splits)
  have lv: "leaves = fold (store_leaf results) fired []"
    "\<forall>t \<in> set fired. \<exists>r. dget results t = Some (Single r)"
    using l by (simp_all add: leaf_results_Inr)
  have keys: "fst ` set leaves = a_name ` set fired" using fold_store_leaf_keys [OF lv(2), of "[]"] lv(1) by simp
  have ok: "dict_ok leaves" using lv(1) fold_store_leaf_ok by simp
  show "2 \<le> length fired" using n by linarith
  show "dkeys (gr_outputs gr) \<noteq> []" using keys n gr by (auto simp: dkeys_def)
  show "length (gr_outputs gr) = card (a_name ` set fired)"
    using keys ok gr distinct_card [of "map fst leaves"] by (simp add: dict_ok_def)
  show "tokens_used (gr_metadata gr) =
           sum_list (map (\<lambda>r. tokens_used (ar_metadata r)) (dvalues (gr_outputs gr)))"
    by (simp add: gr aggregate_group_metadata_def)
  show "\<forall>f. distinct (map a_name fired) \<and> (\<forall>t \<in> set fired. dget results t = Some (Single (f t)))
            \<longrightarrow> gr_outputs gr = map (\<lambda>t. (a_name t, f t)) fired"
    using fold_store_leaf_distinct [of fired results _ "[]"] lv(1) gr by simp
qed

section \<open>A concrete run\<close>

definition echo_result :: "agent_handle \<Rightarrow> agent_result" where
  "echo_result h =
    \<lparr> ar_output = Some (VStr (ah_agent_name h)), ar_error = None,
      ar_metadata = default_metadata\<lparr>tokens_used := 7\<rparr>, ar_agent_name = ah_agent_name h,
      ar_task_id = ah_task_id h \<rparr>"

definition echo_runtime :: "unit runtime" where
  "echo_runtime =
    \<lparr> r_options = default_options, r_registry = None,
      r_backend = \<lparr> be_name = ''echo'',
        be_spawn = (\<lambda>a t ctx. ret \<lparr> handle_id = ts_id t, ah_agent_name = a_name a,
                                 ah_task_id = ts_id t, ah_backend = ''echo'' \<rparr>),
        be_result = (\<lambda>h. ret (echo_result h)), be_gather = None \<rparr>,
      r_id = ''rt'', r_user_passer = (\<lambda>n c t. Inr c), r_mcp_start = (\<lambda>cs p. None) \<rparr>"

definition echo_start :: "unit rt" where
  "echo_start =
    \<lparr> now = 0, cancel_at = None, budget = None, spawn_count = 0, current_spawn = None,
      emitted = [], mcp = mcp_init, backend_st = () \<rparr>"

definition echo_env :: group_env where
  "echo_env =
    \<lparr> ge_classes = sample_classes, ge_json = (\<lambda>v. ''{}''), ge_str = (\<lambda>v. ''''),
      ge_ids = (\<lambda>a i. (a_name a, a_name a)), ge_order = rev \<rparr>"

definition echo_task :: task_spec where
  "echo_task = \<lparr> ts_id = ''t'', ts_request_id = ''r'', ts_input = ''in'', ts_metadata = [] \<rparr>"

definition echo_node :: "string \<Rightarrow> agent" where
  "echo_node n = sample_node n ''str'' None"

text \<open>\<open>a\<close> feeds \<open>b\<close> and \<open>c\<close>, the edge to \<open>c\<close> has a false condition, \<open>d\<close> follows \<open>c\<close>.\<close>

definition branch_group :: group where
  "branch_group =
    \<lparr> g_name = ''branch'', topology =
       [(echo_node ''a'', Edges [default_edge\<lparr>edge_to := [echo_node ''b'']\<rparr>,
            default_edge\<lparr>edge_to := [echo_node ''c''], edge_condition := Some (\<lambda>v. Inr False)\<rparr>]),
        (echo_node ''b'', OneEdge edge_terminal),
        (echo_node ''c'', OneEdge (default_edge\<lparr>edge_to := [echo_node ''d'']\<rparr>)),
        (echo_node ''d'', OneEdge edge_terminal)] \<rparr>"

lemma branch_init: "group_init sample_classes branch_group = Inr branch_group"
proof -
  have "case group_init sample_classes branch_group of Inr g \<Rightarrow> True | Inl e \<Rightarrow> False" by code_simp
  then show ?thesis by (auto simp: group_init_Inr split: sum.splits)
qed
lemma branch_run:
  "(case fst (run_group echo_env echo_runtime branch_group echo_task echo_start) of
      Inr (OneResult r) \<Rightarrow> ar_agent_name r = ''b'' | _ \<Rightarrow> False)"
  by code_simp

lemma group_run_settles_every_node_witness:
  "\<exists>out results skipped. fst (run_group echo_env echo_runtime branch_group echo_task echo_start) = Inr out
    \<and> set (dkeys results) \<union> set skipped = set (group_agents branch_group)
    \<and> set (dkeys results) \<inter> set skipped = {}
    \<and> group_outcome branch_group echo_task results = Inr out"
proof -
  obtain out t where run: "run_group echo_env echo_runtime branch_group echo_task echo_start = (Inr out, t)"
    using branch_run by (cases "run_group echo_env echo_runtime branch_group echo_task echo_start")
      (auto split: sum.splits)
  have ok: "dict_ok (topology branch_group)"
    by (simp add: dict_ok_def branch_group_def echo_node_def)
  have order: "\<forall>L. set (ge_order echo_env L) = set L" by (simp add: echo_env_def)
  show ?thesis
    using group_run_settles_every_node [OF branch_init ok order run] run by (metis fst_conv)
qed

text \<open>Two terminals of one name: the result keeps one of them.\<close>

definition twin_group :: group where
  "twin_group =
    \<lparr> g_name = ''twins'', topology =
       [(sample_node ''x'' ''A'' None, OneEdge edge_terminal),
        (sample_node ''x'' ''B'' None, OneEdge edge_terminal)] \<rparr>"

definition twin_results :: "(agent, node_output) dict" where
  "twin_results =
    [(sample_node ''x'' ''A'' None, Single (echo_result
        \<lparr> handle_id = ''1'', ah_agent_name = ''x'', ah_task_id = ''1'', ah_backend = ''echo'' \<rparr>)),
     (sample_node ''x'' ''B'' None, Single (echo_result
        \<lparr> handle_id = ''2'', ah_agent_name = ''x'', ah_task_id = ''2'', ah_backend = ''echo'' \<rparr>))]"

lemma group_outcome_shape_witness:
  "\<exists>gr. group_outcome twin_group echo_task twin_results = Inr (ManyResults gr)
     \<and> length (gr_outputs gr) = 1 \<and> length (terminal_nodes twin_group) = 2"
proof -
  have "case group_outcome twin_group echo_task twin_results of
      Inr (ManyResults gr) \<Rightarrow> True | _ \<Rightarrow> False" by code_simp
  then obtain gr where gr: "group_outcome twin_group echo_task twin_results = Inr (ManyResults gr)"
    by (auto split: sum.splits group_output.splits)
  have fired: "filter (\<lambda>t. dhas twin_results t) (terminal_nodes twin_group)
      = [sample_node ''x'' ''A'' None, sample_node ''x'' ''B'' None]"
    by (simp add: terminal_nodes_def group_agents_def dkeys_def twin_group_def outgoing_edges_def
        twin_results_def edge_terminal_def default_edge_def)
  have "card (a_name ` set [sample_node ''x'' ''A'' None, sample_node ''x'' ''B'' None]) = 1"
    by (simp add: sample_node_def)
  then have "length (gr_outputs gr) = 1"
    using group_outcome_shape [OF fired [symmetric], of echo_task _ gr] gr by simp
  moreover have "length (terminal_nodes twin_group) = 2" by code_simp
  ultimately show ?thesis using gr by blast
qed

end
