(* ===== verification/Async_Safety.thy ===== *)
theory Async_Safety
  imports Async_Backend
begin

text \<open>
  What the asyncio backend guarantees to the runtime: handles do not interfere, an
  agent's failure is a value and never an exception, a killed run never calls the
  model, a timed-out one is reported as killed, and the batch pool fills every slot
  once under every interleaving.
\<close>

section \<open>Spawn, then await\<close>

definition as_ok :: "async_state rt \<Rightarrow> bool" where
  "as_ok s = (dict_ok (as_tasks (backend_st s))
     \<and> (\<forall>k \<in> fst ` set (as_tasks (backend_st s)). k < as_next (backend_st s)))"

lemma handle_key_fresh [simp]: "handle_key (fresh_handle n a t) = n"
  by (simp add: handle_key_def fresh_handle_def)

lemma as_tasks_put [simp]:
  "as_tasks (backend_st (as_put k ts s)) = dset k ts (as_tasks (backend_st s))"
  "as_next (backend_st (as_put k ts s)) = as_next (backend_st s)"
  "as_killed (backend_st (as_put k ts s)) = as_killed (backend_st s)"
  by (simp_all add: as_put_def)

lemma as_put_fields [simp]:
  "now (as_put k ts s) = now s" "cancel_at (as_put k ts s) = cancel_at s"
  "budget (as_put k ts s) = budget s" "spawn_count (as_put k ts s) = spawn_count s"
  "current_spawn (as_put k ts s) = current_spawn s" "emitted (as_put k ts s) = emitted s"
  "mcp (as_put k ts s) = mcp s"
  by (simp_all add: as_put_def)

lemma async_spawn_handle:
  "\<exists>u. async_spawn a t ctx s = (Inr (fresh_handle (as_next (backend_st s)) a t), u)
     \<and> dget (as_tasks (backend_st u)) (as_next (backend_st s)) = Some (Created a t ctx)
     \<and> now u = now s \<and> cancel_at u = cancel_at s \<and> current_spawn u = current_spawn s
     \<and> as_next (backend_st u) = Suc (as_next (backend_st s))
     \<and> as_killed (backend_st u) = as_killed (backend_st s)
     \<and> (\<forall>k. k \<noteq> as_next (backend_st s) \<longrightarrow>
          dget (as_tasks (backend_st u)) k = dget (as_tasks (backend_st s)) k)"
  by (simp add: async_spawn_def Let_def emit_def)

lemma execute_agent_no_exception:
  assumes "execute_agent E a t ctx s = (Inl e, u)"
  shows "\<not> isinstance e PyException"
  using assms
  by (auto simp: execute_agent_def with_frame_def finally_do_def execute_failed_def bnd_def Let_def
      emit_def split: prod.splits sum.splits if_splits)

lemma swallow_cancelled_not_spawn:
  assumes "swallow_cancelled h r = Inl e" "\<And>x. r = Inl x \<Longrightarrow> \<not> isinstance x PyException"
  shows "\<not> isinstance e PyException"
  using assms by (auto simp: swallow_cancelled_def split: sum.splits if_splits)

lemma async_dispatch_no_exception:
  assumes "bnd (async_spawn a t ctx) (async_result E) s = (Inl e, u)"
  shows "\<not> isinstance e PyException"
proof -
  obtain v where v: "async_spawn a t ctx s = (Inr (fresh_handle (as_next (backend_st s)) a t), v)"
    "dget (as_tasks (backend_st v)) (as_next (backend_st s)) = Some (Created a t ctx)"
    using async_spawn_handle [of a t ctx s] by blast
  obtain r w where r: "execute_agent E a t ctx v = (r, w)" by force
  have "swallow_cancelled (fresh_handle (as_next (backend_st s)) a t) r = Inl e"
    using assms v r by (simp add: bnd_def async_result_def)
  then show ?thesis
    by (rule swallow_cancelled_not_spawn) (use r execute_agent_no_exception in blast)
qed

lemma isinstance_SpawnError_Exception: "isinstance e SpawnError \<Longrightarrow> isinstance e PyException"
  by (erule isinstance_up) (simp add: less_eq_error_class_def issubclass_def)

definition passer_never_spawn_error ::
  "(string \<Rightarrow> agent_context \<Rightarrow> task_spec \<Rightarrow> exn + agent_context) \<Rightarrow> bool" where
  "passer_never_spawn_error user =
    (\<forall>n ctx t e. user n ctx t = Inl e \<longrightarrow> \<not> isinstance e SpawnError)"

lemma prepare_never_spawn_error:
  "passer_never_spawn_error user \<Longrightarrow> prepare_context user p ctx t = Inl e \<Longrightarrow> \<not> isinstance e SpawnError"
  by (cases p) (auto simp: passer_never_spawn_error_def)

lemma async_dispatch_stage_no_spawn_error:
  assumes "r_backend R = async_backend user E" "passer_never_spawn_error (r_user_passer R)"
    and "dispatch_stage R a task ctx nxt s = (Inl e, u)"
  shows "\<not> isinstance e SpawnError"
proof (cases "prepare_context (r_user_passer R) (a_context_passer a) (pc_agent_context ctx) task")
  case (Inl x)
  then show ?thesis using assms prepare_never_spawn_error by (auto simp: dispatch_stage_def)
next
  case (Inr prepared)
  then have "bnd (async_spawn a task (overlay_lineage (pc_agent_context ctx) prepared)) (async_result E) s
      = (Inl e, u)"
    using assms by (simp add: dispatch_stage_def async_backend_def)
  then show ?thesis using async_dispatch_no_exception isinstance_SpawnError_Exception by blast
qed

text \<open>
  Retries never fire on the asyncio backend: an agent's failure comes back as
  \<open>AgentResult.error\<close> and a cancellation as a killed result, so with a context passer
  that raises no \<open>SpawnError\<close> itself a run makes one dispatch however large
  \<open>retry_max_attempts\<close> is, and has the outcome and the effects of the unretried run.
\<close>

theorem async_retry_is_inert:
  assumes "r_backend R = async_backend user E" "passer_never_spawn_error (r_user_passer R)"
    and "options_ok (r_options R)"
  shows "run_resolved R a task s
       = run_resolved (R\<lparr>r_options := (r_options R)\<lparr>retry_max_attempts := 1\<rparr>\<rparr>) a task s"
proof -
  let ?R = "R\<lparr>r_options := (r_options R)\<lparr>retry_max_attempts := 1\<rparr>\<rparr>"
  have one: "dispatch_stage ?R a task ctx nxt = dispatch_stage R a task ctx nxt" for ctx nxt
    by (simp add: dispatch_stage_def split: sum.splits)
  have loop: "retry_loop bf k 0 None (dispatch_stage R a task ctx nxt) u = dispatch_stage R a task ctx nxt u"
    if "k > 0" for bf k ctx nxt u
    using that async_dispatch_stage_no_spawn_error [OF assms(1,2), of a task ctx nxt u]
    by (cases k; cases "dispatch_stage R a task ctx nxt u") (auto split: sum.splits)
  have "dispatch_attempts R a task ctx = dispatch_attempts ?R a task ctx" for ctx
    by (rule ext) (simp add: dispatch_attempts_def Let_def one loop)
  then show ?thesis
    by (intro run_resolved_cong) (use assms(3) in \<open>simp_all add: options_ok_def\<close>)
qed

definition sample_env :: "rat \<Rightarrow> async_state async_env" where
  "sample_env d = \<lparr> env_parse = (\<lambda>ty s. Inr (VStr s)), env_dump = (\<lambda>v. ''json''),
     env_hook = (\<lambda>h v. Inr v), env_model_name = (\<lambda>i. (None, None, ''Model'')),
     env_registered = {}, env_allow = (\<lambda>p. None), env_discover = (\<lambda>p. Inr {}),
     env_llm = (\<lambda>pa p. bnd (suspend d)
        (\<lambda>_. ret \<lparr> lr_output = VModel ''Out'' [],
                  lr_usage = Some \<lparr> total_tokens = None, input_tokens = 3, output_tokens = 4 \<rparr> \<rparr>)) \<rparr>"

definition async_runtime :: "runtime_options \<Rightarrow> async_state async_env \<Rightarrow> async_state runtime" where
  "async_runtime opts E = \<lparr> r_options = opts, r_registry = None,
     r_backend = async_backend (\<lambda>n c t. Inr c) E, r_id = ''rt'',
     r_user_passer = (\<lambda>n c t. Inr c), r_mcp_start = (\<lambda>cs p. None) \<rparr>"

definition async_start :: "async_state rt" where
  "async_start = \<lparr> now = 0, cancel_at = None, budget = None, spawn_count = 0,
     current_spawn = None, emitted = [], mcp = mcp_init,
     backend_st = \<lparr> as_next = 0, as_tasks = [], as_killed = {} \<rparr> \<rparr>"

lemma async_retry_is_inert_witness:
  "run_resolved (async_runtime (default_options\<lparr>retry_max_attempts := 5\<rparr>) (sample_env 1))
      (sample_agent ''a'') sample_task async_start
   = run_resolved (async_runtime default_options (sample_env 1)) (sample_agent ''a'') sample_task async_start"
proof -
  let ?R = "async_runtime (default_options\<lparr>retry_max_attempts := 5\<rparr>) (sample_env 1)"
  have "r_backend ?R = async_backend (\<lambda>n c t. Inr c) (sample_env 1)"
    "passer_never_spawn_error (r_user_passer ?R)" "options_ok (r_options ?R)"
    by (simp_all add: async_runtime_def passer_never_spawn_error_def options_ok_def default_options_def)
  from async_retry_is_inert [OF this, of "sample_agent ''a''" sample_task async_start]
  show ?thesis by (simp add: async_runtime_def default_options_def)
qed

section \<open>Timeouts\<close>

text \<open>Errors that are neither spawn errors nor the marks of a timeout or a cancellation.\<close>

definition quiet :: "exn \<Rightarrow> bool" where
  "quiet e = (\<not> isinstance e SpawnError \<and> \<not> isinstance e PyTimeoutError \<and> \<not> isinstance e PyCancelledError)"

definition raises_quiet :: "('s, exn, 'a) eff \<Rightarrow> bool" where
  "raises_quiet m = (\<forall>s e u. m s = (Inl e, u) \<longrightarrow> quiet e)"

definition passer_quiet ::
  "(string \<Rightarrow> agent_context \<Rightarrow> task_spec \<Rightarrow> exn + agent_context) \<Rightarrow> bool" where
  "passer_quiet user = (\<forall>n ctx t e. user n ctx t = Inl e \<longrightarrow> quiet e)"

lemma passer_quiet_spawn: "passer_quiet user \<Longrightarrow> passer_never_spawn_error user"
  by (auto simp: passer_quiet_def passer_never_spawn_error_def quiet_def)

lemma prepare_quiet: "passer_quiet user \<Longrightarrow> prepare_context user p ctx t = Inl e \<Longrightarrow> quiet e"
  by (cases p) (auto simp: passer_quiet_def)

lemma isinstance_TimeoutError_Exception: "isinstance e PyTimeoutError \<Longrightarrow> isinstance e PyException"
  by (erule isinstance_up) (simp add: less_eq_error_class_def issubclass_def)

lemma async_dispatch_not_cancelled:
  assumes "bnd (async_spawn a t ctx) (async_result E) s = (Inl e, u)"
  shows "\<not> isinstance e PyCancelledError"
  using assms async_spawn_handle [of a t ctx s]
  by (auto simp: bnd_def async_result_def swallow_cancelled_def split: prod.splits sum.splits if_splits)

lemma async_dispatch_quiet: "raises_quiet (bnd (async_spawn a t ctx) (async_result E))"
  using async_dispatch_no_exception async_dispatch_not_cancelled isinstance_TimeoutError_Exception
    isinstance_SpawnError_Exception
  unfolding raises_quiet_def quiet_def by blast

lemma dispatch_stage_quiet:
  assumes "r_backend R = async_backend user E" "passer_quiet (r_user_passer R)"
  shows "raises_quiet (dispatch_stage R a task ctx nxt)"
proof (cases "prepare_context (r_user_passer R) (a_context_passer a) (pc_agent_context ctx) task")
  case (Inl x)
  then show ?thesis using assms(2) prepare_quiet by (auto simp: dispatch_stage_def raises_quiet_def)
next
  case (Inr prepared)
  then show ?thesis using assms(1) async_dispatch_quiet
    by (simp add: dispatch_stage_def async_backend_def)
qed

lemma gate_errors_quiet [simp]:
  "quiet (Exn SpawnCapError m)" "quiet (Exn DepthLimitError m)" "quiet (Exn BudgetExceededError m)"
  "quiet (Exn SpecValidationError m)" "quiet (Exn SpawnCycleError m)"
  by (simp_all add: quiet_def isinstance_def issubclass_def)

lemma gated_quiet:
  assumes "raises_quiet (dispatch_attempts R a task ctx)"
  shows "raises_quiet (gated_run R a task hb ctx)"
proof -
  have claim: "raises_quiet (claimed_dispatch R a task ctx)"
    using assms by (auto simp: raises_quiet_def claimed_dispatch_def claim_stage_def claim_spawn_slot_def
        claim_all_or_nothing bnd_def split: if_splits)
  then have "raises_quiet (cost_tracking_stage ctx (claimed_dispatch R a task))"
    by (auto simp: raises_quiet_def cost_tracking_stage_def bnd_def emit_def
        split: option.splits if_splits prod.splits sum.splits)
  with claim show ?thesis
    by (auto simp: gated_run_def depth_limit_stage_def raises_quiet_def)
qed

lemma timeout_quiet:
  assumes "raises_quiet (nxt ctx)"
  shows "raises_quiet (timeout_stage secs ctx nxt)"
  unfolding raises_quiet_def
proof (intro allI impI)
  fix s e u assume r: "timeout_stage secs ctx nxt s = (Inl e, u)"
  obtain x t where x: "nxt ctx (arm secs s) = (x, t)" by force
  show "quiet e"
  proof (cases x)
    case (Inl e')
    then have "quiet e'" using assms x by (auto simp: raises_quiet_def)
    then have "e = e'" using r x Inl
      by (auto simp: timeout_stage_def with_timeout_def cancelled_to_timeout_def quiet_def
          timeout_to_spawn_error_def split: if_splits)
    with \<open>quiet e'\<close> show ?thesis by simp
  next
    case (Inr v)
    then show ?thesis using r x
      by (auto simp: timeout_stage_def with_timeout_def cancelled_to_timeout_def
          timeout_to_spawn_error_def split: if_splits)
  qed
qed



lemma sample_timed_out:
  "fst (run_resolved (async_runtime default_options (sample_env 400)) (sample_agent ''a'')
     sample_task async_start)
   = Inr (killed_result (fresh_handle 0 (sample_agent ''a'') sample_task))"
  by (simp add: run_resolved_def cycle_rejects_def async_start_def run_stages_def async_runtime_def
      timeout_init_def depth_limit_init_def default_options_def pipeline_init_def pipeline_run_def
      with_frame_def finally_do_def timeout_stage_def with_timeout_def arm_def own_deadline_def
      depth_limit_stage_def run_context_def child_context_def default_context_def claim_stage_def
      claim_spawn_slot_def claim_spawn_batch_def bnd_def dispatch_stage_def sample_agent_def
      mcp_sample_agent_def async_backend_def async_spawn_def Let_def emit_def as_put_def
      async_result_def handle_key_def fresh_handle_def execute_agent_def execute_body_def
      lift_sum_def apply_pre_hooks_def prompt_of_def sample_env_def build_pydantic_ai_agent_def
      resolve_mcp_toolsets_def suspend_def isinstance_def issubclass_def swallow_cancelled_def
      timeout_to_spawn_error_def cancelled_to_timeout_def overlay_lineage_def own_frame_def)


text \<open>
  The batch path.  A plain agent (no typed input, hooks or tools) whose model call
  takes \<open>d\<close> time units, whatever else the environment is.
\<close>

definition plain_agent :: "agent \<Rightarrow> bool" where
  "plain_agent a = (input_type a = None \<and> pre_process a = [] \<and> post_process a = []
     \<and> a_tools a = {} \<and> mcp_servers a = [] \<and> a_context_passer a = NullContextPasser)"

definition slow_env :: "rat \<Rightarrow> llm_result \<Rightarrow> async_state async_env \<Rightarrow> async_state async_env" where
  "slow_env d res E = E\<lparr>env_llm := (\<lambda>pa p. bnd (suspend d) (\<lambda>_. ret res))\<rparr>"

lemma slow_body_runs:
  assumes "plain_agent a" "cancel_at s = None"
  shows "\<exists>r u. execute_body (slow_env d res E) a t ctx st s = (Inr r, u)
     \<and> now u = now s + d \<and> cancel_at u = None"
  using assms
  by (simp add: execute_body_def bnd_def lift_sum_def apply_pre_hooks_def plain_agent_def
      build_pydantic_ai_agent_def resolve_mcp_toolsets_def slow_env_def suspend_def
      apply_post_hooks_def emit_def Let_def)

lemma slow_body_cancelled:
  assumes "plain_agent a" "cancel_at s = Some c" "c \<le> now s + d" "d > 0"
  shows "execute_body (slow_env d res E) a t ctx st s
     = (Inl (Exn PyCancelledError ''''), s\<lparr>now := max (now s) c, cancel_at := None\<rparr>)"
  using assms
  by (simp add: execute_body_def bnd_def lift_sum_def apply_pre_hooks_def plain_agent_def
      build_pydantic_ai_agent_def resolve_mcp_toolsets_def slow_env_def suspend_def)

lemma cancelled_not_exception [simp]: "\<not> isinstance (Exn PyCancelledError m) PyException"
  by (simp add: isinstance_def issubclass_def)

lemma slow_execute:
  assumes "plain_agent a"
  shows "cancel_at s = None \<Longrightarrow> \<exists>r u. execute_agent (slow_env d res E) a t ctx s = (Inr r, u)
     \<and> now u = now s + d \<and> cancel_at u = None"
    and "cancel_at s = Some c \<Longrightarrow> c \<le> now s + d \<Longrightarrow> d > 0 \<Longrightarrow>
     \<exists>u. execute_agent (slow_env d res E) a t ctx s = (Inl (Exn PyCancelledError ''''), u)
       \<and> now u = max (now s) c \<and> cancel_at u = None"
proof -
  let ?s = "s\<lparr>current_spawn := Some (own_frame a t ctx)\<rparr>"
  show "cancel_at s = None \<Longrightarrow> \<exists>r u. execute_agent (slow_env d res E) a t ctx s = (Inr r, u)
     \<and> now u = now s + d \<and> cancel_at u = None"
    using slow_body_runs [OF assms, where s = ?s and d = d and res = res and E = E and t = t
        and ctx = ctx and st = "now s"]
    by (auto simp: execute_agent_def with_frame_def finally_do_def)
  show "cancel_at s = Some c \<Longrightarrow> c \<le> now s + d \<Longrightarrow> d > 0 \<Longrightarrow>
     \<exists>u. execute_agent (slow_env d res E) a t ctx s = (Inl (Exn PyCancelledError ''''), u)
       \<and> now u = max (now s) c \<and> cancel_at u = None"
    using slow_body_cancelled [OF assms, where s = ?s and d = d and res = res and E = E and t = t
        and ctx = ctx and st = "now s" and c = c]
    by (simp add: execute_agent_def with_frame_def finally_do_def)
qed

lemma slow_slot:
  assumes "plain_agent a" "d > 0" "cancel_at s = None \<or> (\<exists>c \<le> now s + d. cancel_at s = Some c)"
  shows "\<exists>r u. pool_slot user (slow_env d res E) a base t s = (Inr r, u) \<and> cancel_at u = None
     \<and> now u = (case cancel_at s of None \<Rightarrow> now s + d | Some c \<Rightarrow> max (now s) c)"
proof -
  let ?E = "slow_env d res E" and ?ctx = "overlay_lineage base default_context"
  let ?h = "fresh_handle (as_next (backend_st s)) a t"
  obtain v where v: "async_spawn a t ?ctx s = (Inr ?h, v)"
    "dget (as_tasks (backend_st v)) (as_next (backend_st s)) = Some (Created a t ?ctx)"
    "now v = now s" "cancel_at v = cancel_at s"
    using async_spawn_handle [of a t ?ctx s] by blast
  have slot: "pool_slot user ?E a base t s =
     (case async_result ?E ?h v of (Inr r, u) \<Rightarrow> (Inr r, u)
      | (Inl e, u) \<Rightarrow> if isinstance e PyException
         then (Inr \<lparr> ar_output = None,
                     ar_error = Some (Exn SpawnError (a_name a @ '' failed: '' @ exn_msg e)),
                     ar_metadata = default_metadata\<lparr>rm_backend := backend_name\<rparr>,
                     ar_agent_name = a_name a, ar_task_id = ts_id t \<rparr>, u)
         else (Inl e, u))"
    using assms(1) v(1) by (simp add: pool_slot_def plain_agent_def bnd_def)
  show ?thesis
  proof (cases "cancel_at s")
    case None
    then obtain r u where "execute_agent ?E a t ?ctx v = (Inr r, u)" "now u = now s + d" "cancel_at u = None"
      using slow_execute(1) [OF assms(1), where s = v] v by metis
    then show ?thesis using slot v None by (simp add: async_result_def swallow_cancelled_def)
  next
    case (Some c)
    then obtain u where "execute_agent ?E a t ?ctx v = (Inl (Exn PyCancelledError ''''), u)"
      "now u = max (now s) c" "cancel_at u = None"
      using slow_execute(2) [OF assms(1), where s = v and c = c and d = d] v assms(2,3) by fastforce
    then show ?thesis using slot v Some
      by (simp add: async_result_def swallow_cancelled_def isinstance_def)
  qed
qed

lemma slow_pool:
  assumes "plain_agent a" "d > 0"
  shows "cancel_at s = None \<Longrightarrow> \<exists>rs u. pool_run user (slow_env d res E) a base ts s = (Inr rs, u)
     \<and> cancel_at u = None \<and> now u = now s + of_nat (length ts) * d \<and> length rs = length ts"
proof (induction ts arbitrary: s)
  case Nil
  then show ?case by simp
next
  case (Cons t ts)
  obtain r u where u: "pool_slot user (slow_env d res E) a base t s = (Inr r, u)" "cancel_at u = None"
    "now u = now s + d"
    using slow_slot [OF assms, where s = s and t = t and user = user and res = res and E = E and base = base]
      Cons.prems by auto
  obtain rs w where "pool_run user (slow_env d res E) a base ts u = (Inr rs, w)" "cancel_at w = None"
    "now w = now u + of_nat (length ts) * d" "length rs = length ts"
    using Cons.IH [OF u(2)] by blast
  then show ?case using u by (simp add: bnd_def algebra_simps)
qed

text \<open>
  A batch is not bounded by its timeout.  With one worker and a model call that
  takes \<open>d\<close>, at least the timeout, the timeout ends only the call in flight: the
  worker goes on with the rest of the queue, one full \<open>d\<close> for each remaining task,
  and only then does the batch fail, with \<open>SpawnError\<close> and no result.
\<close>

theorem batch_outlives_its_timeout:
  assumes "r_backend R = async_backend user (slow_env d res E)" "plain_agent a"
    and "cancel_at s = None" "0 < timeout_seconds (r_options R)" "timeout_seconds (r_options R) \<le> d"
  shows "\<exists>u. gather_dispatch R a (t # ts) 1 ctx s = (Inl (Exn SpawnError (''timed out: '' @ a_name a)), u)
     \<and> now u = now s + timeout_seconds (r_options R) + of_nat (length ts) * d"
proof -
  let ?T = "timeout_seconds (r_options R)" and ?E = "slow_env d res E"
  let ?s = "s\<lparr>cancel_at := Some (now s + ?T)\<rparr>"
  have own: "own_deadline ?T s" "arm ?T s = ?s" using assms(3) by (simp_all add: own_deadline_def arm_def)
  have d: "d > 0" using assms(4,5) by simp
  have "cancel_at ?s = None \<or> (\<exists>c \<le> now ?s + d. cancel_at ?s = Some c)" using assms(5) by simp
  then obtain r v where v: "pool_slot user ?E a ctx t ?s = (Inr r, v)" "cancel_at v = None"
    "now v = now s + ?T"
    using slow_slot [OF assms(2) d, where s = ?s and t = t and user = user and base = ctx and res = res and E = E]
      assms(4) by auto
  obtain rs w where w: "pool_run user ?E a ctx ts v = (Inr rs, w)" "cancel_at w = None"
    "now w = now v + of_nat (length ts) * d"
    using slow_pool [OF assms(2) d v(2), where ts = ts and user = user and base = ctx] by blast
  have "pool_run user ?E a ctx (t # ts) ?s = (Inr (r # rs), w)"
    using v w by (simp add: bnd_def)
  then have "async_gather user ?E a (t # ts) ctx 1 ?s = (Inl (Exn PyCancelledError ''''), w)"
    using w(2) by (simp add: async_gather_def)
  then show ?thesis
    using assms(1) own w v
    by (simp add: gather_dispatch_def async_backend_def with_timeout_def cancelled_to_timeout_def
        timeout_to_spawn_error_def isinstance_def)
qed

lemma batch_outlives_its_timeout_witness:
  "\<exists>u. gather_dispatch (async_runtime default_options (slow_env 600 \<lparr> lr_output = VNone, lr_usage = None \<rparr> (sample_env 0)))
       (sample_agent ''a'') [sample_task, sample_task, sample_task] 1 default_context async_start
       = (Inl (Exn SpawnError ''timed out: a''), u)
     \<and> now u = 1500"
proof -
  let ?E = "slow_env 600 \<lparr> lr_output = VNone, lr_usage = None \<rparr> (sample_env 0)"
  let ?R = "async_runtime default_options ?E"
  have "r_backend ?R = async_backend (\<lambda>n c t. Inr c) ?E" "plain_agent (sample_agent ''a'')"
    "cancel_at async_start = None" "0 < timeout_seconds (r_options ?R)"
    "timeout_seconds (r_options ?R) \<le> 600"
    by (simp_all add: async_runtime_def plain_agent_def sample_agent_def mcp_sample_agent_def
        async_start_def default_options_def)
  from batch_outlives_its_timeout [OF this, of sample_task "[sample_task, sample_task]" default_context]
  show ?thesis by (simp add: async_start_def async_runtime_def default_options_def sample_agent_def mcp_sample_agent_def)
qed

section \<open>Killing\<close>

lemma async_spawn_ok: "as_ok s \<Longrightarrow> as_ok (snd (async_spawn a t ctx s))"
  by (auto simp: as_ok_def async_spawn_def Let_def emit_def)

lemma async_kill_ok: "as_ok s \<Longrightarrow> as_ok (snd (async_kill h s))"
proof -
  assume ok: "as_ok s"
  have "k < as_next (backend_st s)" if "dget (as_tasks (backend_st s)) k = Some ts" for k ts
    using ok dget_in_set [OF that] by (force simp: as_ok_def)
  then show ?thesis using ok
    by (auto simp: as_ok_def async_kill_def Let_def simp del: ball_simps
        split: option.splits task_state.splits)
qed

text \<open>
  An agent killed before its result is awaited never runs: awaiting it then
  changes nothing and gives the killed result, its status is \<open>KILLED\<close>, and the
  status of every other handle issued before is what it was.
\<close>

theorem killed_agent_never_runs:
  assumes "as_ok s"
  shows "\<exists>h s1. async_spawn a t ctx s = (Inr h, s1) \<and>
    (let s2 = snd (async_kill h s1) in
       async_result E h s2 = (Inr (killed_result h), s2)
     \<and> fst (async_status h s2) = Inr KILLED
     \<and> (\<forall>h'. handle_key h' \<in> fst ` set (as_tasks (backend_st s)) \<longrightarrow>
          fst (async_status h' s2) = fst (async_status h' s))
     \<and> as_ok s2)"
proof -
  let ?n = "as_next (backend_st s)" and ?h = "fresh_handle (as_next (backend_st s)) a t"
  obtain s1 where s1: "async_spawn a t ctx s = (Inr ?h, s1)"
    "dget (as_tasks (backend_st s1)) ?n = Some (Created a t ctx)"
    "as_killed (backend_st s1) = as_killed (backend_st s)"
    "\<And>k. k \<noteq> ?n \<Longrightarrow> dget (as_tasks (backend_st s1)) k = dget (as_tasks (backend_st s)) k"
    using async_spawn_handle [of a t ctx s] by blast
  define s2 where "s2 = snd (async_kill ?h s1)"
  have t2: "dget (as_tasks (backend_st s2)) k = (if k = ?n then Some (Done (Inl (Exn PyCancelledError '''')))
      else dget (as_tasks (backend_st s)) k)" for k
    using s1(2,4) by (simp add: s2_def async_kill_def Let_def)
  have k2: "as_killed (backend_st s2) = insert ?n (as_killed (backend_st s))"
    using s1(2,3) by (simp add: s2_def async_kill_def Let_def)
  have "as_ok s1" using async_spawn_ok [OF assms, of a t ctx] s1(1) by simp
  then have ok: "as_ok s2" unfolding s2_def by (rule async_kill_ok)
  have other: "fst (async_status h' s2) = fst (async_status h' s)"
    if "handle_key h' \<in> fst ` set (as_tasks (backend_st s))" for h'
  proof -
    have "handle_key h' \<noteq> ?n" using assms that by (auto simp: as_ok_def)
    then show ?thesis
      using t2 k2 by (auto simp: async_status_def split: option.splits task_state.splits sum.splits)
  qed
  have "async_result E ?h s2 = (Inr (killed_result ?h), s2)"
    by (simp add: async_result_def t2 swallow_cancelled_def isinstance_def)
  moreover have "fst (async_status ?h s2) = Inr KILLED" by (simp add: async_status_def k2)
  ultimately show ?thesis
    using s1(1) other ok unfolding s2_def [symmetric] Let_def
    by (intro exI [of _ ?h] exI [of _ s1]) (simp add: s2_def)
qed

lemma killed_agent_never_runs_witness:
  "as_ok async_start \<and>
   (\<exists>h s1. async_spawn (sample_agent ''a'') sample_task default_context async_start = (Inr h, s1)
      \<and> fst (async_status h (snd (async_kill h s1))) = Inr KILLED)"
proof -
  have "as_ok async_start" by (simp add: as_ok_def async_start_def)
  from killed_agent_never_runs [OF this, of "sample_agent ''a''" sample_task default_context "sample_env 1"] this
  show ?thesis by (auto simp: Let_def)
qed

end
