(* ===== verification/Cascade.thy ===== *)
theory Cascade
  imports Async_Safety
begin

text \<open>
  Cascading spawns: an agent whose tool loop calls \<open>runtime.run\<close> for a child, whose
  tool loop may do the same.  An agent's behaviour is a program of model time and
  child runs; the runtime is unrolled \<open>n\<close> levels deep, the innermost level being one
  whose agents cannot run at all.  The depth gate makes \<open>max_spawn_depth\<close> levels
  enough for every behaviour, and the invariants of a run hold for whole cascades.
\<close>

datatype prog =
    Finish llm_result
  | Fail exn
  | Sleep rat prog
  | Spawn agent task_spec "exn + agent_result \<Rightarrow> prog"

primrec interp ::
  "(agent \<Rightarrow> task_spec \<Rightarrow> ('b rt, exn, agent_result) eff) \<Rightarrow> prog \<Rightarrow> ('b rt, exn, llm_result) eff" where
  "interp call (Finish r) = ret r"
| "interp call (Fail e) = raise e"
| "interp call (Sleep d p) = bnd (suspend d) (\<lambda>_. interp call p)"
| "interp call (Spawn a t k) = (\<lambda>s. case call a t s of (r, u) \<Rightarrow> interp call (k r) u)"

definition out_of_levels :: exn where
  "out_of_levels = Exn (PyOther ''RecursionError'') ''''"

fun cascade_runtime ::
  "nat \<Rightarrow> runtime_options \<Rightarrow> async_state async_env \<Rightarrow> (pa_agent \<Rightarrow> string \<Rightarrow> prog) \<Rightarrow> async_state runtime" where
  "cascade_runtime 0 opts E brain = async_runtime opts (E\<lparr>env_llm := (\<lambda>pa p. raise out_of_levels)\<rparr>)"
| "cascade_runtime (Suc n) opts E brain =
     async_runtime opts
       (E\<lparr>env_llm := (\<lambda>pa p. interp (\<lambda>a t. run (cascade_runtime n opts E brain) (ByAgent a) t) (brain pa p))\<rparr>)"

section \<open>Invariants of whole cascades\<close>

text \<open>
  An invariant of the state that asks nothing of the clock, the frame, the events,
  the providers or the backend's own tables.
\<close>

locale cascade_invariant =
  fixes P :: "async_state rt \<Rightarrow> bool" and opts :: runtime_options
  assumes P_claim: "max_total_spawns opts = cap \<Longrightarrow> k > 0 \<Longrightarrow>
      (\<forall>c. cap = Some c \<longrightarrow> spawn_count s + k \<le> c) \<Longrightarrow> P s \<Longrightarrow> P (s\<lparr>spawn_count := spawn_count s + k\<rparr>)"
    and P_charge: "k > 0 \<Longrightarrow> P s \<Longrightarrow> P (charge k s)"
    and P_other: "P s \<Longrightarrow>
      P (s\<lparr>now := tm, cancel_at := ca, current_spawn := f, emitted := es, mcp := m, backend_st := b\<rparr>)"
begin

lemma P_fields:
  assumes "P s"
  shows "P (s\<lparr>now := tm\<rparr>)" "P (s\<lparr>cancel_at := ca\<rparr>)" "P (s\<lparr>current_spawn := f\<rparr>)"
    "P (s\<lparr>emitted := es\<rparr>)" "P (s\<lparr>backend_st := b\<rparr>)" "P (s\<lparr>now := tm, cancel_at := ca\<rparr>)"
    "P (s\<lparr>emitted := es, backend_st := b\<rparr>)"
  using P_other [OF assms, where tm = tm and ca = "cancel_at s" and f = "current_spawn s" and es = "emitted s" and m = "mcp s" and b = "backend_st s"]
    P_other [OF assms, where tm = "now s" and ca = ca and f = "current_spawn s" and es = "emitted s" and m = "mcp s" and b = "backend_st s"]
    P_other [OF assms, where tm = "now s" and ca = "cancel_at s" and f = f and es = "emitted s" and m = "mcp s" and b = "backend_st s"]
    P_other [OF assms, where tm = "now s" and ca = "cancel_at s" and f = "current_spawn s" and es = es and m = "mcp s" and b = "backend_st s"]
    P_other [OF assms, where tm = "now s" and ca = "cancel_at s" and f = "current_spawn s" and es = "emitted s" and m = "mcp s" and b = b]
    P_other [OF assms, where tm = tm and ca = ca and f = "current_spawn s" and es = "emitted s" and m = "mcp s" and b = "backend_st s"]
    P_other [OF assms, where tm = "now s" and ca = "cancel_at s" and f = "current_spawn s" and es = es and m = "mcp s" and b = b]
  by simp_all

lemma emit_P: "keeps P (emit e)"
  by (simp add: emit_def keeps_modify P_fields)

lemma suspend_P: "keeps P (suspend d)"
  by (auto simp: keeps_def suspend_def P_fields split: option.splits)

lemma spawn_P: "keeps P (async_spawn a t ctx)"
  by (simp add: keeps_def async_spawn_def Let_def emit_def as_put_def P_fields)

lemma body_P:
  assumes "\<And>pa p. keeps P (env_llm E pa p)"
  shows "keeps P (execute_body E a t ctx st)"
proof -
  have lift: "keeps P (lift_sum r)" for r :: "exn + 'c" by (simp add: keeps_def lift_sum_def)
  show ?thesis
    unfolding execute_body_def Let_def by (intro keeps_bnd lift assms keeps_gets emit_P keeps_ret)
qed

lemma failed_P: "keeps P (execute_failed a t ctx st e)"
  unfolding execute_failed_def Let_def by (intro keeps_bnd keeps_gets emit_P keeps_ret)

lemma execute_P:
  assumes "\<And>pa p. keeps P (env_llm E pa p)"
  shows "keeps P (execute_agent E a t ctx)"
proof (rule keepsI)
  fix s assume "P s"
  let ?s = "s\<lparr>current_spawn := Some (own_frame a t ctx)\<rparr>"
  obtain r u where b: "execute_body E a t ctx (now s) ?s = (r, u)" by force
  have u: "P u" using keepsD [OF body_P [OF assms] _ b] \<open>P s\<close> by (simp add: P_fields)
  show "P (snd (execute_agent E a t ctx s))"
    using b u failed_P by (auto simp: execute_agent_def keeps_def P_fields split: sum.splits)
qed

lemma result_P:
  assumes "\<And>pa p. keeps P (env_llm E pa p)"
  shows "keeps P (async_result E h)"
proof (rule keepsI)
  fix s assume "P s"
  have "P (as_put k ts (snd (execute_agent E a t ctx s)))" for k ts a t ctx
    using execute_P [OF assms] \<open>P s\<close> by (simp add: keeps_def as_put_def P_fields)
  then show "P (snd (async_result E h s))"
    using \<open>P s\<close>
    by (auto simp: async_result_def split_beta split: option.splits task_state.splits)
qed

lemma slot_P:
  assumes "\<And>pa p. keeps P (env_llm E pa p)"
  shows "keeps P (pool_slot user E a base t)"
proof -
  have "keeps P (bnd (async_spawn a t ctx) (async_result E))" for ctx
    using spawn_P result_P [OF assms] by blast
  then show ?thesis
    by (auto simp: keeps_def pool_slot_def split: sum.splits prod.splits) (metis snd_conv)+
qed

lemma pool_P:
  assumes "\<And>pa p. keeps P (env_llm E pa p)"
  shows "keeps P (pool_run user E a base ts)"
proof (induction ts)
  case Nil
  then show ?case by (simp add: keeps_def)
next
  case (Cons t ts)
  have "keeps P (bnd (pool_slot user E a base t) (\<lambda>r. bnd (pool_run user E a base ts) (\<lambda>rs. ret (r # rs))))"
    using Cons slot_P [OF assms] by (intro keeps_bnd keeps_ret) auto
  then show ?case by (simp add: keeps_def)
qed

lemma gather_P:
  assumes "\<And>pa p. keeps P (env_llm E pa p)"
  shows "keeps P (async_gather user E a ts base mc)"
  using pool_P [OF assms, of user a base ts] by (auto simp: keeps_def async_gather_def split: prod.splits)

lemma runtime_P:
  assumes "\<And>pa p. keeps P (env_llm E pa p)"
  shows "runtime_invariant (async_runtime opts E) P"
proof
  have be: "r_backend (async_runtime opts E) = async_backend (\<lambda>n c t. Inr c) E"
    "r_options (async_runtime opts E) = opts"
    by (simp_all add: async_runtime_def)
  show "keeps P (be_spawn (r_backend (async_runtime opts E)) a t ctx)" for a t ctx
    using spawn_P by (simp add: be async_backend_def)
  show "keeps P (be_result (r_backend (async_runtime opts E)) h)" for h
    using result_P [OF assms] by (simp add: be async_backend_def)
  show "be_gather (r_backend (async_runtime opts E)) = Some g \<Longrightarrow> keeps P (g a ts ctx mc)" for g a ts ctx mc
    using gather_P [OF assms] by (auto simp: be async_backend_def)
  show "keeps P (claim_spawn_batch (async_runtime opts E) n k)" for n k
    using P_claim by (auto simp: keeps_def claim_all_or_nothing cap_exhausted_def be split: option.splits)
  show "k > 0 \<Longrightarrow> P s \<Longrightarrow> P (charge k s)" for k s by (rule P_charge)
  show "P s \<Longrightarrow> P (s\<lparr>now := tm, cancel_at := ca, current_spawn := f, emitted := es, mcp := m\<rparr>)"
    for s tm ca f es m
    using P_other [where s = s and b = "backend_st s"] by simp
qed

lemma interp_P: "(\<And>a t. keeps P (call a t)) \<Longrightarrow> keeps P (interp call p)"
proof (induction p)
  case (Sleep d p)
  then show ?case using suspend_P by auto
next
  case (Spawn a t k)
  show ?case
  proof (rule keepsI)
    fix s assume "P s"
    obtain r u where u: "call a t s = (r, u)" by force
    then have "P u" using keepsD [OF Spawn.prems \<open>P s\<close>] by blast
    moreover have "keeps P (interp call (k r))" using Spawn by (simp add: rangeI)
    ultimately show "P (snd (interp call (Spawn a t k) s))" using u by (simp add: keeps_def)
  qed
qed simp_all

lemma cascade_P: "runtime_invariant (cascade_runtime n opts E brain) P"
proof (induction n)
  case 0
  then show ?case by (simp add: runtime_P)
next
  case (Suc n)
  have "keeps P (run (cascade_runtime n opts E brain) (ByAgent a) t)" for a t
    using runtime_invariant.run_keeps [OF Suc.IH] .
  then show ?case by (simp add: runtime_P interp_P)
qed

end

text \<open>Every level of a cascade keeps such an invariant, and with it all that follows for a runtime.\<close>

sublocale cascade_invariant \<subseteq> tower: runtime_invariant "cascade_runtime n opts E brain" P for n E brain
  by (rule cascade_P)

interpretation cascade_cap: cascade_invariant "cap_inv opts" opts for opts
proof
  show "max_total_spawns opts = cap \<Longrightarrow> k > 0 \<Longrightarrow> (\<forall>c. cap = Some c \<longrightarrow> spawn_count s + k \<le> c) \<Longrightarrow>
      cap_inv opts s \<Longrightarrow> cap_inv opts (s\<lparr>spawn_count := spawn_count s + k\<rparr>)" for cap k and s :: "async_state rt"
    by (auto simp: cap_inv_def split: option.splits)
  show "k > 0 \<Longrightarrow> cap_inv opts s \<Longrightarrow> cap_inv opts (charge k s)" for k and s :: "async_state rt"
    by (rule cap_inv_charge)
  show "cap_inv opts s \<Longrightarrow> cap_inv opts (s\<lparr>now := tm, cancel_at := ca, current_spawn := f, emitted := es,
      mcp := m, backend_st := b\<rparr>)" for tm ca f es m b and s :: "async_state rt"
    by (simp add: cap_inv_def split: option.splits)
qed

definition budget_below :: "int \<Rightarrow> async_state rt \<Rightarrow> bool" where
  "budget_below r s = (case budget s of None \<Rightarrow> True | Some b \<Rightarrow> budget_remaining b \<le> r)"

interpretation cascade_budget: cascade_invariant "budget_below r" opts for r opts
  by unfold_locales
    (auto simp: budget_below_def charge_def budget_consume_def split: option.splits)



section \<open>The depth limit bounds the nesting\<close>

lemma run_restores_frame: "current_spawn (snd (run R ref t s)) = current_spawn s"
proof -
  let ?P = "\<lambda>u. current_spawn u = current_spawn s"
  have "keeps ?P (resolve_agent R ref)"
    by (auto simp: keeps_def resolve_agent_def split: sum.splits)
  moreover have "keeps ?P (warm_providers R a)" "keeps ?P (run_resolved R a t)" for a
    by (simp_all add: keeps_def warm_providers_def on_mcp_def run_frame_restored split: prod.splits)
  ultimately have "keeps ?P (run R ref t)" unfolding run_def by blast
  then show ?thesis by (simp add: keeps_def)
qed

lemma interp_cong:
  assumes "\<And>a t s. current_spawn s = f \<Longrightarrow> call a t s = call' a t s"
    and "\<And>a t s. current_spawn (snd (call a t s)) = current_spawn s"
  shows "current_spawn s = f \<Longrightarrow> interp call p s = interp call' p s"
proof (induction p arbitrary: s)
  case (Sleep d p)
  show ?case
  proof (cases "suspend d s")
    case (Pair r u)
    then have "current_spawn u = f" using suspend_unchanged Sleep.prems by blast
    then show ?thesis using Pair Sleep.IH by (simp add: bnd_def split: sum.splits)
  qed
next
  case (Spawn a t k)
  obtain r u where u: "call a t s = (r, u)" by force
  then have "current_spawn u = f" using assms(2) [of a t s] Spawn.prems by simp
  then show ?case using Spawn u assms(1) [OF Spawn.prems, of a t] by (simp add: rangeI)
qed simp_all

lemma execute_agent_cong:
  assumes "E' = E\<lparr>env_llm := llm\<rparr>"
    and "\<And>pa p u. current_spawn u = Some (own_frame a t ctx) \<Longrightarrow> env_llm E pa p u = llm pa p u"
  shows "execute_agent E a t ctx s = execute_agent E' a t ctx s"
proof -
  have pre: "apply_pre_hooks E' = apply_pre_hooks E" and post: "apply_post_hooks E' = apply_post_hooks E"
    by (auto simp: assms(1) fun_eq_iff apply_pre_hooks_def apply_post_hooks_def prompt_of_def
        split: sum.splits option.splits pyval.splits)
  have env: "env_registered E' = env_registered E" "env_allow E' = env_allow E"
    "env_discover E' = env_discover E" "env_model_name E' = env_model_name E" "env_llm E' = llm"
    by (simp_all add: assms(1))
  have lift: "bnd (lift_sum x) g u = (case x of Inl e \<Rightarrow> (Inl e, u) | Inr v \<Rightarrow> g v u)"
    for x and g :: "'c \<Rightarrow> ('a rt, exn, agent_result) eff" and u
    by (simp add: bnd_def lift_sum_def split: sum.splits)
  have "execute_body E a t ctx st u = execute_body E' a t ctx st u"
    if "current_spawn u = Some (own_frame a t ctx)" for st u
  proof -
    have "bnd (env_llm E pa p) g u = bnd (llm pa p) g u"
      for pa p and g :: "llm_result \<Rightarrow> ('a rt, exn, agent_result) eff"
      using assms(2) [OF that, of pa p] by (simp add: bnd_def)
    then show ?thesis unfolding execute_body_def pre post env lift by (simp split: sum.splits)
  qed
  then show ?thesis by (simp add: execute_agent_def with_frame_def finally_do_def)
qed

lemma async_dispatch_cong:
  assumes "E' = E\<lparr>env_llm := llm\<rparr>"
    and "\<And>pa p u f. current_spawn u = Some f \<Longrightarrow> depth (sf_agent_context f) = depth (pc_agent_context ctx) \<Longrightarrow>
      env_llm E pa p u = llm pa p u"
  shows "dispatch_stage (async_runtime opts E) a task ctx nxt = dispatch_stage (async_runtime opts E') a task ctx nxt"
proof (rule ext)
  fix s
  have "bnd (async_spawn a task c) (async_result E) s = bnd (async_spawn a task c) (async_result E') s"
    if "depth c = depth (pc_agent_context ctx)" for c
  proof -
    have "execute_agent E a task c u = execute_agent E' a task c u" for u
      using assms that by (intro execute_agent_cong) (auto simp: own_frame_def)
    then show ?thesis using async_spawn_handle [of a task c s]
      by (auto simp: bnd_def async_result_def)
  qed
  then show "dispatch_stage (async_runtime opts E) a task ctx nxt s
      = dispatch_stage (async_runtime opts E') a task ctx nxt s"
    by (simp add: dispatch_stage_def async_runtime_def async_backend_def overlay_lineage_def split: sum.splits)
qed

lemma run_ByAgent_cong:
  assumes "\<And>s'. current_spawn s' = current_spawn s \<Longrightarrow>
    run_resolved (async_runtime opts E) a t s' = run_resolved (async_runtime opts E') a t s'"
  shows "run (async_runtime opts E) (ByAgent a) t s = run (async_runtime opts E') (ByAgent a) t s"
  using assms
  by (auto simp: run_def bnd_def resolve_agent_def warm_providers_def on_mcp_def async_runtime_def
      split: sum.splits prod.splits)

lemma cascade_runtime_async: "\<exists>llm. cascade_runtime n opts E brain = async_runtime opts (E\<lparr>env_llm := llm\<rparr>)"
  by (cases n) auto

lemma cascade_levels:
  assumes "options_ok opts"
  shows "int n + depth (child_context (current_spawn s)) \<ge> max_spawn_depth opts \<Longrightarrow>
    run_resolved (cascade_runtime n opts E brain) a t s
      = run_resolved (cascade_runtime (n + m) opts E brain) a t s"
proof (induction n arbitrary: a t s)
  case 0
  obtain l l' where "cascade_runtime 0 opts E brain = async_runtime opts (E\<lparr>env_llm := l\<rparr>)"
    "cascade_runtime (0 + m) opts E brain = async_runtime opts (E\<lparr>env_llm := l'\<rparr>)"
    using cascade_runtime_async by metis
  then show ?case using assms 0 by (intro run_resolved_cong) (simp_all add: async_runtime_def)
next
  case (Suc n)
  define llm where "llm k = (\<lambda>pa p. interp (\<lambda>a t. run (cascade_runtime k opts E brain) (ByAgent a) t) (brain pa p))" for k
  have c: "cascade_runtime (Suc k) opts E brain = async_runtime opts (E\<lparr>env_llm := llm k\<rparr>)" for k
    by (simp add: llm_def)
  let ?D = "depth (child_context (current_spawn s))"
  have same_run: "run (cascade_runtime n opts E brain) (ByAgent a) t u
      = run (cascade_runtime (n + m) opts E brain) (ByAgent a) t u"
    if "current_spawn u = Some f" "depth (sf_agent_context f) = ?D" for a t u f
  proof -
    obtain l l' where l: "cascade_runtime n opts E brain = async_runtime opts (E\<lparr>env_llm := l\<rparr>)"
      "cascade_runtime (n + m) opts E brain = async_runtime opts (E\<lparr>env_llm := l'\<rparr>)"
      using cascade_runtime_async by metis
    have "run_resolved (cascade_runtime n opts E brain) a t s'
        = run_resolved (cascade_runtime (n + m) opts E brain) a t s'" if "current_spawn s' = Some f" for s'
      using that \<open>depth (sf_agent_context f) = ?D\<close> Suc.prems
      by (intro Suc.IH) (simp add: child_context_def)
    then show ?thesis unfolding l using that(1) by (intro run_ByAgent_cong) simp
  qed
  have "llm n pa p u = llm (n + m) pa p u"
    if "current_spawn u = Some f" "depth (sf_agent_context f) = ?D" for pa p u f
    unfolding llm_def using that same_run run_restores_frame by (intro interp_cong [where f = "Some f"]) auto
  then have "dispatch_stage (async_runtime opts (E\<lparr>env_llm := llm n\<rparr>)) a t
        (run_context a t (child_context (current_spawn s))) nxt
      = dispatch_stage (async_runtime opts (E\<lparr>env_llm := llm (n + m)\<rparr>)) a t
        (run_context a t (child_context (current_spawn s))) nxt" for nxt
    by (intro async_dispatch_cong [where llm = "llm (n + m)"]) (auto simp: run_context_def)
  then show ?case unfolding add_Suc c
    using assms by (intro run_resolved_cong) (simp_all add: async_runtime_def dispatch_attempts_def Let_def)
qed

text \<open>
  C8. The depth limit ends every cascade.  However the agents behave, a top-level run
  never needs more than \<open>max_spawn_depth\<close> levels of runs within runs: with that many
  levels available its outcome and its effects no longer depend on how many more
  there are, under the strict cycle policy and under the permissive one.
\<close>

theorem depth_limit_bounds_cascades:
  assumes "options_ok opts" "current_spawn s = None" "int n \<ge> max_spawn_depth opts"
  shows "run_resolved (cascade_runtime n opts E brain) a t s
       = run_resolved (cascade_runtime (n + m) opts E brain) a t s"
  using assms cascade_levels [OF assms(1), of n s E brain a t m]
  by (simp add: child_context_def default_context_def)

lemma depth_limit_bounds_cascades_witness:
  "run_resolved (cascade_runtime 4 (default_options\<lparr>cycle_policy := Permissive\<rparr>) (sample_env 1)
       (\<lambda>pa p. Spawn (sample_agent ''a'') sample_task (\<lambda>r. Finish \<lparr> lr_output = VNone, lr_usage = None \<rparr>)))
       (sample_agent ''a'') sample_task async_start
   = run_resolved (cascade_runtime 9 (default_options\<lparr>cycle_policy := Permissive\<rparr>) (sample_env 1)
       (\<lambda>pa p. Spawn (sample_agent ''a'') sample_task (\<lambda>r. Finish \<lparr> lr_output = VNone, lr_usage = None \<rparr>)))
       (sample_agent ''a'') sample_task async_start"
proof -
  let ?o = "default_options\<lparr>cycle_policy := Permissive\<rparr>"
  have "options_ok ?o" "current_spawn async_start = None" "int 4 \<ge> max_spawn_depth ?o"
    by (simp_all add: options_ok_def default_options_def async_start_def)
  from depth_limit_bounds_cascades [OF this, of "sample_env 1"
      "\<lambda>pa p. Spawn (sample_agent ''a'') sample_task (\<lambda>r. Finish \<lparr> lr_output = VNone, lr_usage = None \<rparr>)"
      "sample_agent ''a''" sample_task 5]
  show ?thesis by simp
qed

end
