(* ===== verification/Group_Aggregation.thy ===== *)
theory Group_Aggregation
  imports Group_Walk Cascade
begin

text \<open>
  Two things about whole group runs: the invariants of a run extend to a group, so the
  spawn cap and the budget hold for groups of cascading agents; and what an aggregating
  node passes to its mapper, against a reference definition of the contract.
\<close>

section \<open>Invariants of a group run\<close>

context runtime_invariant begin

lemma dispatch_input_keeps: "keeps P (dispatch_input R node mc inp)"
  unfolding dispatch_input_def
  using run_keeps batch_keeps
  by (cases inp; auto split: downstream_input.split)

lemma resolve_node_keeps: "keeps P (resolve_node E R task inc results skipped node)"
  unfolding resolve_node_def dispatch_single_input_def dispatch_multi_input_def
  by (auto intro: dispatch_input_keeps
      split: list.split option.split sum.split bool.split prod.split)

lemma run_siblings_keeps:
  assumes "\<And>w n. keeps P (resolve w n)"
  shows "keeps P (run_siblings resolve w ns)"
proof (induction ns)
  case (Cons n ns)
  show ?case
  proof (rule keepsI)
    fix s assume "P s"
    have "keeps P (bnd (with_frame (current_spawn s) (resolve w n))
       (\<lambda>d. bnd (run_siblings resolve w ns) (\<lambda>ds. ret ((n, d) # ds))))"
      by (intro keeps_bnd with_frame_keeps assms Cons keeps_ret)
    then show "P (snd (run_siblings resolve w (n # ns) s))" using \<open>P s\<close> by (simp add: keeps_def)
  qed
qed simp

lemma walk_tiers_keeps:
  assumes "\<And>w n. keeps P (resolve w n)"
  shows "keeps P (walk_tiers resolve order tiers w)"
proof (induction tiers arbitrary: w)
  case (Cons tier tiers)
  have "keeps P (walk_one resolve n w)" for n
    unfolding walk_one_def by (intro keeps_bnd assms keeps_ret)
  moreover have "keeps P (dispatch_tier_parallel resolve order tier w)"
    unfolding dispatch_tier_parallel_def by (intro keeps_bnd run_siblings_keeps assms keeps_ret)
  ultimately show ?case using Cons by (auto split: list.split)
qed simp

lemma walk_group_keeps:
  assumes "\<And>w n. keeps P (resolve w n)"
  shows "keeps P (walk_group resolve order task tiers)"
proof (rule keepsI)
  fix s assume "P s"
  have "keeps P (bnd (walk_tiers resolve order ts w) (\<lambda>w. with_frame f (walk_tiers resolve order us w)))"
    for ts us w f by (intro keeps_bnd walk_tiers_keeps with_frame_keeps assms)
  then show "P (snd (walk_group resolve order task tiers s))"
    using \<open>P s\<close> walk_tiers_keeps [of resolve order, OF assms]
    by (auto simp: walk_group_def keeps_def simp del: walk_tiers.simps split: list.split)
qed

lemma bracketed_keeps: "keeps P body \<Longrightarrow> keeps P (bracketed n task a b body)"
  by (auto simp: keeps_def bracketed_def finally_do_def emit_def bnd_def field_updates
      split: prod.splits) (metis field_updates(4) snd_conv)

lemma group_keeps: "keeps P (run_group E R g task)"
proof -
  have "keeps P (walk_group (\<lambda>(r, k). resolve_node E R task (incoming_edges g) r k) order task tiers)"
    for order tiers by (rule walk_group_keeps) (auto intro: resolve_node_keeps split: prod.split)
  then have "keeps P (walk_and_collect E R g task)"
    unfolding walk_and_collect_def by (auto split: sum.split prod.split)
  then show ?thesis unfolding run_group_def by (rule bracketed_keeps)
qed

end



section \<open>The contract of an aggregating node\<close>

text \<open>What one upstream contributes: nothing, the empty list, unless it succeeded and its edge fires.\<close>

definition contribution ::
  "agent \<Rightarrow> (agent, node_output) dict \<Rightarrow> agent list \<Rightarrow> agent \<times> edge \<Rightarrow> exn + outputs" where
  "contribution node results skipped p =
    (case p of (u, e) \<Rightarrow>
      if u \<in> set skipped then Inr (Many [])
      else case dget results u of
        None \<Rightarrow> Inr (Many [])
      | Some out \<Rightarrow>
         (case upstream_outputs out of
            None \<Rightarrow> Inr (Many [])
          | Some typed \<Rightarrow>
             (case condition_fires e u node typed of
                Inl exc \<Rightarrow> Inl exc
              | Inr b \<Rightarrow> Inr (if b then typed else Many []))))"

definition has_mapper :: "agent \<times> edge \<Rightarrow> bool" where
  "has_mapper p = (\<not> Option.is_none (edge_mapper (snd p)))"

definition aggregate_reference ::
  "'b runtime \<Rightarrow> agent \<Rightarrow> (agent \<times> edge) list \<Rightarrow> (agent \<times> edge \<Rightarrow> outputs)
     \<Rightarrow> ('b rt, exn, dispatched) eff" where
  "aggregate_reference R node pairs c =
    (let ms = filter has_mapper pairs in
     if length ms > 1
     then raise (Exn TopologyError (a_name node @ '' has multiple incoming edges with mappers''))
     else if \<forall>p \<in> set pairs. c p = Many []
     then raise (Exn AllAgentsFailedError (''every upstream of '' @ a_name node @ '' failed''))
     else if ms = []
     then raise (Exn TopologyError (a_name node @
            (if length (filter (\<lambda>p. \<exists>v vs. c p = Many (v # vs)) pairs) > 1
             then '' aggregates two fan-out upstreams'' else '' has no aggregating mapper'')))
     else let e = snd (hd ms) in
       (case call_mapper (edge_mapper e) (Keyed (map (\<lambda>p. (a_name (fst p), c p)) pairs)) of
          Inl exc \<Rightarrow> raise exc
        | Inr inp \<Rightarrow> dispatch_input R node (edge_max_concurrency e) (Inr inp)))"

lemma multi_step_Inr:
  assumes "contribution node results skipped (u, e) = Inr v"
  shows "multi_step node results skipped (u, e) m =
    Inr (if v = Many [] then contribute u v (note_mapper u e m)
         else note_alive u v (contribute u v (note_mapper u e m)))"
  using assms
  by (auto simp: multi_step_def contribution_def Let_def
      split: if_splits option.splits sum.splits bool.splits)

definition multi_after ::
  "(agent \<times> edge) list \<Rightarrow> (agent \<times> edge \<Rightarrow> outputs) \<Rightarrow> multi_state \<Rightarrow> multi_state" where
  "multi_after pairs c m =
    (let ms = filter has_mapper pairs; none = (aggregator m = None) in
     \<lparr> contributions = contributions m @ map (\<lambda>p. (a_name (fst p), c p)) pairs,
       aggregator = (if none \<and> ms \<noteq> [] then Some (snd (hd ms)) else aggregator m),
       duplicate_aggregators = duplicate_aggregators m
         @ map (\<lambda>p. a_name (fst p)) (if none then tl ms else ms),
       fan_out_keys = fan_out_keys m
         @ map (\<lambda>p. a_name (fst p)) (filter (\<lambda>p. \<exists>v vs. c p = Many (v # vs)) pairs),
       any_alive = (any_alive m \<or> (\<exists>p \<in> set pairs. c p \<noteq> Many [])) \<rparr>)"

lemma multi_loop_after:
  assumes "\<forall>p \<in> set pairs. contribution node results skipped p = Inr (c p)"
    and "distinct (map (\<lambda>p. a_name (fst p)) pairs)"
    and "(\<lambda>p. a_name (fst p)) ` set pairs \<inter> fst ` set (contributions m) = {}"
  shows "multi_loop node results skipped pairs m = Inr (multi_after pairs c m)"
  using assms
proof (induction pairs arbitrary: m)
  case (Cons p ps)
  obtain u e where p: "p = (u, e)" by fastforce
  let ?v = "c (u, e)"
  let ?m = "if ?v = Many [] then contribute u ?v (note_mapper u e m)
         else note_alive u ?v (contribute u ?v (note_mapper u e m))"
  have step: "multi_step node results skipped p m = Inr ?m"
    using Cons.prems(1) p by (simp add: multi_step_Inr)
  have con: "contributions (note_mapper u e m) = contributions m" by (simp add: note_mapper_def)
  have cm: "contributions ?m = contributions m @ [(a_name u, ?v)]"
    using Cons.prems(3) p con
    by (cases ?v rule: outputs.exhaust) (auto simp: contribute_def dset_fresh)
  have "multi_loop node results skipped ps ?m = Inr (multi_after ps c ?m)"
    using Cons.prems p unfolding cm by (intro Cons.IH) (auto simp: cm)
  moreover have "multi_after ps c ?m = multi_after (p # ps) c m"
    using cm p con
    by (cases ?v rule: outputs.exhaust)
      (auto simp: multi_after_def Let_def has_mapper_def note_mapper_def contribute_def
        neq_Nil_conv Option.is_none_def dset_fresh)
  ultimately show ?case using step by simp
qed (simp add: multi_after_def)

text \<open>
  C15. When the upstreams of an aggregating node have distinct names and no condition
  raises, dispatching it is the reference: at most one mapper, an error before any
  dispatch when every contribution is empty, otherwise one call of the mapper on the
  contributions keyed by upstream name in edge order.
\<close>

theorem aggregation_contract:
  assumes "\<forall>p \<in> set pairs. contribution node results skipped p = Inr (c p)"
    and "distinct (map (\<lambda>p. a_name (fst p)) pairs)"
  shows "dispatch_multi_input R node pairs results skipped s = aggregate_reference R node pairs c s"
proof -
  let ?ms = "filter has_mapper pairs"
  have loop: "multi_loop node results skipped pairs multi_start = Inr (multi_after pairs c multi_start)"
    by (rule multi_loop_after [OF assms]) (simp add: multi_start_def)
  have m: "duplicate_aggregators (multi_after pairs c multi_start) = map (\<lambda>p. a_name (fst p)) (tl ?ms)"
    "any_alive (multi_after pairs c multi_start) \<longleftrightarrow> \<not> (\<forall>p \<in> set pairs. c p = Many [])"
    "aggregator (multi_after pairs c multi_start) = (if ?ms = [] then None else Some (snd (hd ?ms)))"
    "length (fan_out_keys (multi_after pairs c multi_start))
       = length (filter (\<lambda>p. \<exists>v vs. c p = Many (v # vs)) pairs)"
    "contributions (multi_after pairs c multi_start) = map (\<lambda>p. (a_name (fst p), c p)) pairs"
    by (simp_all add: multi_after_def multi_start_def Let_def)
  show ?thesis
  proof (cases ?ms)
    case Nil
    then show ?thesis
      by (simp add: dispatch_multi_input_def loop multi_input_def m aggregate_reference_def Let_def)
  next
    case (Cons p ps)
    then show ?thesis
      by (cases ps) (auto simp: dispatch_multi_input_def loop multi_input_def m aggregate_reference_def
          Let_def split: sum.split)
  qed
qed

definition merge_edge :: edge where
  "merge_edge = default_edge\<lparr>edge_mapper := Some (\<lambda>v. Inr (MapTask echo_task))\<rparr>"

definition shut_edge :: edge where
  "shut_edge = default_edge\<lparr>edge_condition := Some (\<lambda>v. Inr False)\<rparr>"

definition echo_ok :: agent_result where
  "echo_ok = echo_result
     \<lparr> handle_id = ''1'', ah_agent_name = ''a'', ah_task_id = ''1'', ah_backend = ''echo'' \<rparr>"

lemma aggregation_contract_witness:
  "dispatch_multi_input echo_runtime (echo_node ''n'')
     [(echo_node ''a'', merge_edge), (echo_node ''b'', shut_edge)]
     [(echo_node ''a'', Single echo_ok), (echo_node ''b'', Single echo_ok)] [] echo_start
   = dispatch_input echo_runtime (echo_node ''n'') 100 (Inr (OneTask echo_task)) echo_start"
proof -
  let ?c = "\<lambda>p. if fst p = echo_node ''a'' then One (VStr ''a'') else Many []"
  have c: "\<forall>p \<in> set [(echo_node ''a'', merge_edge), (echo_node ''b'', shut_edge)].
      contribution (echo_node ''n'') [(echo_node ''a'', Single echo_ok), (echo_node ''b'', Single echo_ok)] [] p
        = Inr (?c p)"
    by (simp add: contribution_def condition_fires_def merge_edge_def shut_edge_def default_edge_def
        echo_ok_def echo_result_def is_ok_def echo_node_def)
  have d: "distinct (map (\<lambda>p. a_name (fst p)) [(echo_node ''a'', merge_edge), (echo_node ''b'', shut_edge)])"
    by (simp add: echo_node_def sample_node_def)
  show ?thesis
    by (subst aggregation_contract [OF c d])
      (simp add: aggregate_reference_def has_mapper_def merge_edge_def shut_edge_def default_edge_def
        call_mapper_def Let_def)
qed

text \<open>
  Two edges from one upstream to the same node with exclusive conditions, the
  shape of branch routing: when the first fires and the second does not, the second
  erases what the first contributed, and the mapper is called on an empty list.
\<close>

theorem later_false_edge_erases_contribution:
  assumes "is_ok r" "edge_mapper e1 = Some f" "edge_mapper e2 = None"
    and "condition_fires e1 u node (One (the (ar_output r))) = Inr True"
    and "condition_fires e2 u node (One (the (ar_output r))) = Inr False"
  shows "dispatch_multi_input R node [(u, e1), (u, e2)] [(u, Single r)] [] s =
    dispatch_input R node (edge_max_concurrency e1)
      (call_mapper (Some f) (Keyed [(a_name u, Many [])])) s"
proof -
  let ?m = "multi_start\<lparr>aggregator := Some e1, contributions := [(a_name u, Many [])], any_alive := True\<rparr>"
  have "multi_loop node [(u, Single r)] [] [(u, e1), (u, e2)] multi_start = Inr ?m"
    using assms by (simp add: multi_step_def note_mapper_def contribute_def multi_start_def)
  then show ?thesis
    using assms(2) by (simp add: dispatch_multi_input_def multi_input_def multi_start_def
        dispatch_input_def split: sum.split)
qed

lemma later_false_edge_erases_contribution_witness:
  "dispatch_multi_input echo_runtime (echo_node ''n'')
     [(echo_node ''a'', merge_edge), (echo_node ''a'', shut_edge)]
     [(echo_node ''a'', Single echo_ok)] [] echo_start
   = dispatch_input echo_runtime (echo_node ''n'') 100
      (call_mapper (Some (\<lambda>v. Inr (MapTask echo_task))) (Keyed [(''a'', Many [])])) echo_start"
proof -
  have "is_ok echo_ok" by (simp add: echo_ok_def echo_result_def is_ok_def)
  from later_false_edge_erases_contribution [OF this, of merge_edge "\<lambda>v. Inr (MapTask echo_task)" shut_edge
      "echo_node ''a''" "echo_node ''n''" echo_runtime echo_start]
  show ?thesis
    by (simp add: merge_edge_def shut_edge_def default_edge_def condition_fires_def echo_node_def
        sample_node_def)
qed

end
