(* ===== verification/Team.thy ===== *)
theory Team
  imports Group_Aggregation
begin

text \<open>
  \<open>groups/team.py\<close> and \<open>groups/team_runner.py\<close>: a coordinator with a closed menu of
  delegates.  The coordinator's model is a program that calls the \<open>delegate\<close> tool,
  sleeps, fails or finishes; the tool's closure state (round counter and histories)
  is threaded beside the runtime's.  Serialisation and fresh ids are arguments.
\<close>

record team =
  tm_name :: string
  coordinator :: agent
  delegates :: "(string, agent) dict"
  tm_output_type :: string
  max_rounds :: int
  retain_delegate_history :: bool

fun claimed_inputs :: "(string \<times> agent) list \<Rightarrow> (string, string) dict \<Rightarrow> exn option" where
  "claimed_inputs [] seen = None"
| "claimed_inputs ((name, a) # ds) seen =
    (case input_type a of
       None \<Rightarrow> Some (Exn SpecValidationError (name @ '' must declare Agent.input_type''))
     | Some ty \<Rightarrow>
        (case dget seen ty of
           Some other \<Rightarrow> Some (Exn SpecValidationError (other @ '' and '' @ name @ '' both claim '' @ ty))
         | None \<Rightarrow> claimed_inputs ds (dset ty name seen)))"

definition team_validate :: "team \<Rightarrow> exn + team" where
  "team_validate tm =
    (if delegates tm = [] then Inl (Exn SpecValidationError (tm_name tm @ '' has no delegates''))
     else if coordinator tm \<in> set (dvalues (delegates tm))
     then Inl (Exn SpecValidationError (a_name (coordinator tm) @ '' cannot also be a delegate''))
     else case claimed_inputs (delegates tm) [] of Some e \<Rightarrow> Inl e | None \<Rightarrow> Inr tm)"

section \<open>The delegate tool\<close>

type_synonym history = "(string, string) dict list"

record delegate_state =
  histories :: "(string, history) dict"
  rounds :: int

record team_env =
  te_classes :: class_env
  te_json :: "pyval \<Rightarrow> string"
  te_dump :: "pyval \<Rightarrow> (string, pyval) dict"
  te_dumps :: "(string, pyval) dict \<Rightarrow> string"
  te_ids :: "int \<Rightarrow> string \<times> string"

definition delegate_start :: "(string, agent) dict \<Rightarrow> delegate_state" where
  "delegate_start ds = \<lparr> histories = map (\<lambda>n. (n, [])) (dkeys ds), rounds = 0 \<rparr>"

definition wrong_input :: "class_env \<Rightarrow> agent \<Rightarrow> pyval \<Rightarrow> bool" where
  "wrong_input C a v = (case input_type a of None \<Rightarrow> False | Some ty \<Rightarrow> \<not> isinstance_of C v ty)"

definition with_history :: "bool \<Rightarrow> history \<Rightarrow> agent \<Rightarrow> agent" where
  "with_history retain h a = (if retain then a\<lparr>a_context_passer := HistoryContextPasser h\<rparr> else a)"

definition delegate_task :: "team_env \<Rightarrow> int \<Rightarrow> pyval \<Rightarrow> task_spec" where
  "delegate_task E n v =
    \<lparr> ts_id = fst (te_ids E n), ts_request_id = snd (te_ids E n), ts_input = te_json E v,
      ts_metadata = [] \<rparr>"

definition remember :: "bool \<Rightarrow> string \<Rightarrow> string \<Rightarrow> string \<Rightarrow> delegate_state \<Rightarrow> delegate_state" where
  "remember retain target user assistant st =
    (if retain
     then st\<lparr>histories := dset target (dget_or (histories st) target []
              @ [[(''role'', ''user''), (''content'', user)],
                 [(''role'', ''assistant''), (''content'', assistant)]]) (histories st)\<rparr>
     else st)"

definition delegate ::
  "team_env \<Rightarrow> 'b runtime \<Rightarrow> (string, agent) dict \<Rightarrow> bool \<Rightarrow> int option \<Rightarrow> string \<Rightarrow> pyval
     \<Rightarrow> (delegate_state \<times> 'b rt, exn, (string, pyval) dict) eff" where
  "delegate E R ds retain limit target input w =
    (case w of (st, s) \<Rightarrow>
      case dget ds target of
        None \<Rightarrow> (Inl (Exn PyKeyError target), w)
      | Some a \<Rightarrow>
          if wrong_input (te_classes E) a input
          then (Inl (Exn ToolExecutionError (''delegate '' @ target @ '' got '' @ type_name input)), w)
          else if (case limit of None \<Rightarrow> False | Some m \<Rightarrow> rounds st \<ge> m)
          then (Inl (Exn ToolExecutionError ''delegate budget exhausted''), w)
          else
            let st1 = st\<lparr>rounds := rounds st + 1\<rparr>;
                sub = with_history retain (dget_or (histories st) target []) a
            in (case run R (ByAgent sub) (delegate_task E (rounds st) input) s of
                  (Inl e, t) \<Rightarrow>
                    (Inl (if isinstance e MurmurError
                          then Exn ToolExecutionError (''delegate '' @ target @ '' failed: '' @ exn_msg e)
                          else e), (st1, t))
                | (Inr r, t) \<Rightarrow>
                    if \<not> is_ok r
                    then (Inl (Exn ToolExecutionError (''delegate '' @ target @ '' failed'')), (st1, t))
                    else let out = te_dump E (the (ar_output r))
                         in (Inr out, (remember retain target (te_json E input) (te_dumps E out) st1, t))))"

section \<open>The coordinator\<close>

datatype team_prog =
    TFinish llm_result
  | TFail exn
  | TSleep rat team_prog
  | TDelegate string pyval "exn + (string, pyval) dict \<Rightarrow> team_prog"

primrec interp_team ::
  "(string \<Rightarrow> pyval \<Rightarrow> (delegate_state \<times> 'b rt, exn, (string, pyval) dict) eff) \<Rightarrow> team_prog
     \<Rightarrow> (delegate_state \<times> 'b rt, exn, llm_result) eff" where
  "interp_team call (TFinish r) = ret r"
| "interp_team call (TFail e) = raise e"
| "interp_team call (TSleep d p) =
    (\<lambda>w. case suspend d (snd w) of
           (Inl e, t) \<Rightarrow> (Inl e, (fst w, t)) | (Inr u, t) \<Rightarrow> interp_team call p (fst w, t))"
| "interp_team call (TDelegate target v k) =
    (\<lambda>w. case call target v w of (r, u) \<Rightarrow> interp_team call (k r) u)"

text \<open>What the coordinator's model does in one team run, its closure state fresh.\<close>

definition coordinator_llm ::
  "team_env \<Rightarrow> 'b runtime \<Rightarrow> team \<Rightarrow> team_prog \<Rightarrow> ('b rt, exn, llm_result) eff" where
  "coordinator_llm E R tm p s =
    (case interp_team (delegate E R (delegates tm) (retain_delegate_history tm) (Some (max_rounds tm))) p
            (delegate_start (delegates tm), s) of
       (r, (st, t)) \<Rightarrow> (r, t))"

definition per_run_tool_name :: "string \<Rightarrow> string \<Rightarrow> string" where
  "per_run_tool_name team_name uid = ''_team_'' @ team_name @ ''_delegate_'' @ uid"

definition team_coordinator :: "team \<Rightarrow> string \<Rightarrow> agent" where
  "team_coordinator tm tool =
    (coordinator tm)\<lparr>a_tools := insert tool (a_tools (coordinator tm)), output_type := tm_output_type tm\<rparr>"

text \<open>
  The backend looks tools up in the registry it shares with the runtime, so the
  runtime of the run is a function of the registry's contents.
\<close>

definition run_team ::
  "('f tool_registry \<Rightarrow> 'b runtime) \<Rightarrow> bool \<Rightarrow> 'f \<Rightarrow> string \<Rightarrow> team \<Rightarrow> task_spec
     \<Rightarrow> ('f tool_registry \<times> 'b rt, exn, agent_result) eff" where
  "run_team rt_of is_async tool uid tm task w =
    (case w of (reg, s) \<Rightarrow>
      let name = per_run_tool_name (tm_name tm) uid in
      if \<not> is_async then (Inl (Exn PyNotImplementedError (tm_name tm)), w)
      else if delegates tm = []
      then (Inl (Exn SpecValidationError ''_make_delegate_tool requires at least one delegate''), w)
      else case reg_register name tool reg of
        Inl e \<Rightarrow> (Inl e, w)
      | Inr reg' \<Rightarrow>
         (case run (rt_of reg') (ByAgent (team_coordinator tm name)) task s of
            (r, t) \<Rightarrow> (r, (reg_unregister name reg', t))))"

definition run_team_group ::
  "('f tool_registry \<Rightarrow> 'b runtime) \<Rightarrow> bool \<Rightarrow> 'f \<Rightarrow> string \<Rightarrow> team \<Rightarrow> task_spec
     \<Rightarrow> 'f tool_registry \<Rightarrow> ('b rt, exn, agent_result) eff" where
  "run_team_group rt_of is_async tool uid tm task reg =
    bracketed (tm_name tm) task
      [(''shape'', VStr ''team''), (''delegate_count'', VInt (int (length (delegates tm))))]
      [(''shape'', VStr ''team'')]
      (\<lambda>s. case run_team rt_of is_async tool uid tm task (reg, s) of (r, (reg', t)) \<Rightarrow> (r, t))"

end
