(* ===== verification/Team_Safety.thy ===== *)
theory Team_Safety
  imports Team
begin

text \<open>
  What a team run guarantees: the round limit and the shape of the histories under
  every behaviour of the coordinator, the registry left as it was found, and the
  fact that a delegate's retained history never reaches its model on the asyncio
  backend.
\<close>

section \<open>Rounds and histories\<close>

definition exchange :: "string \<Rightarrow> string \<Rightarrow> history" where
  "exchange user assistant =
    [[(''role'', ''user''), (''content'', user)], [(''role'', ''assistant''), (''content'', assistant)]]"

inductive exchanges :: "history \<Rightarrow> bool" where
  "exchanges []"
| "exchanges h \<Longrightarrow> exchanges (h @ exchange u a)"

definition history_size :: "delegate_state \<Rightarrow> int" where
  "history_size st = sum_list (map ((\<lambda>h. int (length h)) \<circ> snd) (histories st))"

definition team_inv :: "int \<Rightarrow> bool \<Rightarrow> delegate_state \<Rightarrow> bool" where
  "team_inv m retain st \<longleftrightarrow>
     0 \<le> rounds st \<and> rounds st \<le> max 0 m \<and> dict_ok (histories st)
   \<and> (\<forall>h \<in> set (dvalues (histories st)). exchanges h)
   \<and> history_size st \<le> (if retain then 2 * rounds st else 0)"

lemma dvalues_dset: "set (dvalues (dset k v d)) \<subseteq> insert v (set (dvalues d))"
proof (induction d)
  case (Cons p d)
  then show ?case by (cases p) (auto simp: dvalues_def)
qed (simp add: dvalues_def)

lemma exchanges_get: "\<forall>h \<in> set (dvalues d). exchanges h \<Longrightarrow> exchanges (dget_or d k [])"
  by (auto simp: dget_or_def dvalues_def intro: exchanges.intros split: option.splits
      dest!: dget_in_set)

lemma remember_inv:
  assumes "team_inv m retain st" "rounds st < m"
  shows "team_inv m retain (remember retain target u a (st\<lparr>rounds := rounds st + 1\<rparr>))"
proof (cases retain)
  case True
  let ?h = "dget_or (histories st) target []" let ?new = "?h @ exchange u a"
  have ok: "dict_ok (histories st)" and ex: "\<forall>h \<in> set (dvalues (histories st)). exchanges h"
    using assms(1) by (simp_all add: team_inv_def)
  have "\<forall>h \<in> set (dvalues (dset target ?new (histories st))). exchanges h"
    using dvalues_dset [of target ?new "histories st"] ex exchanges_get [OF ex]
    by (auto intro: exchanges.intros)
  moreover have "sum_list (map ((\<lambda>h. int (length h)) \<circ> snd) (dset target ?new (histories st)))
      = history_size st + 2"
    using sum_list_map_dset [OF ok, of "\<lambda>h. int (length h)" target ?new]
    by (simp add: history_size_def dget_or_def exchange_def split: option.splits)
  ultimately show ?thesis
    using assms True by (simp add: team_inv_def remember_def history_size_def exchange_def)
next
  case False
  then show ?thesis using assms by (simp add: team_inv_def remember_def history_size_def)
qed

lemma tick_inv:
  "team_inv m retain st \<Longrightarrow> rounds st < m \<Longrightarrow> team_inv m retain (st\<lparr>rounds := rounds st + 1\<rparr>)"
  by (auto simp: team_inv_def history_size_def)

lemma delegate_inv: "keeps (\<lambda>w. team_inv m retain (fst w)) (delegate E R ds retain (Some m) target input)"
proof (rule keepsI)
  fix w :: "delegate_state \<times> 'a rt"
  assume inv: "team_inv m retain (fst w)"
  obtain st s where w: "w = (st, s)" by fastforce
  show "team_inv m retain (fst (snd (delegate E R ds retain (Some m) target input w)))"
  proof (cases "rounds st < m")
    case True
    note k = remember_inv [OF inv [unfolded w fst_conv] True] tick_inv [OF inv [unfolded w fst_conv] True]
    show ?thesis
      using inv k by (auto simp: w delegate_def Let_def split: option.split prod.split sum.split)
  next
    case False
    then show ?thesis using inv by (auto simp: w delegate_def split: option.split)
  qed
qed

lemma interp_team_inv:
  assumes "\<And>target v. keeps (\<lambda>w. Q (fst w)) (call target v)"
  shows "keeps (\<lambda>w. Q (fst w)) (interp_team call p)"
proof (induction p)
  case (TSleep d p)
  then show ?case by (auto simp: keeps_def split: prod.splits sum.splits)
next
  case (TDelegate target v k)
  show ?case
  proof (rule keepsI)
    fix w :: "delegate_state \<times> 'a rt"
    assume "Q (fst w)"
    obtain r u where u: "call target v w = (r, u)" by (metis surj_pair)
    then have "Q (fst u)" using keepsD [OF assms \<open>Q (fst w)\<close>] by blast
    moreover have "keeps (\<lambda>w. Q (fst w)) (interp_team call (k r))" using TDelegate by (simp add: rangeI)
    ultimately show "Q (fst (snd (interp_team call (TDelegate target v k) w)))" using u by (cases u) (simp add: keeps_def)
  qed
qed simp_all


section \<open>The registry\<close>

text \<open>
  C17. A team run leaves the tool registry as it found it, however the run ends, and a
  name that is already taken is an error before anything runs.
\<close>

theorem team_run_restores_registry:
  "snd (run_team rt_of is_async tool uid tm task (reg, s)) =
     (reg, if is_async \<and> delegates tm \<noteq> [] \<and> \<not> dhas reg (per_run_tool_name (tm_name tm) uid)
           then snd (run (rt_of (reg @ [(per_run_tool_name (tm_name tm) uid, tool)]))
                  (ByAgent (team_coordinator tm (per_run_tool_name (tm_name tm) uid))) task s)
           else s)"
proof -
  have "dpop k (reg @ [(k, tool)]) = reg" if "k \<notin> fst ` set reg" for k
    using dpop_dset_fresh [OF that] by (simp add: dset_fresh [OF that])
  then show ?thesis
    by (auto simp: run_team_def Let_def reg_register_def reg_unregister_def dset_fresh split: prod.splits)
qed

section \<open>Histories and the model\<close>

text \<open>A computation that neither reads nor writes the spawn frame and the backend's tables.\<close>

definition relocate :: "spawn_frame option \<Rightarrow> 'b \<Rightarrow> 'b rt \<Rightarrow> 'b rt" where
  "relocate f b s = s\<lparr>current_spawn := f, backend_st := b\<rparr>"

definition alike :: "spawn_frame option \<Rightarrow> 'b \<Rightarrow> ('b rt, exn, 'a) eff \<Rightarrow> ('b rt, exn, 'a) eff \<Rightarrow> bool" where
  "alike f b m m' = (\<forall>s. m' (relocate f b s) = (case m s of (r, t) \<Rightarrow> (r, relocate f b t)))"

lemma alike_bnd:
  "alike f b m m' \<Longrightarrow> (\<And>x. alike f b (g x) (g' x)) \<Longrightarrow> alike f b (bnd m g) (bnd m' g')"
  by (auto simp: alike_def bnd_def split: prod.splits sum.splits)

lemma alike_steps:
  "alike f b (lift_sum r) (lift_sum r)" "alike f b (ret x) (ret x)" "alike f b (gets now) (gets now)"
  "alike f b (emit e) (emit e)" "alike f b (suspend d) (suspend d)"
  by (auto simp: alike_def lift_sum_def emit_def suspend_def relocate_def split: option.splits)

text \<open>Everything an agent's run on the asyncio backend looks at, except its passer and its context.\<close>

lemma pre_post_same:
  assumes "a' = a\<lparr>a_context_passer := c\<rparr>"
  shows "apply_pre_hooks E a' t = apply_pre_hooks E a t" "apply_post_hooks E a' v = apply_post_hooks E a v"
    "build_pydantic_ai_agent a' (a_tools a') reg i al di = build_pydantic_ai_agent a (a_tools a) reg i al di"
proof -
  have sel: "input_type a' = input_type a" "pre_process a' = pre_process a" "post_process a' = post_process a"
    "a_tools a' = a_tools a" by (simp_all add: assms)
  show "apply_pre_hooks E a' t = apply_pre_hooks E a t" unfolding apply_pre_hooks_def sel ..
  show "apply_post_hooks E a' v = apply_post_hooks E a v" by (simp add: apply_post_hooks_def sel)
  have pol: "policy_for a' = policy_for a" "trust_level a' = trust_level a"
    by (auto simp: assms fun_eq_iff policy_for_def)
  have "mcp_toolsets_of a' al' i aw disc ps = mcp_toolsets_of a al' i aw disc ps" for al' i aw disc ps
  proof (induction ps)
    case (Cons q ps)
    show ?case unfolding mcp_toolsets_of.simps Cons.IH pol ..
  qed simp
  moreover have "pa_model_for a' = pa_model_for a" by (simp add: assms pa_model_for_def)
  moreover have "trust_level a' = trust_level a" "mcp_servers a' = mcp_servers a"
    "instructions a' = instructions a" "output_type a' = output_type a"
    "model_settings a' = model_settings a" "builtin_tools a' = builtin_tools a" by (simp_all add: assms)
  ultimately show "build_pydantic_ai_agent a' (a_tools a') reg i al di = build_pydantic_ai_agent a (a_tools a) reg i al di"
    unfolding build_pydantic_ai_agent_def resolve_mcp_toolsets_def sel by (simp only:)
qed


text \<open>A model call that takes time and answers, reading nothing of the runtime's state.\<close>

definition plain_llm :: "(pa_agent \<Rightarrow> string \<Rightarrow> rat) \<Rightarrow> (pa_agent \<Rightarrow> string \<Rightarrow> exn + llm_result)
    \<Rightarrow> pa_agent \<Rightarrow> string \<Rightarrow> ('b rt, exn, llm_result) eff" where
  "plain_llm d f pa p = bnd (suspend (d pa p)) (\<lambda>_. lift_sum (f pa p))"

lemma agent_event_history:
  "a' = a\<lparr>a_context_passer := c\<rparr> \<Longrightarrow> parent_trace_id ctx' = parent_trace_id ctx \<Longrightarrow>
     agent_event ty a' t ctx' tm pl = agent_event ty a t ctx tm pl"
  by (simp add: agent_event_def)

lemma execute_body_alike:
  assumes "a' = a\<lparr>a_context_passer := c\<rparr>" "parent_trace_id ctx' = parent_trace_id ctx"
    and "env_llm E = plain_llm d f"
  shows "alike fr b (execute_body E a t ctx st) (execute_body E a' t ctx' st)"
proof -
  have names: "a_model a' = a_model a" "a_name a' = a_name a" by (simp_all add: assms(1))
  have llm: "alike fr b (env_llm E pa p) (env_llm E pa p)" for pa p
    unfolding assms(3) plain_llm_def by (intro alike_bnd alike_steps)
  show ?thesis
    unfolding execute_body_def pre_post_same [OF assms(1)] agent_event_history [OF assms(1,2)] names Let_def
    by (intro alike_bnd alike_steps llm)
qed

lemma execute_failed_alike:
  assumes "a' = a\<lparr>a_context_passer := c\<rparr>" "parent_trace_id ctx' = parent_trace_id ctx"
  shows "alike fr b (execute_failed a t ctx st e) (execute_failed a' t ctx' st e)"
proof -
  have names: "a_name a' = a_name a" "wrap_spawn_error a' e = wrap_spawn_error a e"
    by (simp_all add: assms(1) wrap_spawn_error_def)
  show ?thesis
    unfolding execute_failed_def agent_event_history [OF assms] names Let_def
    by (intro alike_bnd alike_steps)
qed

lemma execute_agent_history:
  assumes "a' = a\<lparr>a_context_passer := c\<rparr>" "parent_trace_id ctx' = parent_trace_id ctx"
    and "env_llm E = plain_llm d f"
  shows "execute_agent E a' t ctx' (s\<lparr>backend_st := b\<rparr>) =
    (case execute_agent E a t ctx s of (r, u) \<Rightarrow> (r, u\<lparr>backend_st := b\<rparr>))"
proof -
  let ?f = "Some (own_frame a t ctx)" and ?f' = "Some (own_frame a' t ctx')"
  let ?u = "s\<lparr>current_spawn := ?f\<rparr>"
  have start: "s\<lparr>backend_st := b\<rparr>\<lparr>current_spawn := ?f'\<rparr> = relocate ?f' b ?u"
    by (simp add: relocate_def)
  have now: "now (relocate ?f' b ?u) = now ?u" by (simp add: relocate_def)
  have body: "execute_body E a' t ctx' (now ?u) (relocate ?f' b ?u) =
      (case execute_body E a t ctx (now ?u) ?u of (r, v) \<Rightarrow> (r, relocate ?f' b v))"
    using execute_body_alike [OF assms, of ?f' b t "now ?u"] by (simp add: alike_def)
  have failed: "execute_failed a' t ctx' st e (relocate ?f' b v) =
      (case execute_failed a t ctx st e v of (r, w) \<Rightarrow> (r, relocate ?f' b w))" for st e v
    using execute_failed_alike [OF assms(1,2), of ?f' b t st e] by (simp add: alike_def)
  show ?thesis
    unfolding execute_agent_def with_frame_def finally_do_def start now body
    using failed by (auto simp: relocate_def split: prod.split sum.split)
qed

lemma spawn_and_wait_history:
  assumes "a' = a\<lparr>a_context_passer := c\<rparr>" "parent_trace_id ctx' = parent_trace_id ctx"
    and "env_llm E = plain_llm d f"
  shows "bnd (async_spawn a' t ctx') (async_result E) s = bnd (async_spawn a t ctx) (async_result E) s"
proof -
  have names: "a_name a' = a_name a" "trust_level a' = trust_level a"
    "fresh_handle k a' t = fresh_handle k a t" for k
    by (simp_all add: assms(1) fresh_handle_def)
  let ?k = "as_next (backend_st s)" let ?h = "fresh_handle ?k a t"
  define S0 where "S0 = (snd (emit (agent_event AGENT_SPAWNED a t ctx (now s)
      [(''backend'', VStr backend_name), (''trust_level'', VStr (trust_value (trust_level a)))]) s))
      \<lparr>backend_st := (backend_st s)\<lparr>as_next := Suc ?k\<rparr>\<rparr>"
  have sp: "async_spawn a t ctx s = (Inr ?h, as_put ?k (Created a t ctx) S0)"
    "async_spawn a' t ctx' s = (Inr ?h, as_put ?k (Created a' t ctx') S0)"
    by (simp_all add: async_spawn_def S0_def emit_def Let_def names agent_event_history [OF assms(1,2)])
  define s1 where "s1 = as_put ?k (Created a t ctx) S0"
  let ?s = s1 let ?b' = "backend_st (as_put ?k (Created a' t ctx') S0)"
  have moved: "as_put ?k (Created a' t ctx') S0 = ?s\<lparr>backend_st := ?b'\<rparr>"
    by (simp add: as_put_def s1_def)
  obtain r u where ex: "execute_agent E a t ctx ?s = (r, u)" by fastforce
  have same: "u\<lparr>backend_st := backend_st ?s\<rparr> = u"
  proof -
    have id: "a = a\<lparr>a_context_passer := a_context_passer a\<rparr>" "?s\<lparr>backend_st := backend_st ?s\<rparr> = ?s"
      by simp_all
    show ?thesis
      using execute_agent_history [OF id(1) refl assms(3), where t = t and ctx = ctx and b = "backend_st ?s" and s = ?s]
      unfolding id(2) ex by simp
  qed
  have ex': "execute_agent E a' t ctx' (as_put ?k (Created a' t ctx') S0) = (r, u\<lparr>backend_st := ?b'\<rparr>)"
    using execute_agent_history [OF assms, of t ?b' ?s] ex moved by simp
  have "as_put ?k (Done r) (u\<lparr>backend_st := ?b'\<rparr>) = as_put ?k (Done r) (u\<lparr>backend_st := backend_st ?s\<rparr>)"
    by (simp add: as_put_def s1_def)
  then have final: "as_put ?k (Done r) (u\<lparr>backend_st := ?b'\<rparr>) = as_put ?k (Done r) u" unfolding same .
  have key: "handle_key ?h = ?k" by (simp add: handle_key_def fresh_handle_def)
  have "dget (as_tasks (backend_st (as_put ?k c S0))) ?k = Some c" for c by (simp add: as_put_def)
  moreover from this [of "Created a t ctx"]
  have "dget (as_tasks (backend_st s1)) ?k = Some (Created a t ctx)" unfolding s1_def .
  ultimately show ?thesis
    by (simp add: bnd_def sp async_result_def key s1_def [symmetric] ex ex' final)
qed

lemma dispatch_history:
  assumes "env_llm E = plain_llm d f"
  shows "dispatch_stage (async_runtime opts E) (with_history True h a) t ctx nxt
       = dispatch_stage (async_runtime opts E) (with_history True h' a) t ctx nxt"
proof (rule ext)
  fix s
  let ?a = "with_history True h a" and ?a' = "with_history True h' a"
  have "?a' = ?a\<lparr>a_context_passer := HistoryContextPasser h'\<rparr>" by (simp add: with_history_def)
  from spawn_and_wait_history [OF this _ assms, of
      "overlay_lineage (pc_agent_context ctx) (default_context\<lparr>messages := h'\<rparr>)"
      "overlay_lineage (pc_agent_context ctx) (default_context\<lparr>messages := h\<rparr>)" t s]
  show "dispatch_stage (async_runtime opts E) ?a t ctx nxt s = dispatch_stage (async_runtime opts E) ?a' t ctx nxt s"
    by (simp add: dispatch_stage_def with_history_def async_runtime_def async_backend_def overlay_lineage_def)
qed

text \<open>
  Retaining a delegate's history changes nothing on the asyncio backend: a run of
  the delegate with any history equals its run with any other one, in the result and
  in the whole final state, for every model whose answers depend on what it is given.
\<close>

theorem history_never_reaches_the_model:
  assumes "env_llm E = plain_llm d f"
  shows "run (async_runtime opts E) (ByAgent (with_history True h a)) t s
       = run (async_runtime opts E) (ByAgent (with_history True h' a)) t s"
proof -
  let ?R = "async_runtime opts E"
  let ?a = "with_history True h a" and ?a' = "with_history True h' a"
  have names: "a_name ?a' = a_name ?a" "mcp_servers ?a' = mcp_servers ?a" by (simp_all add: with_history_def)
  have disp: "dispatch_stage ?R ?a t = dispatch_stage ?R ?a' t"
    by (intro ext) (simp only: dispatch_history [OF assms, of opts h a t _ _ h'])
  have st: "run_stages ?R ?a t b = run_stages ?R ?a' t b" for b
    unfolding run_stages_def disp ..
  have fr: "run_context ?a t c = run_context ?a' t c" "own_frame ?a t c = own_frame ?a' t c" for c
    by (simp_all add: run_context_def own_frame_def names)
  have "run_resolved ?R ?a t u = run_resolved ?R ?a' t u" for u
    unfolding run_resolved_def st fr names ..
  moreover have "resolve_agent ?R (ByAgent x) u = (Inr x, u\<lparr>mcp := track_providers (mcp_servers x) (mcp u)\<rparr>)" for x u
    by (simp add: resolve_agent_def)
  moreover have "warm_providers ?R ?a' = warm_providers ?R ?a"
    by (rule ext) (simp add: warm_providers_def on_mcp_def warm_mcp_providers_def names)
  ultimately show ?thesis by (simp add: run_def bnd_def names cong: sum.case_cong)
qed

section \<open>Witnesses\<close>

definition sample_team :: team where
  "sample_team =
    \<lparr> tm_name = ''desk'', coordinator = sample_node ''lead'' ''Note'' None,
      delegates = [(''dog'', sample_node ''vet'' ''Note'' (Some ''Dog''))],
      tm_output_type = ''Note'', max_rounds = 1, retain_delegate_history = True \<rparr>"

definition sample_team_env :: team_env where
  "sample_team_env =
    \<lparr> te_classes = sample_classes, te_json = (\<lambda>v. ''{}''), te_dump = (\<lambda>v. []), te_dumps = (\<lambda>d. ''{}''),
      te_ids = (\<lambda>n. (replicate (nat n) CHR ''t'', ''r'')) \<rparr>"

definition ask_twice :: team_prog where
  "ask_twice = TDelegate ''dog'' (VModel ''Dog'' []) (\<lambda>r. TDelegate ''dog'' (VModel ''Puppy'' [])
     (\<lambda>r. case r of Inl e \<Rightarrow> TFail e | Inr v \<Rightarrow> TFinish \<lparr> lr_output = VNone, lr_usage = None \<rparr>))"


lemma history_never_reaches_the_model_witness:
  "run (async_runtime default_options (sample_env 1)) (ByAgent (with_history True (exchange ''a'' ''b'') (sample_agent ''a'')))
      sample_task async_start
   = run (async_runtime default_options (sample_env 1)) (ByAgent (with_history True [] (sample_agent ''a'')))
      sample_task async_start"
proof -
  have "env_llm (sample_env 1) = plain_llm (\<lambda>pa p. 1) (\<lambda>pa p. Inr \<lparr> lr_output = VModel ''Out'' [],
      lr_usage = Some \<lparr> total_tokens = None, input_tokens = 3, output_tokens = 4 \<rparr> \<rparr>)"
    by (simp add: sample_env_def plain_llm_def fun_eq_iff bnd_def lift_sum_def split: prod.split sum.split)
  from history_never_reaches_the_model [OF this] show ?thesis .
qed

end
