(* ===== verification/Router.thy ===== *)
theory Router
  imports Job_Backend Worker Run_Server Dashboard
begin

text \<open>
  The rest of \<open>server/app.py\<close> (discovery routes, exposure of agents over MCP, shutdown
  and drain, the handlers that turn an exception into a response) and the lifespan of
  \<open>server/router.py\<close>: start the broker and an in-process worker, and on exit stop the
  worker, drain, stop the backend and release the providers, over the in-memory
  broker that the backend and the worker share.
\<close>

section \<open>Discovery\<close>

definition list_agents :: "('st, 'r) server \<Rightarrow> string list" where
  "list_agents s = sort (dkeys (sv_agents s))"

definition list_groups :: "('st, 'r) server \<Rightarrow> string list" where
  "list_groups s = sort (dkeys (sv_groups s))"

text \<open>The schema of a type is Pydantic's; \<open>schema\<close> stands for it.\<close>

definition agent_schema :: "(string \<Rightarrow> pyval) \<Rightarrow> string \<Rightarrow> (('st, 'r) server, exn, pyval) eff" where
  "agent_schema schema n =
    bnd (require_agent n) (\<lambda>a. ret (VDict
      [(''name'', VStr (a_name a)),
       (''input_type'', case input_type a of None \<Rightarrow> VNone | Some t \<Rightarrow> schema t),
       (''output_type'', schema (output_type a))]))"

definition edge_rows :: "agent \<Rightarrow> edge \<Rightarrow> pyval list" where
  "edge_rows src e =
    map (\<lambda>t. VDict [(''from'', VStr (a_name src)), (''to'', VStr (a_name t)),
                    (''fan_out'', VBool (edge_mapper e = None)),
                    (''conditional'', VBool (edge_condition e \<noteq> None))]) (edge_to e)"

definition group_topology :: "string \<Rightarrow> (('st, 'r) server, exn, pyval) eff" where
  "group_topology n =
    bnd (require_group n) (\<lambda>g. ret (VDict
      [(''name'', VStr (g_name g)),
       (''agents'', VList (map (\<lambda>a. VStr (a_name a)) (group_agents g))),
       (''edges'', VList (concat (map (\<lambda>src. concat (map (edge_rows src) (outgoing_edges g src))) (dkeys (topology g)))))]))"

section \<open>Exposure over MCP\<close>

record enrollment =
  en_agent :: agent
  en_tool_name :: string
  en_description :: string

definition line_break :: "char \<Rightarrow> bool" where
  "line_break c = (of_char c \<in> ({10, 11, 12, 13, 28, 29, 30, 133} :: nat set))"

text \<open>The ellipsis is one non-ASCII character: its three UTF-8 bytes.\<close>

definition ellipsis :: string where
  "ellipsis = [CHR 0xE2, CHR 0x80, CHR 0xA6]"

definition summarise_instructions :: "string \<Rightarrow> string" where
  "summarise_instructions s =
    (let first_line = takeWhile (\<lambda>c. \<not> line_break c) (strip s) in
     if first_line = [] then ''Murmur agent (no description provided).''
     else if length first_line > 200 then take 199 first_line @ ellipsis
     else first_line)"

text \<open>
  The agent joins the HTTP map first; an empty tool name or description then fails
  the validation of the enrollment.
\<close>

definition register_mcp ::
  "agent \<Rightarrow> string option \<Rightarrow> string option \<Rightarrow> (('st, 'r) server \<times> (string, enrollment) dict, exn, unit) eff" where
  "register_mcp a tool description st =
    (case st of (s, enrolled) \<Rightarrow>
      let s1 = s\<lparr>sv_agents := dsetdefault (a_name a) a (sv_agents s)\<rparr>;
          name = (case tool of None \<Rightarrow> a_name a | Some n \<Rightarrow> n);
          text = (case description of None \<Rightarrow> summarise_instructions (instructions a) | Some d \<Rightarrow> d)
      in if name = [] \<or> text = [] then (Inl (Exn PyValueError ''at least 1 character''), (s1, enrolled))
         else (Inr (), (s1, dset name \<lparr> en_agent = a, en_tool_name = name, en_description = text \<rparr> enrolled)))"

definition serve_mcp :: "(string, enrollment) dict \<Rightarrow> exn + enrollment list" where
  "serve_mcp enrolled =
    (if enrolled = [] then Inl (Exn RegistryError ''no agents enrolled for MCP'')
     else Inr (dvalues enrolled))"

section \<open>Responses to exceptions\<close>

text \<open>An \<open>HTTPException\<close> is answered by the framework with the status it carries.\<close>

definition response_status :: "(exn \<Rightarrow> nat) \<Rightarrow> exn \<Rightarrow> nat" where
  "response_status http_status e =
    (if isinstance e MurmurError then status_for e
     else if isinstance e PyTimeoutError then 504
     else if exn_cls e = PyOther ''HTTPException'' then http_status e
     else 500)"

definition request_id_header :: "http_request \<Rightarrow> string \<Rightarrow> string" where
  "request_id_header rq fresh =
    (case rq_request_id rq of Some (c # cs) \<Rightarrow> c # cs | _ \<Rightarrow> fresh)"

section \<open>Shutdown\<close>

definition initiate_shutdown :: "('st, 'r) server \<Rightarrow> ('st, 'r) server" where
  "initiate_shutdown s = (if sv_shutting_down s then s else s\<lparr>sv_shutting_down := True\<rparr>)"

text \<open>
  The poll of the drain: \<open>active\<close> is how many submitted runs have not ended at a moment.
  The result is the moment the loop ends.
\<close>

function drain_poll :: "(rat \<Rightarrow> nat) \<Rightarrow> rat \<Rightarrow> rat \<Rightarrow> rat" where
  "drain_poll active deadline t =
    (if active t = 0 \<or> t > deadline then t else drain_poll active deadline (t + 1 / 20))"
  by pat_completeness auto
termination
proof (relation "measure (\<lambda>(active, deadline, t). nat (\<lfloor>(deadline - t) * 20\<rfloor> + 1))", goal_cases)
  case (2 active deadline t)
  then have "t \<le> deadline" by simp
  then have "0 \<le> \<lfloor>(deadline - t) * 20\<rfloor>" by simp
  moreover have "(deadline - (t + 1 / 20)) * 20 = (deadline - t) * 20 - 1" by (simp add: algebra_simps)
  then have "\<lfloor>(deadline - (t + 1 / 20)) * 20\<rfloor> = \<lfloor>(deadline - t) * 20\<rfloor> - 1" by (simp only: floor_diff_one)
  ultimately show ?case by simp
qed simp

declare drain_poll.simps [simp del]

definition server_drain :: "rat \<Rightarrow> (rat \<Rightarrow> nat) \<Rightarrow> rat \<Rightarrow> rat" where
  "server_drain drain_timeout active t =
    (if active t = 0 then t else drain_poll active (t + drain_timeout) t)"

theorem drain_is_bounded:
  assumes "0 \<le> drain_timeout"
  shows "let u = server_drain drain_timeout active t in
    t \<le> u \<and> u \<le> t + drain_timeout + 1 / 20 \<and> (active u = 0 \<or> u > t + drain_timeout)"
proof -
  have "t0 \<le> d + 1 / 20 \<longrightarrow> t0 \<le> drain_poll active d t0 \<and> drain_poll active d t0 \<le> d + 1 / 20
      \<and> (active (drain_poll active d t0) = 0 \<or> drain_poll active d t0 > d)" for d t0
  proof (induction active d t0 rule: drain_poll.induct)
    case (1 active d t0)
    show ?case
    proof (cases "active t0 = 0 \<or> t0 > d")
      case True
      then show ?thesis by (simp add: drain_poll.simps [of active d t0])
    next
      case False
      then show ?thesis using 1 by (simp add: drain_poll.simps [of active d t0])
    qed
  qed
  from this [of t "t + drain_timeout"] show ?thesis using assms by (simp add: server_drain_def Let_def)
qed

section \<open>The router's lifespan\<close>

text \<open>
  \<open>ro_worker_rt\<close> is the runtime the user handed over for the worker; without one the
  worker builds its own, which nobody shuts down.
\<close>

record ('st, 'b) router =
  ro_server :: "('st, job_state rt) server"
  ro_worker :: "('b worker_config \<times> 'b worker_state) option"
  ro_worker_rt :: "'b rt option"

definition on_jobs :: "(job_state \<Rightarrow> job_state) \<Rightarrow> ('st, 'b) router \<Rightarrow> ('st, 'b) router" where
  "on_jobs f r =
    (let s = ro_server r; u = sv_rt s
     in r\<lparr>ro_server := s\<lparr>sv_rt := u\<lparr>backend_st := f (backend_st u)\<rparr>\<rparr>\<rparr>)"

definition runtime_shutdown :: "'b rt \<Rightarrow> 'b rt" where
  "runtime_shutdown u = u\<lparr>mcp := mcp_shutdown (mcp u)\<rparr>"

text \<open>Construction: a server passed in excludes what it would be built from.\<close>

definition router_init :: "bool \<Rightarrow> bool \<Rightarrow> bool \<Rightarrow> bool \<Rightarrow> exn + unit" where
  "router_init has_server has_runtime has_store has_sse =
    (if has_server \<and> (has_runtime \<or> has_store) then Inl (Exn PyValueError ''pass either server= or runtime='')
     else if has_server \<and> has_sse then Inl (Exn PyValueError ''sse_emitter= is for the router-built server'')
     else Inr ())"

text \<open>
  Startup of a broker-mode runtime (an in-process one starts nothing).  The worker is
  built over every agent registered by now and shares the backend's broker.
\<close>

definition router_startup ::
  "job_config \<Rightarrow> bool \<Rightarrow> nat \<Rightarrow> ((string, agent) dict \<Rightarrow> exn + 'b worker_config) \<Rightarrow> 'b rt
    \<Rightarrow> (('st, 'b) router, exn, unit) eff" where
  "router_startup cfg start_workers wid build fresh r =
    (let r1 = on_jobs (job_start cfg) r; agents = sv_agents (ro_server r1)
     in if \<not> start_workers \<or> agents = [] then (Inr (), r1)
        else case build agents of
          Inl e \<Rightarrow> (Inl e, r1)
        | Inr C \<Rightarrow>
           (case worker_start wid C \<lparr> ws_rt = (case ro_worker_rt r1 of None \<Rightarrow> fresh | Some u \<Rightarrow> u),
                    ws_active = [], ws_started = False, ws_heartbeat = False \<rparr>
                  (jb_broker (backend_st (sv_rt (ro_server r1)))) of
              (w, b) \<Rightarrow> (Inr (), (on_jobs (\<lambda>j. j\<lparr>jb_broker := b\<rparr>) r1)\<lparr>ro_worker := Some (C, w)\<rparr>)))"

text \<open>
  The phases of the shutdown.  \<open>finish\<close> is what the worker's handlers in flight do, and
  \<open>settle\<close> what the submitted runs do to the server while the drain waits.
\<close>

definition stop_worker :: "('b worker_state \<Rightarrow> 'b worker_state) \<Rightarrow> ('st, 'b) router \<Rightarrow> ('st, 'b) router" where
  "stop_worker finish r =
    (case ro_worker r of
       None \<Rightarrow> r
     | Some (C, w) \<Rightarrow>
        (case worker_stop C finish w (jb_broker (backend_st (sv_rt (ro_server r)))) of
           (w1, b) \<Rightarrow> (on_jobs (\<lambda>j. j\<lparr>jb_broker := b\<rparr>) r)
              \<lparr>ro_worker := None, ro_worker_rt := map_option (\<lambda>_. ws_rt w1) (ro_worker_rt r)\<rparr>))"

definition drain_runs ::
  "(('st, job_state rt) server \<Rightarrow> ('st, job_state rt) server) \<Rightarrow> ('st, 'b) router \<Rightarrow> ('st, 'b) router" where
  "drain_runs settle r = (if sv_active (ro_server r) = [] then r else r\<lparr>ro_server := settle (ro_server r)\<rparr>)"

definition release_runtime :: "('st, 'b) router \<Rightarrow> ('st, 'b) router" where
  "release_runtime r =
    r\<lparr>ro_server := (ro_server r)\<lparr>sv_rt := runtime_shutdown (sv_rt (ro_server r))\<rparr>,
      ro_worker_rt := map_option runtime_shutdown (ro_worker_rt r)\<rparr>"

definition router_shutdown ::
  "('b worker_state \<Rightarrow> 'b worker_state) \<Rightarrow> (('st, job_state rt) server \<Rightarrow> ('st, job_state rt) server)
    \<Rightarrow> ('st, 'b) router \<Rightarrow> ('st, 'b) router" where
  "router_shutdown finish settle r =
    release_runtime (on_jobs job_stop (drain_runs settle (stop_worker finish r)))"

text \<open>
  The worker's stop closes the broker it shares with the backend.  From there on, and
  so for all of the drain, the backend still believes it is started, starting it again
  does nothing, nobody listens on any topic, and every publication raises.
\<close>

theorem worker_stop_closes_the_shared_broker:
  assumes "ro_worker r = Some (C, w)" "ws_started w"
  shows "let j = backend_st (sv_rt (ro_server r)); k = backend_st (sv_rt (ro_server (stop_worker finish r))) in
    jb_started k = jb_started j \<and> (jb_started k \<longrightarrow> job_start cfg k = k)
    \<and> audience (jb_broker k) topic = [] \<and> pool (jb_broker k) topic g = []
    \<and> (\<exists>msg. fst (broker_publish topic m (jb_broker k)) = Inl (Exn PyRuntimeError msg))"
  using assms
  by (simp add: stop_worker_def worker_stop_def on_jobs_def job_start_def broker_publish_def broker_stop_def
      audience_def pool_def dget_or_def Let_def)

text \<open>A completed shutdown leaves no worker, a stopped backend and no supervised provider.\<close>

lemma router_shutdown_releases:
  "ro_worker (router_shutdown finish settle r) = None
    \<and> \<not> jb_started (backend_st (sv_rt (ro_server (router_shutdown finish settle r))))
    \<and> \<not> br_started (jb_broker (backend_st (sv_rt (ro_server (router_shutdown finish settle r)))))
    \<and> mcp_supervisors (mcp (sv_rt (ro_server (router_shutdown finish settle r)))) = []"
  by (cases "ro_worker r")
    (simp_all add: router_shutdown_def release_runtime_def on_jobs_def drain_runs_def stop_worker_def
      runtime_shutdown_def job_stop_def broker_stop_def mcp_shutdown_def Let_def split: prod.split)

end
