(* ===== verification/Templates.thy ===== *)
theory Templates
  imports Types
begin

text \<open>
  \<open>templates.py\<close>: materialising an agent from shared defaults and per-call
  overrides, and \<open>registry/memory.py\<close>: the in-memory spec registry.
\<close>

section \<open>Agent templates\<close>

record template_fields =
  tf_model :: "model_spec option"
  tf_fallback_models :: "string list option"
  tf_input_type :: "string option"
  tf_tools :: "string set option"
  tf_mcp_servers :: "string list option"
  tf_builtin_tools :: "string list option"
  tf_max_concurrent_requests :: "int option"
  tf_limiter :: "string option"
  tf_model_settings :: "(string, pyval) dict option"
  tf_trust_level :: "trust_level option"
  tf_context_passer :: "context_passer option"

record agent_template = template_fields +
  pre_instruction :: "string option"

definition template_validate :: "agent_template \<Rightarrow> exn + agent_template" where
  "template_validate t =
    (case concurrency_limit_ok (tf_max_concurrent_requests t) (tf_limiter t) of
       Some e \<Rightarrow> Inl e | None \<Rightarrow> Inr t)"

text \<open>\<open>call_value if call_value is not None else template_value\<close>.\<close>

definition resolved :: "'a option \<Rightarrow> 'a option \<Rightarrow> 'a option" where
  "resolved call_value template_value = (if call_value \<noteq> None then call_value else template_value)"

definition or_default :: "'a option \<Rightarrow> 'a \<Rightarrow> 'a" where
  "or_default x d = (case x of Some v \<Rightarrow> v | None \<Rightarrow> d)"

definition final_instructions :: "string option \<Rightarrow> string \<Rightarrow> string" where
  "final_instructions pre ins =
    (case pre of None \<Rightarrow> ins | Some p \<Rightarrow> p @ [CHR 10, CHR 10] @ ins)"

text \<open>
  \<open>AgentTemplate.agent\<close>: the call keywords (a \<open>template_fields\<close> record) win over the
  template's; a keyword left out of \<open>Agent(**kwargs)\<close> takes the class default,
  and a missing \<open>model\<close> is a validation error of the constructor.
\<close>

definition template_agent ::
  "agent_template \<Rightarrow> string \<Rightarrow> string \<Rightarrow> string \<Rightarrow> template_fields \<Rightarrow>
     string list \<Rightarrow> string list \<Rightarrow> string \<Rightarrow> exn + agent" where
  "template_agent t nm ins out call pre post be =
    (case resolved (tf_model call) (tf_model t) of
       None \<Rightarrow> Inl (Exn PyValueError ''model: field required'')
     | Some m \<Rightarrow> agent_validate
        \<lparr> a_name = nm, a_model = m,
          fallback_models =
            or_default (resolved (tf_fallback_models call) (tf_fallback_models t)) [],
          instructions = final_instructions (pre_instruction t) ins,
          output_type = out,
          input_type = resolved (tf_input_type call) (tf_input_type t),
          a_tools = or_default (resolved (tf_tools call) (tf_tools t)) {},
          mcp_servers = or_default (resolved (tf_mcp_servers call) (tf_mcp_servers t)) [],
          builtin_tools = or_default (resolved (tf_builtin_tools call) (tf_builtin_tools t)) [],
          max_concurrent_requests =
            resolved (tf_max_concurrent_requests call) (tf_max_concurrent_requests t),
          model_concurrency_limiter = resolved (tf_limiter call) (tf_limiter t),
          model_settings = resolved (tf_model_settings call) (tf_model_settings t),
          trust_level = or_default (resolved (tf_trust_level call) (tf_trust_level t)) MEDIUM,
          a_context_passer =
            or_default (resolved (tf_context_passer call) (tf_context_passer t)) NullContextPasser,
          a_backend = be, pre_process = pre, post_process = post \<rparr>)"

lemma concurrency_limit_ok_None_iff:
  "concurrency_limit_ok m l = None \<longleftrightarrow>
     (case m of None \<Rightarrow> True | Some n \<Rightarrow> l = None \<and> n \<ge> 1)"
  by (auto simp: concurrency_limit_ok_def split: option.splits)

lemma agent_validate_Inr_iff:
  "agent_validate a = Inr b \<longleftrightarrow>
     b = a \<and> concurrency_limit_ok (max_concurrent_requests a) (model_concurrency_limiter a) = None"
  by (auto simp: agent_validate_def split: option.splits)

lemma template_agent_Inr_iff:
  "(\<exists>a. template_agent t nm ins out call pre post be = Inr a) \<longleftrightarrow>
     resolved (tf_model call) (tf_model t) \<noteq> None \<and>
     (case resolved (tf_max_concurrent_requests call) (tf_max_concurrent_requests t) of
        None \<Rightarrow> True
      | Some n \<Rightarrow> resolved (tf_limiter call) (tf_limiter t) = None \<and> n \<ge> 1)"
  by (auto simp: template_agent_def agent_validate_Inr_iff concurrency_limit_ok_None_iff
      split: option.splits)

text \<open>
  An agent comes out of a template exactly when a model is given by the call or by
  the template and the resolved concurrency knobs are not contradictory; every
  field of it is then the call's value, else the template's, else the default, and
  the template's preamble leads its instructions.
\<close>

theorem template_agent_resolution:
  assumes "template_agent t nm ins out call pre post be = Inr a"
  shows "a_name a = nm \<and> Some (a_model a) = resolved (tf_model call) (tf_model t)
    \<and> trust_level a = or_default (resolved (tf_trust_level call) (tf_trust_level t)) MEDIUM
    \<and> a_tools a = or_default (resolved (tf_tools call) (tf_tools t)) {}
    \<and> a_context_passer a =
        or_default (resolved (tf_context_passer call) (tf_context_passer t)) NullContextPasser
    \<and> instructions a = final_instructions (pre_instruction t) ins
    \<and> agent_validate a = Inr a"
  using assms unfolding template_agent_def
  by (auto simp: agent_validate_Inr_iff split: option.splits)

definition no_overrides :: template_fields where
  "no_overrides = \<lparr> tf_model = None, tf_fallback_models = None, tf_input_type = None,
     tf_tools = None, tf_mcp_servers = None, tf_builtin_tools = None,
     tf_max_concurrent_requests = None, tf_limiter = None, tf_model_settings = None,
     tf_trust_level = None, tf_context_passer = None \<rparr>"

definition sample_template :: agent_template where
  "sample_template = \<lparr> tf_model = Some (ModelName ''m''), tf_fallback_models = None,
     tf_input_type = None, tf_tools = Some {''t''}, tf_mcp_servers = None,
     tf_builtin_tools = None, tf_max_concurrent_requests = Some 3, tf_limiter = None,
     tf_model_settings = None, tf_trust_level = Some LOW, tf_context_passer = None,
     pre_instruction = Some ''P'' \<rparr>"

lemma template_agent_resolution_witness:
  "\<exists>a. template_agent sample_template ''n'' ''i'' ''Out''
        (no_overrides\<lparr>tf_trust_level := Some HIGH\<rparr>) [] [] ''auto'' = Inr a
     \<and> trust_level a = HIGH \<and> a_tools a = {''t''}
     \<and> instructions a = ''P'' @ [CHR 10, CHR 10] @ ''i''"
proof -
  obtain a where a: "template_agent sample_template ''n'' ''i'' ''Out''
      (no_overrides\<lparr>tf_trust_level := Some HIGH\<rparr>) [] [] ''auto'' = Inr a"
    using template_agent_Inr_iff [of sample_template "''n''" "''i''" "''Out''"
        "no_overrides\<lparr>tf_trust_level := Some HIGH\<rparr>" "[]" "[]" "''auto''"]
    by (auto simp: sample_template_def no_overrides_def resolved_def)
  show ?thesis
    using a template_agent_resolution [OF a]
    by (auto simp: sample_template_def no_overrides_def resolved_def or_default_def
        final_instructions_def)
qed

section \<open>The in-memory registry\<close>

type_synonym memory_registry = "(string, agent) dict"

definition registry_init :: "agent list \<Rightarrow> memory_registry" where
  "registry_init as = foldl (\<lambda>d x. dset (a_name x) x d) [] as"

definition registry_register :: "agent \<Rightarrow> memory_registry \<Rightarrow> exn + memory_registry" where
  "registry_register a d =
    (if dhas d (a_name a) then Inl (Exn RegistryError (''already registered: '' @ a_name a))
     else Inr (dset (a_name a) a d))"

definition registry_get :: "memory_registry \<Rightarrow> string \<Rightarrow> exn + agent" where
  "registry_get d n =
    (case dget d n of Some a \<Rightarrow> Inr a | None \<Rightarrow> Inl (Exn RegistryError (''not found: '' @ n)))"

definition registry_list :: "memory_registry \<Rightarrow> string set" where
  "registry_list d = set (dkeys d)"

definition registry_ok :: "memory_registry \<Rightarrow> bool" where
  "registry_ok d = (dict_ok d \<and> (\<forall>(n, a) \<in> set d. a_name a = n))"

lemma registry_ok_dset: "registry_ok d \<Longrightarrow> registry_ok (dset (a_name a) a d)"
  by (auto simp: registry_ok_def set_dset_dict_ok)

lemma registry_register_ok:
  "registry_ok d \<Longrightarrow> registry_register a d = Inr d' \<Longrightarrow> registry_ok d'"
  by (auto simp: registry_register_def registry_ok_dset split: if_splits)

lemma registry_init_ok: "registry_ok (registry_init as)"
proof -
  have "registry_ok d \<Longrightarrow> registry_ok (foldl (\<lambda>d x. dset (a_name x) x d) d xs)" for d xs
    by (induction xs arbitrary: d) (simp_all add: registry_ok_dset)
  from this [of "[]" as] show ?thesis by (simp add: registry_init_def registry_ok_def)
qed

lemma registry_get_register:
  "registry_register a d = Inr d' \<Longrightarrow>
     registry_get d' n = (if n = a_name a then Inr a else registry_get d n)"
  by (auto simp: registry_register_def registry_get_def split: if_splits)

end
