(* ===== verification/Agent_Tools.thy ===== *)
theory Agent_Tools
  imports Team_Safety Router Templates
begin

text \<open>
  Agents behind tools: \<open>tools/spawn.py\<close> (children of a template, for a model to spawn),
  \<open>mcp_server/_bridge.py\<close> and \<open>_server.py\<close> (an agent as an MCP tool, and the guard of its
  transport) and \<open>interop/pydantic_ai.py\<close>.  The run of a child is an argument of the
  spawn tool, as the runtime is of the closure.  The children of one call run one
  after the other, in the order in which the semaphore admits them.
\<close>

section \<open>The spawn tool\<close>

record spawn_spec =
  sp_name :: string
  sp_instructions :: string
  sp_input :: string

record spawn_result =
  sr_name :: string
  sr_success :: bool
  sr_output :: "(string, pyval) dict option"
  sr_error :: "string option"

definition child_failed :: "spawn_spec \<Rightarrow> string \<Rightarrow> spawn_result" where
  "child_failed sp msg = \<lparr> sr_name = sp_name sp, sr_success = False, sr_output = None, sr_error = Some msg \<rparr>"

definition spawn_tool_init :: "int \<Rightarrow> exn + unit" where
  "spawn_tool_init max_concurrency =
    (if max_concurrency < 1 then Inl (Exn PyValueError ''max_concurrency must be >= 1'') else Inr ())"

definition spawned_child :: "agent_template \<Rightarrow> string \<Rightarrow> spawn_spec \<Rightarrow> exn + agent" where
  "spawned_child t out sp =
    template_agent t (sp_name sp) (sp_instructions sp) out no_overrides [] [] ''auto''"

text \<open>\<open>TaskSpec(input=...)\<close> with fresh ids.\<close>

definition tool_task :: "string \<times> string \<Rightarrow> string \<Rightarrow> task_spec" where
  "tool_task ids inp = \<lparr> ts_id = fst ids, ts_request_id = snd ids, ts_input = inp, ts_metadata = [] \<rparr>"

definition child_outcome :: "spawn_spec \<Rightarrow> agent_result \<Rightarrow> exn + spawn_result" where
  "child_outcome sp r =
    (case (if is_ok r then ar_output r else None) of
       Some out \<Rightarrow>
         (case model_dump out of
            Inl e \<Rightarrow> Inl e
          | Inr fs \<Rightarrow> Inr \<lparr> sr_name = sp_name sp, sr_success = True, sr_output = Some fs, sr_error = None \<rparr>)
     | None \<Rightarrow> Inr (child_failed sp
         (case ar_error r of Some e \<Rightarrow> exn_msg e | None \<Rightarrow> ''unknown failure'')))"

definition run_child ::
  "(agent \<Rightarrow> task_spec \<Rightarrow> ('s, exn, agent_result) eff) \<Rightarrow> agent_template \<Rightarrow> string \<Rightarrow> string \<times> string
    \<Rightarrow> spawn_spec \<Rightarrow> ('s, exn, spawn_result) eff" where
  "run_child call t out ids sp s =
    (case spawned_child t out sp of
       Inl e \<Rightarrow> (if isinstance e PyException then Inr (child_failed sp (exn_msg e)) else Inl e, s)
     | Inr child \<Rightarrow>
        (case call child (tool_task ids (sp_input sp)) s of
           (Inl e, u) \<Rightarrow> (if isinstance e PyException then Inr (child_failed sp (exn_msg e)) else Inl e, u)
         | (Inr r, u) \<Rightarrow> (child_outcome sp r, u)))"

text \<open>
  \<open>asyncio.gather\<close> lets every child run to its end; the call returns the results in the
  order of the specs, or raises what the first child raised.
\<close>

fun run_children ::
  "(agent \<Rightarrow> task_spec \<Rightarrow> ('s, exn, agent_result) eff) \<Rightarrow> agent_template \<Rightarrow> string
    \<Rightarrow> (nat \<Rightarrow> string \<times> string) \<Rightarrow> nat \<Rightarrow> spawn_spec list \<Rightarrow> 's \<Rightarrow> (exn + spawn_result) list \<times> 's" where
  "run_children call t out ids k [] s = ([], s)"
| "run_children call t out ids k (sp # sps) s =
    (case run_child call t out (ids k) sp s of
       (r, u) \<Rightarrow> (case run_children call t out ids (Suc k) sps u of (rs, v) \<Rightarrow> (r # rs, v)))"

fun gathered :: "(exn + 'a) list \<Rightarrow> exn + 'a list" where
  "gathered [] = Inr []"
| "gathered (Inl e # rs) = Inl e"
| "gathered (Inr x # rs) = map_sum id (Cons x) (gathered rs)"

definition spawn_agents ::
  "(agent \<Rightarrow> task_spec \<Rightarrow> ('s, exn, agent_result) eff) \<Rightarrow> agent_template \<Rightarrow> string
    \<Rightarrow> (nat \<Rightarrow> string \<times> string) \<Rightarrow> spawn_spec list \<Rightarrow> ('s, exn, spawn_result list) eff" where
  "spawn_agents call t out ids sps s =
    (if sps = [] then (Inr [], s)
     else case run_children call t out ids 0 sps s of (rs, u) \<Rightarrow> (gathered rs, u))"

section \<open>What a model can spawn\<close>

text \<open>The surface of the template: all a child has but its name, its instructions and its output type.\<close>

definition within_template :: "agent_template \<Rightarrow> string \<Rightarrow> agent \<Rightarrow> bool" where
  "within_template t out a =
    (Some (a_model a) = tf_model t
     \<and> trust_level a = or_default (tf_trust_level t) MEDIUM
     \<and> a_tools a = or_default (tf_tools t) {}
     \<and> mcp_servers a = or_default (tf_mcp_servers t) []
     \<and> builtin_tools a = or_default (tf_builtin_tools t) []
     \<and> max_concurrent_requests a = tf_max_concurrent_requests t
     \<and> output_type a = out \<and> a_backend a = ''auto'' \<and> pre_process a = [] \<and> post_process a = []
     \<and> (\<exists>ins. instructions a = final_instructions (pre_instruction t) ins))"

lemma spawned_child_within: "spawned_child t out sp = Inr a \<Longrightarrow> within_template t out a \<and> a_name a = sp_name sp"
  by (auto simp: spawned_child_def template_agent_def agent_validate_Inr_iff within_template_def no_overrides_def
      resolved_def split: option.splits if_splits)

lemma run_children_cong:
  assumes "\<And>a tk s. within_template t out a \<Longrightarrow> call a tk s = call' a tk s"
  shows "run_children call t out ids k sps s = run_children call' t out ids k sps s"
proof (induction sps arbitrary: k s)
  case (Cons sp sps)
  have "run_child call t out (ids k) sp s = run_child call' t out (ids k) sp s"
    using assms spawned_child_within [of t out sp] by (auto simp: run_child_def split: sum.split)
  then show ?case using Cons.IH by (simp split: prod.split)
qed simp

text \<open>A result answers its spec.\<close>

definition answers_spec :: "spawn_spec \<Rightarrow> spawn_result \<Rightarrow> bool" where
  "answers_spec sp r =
    (sr_name r = sp_name sp \<and> (sr_success r \<longleftrightarrow> sr_output r \<noteq> None) \<and> (sr_success r \<longleftrightarrow> sr_error r = None))"

definition tame :: "(agent \<Rightarrow> task_spec \<Rightarrow> ('s, exn, agent_result) eff) \<Rightarrow> bool" where
  "tame call = (\<forall>a tk s. case fst (call a tk s) of
      Inl e \<Rightarrow> isinstance e PyException
    | Inr r \<Rightarrow> (\<forall>out. is_ok r \<longrightarrow> ar_output r = Some out \<longrightarrow> (\<exists>fs. model_dump out = Inr fs)))"

lemma agent_validate_error: "agent_validate a = Inl e \<Longrightarrow> exn_cls e = PyValueError"
  by (auto simp: agent_validate_def concurrency_limit_ok_def split: option.splits if_splits)

lemma spawned_child_error:
  assumes "spawned_child t out sp = Inl e"
  shows "isinstance e PyException"
proof -
  have "exn_cls e = PyValueError"
    using assms unfolding spawned_child_def template_agent_def
    by (cases "resolved (tf_model no_overrides) (tf_model t)") (auto dest: agent_validate_error)
  then show ?thesis by (simp add: isinstance_def issubclass_def)
qed

lemma child_failed_answers [simp]: "answers_spec sp (child_failed sp msg)"
  by (simp add: child_failed_def answers_spec_def)

lemma child_outcome_answers:
  assumes "\<And>out. is_ok r \<Longrightarrow> ar_output r = Some out \<Longrightarrow> \<exists>fs. model_dump out = Inr fs"
  shows "\<exists>x. child_outcome sp r = Inr x \<and> answers_spec sp x"
proof (cases "if is_ok r then ar_output r else None")
  case None
  then show ?thesis by (simp add: child_outcome_def)
next
  case (Some out)
  then obtain fs where "model_dump out = Inr fs" using assms by (auto split: if_splits)
  then show ?thesis using Some by (simp add: child_outcome_def answers_spec_def)
qed

lemma run_child_tame:
  assumes "tame call"
  shows "\<exists>r. fst (run_child call t out i sp s) = Inr r \<and> answers_spec sp r"
proof (cases "spawned_child t out sp")
  case (Inl e)
  then show ?thesis using spawned_child_error [OF Inl] by (simp add: run_child_def)
next
  case (Inr child)
  obtain x u where x: "call child (tool_task i (sp_input sp)) s = (x, u)" by force
  have ok: "case fst (call child (tool_task i (sp_input sp)) s) of Inl e \<Rightarrow> isinstance e PyException
    | Inr r \<Rightarrow> (\<forall>out. is_ok r \<longrightarrow> ar_output r = Some out \<longrightarrow> (\<exists>fs. model_dump out = Inr fs))"
    using assms unfolding tame_def by blast
  show ?thesis
  proof (cases x)
    case (Inl e)
    then show ?thesis using ok x \<open>spawned_child t out sp = Inr child\<close> by (simp add: run_child_def)
  next
    case (Inr r)
    then have "\<exists>y. child_outcome sp r = Inr y \<and> answers_spec sp y" using ok x by (intro child_outcome_answers) simp
    then show ?thesis using Inr x \<open>spawned_child t out sp = Inr child\<close> by (simp add: run_child_def)
  qed
qed

lemma run_children_tame:
  assumes "tame call"
  shows "\<exists>rs. gathered (fst (run_children call t out ids k sps s)) = Inr rs \<and> list_all2 answers_spec sps rs"
proof (induction sps arbitrary: k s)
  case (Cons sp sps)
  obtain r u where r: "run_child call t out (ids k) sp s = (r, u)" by force
  obtain x where x: "r = Inr x" "answers_spec sp x" using run_child_tame [OF assms, of t out "ids k" sp s] r by auto
  obtain rs where "gathered (fst (run_children call t out ids (Suc k) sps u)) = Inr rs" "list_all2 answers_spec sps rs"
    using Cons.IH by blast
  then show ?case using r x by (simp add: split_beta)
qed simp

text \<open>
  C33. A model that calls the spawn tool stays inside its template: every child it makes
  runs with the template's model, trust level, tools and servers, whatever names,
  instructions and inputs it picks, for two runtimes that treat such agents alike
  cannot be told apart by a call.  And when runs raise at worst ordinary exceptions and
  return models, the call answers every spec, in order, each with an output or with an
  error, and raises nothing.
\<close>

theorem spawn_tool_contract:
  "((\<forall>a tk s. within_template t out a \<longrightarrow> call a tk s = call' a tk s) \<longrightarrow>
      spawn_agents call t out ids sps s = spawn_agents call' t out ids sps s)
   \<and> (tame call \<longrightarrow> (\<exists>rs. fst (spawn_agents call t out ids sps s) = Inr rs \<and> list_all2 answers_spec sps rs))"
proof (intro conjI impI)
  assume "\<forall>a tk s. within_template t out a \<longrightarrow> call a tk s = call' a tk s"
  then show "spawn_agents call t out ids sps s = spawn_agents call' t out ids sps s"
    using run_children_cong [of t out call call' ids 0 sps s] by (simp add: spawn_agents_def)
next
  assume "tame call"
  then show "\<exists>rs. fst (spawn_agents call t out ids sps s) = Inr rs \<and> list_all2 answers_spec sps rs"
    using run_children_tame [of call t out ids 0 sps s] by (auto simp: spawn_agents_def split: prod.split)
qed

definition swarm_call :: "bool \<Rightarrow> agent \<Rightarrow> task_spec \<Rightarrow> (nat, exn, agent_result) eff" where
  "swarm_call strict a tk s =
    (if strict \<and> trust_level a \<noteq> LOW then (Inl (Exn PyCancelledError ''''), s)
     else if a_name a = ''bad'' then (Inl (Exn SpawnCapError ''cap''), s)
     else (Inr \<lparr> ar_output = Some (VModel ''Out'' [(''v'', VStr (ts_input tk))]), ar_error = None,
             ar_metadata = default_metadata, ar_agent_name = a_name a, ar_task_id = ts_id tk \<rparr>, Suc s))"

lemma spawn_tool_contract_witness:
  "let ids = (\<lambda>k. (''t'', ''r''));
       sps = [\<lparr> sp_name = ''good'', sp_instructions = ''i'', sp_input = ''x'' \<rparr>,
              \<lparr> sp_name = ''bad'', sp_instructions = ''i'', sp_input = ''y'' \<rparr>] in
    spawn_agents (swarm_call False) sample_template ''Out'' ids sps 0 = spawn_agents (swarm_call True) sample_template ''Out'' ids sps 0
    \<and> (\<exists>rs. fst (spawn_agents (swarm_call False) sample_template ''Out'' ids sps 0) = Inr rs \<and> list_all2 answers_spec sps rs)"
proof -
  have "tame (swarm_call False)"
    by (simp add: tame_def swarm_call_def isinstance_def issubclass_def model_dump_def)
  moreover have "\<forall>a tk s. within_template sample_template ''Out'' a \<longrightarrow> swarm_call False a tk s = swarm_call True a tk s"
    by (simp add: within_template_def sample_template_def swarm_call_def or_default_def)
  ultimately show ?thesis
    unfolding Let_def
    using spawn_tool_contract [of sample_template "''Out''" "swarm_call False" "swarm_call True" "\<lambda>k. (''t'', ''r'')"
        "[\<lparr> sp_name = ''good'', sp_instructions = ''i'', sp_input = ''x'' \<rparr>,
          \<lparr> sp_name = ''bad'', sp_instructions = ''i'', sp_input = ''y'' \<rparr>]" 0]
    by iprover
qed

text \<open>Whatever a run keeps, a call of the tool keeps: among it the spawn cap and the budget.\<close>

lemma run_children_keeps:
  "(\<And>a tk. keeps P (call a tk)) \<Longrightarrow> P s \<Longrightarrow> P (snd (run_children call t out ids k sps s))"
proof (induction sps arbitrary: k s)
  case (Cons sp sps)
  have "P (snd (call a tk s))" for a tk using Cons.prems(1) [of a tk] Cons.prems(2) unfolding keeps_def by blast
  then have "P (snd (run_child call t out (ids k) sp s))"
    using Cons.prems(2) by (simp add: run_child_def split_beta split: sum.split)
  then show ?case using Cons.IH [OF Cons.prems(1)] by (auto simp: split_beta)
qed simp

lemma spawn_agents_keeps:
  "(\<And>a tk. keeps P (call a tk)) \<Longrightarrow> keeps P (spawn_agents call t out ids sps)"
  using run_children_keeps [of P call] by (auto simp: keeps_def spawn_agents_def split_beta)

lemma spawn_tool_respects_cap:
  "keeps (cap_inv opts) (spawn_agents (\<lambda>a. run (cascade_runtime n opts E brain) (ByAgent a)) t out ids sps)"
  by (rule spawn_agents_keeps) (rule cascade_cap.tower.run_keeps)

section \<open>Agents over MCP\<close>

definition agent_tool ::
  "'b runtime \<Rightarrow> enrollment \<Rightarrow> string \<times> string \<Rightarrow> string \<Rightarrow> ('b rt, exn, (string, pyval) dict) eff" where
  "agent_tool R en ids inp =
    bnd (run R (ByAgent (en_agent en)) (tool_task ids inp)) (\<lambda>r.
      case (if is_ok r then ar_output r else None) of
        None \<Rightarrow> raise (Exn PyRuntimeError (a_name (en_agent en) @ '' failed: '' @
          (case ar_error r of Some e \<Rightarrow> exn_msg e | None \<Rightarrow> ''no output produced'')))
      | Some out \<Rightarrow> (\<lambda>s. (model_dump out, s)))"

text \<open>
  \<open>build_fastmcp\<close>: one tool per enrollment; \<open>serve\<close> chooses the transport.
\<close>

record 'f mcp_tool =
  mt_name :: string
  mt_description :: string
  mt_fn :: 'f

definition mcp_tools ::
  "'b runtime \<Rightarrow> enrollment list
    \<Rightarrow> (string \<times> string \<Rightarrow> string \<Rightarrow> ('b rt, exn, (string, pyval) dict) eff) mcp_tool list" where
  "mcp_tools R ens = map (\<lambda>en. \<lparr> mt_name = en_tool_name en, mt_description = en_description en, mt_fn = agent_tool R en \<rparr>) ens"

datatype mcp_transport = Stdio | HttpOpen | HttpGuarded string | UnknownTransport

definition serve_transport :: "string \<Rightarrow> string option \<Rightarrow> mcp_transport" where
  "serve_transport transport token =
    (if transport = ''stdio'' then Stdio
     else if transport = ''http'' then (case token of None \<Rightarrow> HttpOpen | Some t \<Rightarrow> HttpGuarded t)
     else UnknownTransport)"

definition bearer_auth :: "string \<Rightarrow> string \<Rightarrow> (string \<times> string) list \<Rightarrow> http_response" where
  "bearer_auth token scope_type headers =
    (if scope_type \<noteq> ''http'' then Passed
     else if dget (fold (\<lambda>(k, v). dset k v) headers []) ''authorization'' \<noteq> Some (''Bearer '' @ token)
     then Refused 401 ''Unauthorized''
     else Passed)"

text \<open>No tool reaches a client that does not bear the token; header names come lowercased.\<close>

lemma bearer_auth_passes:
  "bearer_auth token ''http'' headers = Passed \<Longrightarrow> (''authorization'', ''Bearer '' @ token) \<in> set headers"
proof -
  have "dget (fold (\<lambda>(k, v). dset k v) hs d) k = Some v \<Longrightarrow> (k, v) \<in> set hs \<or> dget d k = Some v" for hs d k v
  proof (induction hs arbitrary: d)
    case (Cons h hs)
    obtain a b where h: "h = (a, b)" by force
    then show ?case using Cons.IH [of "dset a b d"] Cons.prems by (auto split: if_splits)
  qed simp
  from this [of _ "[]"] show "bearer_auth token ''http'' headers = Passed \<Longrightarrow>
      (''authorization'', ''Bearer '' @ token) \<in> set headers"
    by (auto simp: bearer_auth_def split: if_splits)
qed

text \<open>What an MCP client gets: the fields of the output, or an exception; the runtime's gates apply.\<close>

lemma agent_tool_outcome:
  assumes "run R (ByAgent (en_agent en)) (tool_task ids inp) s = (x, u)"
  shows "snd (agent_tool R en ids inp s) = u
    \<and> (\<forall>e. x = Inl e \<longrightarrow> fst (agent_tool R en ids inp s) = Inl e)
    \<and> (\<forall>r e. x = Inr r \<longrightarrow> ar_error r = Some e \<longrightarrow>
        fst (agent_tool R en ids inp s) = Inl (Exn PyRuntimeError (a_name (en_agent en) @ '' failed: '' @ exn_msg e)))"
  using assms by (auto simp: agent_tool_def bnd_def is_ok_def split: sum.split option.split)

section \<open>PydanticAI agents\<close>

text \<open>What the wrapper reads of the library's agent: its model, when it has one, and its instructions.\<close>

datatype pa_model = PaString string | PaModel string string | PaOpaque

datatype pa_instructions = PaList "string option list" | PaText string | PaNoInstructions

fun join_space :: "string list \<Rightarrow> string" where
  "join_space [] = []"
| "join_space [x] = x"
| "join_space (x # xs) = x @ '' '' @ join_space xs"

definition from_pydantic_ai ::
  "pa_model \<Rightarrow> pa_instructions \<Rightarrow> string \<Rightarrow> string \<Rightarrow> trust_level \<Rightarrow> string option \<Rightarrow> string option \<Rightarrow> exn + agent" where
  "from_pydantic_ai pm pins name out trust model ins =
    (case (case model of
             Some m \<Rightarrow> Inr m
           | None \<Rightarrow> (case pm of
                PaString m \<Rightarrow> Inr m
              | PaModel system mn \<Rightarrow> Inr (system @ '':'' @ mn)
              | PaOpaque \<Rightarrow> Inl (Exn PyValueError ''Could not extract model spec''))) of
       Inl e \<Rightarrow> Inl e
     | Inr m \<Rightarrow> agent_validate
        \<lparr> a_name = name, a_model = ModelName m, fallback_models = [],
          instructions = (case ins of
             Some i \<Rightarrow> i
           | None \<Rightarrow> (case pins of
                PaList ps \<Rightarrow> join_space (map the (filter (\<lambda>p. p \<noteq> None) ps))
              | PaText i \<Rightarrow> i
              | PaNoInstructions \<Rightarrow> [])),
          output_type = out, input_type = None, a_tools = {}, mcp_servers = [], builtin_tools = [],
          max_concurrent_requests = None, model_concurrency_limiter = None, model_settings = None,
          trust_level = trust, a_context_passer = NullContextPasser, a_backend = ''auto'',
          pre_process = [], post_process = [] \<rparr>)"

text \<open>A wrapped agent brings no tool and no server along: it can only do what the runtime's gates allow.\<close>

lemma wrapped_agent_has_no_tools:
  "from_pydantic_ai pm pins name out trust model ins = Inr a \<Longrightarrow>
    a_tools a = {} \<and> mcp_servers a = [] \<and> trust_level a = trust \<and> a_name a = name"
  by (auto simp: from_pydantic_ai_def agent_validate_Inr_iff split: sum.splits)

end
