(* ===== verification/Event_Sinks.thy ===== *)
theory Event_Sinks
  imports Event_Store Broker "HOL-Library.Sublist"
begin

text \<open>
  Where runtime events go: the Server-Sent-Events fan-out of \<open>events/sse.py\<close>, the
  fan-out over sinks of \<open>events/multi.py\<close>, the sink of \<open>events/store/emitter.py\<close> that
  appends to the event store and the bridge of \<open>events/broker.py\<close> that relays to a
  broker topic.  A sink is a computation that may raise.  The sinks of one event run
  one after the other; their interleaving at an await is left out.
\<close>

section \<open>Sinks that must not take a run down\<close>

type_synonym 's sink = "runtime_event \<Rightarrow> ('s, exn, unit) eff"

text \<open>\<open>except Exception\<close> around a call, its exception dropped; a cancellation passes.\<close>

definition suppress_exception :: "('s, exn, unit) eff \<Rightarrow> ('s, exn, unit) eff" where
  "suppress_exception m s =
    (case m s of
       (Inl e, t) \<Rightarrow> (if isinstance e PyException then Inr () else Inl e, t)
     | (Inr x, t) \<Rightarrow> (Inr x, t))"

text \<open>\<open>gather(return_exceptions=True)\<close>: every outcome is collected and then dropped.\<close>

definition ignore_outcome :: "('s, exn, unit) eff \<Rightarrow> ('s, exn, unit) eff" where
  "ignore_outcome m s = (Inr (), snd (m s))"

fun multi_emit :: "'s sink list \<Rightarrow> 's sink" where
  "multi_emit [] e = ret ()"
| "multi_emit (k # ks) e = bnd (ignore_outcome (k e)) (\<lambda>_. multi_emit ks e)"

text \<open>\<open>put\<close> is the \<open>append\<close> of the store; the in-memory one never raises.\<close>

definition store_emit :: "(runtime_event \<Rightarrow> ('s, exn, unit) eff) \<Rightarrow> 's sink" where
  "store_emit put e = suppress_exception (put e)"

record ('h, 'm) relay =
  ry_broker :: "('h, 'm) broker"
  ry_topic :: "string option"

text \<open>The token of a bound topic is the topic it replaced.\<close>

definition bind_event_topic :: "string option \<Rightarrow> ('h, 'm) relay \<Rightarrow> string option \<times> ('h, 'm) relay" where
  "bind_event_topic t s = (ry_topic s, s\<lparr>ry_topic := t\<rparr>)"

definition reset_event_topic :: "string option \<Rightarrow> ('h, 'm) relay \<Rightarrow> ('h, 'm) relay" where
  "reset_event_topic token s = s\<lparr>ry_topic := token\<rparr>"

definition bridge_emit :: "(runtime_event \<Rightarrow> 'm) \<Rightarrow> ('h, 'm) relay sink" where
  "bridge_emit dump e =
    suppress_exception (\<lambda>s. case ry_topic s of
        None \<Rightarrow> (Inr (), s)
      | Some t \<Rightarrow> (case broker_publish t (dump e) (ry_broker s) of (r, b) \<Rightarrow> (r, s\<lparr>ry_broker := b\<rparr>)))"

text \<open>Every sink of a fan-out sees the event, whatever the sinks before it raise.\<close>

lemma multi_emit_reaches_all:
  "multi_emit ks e s = (Inr (), fold (\<lambda>k t. snd (k e t)) ks s)"
  by (induction ks arbitrary: s) (simp_all add: ignore_outcome_def bnd_def)

lemma store_emit_never_raises:
  "(\<And>x. fst (put e s) = Inl x \<Longrightarrow> isinstance x PyException) \<Longrightarrow> fst (store_emit put e s) = Inr ()"
  by (auto simp: store_emit_def suppress_exception_def split: prod.splits sum.splits)

lemma bridge_never_raises: "fst (bridge_emit dump e s) = Inr ()"
  by (auto simp: bridge_emit_def suppress_exception_def broker_publish_def isinstance_def issubclass_def
      Let_def split: option.split)

lemma unbound_bridge_is_silent: "ry_topic s = None \<Longrightarrow> bridge_emit dump e s = (Inr (), s)"
  by (simp add: bridge_emit_def suppress_exception_def)

lemma bound_topic_is_restored:
  "bind_event_topic t s = (token, s1) \<Longrightarrow> ry_topic (reset_event_topic token s2) = ry_topic s"
  by (auto simp: bind_event_topic_def reset_event_topic_def)

section \<open>The Server-Sent-Events fan-out\<close>

datatype sse_item = Heartbeat | Live runtime_event

text \<open>
  A subscriber is its bounded queue; what its connection has been sent is kept beside
  it, newest last.  \<open>next_sub\<close> stands for the identity of a fresh queue.
\<close>

record subscriber =
  sb_queue :: "sse_item list"
  sb_sent :: "sse_item list"

record sse_emitter =
  se_interval :: rat
  se_queue_max :: int
  se_subscribers :: "(nat, subscriber) dict"
  se_next :: nat

definition sse_init :: "rat \<Rightarrow> int \<Rightarrow> exn + sse_emitter" where
  "sse_init interval queue_max =
    (if interval \<le> 0 then Inl (Exn PyValueError ''heartbeat_interval must be > 0'')
     else if queue_max < 1 then Inl (Exn PyValueError ''queue_max must be >= 1'')
     else Inr \<lparr> se_interval = interval, se_queue_max = queue_max, se_subscribers = [], se_next = 0 \<rparr>)"

definition subscriber_count :: "sse_emitter \<Rightarrow> nat" where
  "subscriber_count s = length (se_subscribers s)"

text \<open>\<open>put_nowait\<close>: a full queue raises \<open>QueueFull\<close>, which every caller drops.\<close>

definition put_nowait :: "int \<Rightarrow> sse_item \<Rightarrow> subscriber \<Rightarrow> subscriber" where
  "put_nowait queue_max x q =
    (if int (length (sb_queue q)) \<ge> queue_max then q else q\<lparr>sb_queue := sb_queue q @ [x]\<rparr>)"

definition sse_emit :: "runtime_event \<Rightarrow> sse_emitter \<Rightarrow> sse_emitter" where
  "sse_emit e s =
    s\<lparr>se_subscribers := map (\<lambda>(k, q). (k, put_nowait (se_queue_max s) (Live e) q)) (se_subscribers s)\<rparr>"

definition sse_subscribe :: "sse_emitter \<Rightarrow> sse_emitter" where
  "sse_subscribe s =
    s\<lparr>se_subscribers := se_subscribers s @ [(se_next s, \<lparr> sb_queue = [], sb_sent = [] \<rparr>)], se_next := Suc (se_next s)\<rparr>"

definition on_subscriber :: "nat \<Rightarrow> (subscriber \<Rightarrow> subscriber) \<Rightarrow> sse_emitter \<Rightarrow> sse_emitter" where
  "on_subscriber k f s =
    (case dget (se_subscribers s) k of None \<Rightarrow> s | Some q \<Rightarrow> s\<lparr>se_subscribers := dset k (f q) (se_subscribers s)\<rparr>)"

definition sse_heartbeat :: "nat \<Rightarrow> sse_emitter \<Rightarrow> sse_emitter" where
  "sse_heartbeat k s = on_subscriber k (put_nowait (se_queue_max s) Heartbeat) s"

text \<open>The generator takes one item; on an empty queue it waits.\<close>

definition take_item :: "subscriber \<Rightarrow> subscriber" where
  "take_item q = (case sb_queue q of [] \<Rightarrow> q | x # xs \<Rightarrow> q\<lparr>sb_queue := xs, sb_sent := sb_sent q @ [x]\<rparr>)"

definition sse_take :: "nat \<Rightarrow> sse_emitter \<Rightarrow> sse_emitter" where
  "sse_take k = on_subscriber k take_item"

definition sse_close :: "nat \<Rightarrow> sse_emitter \<Rightarrow> sse_emitter" where
  "sse_close k s = s\<lparr>se_subscribers := dpop k (se_subscribers s)\<rparr>"

definition sse_frame :: "(event_type \<Rightarrow> string) \<Rightarrow> (runtime_event \<Rightarrow> string) \<Rightarrow> sse_item \<Rightarrow> string \<times> string" where
  "sse_frame wire dump x =
    (case x of Heartbeat \<Rightarrow> (''ping'', []) | Live e \<Rightarrow> (wire (event_type e), dump e))"

datatype sse_op = Emit runtime_event | Subscribe | Beat nat | Take nat | Close nat

fun sse_step :: "sse_op \<Rightarrow> sse_emitter \<Rightarrow> sse_emitter" where
  "sse_step (Emit e) = sse_emit e"
| "sse_step Subscribe = sse_subscribe"
| "sse_step (Beat k) = sse_heartbeat k"
| "sse_step (Take k) = sse_take k"
| "sse_step (Close k) = sse_close k"

definition live_events :: "sse_item list \<Rightarrow> runtime_event list" where
  "live_events xs = concat (map (\<lambda>x. case x of Live e \<Rightarrow> [e] | Heartbeat \<Rightarrow> []) xs)"

definition accepted :: "subscriber \<Rightarrow> runtime_event list" where
  "accepted q = live_events (sb_sent q @ sb_queue q)"

text \<open>
  A subscriber whose queue is full when an event is emitted_events keeps what it holds and
  never sees the new event; one with room sees it after everything emitted_events before.
\<close>

lemma full_queue_drops_the_new_event:
  assumes "dget (se_subscribers s) k = Some q"
  shows "dget (se_subscribers (sse_emit e s)) k =
    Some (if int (length (sb_queue q)) \<ge> se_queue_max s then q else q\<lparr>sb_queue := sb_queue q @ [Live e]\<rparr>)"
proof -
  have "dget (map (\<lambda>(k, q). (k, f q)) d) k = map_option f (dget d k)" for f :: "subscriber \<Rightarrow> subscriber" and d
    by (induction d) auto
  then show ?thesis using assms by (simp add: sse_emit_def put_nowait_def)
qed

fun emitted_events :: "sse_op list \<Rightarrow> runtime_event list" where
  "emitted_events [] = []"
| "emitted_events (Emit e # xs) = e # emitted_events xs"
| "emitted_events (_ # xs) = emitted_events xs"

definition sse_run :: "sse_op list \<Rightarrow> sse_emitter \<Rightarrow> sse_emitter" where
  "sse_run ops s = fold sse_step ops s"

definition queue_ok :: "int \<Rightarrow> runtime_event list \<Rightarrow> subscriber \<Rightarrow> bool" where
  "queue_ok n es q \<longleftrightarrow> int (length (sb_queue q)) \<le> n \<and> subseq (accepted q) es"

definition sse_inv :: "int \<Rightarrow> runtime_event list \<Rightarrow> sse_emitter \<Rightarrow> bool" where
  "sse_inv n es s \<longleftrightarrow> se_queue_max s = n \<and> (\<forall>(k, q) \<in> set (se_subscribers s). queue_ok n es q)"

lemma live_events_simps [simp]:
  "live_events [] = []" "live_events (Live e # xs) = e # live_events xs" "live_events (Heartbeat # xs) = live_events xs"
  "live_events (xs @ ys) = live_events xs @ live_events ys"
  by (simp_all add: live_events_def)

lemma queue_ok_emit:
  assumes "queue_ok n es q"
  shows "queue_ok n (es @ [e]) (put_nowait n (Live e) q)"
proof -
  have "subseq (accepted q) (es @ [e])" "subseq (accepted q @ [e]) (es @ [e])"
    using assms by (simp_all add: queue_ok_def subseq_rev_drop_many)
  then show ?thesis using assms by (simp add: queue_ok_def put_nowait_def accepted_def)
qed

lemma queue_ok_beat: "queue_ok n es q \<Longrightarrow> queue_ok n es (put_nowait n Heartbeat q)"
  by (simp add: queue_ok_def put_nowait_def accepted_def)

lemma queue_ok_take: "queue_ok n es q \<Longrightarrow> queue_ok n es (take_item q)"
  by (cases "sb_queue q") (simp_all add: queue_ok_def take_item_def accepted_def live_events_def)

lemma queue_ok_fresh: "0 \<le> n \<Longrightarrow> queue_ok n es \<lparr> sb_queue = [], sb_sent = [] \<rparr>"
  by (simp add: queue_ok_def accepted_def)

lemma sse_inv_on:
  assumes "sse_inv n es s" "\<And>q. queue_ok n es q \<Longrightarrow> queue_ok n es (f q)"
  shows "sse_inv n es (on_subscriber k f s)"
proof (cases "dget (se_subscribers s) k")
  case (Some q)
  have "set (dset k x d) \<subseteq> insert (k, x) (set d)" for x :: subscriber and d
    by (induction d) (auto split: if_splits)
  moreover have "queue_ok n es (f q)" using assms dget_in_set [OF Some] by (auto simp: sse_inv_def)
  ultimately show ?thesis using assms(1) Some by (fastforce simp: sse_inv_def on_subscriber_def)
qed (use assms in \<open>simp add: on_subscriber_def\<close>)

lemma sse_inv_step:
  assumes "0 \<le> n" "sse_inv n es s"
  shows "sse_inv n (es @ emitted_events [x]) (sse_step x s)"
proof (cases x)
  case (Emit e)
  then show ?thesis using assms(2) queue_ok_emit [of n es] by (fastforce simp: sse_inv_def sse_emit_def)
next
  case Subscribe
  then show ?thesis using assms queue_ok_fresh [of n es] by (fastforce simp: sse_inv_def sse_subscribe_def)
next
  case (Beat k)
  have "se_queue_max s = n" using assms(2) by (simp add: sse_inv_def)
  then show ?thesis using Beat assms(2) sse_inv_on queue_ok_beat by (simp add: sse_heartbeat_def)
next
  case (Take k)
  then show ?thesis using assms(2) sse_inv_on queue_ok_take by (simp add: sse_take_def)
next
  case (Close k)
  then show ?thesis using assms(2) set_dpop_subset [of k "se_subscribers s"]
    by (fastforce simp: sse_inv_def sse_close_def)
qed

lemma emitted_append: "emitted_events (xs @ ys) = emitted_events xs @ emitted_events ys"
  by (induction xs rule: emitted_events.induct) simp_all

text \<open>
  Whatever the subscribers do, no queue outgrows its bound, and what a connection has
  been sent and is about to be sent is, in order and without repetition, some of the
  events emitted_events.
\<close>

theorem sse_queues_are_bounded:
  assumes "sse_init interval n = Inr s" "(k, q) \<in> set (se_subscribers (sse_run ops s))"
  shows "int (length (sb_queue q)) \<le> n \<and> subseq (live_events (sb_sent q @ sb_queue q)) (emitted_events ops)"
proof -
  have start: "0 \<le> n" "sse_inv n [] s" using assms(1) by (auto simp: sse_init_def sse_inv_def split: if_splits)
  have "sse_inv n (emitted_events ops) (sse_run ops s)"
  proof (induction ops rule: rev_induct)
    case (snoc x ops)
    then show ?case using sse_inv_step [OF start(1), of "emitted_events ops" "sse_run ops s" x]
      by (simp add: sse_run_def emitted_append)
  qed (simp add: sse_run_def start)
  then show ?thesis using assms(2) by (auto simp: sse_inv_def queue_ok_def accepted_def)
qed

end
