(* ===== verification/Transports.thy ===== *)
theory Transports
  imports Event_Sinks
begin

text \<open>
  \<open>backends/_brokers.py\<close>: the lifecycle that the four transport brokers share, what each
  asks of its library when it subscribes, and the choice of a class by URL scheme.
  The library's broker is its sequence of calls; \<open>fails\<close> says which of them raises, by
  the call and its place in the sequence.
\<close>

section \<open>The library\<close>

record fs_subscription =
  fs_topic :: string
  fs_group :: "string option"
  fs_consumer :: "string option"
  fs_max_records :: "int option"
  fs_pending_limit :: "int option"
  fs_min_idle :: "int option"

definition plain_subscription :: "string \<Rightarrow> fs_subscription" where
  "plain_subscription topic = \<lparr> fs_topic = topic, fs_group = None, fs_consumer = None, fs_max_records = None,
     fs_pending_limit = None, fs_min_idle = None \<rparr>"

datatype 'm fs_call =
    FsConnect
  | FsClose
  | FsPublish string 'm
  | FsSubscribe fs_subscription
  | FsUnsubscribe fs_subscription

section \<open>Lifecycle\<close>

record 'm broker_core =
  bc_scheme :: string
  bc_url :: string
  bc_built :: bool
  bc_injected :: bool
  bc_started :: bool
  bc_subscriptions :: "fs_subscription list"
  bc_calls :: "'m fs_call list"

definition core_init :: "string \<Rightarrow> string \<Rightarrow> bool \<Rightarrow> 'm broker_core" where
  "core_init scheme url injected = \<lparr> bc_scheme = scheme, bc_url = url, bc_built = injected, bc_injected = injected,
     bc_started = False, bc_subscriptions = [], bc_calls = [] \<rparr>"

type_synonym 'm library = "'m fs_call \<Rightarrow> nat \<Rightarrow> exn option"

definition library_call :: "'m library \<Rightarrow> 'm fs_call \<Rightarrow> ('m broker_core, exn, unit) eff" where
  "library_call fails c s =
    (case fails c (length (bc_calls s)) of None \<Rightarrow> Inr () | Some e \<Rightarrow> Inl e, s\<lparr>bc_calls := bc_calls s @ [c]\<rparr>)"

text \<open>\<open>build\<close> is what importing and constructing the library's broker raises, if anything.\<close>

definition core_start :: "'m library \<Rightarrow> exn option \<Rightarrow> ('m broker_core, exn, unit) eff" where
  "core_start fails build s =
    (if bc_started s then (Inr (), s)
     else if bc_built s then (Inr (), s\<lparr>bc_started := True\<rparr>)
     else case build of
       Some e \<Rightarrow> (Inl e, s)
     | None \<Rightarrow> bnd (library_call fails FsConnect) (\<lambda>_. modify (\<lambda>s. s\<lparr>bc_started := True\<rparr>)) (s\<lparr>bc_built := True\<rparr>))"

fun stop_all :: "'m library \<Rightarrow> fs_subscription list \<Rightarrow> ('m broker_core, exn, unit) eff" where
  "stop_all fails [] = ret ()"
| "stop_all fails (q # qs) =
    bnd (suppress_exception (library_call fails (FsUnsubscribe q))) (\<lambda>_. stop_all fails qs)"

definition core_stop :: "'m library \<Rightarrow> ('m broker_core, exn, unit) eff" where
  "core_stop fails s =
    (if \<not> bc_started s then (Inr (), s)
     else bnd (stop_all fails (bc_subscriptions s)) (\<lambda>_.
          bnd (modify (\<lambda>s. s\<lparr>bc_subscriptions := []\<rparr>)) (\<lambda>_.
          bnd (\<lambda>s. if \<not> bc_injected s \<and> bc_built s then suppress_exception (library_call fails FsClose) s else (Inr (), s)) (\<lambda>_.
          modify (\<lambda>s. s\<lparr>bc_started := False\<rparr>)))) s)"

definition not_started :: "'m broker_core \<Rightarrow> bool" where
  "not_started s = (\<not> bc_started s \<or> \<not> bc_built s)"

datatype transport = RedisBroker | KafkaBroker | NatsBroker | RabbitBroker

fun transport_class :: "transport \<Rightarrow> string" where
  "transport_class RedisBroker = ''RedisBroker''"
| "transport_class KafkaBroker = ''KafkaBroker''"
| "transport_class NatsBroker = ''NatsBroker''"
| "transport_class RabbitBroker = ''RabbitBroker''"

definition transport_publish :: "'m library \<Rightarrow> transport \<Rightarrow> string \<Rightarrow> 'm \<Rightarrow> ('m broker_core, exn, unit) eff" where
  "transport_publish fails tr topic m s =
    (if not_started s then (Inl (Exn PyRuntimeError (transport_class tr @ ''.publish called before start()'')), s)
     else library_call fails (FsPublish topic m) s)"

section \<open>Subscriptions\<close>

record subscribe_options =
  so_group :: "string option"
  so_prefetch :: "int option"
  so_consumer_id :: "string option"
  so_reclaim :: "int option"

definition redis_subscriptions :: "string \<Rightarrow> string \<Rightarrow> subscribe_options \<Rightarrow> fs_subscription list" where
  "redis_subscriptions fresh topic opts =
    (case so_group opts of
       None \<Rightarrow> [(plain_subscription topic)\<lparr>fs_max_records := so_prefetch opts\<rparr>]
     | Some g \<Rightarrow>
        let consumer = (case so_consumer_id opts of None \<Rightarrow> fresh | Some c \<Rightarrow> c);
            primary = (plain_subscription topic)\<lparr>fs_group := Some g, fs_consumer := Some consumer,
                        fs_max_records := so_prefetch opts\<rparr>
        in primary # (case so_reclaim opts of
             None \<Rightarrow> []
           | Some ms \<Rightarrow> if ms > 0 then [primary\<lparr>fs_min_idle := Some ms\<rparr>] else []))"

definition kafka_subscriptions :: "string \<Rightarrow> subscribe_options \<Rightarrow> fs_subscription list" where
  "kafka_subscriptions topic opts = [(plain_subscription topic)\<lparr>fs_group := so_group opts\<rparr>]"

definition nats_subscriptions :: "string \<Rightarrow> subscribe_options \<Rightarrow> fs_subscription list" where
  "nats_subscriptions topic opts =
    [(plain_subscription topic)\<lparr>fs_group := so_group opts, fs_pending_limit := so_prefetch opts\<rparr>]"

definition rabbit_subscriptions :: "string \<Rightarrow> subscribe_options \<Rightarrow> fs_subscription list" where
  "rabbit_subscriptions topic opts = [plain_subscription topic]"

definition subscriptions_for :: "transport \<Rightarrow> string \<Rightarrow> string \<Rightarrow> subscribe_options \<Rightarrow> fs_subscription list" where
  "subscriptions_for tr fresh topic opts =
    (case tr of
       RedisBroker \<Rightarrow> redis_subscriptions fresh topic opts
     | KafkaBroker \<Rightarrow> kafka_subscriptions topic opts
     | NatsBroker \<Rightarrow> nats_subscriptions topic opts
     | RabbitBroker \<Rightarrow> rabbit_subscriptions topic opts)"

text \<open>Each one is kept once it has started.\<close>

fun subscribe_each :: "'m library \<Rightarrow> fs_subscription list \<Rightarrow> ('m broker_core, exn, unit) eff" where
  "subscribe_each fails [] = ret ()"
| "subscribe_each fails (q # qs) =
    bnd (library_call fails (FsSubscribe q)) (\<lambda>_.
    bnd (modify (\<lambda>s. s\<lparr>bc_subscriptions := bc_subscriptions s @ [q]\<rparr>)) (\<lambda>_. subscribe_each fails qs))"

definition transport_subscribe ::
  "'m library \<Rightarrow> transport \<Rightarrow> string \<Rightarrow> string \<Rightarrow> subscribe_options \<Rightarrow> ('m broker_core, exn, unit) eff" where
  "transport_subscribe fails tr fresh topic opts s =
    (if not_started s then (Inl (Exn PyRuntimeError (transport_class tr @ ''.subscribe called before start()'')), s)
     else subscribe_each fails (subscriptions_for tr fresh topic opts) s)"

section \<open>Construction\<close>

definition scheme_classes :: "(string, transport) dict" where
  "scheme_classes = [(''redis'', RedisBroker), (''kafka'', KafkaBroker), (''nats'', NatsBroker), (''amqp'', RabbitBroker)]"

definition make_broker :: "string \<Rightarrow> string \<Rightarrow> bool \<Rightarrow> exn + transport \<times> 'm broker_core" where
  "make_broker scheme url injected =
    (case dget scheme_classes scheme of
       None \<Rightarrow> Inl (Exn SpecValidationError (''unsupported broker scheme '' @ scheme))
     | Some tr \<Rightarrow> Inr (tr, core_init scheme url injected))"

text \<open>\<open>removeprefix(...) or default\<close>\<close>

definition kafka_servers :: "string \<Rightarrow> string" where
  "kafka_servers url =
    (let rest = (if take 8 url = ''kafka://'' then drop 8 url else url) in
     if rest = [] then ''localhost:9092'' else rest)"

text \<open>The level of a library's logger: warnings at least, adjusted once per process.\<close>

definition quiet_loggers :: "bool \<times> (string, int) dict \<Rightarrow> bool \<times> (string, int) dict" where
  "quiet_loggers st =
    (case st of (quieted, levels) \<Rightarrow>
      if quieted then (quieted, levels)
      else (True, fold (\<lambda>n d. if dget_or d n 0 < 30 then dset n 30 d else d)
                    [''aiokafka'', ''aio_pika'', ''redis'', ''nats'', ''faststream''] levels))"

section \<open>What any history of calls leaves\<close>

datatype 'm transport_op =
    Open "exn option" | Shut | Send string 'm | Listen string string subscribe_options

fun transport_step :: "'m library \<Rightarrow> transport \<Rightarrow> 'm transport_op \<Rightarrow> 'm broker_core \<Rightarrow> 'm broker_core" where
  "transport_step fails tr (Open build) s = snd (core_start fails build s)"
| "transport_step fails tr Shut s = snd (core_stop fails s)"
| "transport_step fails tr (Send topic m) s = snd (transport_publish fails tr topic m s)"
| "transport_step fails tr (Listen fresh topic opts) s = snd (transport_subscribe fails tr fresh topic opts s)"

definition transport_run :: "'m library \<Rightarrow> transport \<Rightarrow> 'm transport_op list \<Rightarrow> 'm broker_core \<Rightarrow> 'm broker_core" where
  "transport_run fails tr ops s = fold (transport_step fails tr) ops s"

definition connects :: "'m broker_core \<Rightarrow> nat" where
  "connects s = length (filter (\<lambda>c. c = FsConnect) (bc_calls s))"

definition core_inv :: "'m broker_core \<Rightarrow> bool" where
  "core_inv s =
    ((bc_started s \<longrightarrow> bc_built s) \<and> (\<not> bc_started s \<longrightarrow> bc_subscriptions s = [])
     \<and> connects s = (if bc_built s \<and> \<not> bc_injected s then 1 else 0)
     \<and> (bc_injected s \<longrightarrow> bc_built s)
     \<and> (\<not> bc_injected s \<longrightarrow> bc_calls s \<noteq> [] \<longrightarrow> hd (bc_calls s) = FsConnect)
     \<and> (\<not> bc_built s \<longrightarrow> bc_calls s = [])
     \<and> set (bc_subscriptions s) \<subseteq> {q. FsSubscribe q \<in> set (bc_calls s)})"

lemma connects_snoc: "connects (s\<lparr>bc_calls := bc_calls s @ [c]\<rparr>) = connects s + (if c = FsConnect then 1 else 0)"
  by (simp add: connects_def)

text \<open>A call to the library while started, other than connecting, keeps what was said.\<close>

lemma library_call_inv:
  assumes "core_inv s" "bc_started s" "c \<noteq> FsConnect"
  shows "core_inv (snd (library_call fails c s)) \<and> bc_started (snd (library_call fails c s))
    \<and> bc_subscriptions (snd (library_call fails c s)) = bc_subscriptions s
    \<and> bc_injected (snd (library_call fails c s)) = bc_injected s
    \<and> c \<in> set (bc_calls (snd (library_call fails c s)))
    \<and> bc_calls (snd (library_call fails c s)) = bc_calls s @ [c]"
proof -
  have "bc_injected s \<or> bc_calls s \<noteq> []"
    using assms(1,2) by (auto simp: core_inv_def connects_def)
  then show ?thesis using assms by (auto simp: library_call_def core_inv_def connects_snoc)
qed

lemma suppress_state: "snd (suppress_exception m s) = snd (m s)"
  by (simp add: suppress_exception_def split: prod.split sum.split)

definition live :: "bool \<Rightarrow> 'm broker_core \<Rightarrow> bool" where
  "live injected s = (core_inv s \<and> bc_started s \<and> bc_injected s = injected)"

lemma library_call_live: "c \<noteq> FsConnect \<Longrightarrow> keeps (live injected) (library_call fails c)"
  using library_call_inv by (fastforce simp: keeps_def live_def)

lemma suppress_keeps: "keeps P m \<Longrightarrow> keeps P (suppress_exception m)"
  by (simp add: keeps_def suppress_state)

lemma stop_all_live: "keeps (live injected) (stop_all fails qs)"
  by (induction qs) (auto intro!: keeps_bnd suppress_keeps library_call_live)

lemma drop_subscriptions_live: "keeps (live injected) (modify (\<lambda>s. s\<lparr>bc_subscriptions := []\<rparr>))"
  by (auto simp: keeps_def live_def core_inv_def connects_def)

lemma close_live:
  "keeps (live injected) (\<lambda>s. if \<not> bc_injected s \<and> bc_built s then suppress_exception (library_call fails FsClose) s else (Inr (), s))"
  using suppress_keeps [OF library_call_live [of FsClose injected fails]] by (auto simp: keeps_def)

lemma subscribe_each_live: "keeps (live injected) (subscribe_each fails qs)"
proof (induction qs)
  case (Cons q qs)
  show ?case
  proof (rule keepsI)
    fix s :: "'a broker_core" assume s: "live injected s"
    obtain r u where c: "library_call fails (FsSubscribe q) s = (r, u)" by force
    then have u: "live injected u" "FsSubscribe q \<in> set (bc_calls u)"
      using library_call_inv [of s "FsSubscribe q" fails] s by (auto simp: live_def)
    then have "live injected (u\<lparr>bc_subscriptions := bc_subscriptions u @ [q]\<rparr>)"
      by (auto simp: live_def core_inv_def connects_def)
    then show "live injected (snd (subscribe_each fails (q # qs) s))"
      using Cons c u by (cases r) (simp_all add: bnd_def keeps_def)
  qed
qed simp

definition sound :: "bool \<Rightarrow> 'm broker_core \<Rightarrow> bool" where
  "sound injected s = (core_inv s \<and> bc_injected s = injected)"

lemma core_start_sound: "sound injected s \<Longrightarrow> sound injected (snd (core_start fails build s))"
  by (auto simp: core_start_def sound_def core_inv_def library_call_def connects_def bnd_def
      split: option.split sum.splits)

lemma core_stop_sound:
  assumes "sound injected s"
  shows "sound injected (snd (core_stop fails s))"
proof (cases "bc_started s")
  case True
  define m where "m = bnd (stop_all fails (bc_subscriptions s)) (\<lambda>_. bnd (modify (\<lambda>s. s\<lparr>bc_subscriptions := []\<rparr>)) (\<lambda>_ s.
    if \<not> bc_injected s \<and> bc_built s then suppress_exception (library_call fails FsClose) s else (Inr (), s)))"
  have "live injected s" using assms True by (simp add: live_def sound_def)
  have kept: "keeps (live injected) m"
    unfolding m_def by (intro keeps_bnd stop_all_live drop_subscriptions_live close_live)
  have same: "core_stop fails s = bnd m (\<lambda>_. modify (\<lambda>s. s\<lparr>bc_started := False\<rparr>)) s"
    using True by (simp add: core_stop_def m_def bnd_assoc)
  obtain r u where mu: "m s = (r, u)" by force
  have u: "live injected u" using keepsD [OF kept \<open>live injected s\<close> mu] .
  show ?thesis
  proof (cases r)
    case (Inl e)
    then show ?thesis using u mu by (simp add: same live_def sound_def)
  next
    case (Inr x)
    obtain a v where a: "stop_all fails (bc_subscriptions s) s = (a, v)" by force
    then have "a = Inr ()" using mu Inr by (cases a) (auto simp: m_def bnd_def)
    define w where "w = v\<lparr>bc_subscriptions := []\<rparr>"
    have "m s = (if \<not> bc_injected w \<and> bc_built w then suppress_exception (library_call fails FsClose) w else (Inr (), w))"
      using a \<open>a = Inr ()\<close> by (simp add: m_def bnd_def w_def)
    then have "u = w \<or> u = snd (suppress_exception (library_call fails FsClose) w)"
      using mu by (metis snd_conv)
    then have "bc_subscriptions u = []" by (auto simp: suppress_state library_call_def w_def)
    then show ?thesis using u mu Inr by (auto simp: same live_def sound_def core_inv_def connects_def)
  qed
qed (use assms in \<open>simp add: core_stop_def\<close>)

lemma transport_step_sound: "sound injected s \<Longrightarrow> sound injected (transport_step fails tr op s)"
proof (cases op)
  case (Send topic m)
  then show "sound injected s \<Longrightarrow> ?thesis"
    using keepsD [OF library_call_live [of "FsPublish topic m" injected fails], of s]
    by (cases "library_call fails (FsPublish topic m) s")
      (auto simp: transport_publish_def not_started_def live_def sound_def)
next
  case (Listen fresh topic opts)
  then show "sound injected s \<Longrightarrow> ?thesis"
    using keepsD [OF subscribe_each_live [of injected fails "subscriptions_for tr fresh topic opts"], of s]
    by (cases "subscribe_each fails (subscriptions_for tr fresh topic opts) s")
      (auto simp: transport_subscribe_def not_started_def live_def sound_def)
qed (simp_all add: core_start_sound core_stop_sound)

lemma transport_run_sound: "sound injected s \<Longrightarrow> sound injected (transport_run fails tr ops s)"
  by (induction ops arbitrary: s) (simp_all add: transport_run_def transport_step_sound)

text \<open>
  C37. Through any history of starts, stops, publications and subscriptions, whatever of
  the library fails: a transport connects at most once, and never one it was handed;
  nothing reaches the library before it has connected; a transport that is not started
  holds no subscription and refuses to publish and to subscribe, touching nothing.
\<close>

theorem transport_lifecycle:
  "let s = transport_run fails tr ops (core_init scheme url injected) in
     connects s = (if bc_built s \<and> \<not> injected then 1 else 0)
     \<and> (\<not> injected \<longrightarrow> bc_calls s \<noteq> [] \<longrightarrow> hd (bc_calls s) = FsConnect)
     \<and> set (bc_subscriptions s) \<subseteq> {q. FsSubscribe q \<in> set (bc_calls s)}
     \<and> (\<not> bc_started s \<longrightarrow> bc_subscriptions s = []
         \<and> transport_publish fails tr topic m s = (Inl (Exn PyRuntimeError (transport_class tr @ ''.publish called before start()'')), s)
         \<and> transport_subscribe fails tr fresh topic opts s = (Inl (Exn PyRuntimeError (transport_class tr @ ''.subscribe called before start()'')), s))"
proof -
  let ?s = "transport_run fails tr ops (core_init scheme url injected)"
  have "sound injected (core_init scheme url injected)"
    by (simp add: sound_def core_inv_def core_init_def connects_def)
  from transport_run_sound [OF this, of fails tr ops]
  have s: "core_inv ?s" "bc_injected ?s = injected" by (simp_all add: sound_def)
  have "\<not> bc_started ?s \<Longrightarrow> transport_publish fails tr topic m ?s = (Inl (Exn PyRuntimeError (transport_class tr @ ''.publish called before start()'')), ?s)
      \<and> transport_subscribe fails tr fresh topic opts ?s = (Inl (Exn PyRuntimeError (transport_class tr @ ''.subscribe called before start()'')), ?s)"
    by (simp add: transport_publish_def transport_subscribe_def not_started_def)
  then show ?thesis unfolding Let_def using s by (simp add: core_inv_def)
qed

lemma transport_lifecycle_witness:
  "let s = transport_run (\<lambda>c n. None) RedisBroker
       [Open None, Listen ''u'' ''t'' \<lparr> so_group = Some ''g'', so_prefetch = Some 1, so_consumer_id = None, so_reclaim = Some 5 \<rparr>,
        Send ''t'' (7::nat), Shut] (core_init ''redis'' ''redis://h'' False) in
     connects s = 1 \<and> bc_calls s \<noteq> [] \<and> hd (bc_calls s) = FsConnect \<and> \<not> bc_started s \<and> bc_subscriptions s = []"
proof -
  let ?ops = "[Open None, Listen ''u'' ''t'' \<lparr> so_group = Some ''g'', so_prefetch = Some 1, so_consumer_id = None, so_reclaim = Some 5 \<rparr>,
        Send ''t'' (7::nat), Shut]"
  let ?s = "transport_run (\<lambda>c n. None) RedisBroker ?ops (core_init ''redis'' ''redis://h'' False)"
  have "\<not> bc_started ?s" "bc_built ?s" "length (bc_calls ?s) = 7" by code_simp+
  moreover have "length (bc_calls ?s) = 7 \<Longrightarrow> bc_calls ?s \<noteq> []" by (metis list.size(3) zero_neq_numeral)
  ultimately show ?thesis
    using transport_lifecycle [of "\<lambda>c n. None" RedisBroker ?ops "''redis''" "''redis://h''" False] unfolding Let_def by metis
qed

text \<open>
  A transport that was stopped and started again says it is started, without having
  connected again: what it publishes goes to the connection it closed.  So it is after
  a first connection that failed.
\<close>

lemma restart_does_not_reconnect:
  assumes "\<And>c n. fails c n = None" "bc_started s" "bc_built s" "\<not> bc_injected s" "bc_subscriptions s = []"
  shows "bc_calls (snd (transport_publish fails tr topic m (snd (core_start fails None (snd (core_stop fails s))))))
    = bc_calls s @ [FsClose, FsPublish topic m]"
  using assms
  by (simp add: core_stop_def core_start_def transport_publish_def library_call_def suppress_exception_def
      not_started_def bnd_def)

lemma failed_connection_is_not_retried:
  assumes "fails FsConnect 0 = Some e"
  shows "core_start fails None (core_init scheme url False) =
      (Inl e, (core_init scheme url False)\<lparr>bc_built := True, bc_calls := [FsConnect]\<rparr>)"
    and "core_start fails None ((core_init scheme url False)\<lparr>bc_built := True, bc_calls := [FsConnect]\<rparr>) =
      (Inr (), (core_init scheme url False)\<lparr>bc_built := True, bc_calls := [FsConnect], bc_started := True\<rparr>)"
  using assms by (simp_all add: core_start_def core_init_def library_call_def bnd_def)

text \<open>A group makes a pool on every transport but RabbitMQ, whose queue is shared in any case.\<close>

lemma group_subscriptions:
  assumes "so_group opts = Some g" "q \<in> set (subscriptions_for tr fresh topic opts)"
  shows "fs_topic q = topic \<and> (tr \<noteq> RabbitBroker \<longrightarrow> fs_group q = Some g)
    \<and> (tr = RedisBroker \<longrightarrow> fs_consumer q = Some (case so_consumer_id opts of None \<Rightarrow> fresh | Some c \<Rightarrow> c))"
  using assms
  by (cases tr) (auto simp: subscriptions_for_def redis_subscriptions_def kafka_subscriptions_def nats_subscriptions_def
      rabbit_subscriptions_def plain_subscription_def Let_def split: option.splits if_splits)

lemma make_broker_schemes:
  "(\<exists>b. make_broker scheme url injected = Inr b) \<longleftrightarrow> scheme \<in> {''redis'', ''kafka'', ''nats'', ''amqp''}"
  by (auto simp: make_broker_def scheme_classes_def split: option.split)

end
