(* ===== verification/Runtime_Setup.thy ===== *)
theory Runtime_Setup
  imports Transports Job_Backend
begin

text \<open>
  How a runtime is put together: \<open>AgentRuntime.__init__\<close>, \<open>_build_backend\<close>,
  \<open>_build_broker\<close> and the lock on its attributes in \<open>runtime.py\<close>, the constructors of
  \<open>backends/async_backend.py\<close> and \<open>tools/executor.py\<close>, and the blocking variants behind
  \<open>_sync.py\<close>.  Registries, executors and emitters are objects with an identity, a
  number; constructing one takes the next number.
\<close>

section \<open>Objects\<close>

record tool_executor =
  tx_registry :: nat
  tx_emitter :: nat

record objects =
  ob_next :: nat
  ob_executors :: "(nat, tool_executor) dict"

type_synonym 'a building = "(objects, exn, 'a) eff"

definition new_object :: "nat building" where
  "new_object s = (Inr (ob_next s), s\<lparr>ob_next := Suc (ob_next s)\<rparr>)"

definition given_or_new :: "nat option \<Rightarrow> nat building" where
  "given_or_new x = (case x of None \<Rightarrow> new_object | Some i \<Rightarrow> ret i)"

definition executor_registry :: "objects \<Rightarrow> nat \<Rightarrow> nat" where
  "executor_registry s x = (case dget (ob_executors s) x of None \<Rightarrow> 0 | Some t \<Rightarrow> tx_registry t)"

definition executor_init :: "nat \<Rightarrow> nat option \<Rightarrow> nat building" where
  "executor_init reg emitter =
    bnd (given_or_new emitter) (\<lambda>e.
    bnd new_object (\<lambda>x.
    bnd (modify (\<lambda>s. s\<lparr>ob_executors := dset x \<lparr> tx_registry = reg, tx_emitter = e \<rparr> (ob_executors s)\<rparr>)) (\<lambda>_.
    ret x)))"

definition given_or_executor :: "nat option \<Rightarrow> nat \<Rightarrow> nat \<Rightarrow> nat building" where
  "given_or_executor x reg emitter = (case x of None \<Rightarrow> executor_init reg (Some emitter) | Some i \<Rightarrow> ret i)"

section \<open>The registry identity rule\<close>

definition shared_registry :: "string \<Rightarrow> nat option \<Rightarrow> nat option \<Rightarrow> nat building" where
  "shared_registry cls registry executor s =
    (case executor of
       None \<Rightarrow> given_or_new registry s
     | Some x \<Rightarrow> (case registry of
         None \<Rightarrow> (Inr (executor_registry s x), s)
       | Some r \<Rightarrow>
          if executor_registry s x \<noteq> r
          then (Inl (Exn PyValueError (cls @ ''(tool_registry=..., tool_executor=...) requires the two to share the same registry'')), s)
          else (Inr r, s)))"

record tool_parts =
  tp_registry :: nat
  tp_emitter :: nat
  tp_executor :: nat

text \<open>The steps both constructors share: the registry, the emitter, the executor.\<close>

definition parts_init :: "string \<Rightarrow> nat option \<Rightarrow> nat option \<Rightarrow> nat option \<Rightarrow> tool_parts building" where
  "parts_init cls registry executor emitter =
    bnd (shared_registry cls registry executor) (\<lambda>r.
    bnd (given_or_new emitter) (\<lambda>e.
    bnd (given_or_executor executor r e) (\<lambda>x.
    ret \<lparr> tp_registry = r, tp_emitter = e, tp_executor = x \<rparr>)))"

definition async_init :: "nat option \<Rightarrow> nat option \<Rightarrow> nat option \<Rightarrow> tool_parts building" where
  "async_init = parts_init ''AsyncBackend''"

section \<open>Brokers by URL\<close>

definition scheme_chars :: "string" where
  "scheme_chars = ''abcdefghijklmnopqrstuvwxyzABCDEFGHIJKLMNOPQRSTUVWXYZ0123456789+-.''"

definition is_ascii_letter :: "char \<Rightarrow> bool" where
  "is_ascii_letter c = (c \<in> set (take 52 scheme_chars))"

definition lower_char :: "char \<Rightarrow> char" where
  "lower_char c = (if 65 \<le> (of_char c :: nat) \<and> (of_char c :: nat) \<le> 90 then char_of ((of_char c :: nat) + 32) else c)"

text \<open>What \<open>urlparse\<close> makes of the scheme; \<open>host\<close> is what it finds wrong with the rest.\<close>

definition url_scheme :: "string \<Rightarrow> string" where
  "url_scheme url =
    (let u = filter (\<lambda>c. c \<notin> {CHR 0x09, CHR 0x0D, CHR 0x0A}) (dropWhile (\<lambda>c. (of_char c :: nat) \<le> 32) url);
         s = takeWhile (\<lambda>c. c \<noteq> CHR '':'') u in
     if CHR '':'' \<in> set u \<and> s \<noteq> [] \<and> is_ascii_letter (hd s) \<and> list_all (\<lambda>c. c \<in> set scheme_chars) s
     then map lower_char s else [])"

definition urlparse_scheme :: "(string \<Rightarrow> exn option) \<Rightarrow> string \<Rightarrow> exn + string" where
  "urlparse_scheme host url = (case host url of Some e \<Rightarrow> Inl e | None \<Rightarrow> Inr (url_scheme url))"

definition known_schemes :: "string list" where
  "known_schemes = [''memory'', ''kafka'', ''nats'', ''amqp'', ''redis'']"

datatype 'm broker_object = GivenBroker nat | InMemoryBroker | TransportBroker transport "'m broker_core"

definition build_broker :: "string \<Rightarrow> string \<Rightarrow> exn + 'm broker_object" where
  "build_broker scheme url =
    (if scheme = ''memory'' then Inr InMemoryBroker
     else case make_broker scheme url False of Inl e \<Rightarrow> Inl e | Inr (tr, c) \<Rightarrow> Inr (TransportBroker tr c))"

text \<open>\<open>getattr(broker, "scheme", None)\<close> and \<open>getattr(broker, "url", None)\<close>\<close>

definition broker_labels :: "(nat \<Rightarrow> string option \<times> string option) \<Rightarrow> 'm broker_object \<Rightarrow> string option \<times> string option" where
  "broker_labels attrs b =
    (case b of GivenBroker i \<Rightarrow> attrs i | InMemoryBroker \<Rightarrow> (None, None)
     | TransportBroker tr c \<Rightarrow> (Some (bc_scheme c), Some (bc_url c)))"

section \<open>The backend of a runtime\<close>

datatype 'm built_backend =
    GivenBackend nat
  | BuiltAsync tool_parts
  | BuiltJobs "'m broker_object" job_config job_state

text \<open>
  \<open>library\<close> are the parts of a job backend that stand for libraries (HMAC, validation,
  waiting); the rest of it is overwritten.
\<close>

record surroundings =
  su_library :: job_config
  su_host :: "string \<Rightarrow> exn option"
  su_labels :: "nat \<Rightarrow> string option \<times> string option"

definition jobs_on ::
  "surroundings \<Rightarrow> string \<Rightarrow> runtime_options \<Rightarrow> bool \<Rightarrow> 'm broker_object \<Rightarrow> string option \<Rightarrow> exn + 'm built_backend" where
  "jobs_on U rid opts publish b url =
    (case job_init ((su_library U)\<lparr>jc_runtime_id := rid, jc_broker_url := url,
              jc_broker_scheme := fst (broker_labels (su_labels U) b), jc_transport_url := snd (broker_labels (su_labels U) b),
              jc_default_timeout := None, jc_publish_events := publish, jc_has_emitter := True,
              jc_signing_key := broker_signing_key opts\<rparr>) of
       Inl e \<Rightarrow> Inl e
     | Inr (cfg, st) \<Rightarrow> Inr (BuiltJobs b cfg st))"

definition build_backend ::
  "surroundings \<Rightarrow> string \<Rightarrow> runtime_options \<Rightarrow> bool \<Rightarrow> tool_parts \<Rightarrow> string option \<Rightarrow> nat option
    \<Rightarrow> 'm built_backend building" where
  "build_backend U rid opts publish parts url given s =
    (case given of
       Some i \<Rightarrow> (jobs_on U rid opts publish (GivenBroker i) None, s)
     | None \<Rightarrow> (case url of
         None \<Rightarrow>
          if publish then (Inl (Exn SpecValidationError ''publish_events=True requires a broker''), s)
          else bnd (async_init (Some (tp_registry parts)) (Some (tp_executor parts)) (Some (tp_emitter parts)))
                 (\<lambda>a. ret (BuiltAsync a)) s
       | Some u \<Rightarrow> (case urlparse_scheme (su_host U) u of
           Inl e \<Rightarrow> (Inl e, s)
         | Inr scheme \<Rightarrow>
            if scheme \<notin> set known_schemes
            then (Inl (Exn SpecValidationError (''unsupported broker URL scheme '' @ scheme)), s)
            else case build_broker scheme u of
              Inl e \<Rightarrow> (Inl e, s)
            | Inr b \<Rightarrow> (jobs_on U rid opts publish b (Some u), s))))"

section \<open>The runtime\<close>

record runtime_args =
  ra_broker :: "string option"
  ra_broker_instance :: "nat option"
  ra_runtime_id :: "string option"
  ra_backend :: "nat option"
  ra_tool_registry :: "nat option"
  ra_tool_executor :: "nat option"
  ra_options :: "runtime_options option"
  ra_event_emitter :: "nat option"
  ra_publish_events :: bool

record 'm built_runtime =
  br_parts :: tool_parts
  br_id :: string
  br_options :: runtime_options
  br_backend :: "'m built_backend"

definition runtime_init :: "surroundings \<Rightarrow> string \<Rightarrow> runtime_args \<Rightarrow> 'm built_runtime building" where
  "runtime_init U fresh A =
    bnd (parts_init ''AgentRuntime'' (ra_tool_registry A) (ra_tool_executor A) (ra_event_emitter A)) (\<lambda>parts.
    let rid = (case or_else (ra_runtime_id A) (Some fresh) of None \<Rightarrow> fresh | Some i \<Rightarrow> i);
        opts = (case ra_options A of None \<Rightarrow> default_options | Some o' \<Rightarrow> o') in
    bnd (case ra_backend A of
           Some b \<Rightarrow> ret (GivenBackend b)
         | None \<Rightarrow> build_backend U rid opts (ra_publish_events A) parts (ra_broker A) (ra_broker_instance A)) (\<lambda>b.
    ret \<lparr> br_parts = parts, br_id = rid, br_options = opts, br_backend = b \<rparr>))"

text \<open>Assigning an attribute of a finished object; only the two locked names are refused.\<close>

datatype attribute = ToolRegistryAttr | ToolExecutorAttr | EmitterAttr

definition locked_after_init :: "attribute list" where
  "locked_after_init = [ToolRegistryAttr, ToolExecutorAttr]"

definition set_attribute :: "attribute \<Rightarrow> nat \<Rightarrow> tool_parts \<Rightarrow> exn + tool_parts" where
  "set_attribute n v p =
    (if n \<in> set locked_after_init
     then Inl (Exn (PyOther ''AttributeError'') ''immutable after construction'')
     else Inr (case n of EmitterAttr \<Rightarrow> p\<lparr>tp_emitter := v\<rparr>
                | ToolRegistryAttr \<Rightarrow> p\<lparr>tp_registry := v\<rparr> | ToolExecutorAttr \<Rightarrow> p\<lparr>tp_executor := v\<rparr>))"

definition assign_all :: "(attribute \<times> nat) list \<Rightarrow> tool_parts \<Rightarrow> tool_parts" where
  "assign_all = fold (\<lambda>(n, v) p. case set_attribute n v p of Inl e \<Rightarrow> p | Inr q \<Rightarrow> q)"

section \<open>The blocking variants\<close>

definition reject_if_in_event_loop :: "bool \<Rightarrow> string \<Rightarrow> exn + unit" where
  "reject_if_in_event_loop running name =
    (if running
     then Inl (Exn PyRuntimeError (name @ '' called from a running event loop; use the async variant instead''))
     else Inr ())"

definition runtime_run_sync :: "bool \<Rightarrow> 'b runtime \<Rightarrow> agent_ref \<Rightarrow> task_spec \<Rightarrow> ('b rt, exn, agent_result) eff" where
  "runtime_run_sync running R ref t s =
    (case reject_if_in_event_loop running ''run_sync'' of Inl e \<Rightarrow> (Inl e, s) | Inr _ \<Rightarrow> run R ref t s)"

definition runtime_gather_sync ::
  "bool \<Rightarrow> 'b runtime \<Rightarrow> agent_ref \<Rightarrow> task_spec list \<Rightarrow> int \<Rightarrow> bool \<Rightarrow> ('b rt, exn, agent_result list) eff" where
  "runtime_gather_sync running R ref ts n ff s =
    (case reject_if_in_event_loop running ''gather_sync'' of Inl e \<Rightarrow> (Inl e, s) | Inr _ \<Rightarrow> gather R ref ts n ff s)"

section \<open>What construction gives\<close>

definition clash :: "objects \<Rightarrow> nat option \<Rightarrow> nat option \<Rightarrow> bool" where
  "clash s registry executor =
    (case (registry, executor) of (Some r, Some x) \<Rightarrow> executor_registry s x \<noteq> r | _ \<Rightarrow> False)"

definition parts_ok :: "objects \<Rightarrow> tool_parts \<Rightarrow> bool" where
  "parts_ok s p = (executor_registry s (tp_executor p) = tp_registry p)"

lemmas building_defs = given_or_new_def given_or_executor_def executor_init_def new_object_def
  bnd_def ret_def modify_def

lemma parts_init_clash:
  "clash s registry executor \<Longrightarrow> \<exists>e. parts_init cls registry executor emitter s = (Inl e, s) \<and> exn_cls e = PyValueError"
  by (auto simp: clash_def parts_init_def shared_registry_def bnd_def split: option.splits)

lemma parts_init_ok:
  assumes "\<not> clash s registry executor"
  shows "\<exists>p t. parts_init cls registry executor emitter s = (Inr p, t) \<and> parts_ok t p
    \<and> (registry = None \<or> registry = Some (tp_registry p)) \<and> (executor = None \<or> executor = Some (tp_executor p))
    \<and> (emitter = None \<or> emitter = Some (tp_emitter p))"
  using assms
  by (cases registry; cases executor; cases emitter)
    (auto simp: clash_def parts_init_def shared_registry_def parts_ok_def executor_registry_def building_defs)

lemma parts_init_same:
  "parts_ok s p \<Longrightarrow> parts_init cls (Some (tp_registry p)) (Some (tp_executor p)) (Some (tp_emitter p)) s = (Inr p, s)"
  by (simp add: parts_init_def shared_registry_def parts_ok_def building_defs)

lemma assign_all_keeps:
  "tp_registry (assign_all as p) = tp_registry p \<and> tp_executor (assign_all as p) = tp_executor p"
proof (induction as arbitrary: p)
  case (Cons a as)
  obtain n v where "a = (n, v)" by force
  then show ?case
    using Cons [of "tp_emitter_update (\<lambda>_. v) p"] Cons [of p]
    by (cases n) (simp_all add: assign_all_def set_attribute_def locked_after_init_def)
qed (simp add: assign_all_def)

definition served :: "surroundings \<Rightarrow> runtime_args \<Rightarrow> bool" where
  "served U A =
    (ra_backend A \<noteq> None \<or> ra_broker_instance A \<noteq> None
     \<or> (case ra_broker A of None \<Rightarrow> \<not> ra_publish_events A
         | Some u \<Rightarrow> su_host U u = None \<and> url_scheme u \<in> set known_schemes))"

lemma jobs_on_ok:
  "jobs_on U rid opts publish b url = Inr (BuiltJobs b cfg st) \<longleftrightarrow>
    job_init ((su_library U)\<lparr>jc_runtime_id := rid, jc_broker_url := url,
              jc_broker_scheme := fst (broker_labels (su_labels U) b), jc_transport_url := snd (broker_labels (su_labels U) b),
              jc_default_timeout := None, jc_publish_events := publish, jc_has_emitter := True,
              jc_signing_key := broker_signing_key opts\<rparr>) = Inr (cfg, st)"
  by (auto simp: jobs_on_def split: sum.split)

definition backend_of ::
  "string \<Rightarrow> runtime_options \<Rightarrow> bool \<Rightarrow> tool_parts \<Rightarrow> string option \<Rightarrow> nat option \<Rightarrow> 'm built_backend \<Rightarrow> bool" where
  "backend_of rid opts publish p url given b =
    (case b of
       GivenBackend i \<Rightarrow> False
     | BuiltAsync a \<Rightarrow> a = p \<and> url = None \<and> given = None \<and> \<not> publish
     | BuiltJobs k cfg st \<Rightarrow>
         jc_runtime_id cfg = rid \<and> jc_publish_events cfg = publish \<and> jc_has_emitter cfg
         \<and> jc_signing_key cfg = broker_signing_key opts \<and> \<not> jb_started st
         \<and> (case k of
              GivenBroker i \<Rightarrow> given = Some i \<and> jc_broker_url cfg = None
            | InMemoryBroker \<Rightarrow> given = None \<and> (\<exists>u. url = Some u \<and> url_scheme u = ''memory'' \<and> jc_broker_url cfg = Some u)
            | TransportBroker tr c \<Rightarrow> given = None \<and>
                (\<exists>u. url = Some u \<and> dget scheme_classes (url_scheme u) = Some tr
                   \<and> c = core_init (url_scheme u) u False \<and> jc_broker_url cfg = Some u)))"

lemma jobs_on_backend:
  "\<exists>cfg st. jobs_on U rid opts publish k url = Inr (BuiltJobs k cfg st) \<and> jc_runtime_id cfg = rid
    \<and> jc_publish_events cfg = publish \<and> jc_has_emitter cfg \<and> jc_signing_key cfg = broker_signing_key opts
    \<and> \<not> jb_started st \<and> jc_broker_url cfg = url"
  by (simp add: jobs_on_def job_init_def)

lemma known_scheme_builds:
  assumes "url_scheme u \<in> set known_schemes"
  shows "(url_scheme u = ''memory'' \<and> build_broker (url_scheme u) u = Inr InMemoryBroker)
    \<or> (url_scheme u \<noteq> ''memory'' \<and> (\<exists>tr. dget scheme_classes (url_scheme u) = Some tr
         \<and> build_broker (url_scheme u) u = Inr (TransportBroker tr (core_init (url_scheme u) u False))))"
  using assms by (auto simp: known_schemes_def build_broker_def make_broker_def scheme_classes_def)

lemma build_backend_ok:
  assumes "parts_ok s p"
    "given \<noteq> None \<or> (case url of None \<Rightarrow> \<not> publish | Some u \<Rightarrow> su_host U u = None \<and> url_scheme u \<in> set known_schemes)"
  shows "\<exists>b. build_backend U rid opts publish p url given s = (Inr b, s) \<and> backend_of rid opts publish p url given b"
proof (cases given)
  case (Some i)
  then show ?thesis
    using jobs_on_backend [of U rid opts publish "GivenBroker i" None] by (auto simp: build_backend_def backend_of_def)
next
  case None
  show ?thesis
  proof (cases url)
    case None
    then show ?thesis
      using assms \<open>given = None\<close> parts_init_same [OF assms(1), of "''AsyncBackend''"]
      by (simp add: build_backend_def backend_of_def async_init_def bnd_def ret_def)
  next
    case (Some u)
    then have u: "su_host U u = None" "url_scheme u \<in> set known_schemes" using assms \<open>given = None\<close> by simp_all
    from known_scheme_builds [OF u(2)] show ?thesis
    proof (elim disjE conjE exE)
      assume "url_scheme u = ''memory''" "build_broker (url_scheme u) u = (Inr InMemoryBroker :: exn + 'a broker_object)"
      then show ?thesis
        using u Some \<open>given = None\<close> jobs_on_backend [of U rid opts publish InMemoryBroker "Some u"]
        by (auto simp: build_backend_def backend_of_def urlparse_scheme_def)
    next
      fix tr assume "url_scheme u \<noteq> ''memory''" and tr: "dget scheme_classes (url_scheme u) = Some tr"
        "build_broker (url_scheme u) u = Inr (TransportBroker tr (core_init (url_scheme u) u False) :: 'a broker_object)"
      then show ?thesis
        using u Some \<open>given = None\<close>
          jobs_on_backend [of U rid opts publish "TransportBroker tr (core_init (url_scheme u) u False)" "Some u"]
        by (auto simp: build_backend_def backend_of_def urlparse_scheme_def)
    qed
  qed
qed

lemma build_backend_refuses:
  assumes "given = None" "\<not> (case url of None \<Rightarrow> \<not> publish | Some u \<Rightarrow> su_host U u = None \<and> url_scheme u \<in> set known_schemes)"
  shows "\<exists>e. build_backend U rid opts publish p url given s = (Inl e, s)"
  using assms by (auto simp: build_backend_def urlparse_scheme_def split: option.splits)

definition runtime_id_of :: "string \<Rightarrow> runtime_args \<Rightarrow> string" where
  "runtime_id_of fresh A = (case or_else (ra_runtime_id A) (Some fresh) of None \<Rightarrow> fresh | Some i \<Rightarrow> i)"

definition options_of :: "runtime_args \<Rightarrow> runtime_options" where
  "options_of A = (case ra_options A of None \<Rightarrow> default_options | Some o' \<Rightarrow> o')"

lemma runtime_init_clash:
  assumes "clash s (ra_tool_registry A) (ra_tool_executor A)"
  shows "\<exists>e. runtime_init U fresh A s = (Inl e, s)"
proof -
  obtain e where "parts_init ''AgentRuntime'' (ra_tool_registry A) (ra_tool_executor A) (ra_event_emitter A) s = (Inl e, s)"
    using parts_init_clash [OF assms] by blast
  then show ?thesis by (simp add: runtime_init_def bnd_def)
qed

lemma runtime_init_unserved:
  assumes "\<not> clash s (ra_tool_registry A) (ra_tool_executor A)" "\<not> served U A"
  shows "\<exists>e t. runtime_init U fresh A s = (Inl e :: exn + 'm built_runtime, t)"
proof -
  obtain p t where p: "parts_init ''AgentRuntime'' (ra_tool_registry A) (ra_tool_executor A) (ra_event_emitter A) s = (Inr p, t)"
    using parts_init_ok [OF assms(1)] by meson
  have "ra_backend A = None" "ra_broker_instance A = None"
    "\<not> (case ra_broker A of None \<Rightarrow> \<not> ra_publish_events A | Some u \<Rightarrow> su_host U u = None \<and> url_scheme u \<in> set known_schemes)"
    using assms(2) by (auto simp: served_def)
  then obtain e where "build_backend U (runtime_id_of fresh A) (options_of A) (ra_publish_events A) p (ra_broker A)
      (ra_broker_instance A) t = (Inl e :: exn + 'm built_backend, t)" "ra_backend A = None"
    using build_backend_refuses by blast
  then show ?thesis
    using p by (simp add: runtime_init_def bnd_def Let_def runtime_id_of_def options_of_def)
qed

definition built_ok :: "runtime_args \<Rightarrow> objects \<Rightarrow> 'm built_runtime \<Rightarrow> bool" where
  "built_ok A t R =
    (parts_ok t (br_parts R)
     \<and> (ra_tool_registry A = None \<or> ra_tool_registry A = Some (tp_registry (br_parts R)))
     \<and> (ra_event_emitter A = None \<or> ra_event_emitter A = Some (tp_emitter (br_parts R)))
     \<and> br_options R = options_of A
     \<and> (case ra_backend A of
          Some b \<Rightarrow> br_backend R = GivenBackend b
        | None \<Rightarrow> backend_of (br_id R) (br_options R) (ra_publish_events A) (br_parts R) (ra_broker A)
                    (ra_broker_instance A) (br_backend R)))"

lemma runtime_init_served:
  assumes "\<not> clash s (ra_tool_registry A) (ra_tool_executor A)" "served U A"
  shows "\<exists>R t. runtime_init U fresh A s = (Inr (R :: 'm built_runtime), t) \<and> built_ok A t R"
proof -
  obtain p t where p: "parts_init ''AgentRuntime'' (ra_tool_registry A) (ra_tool_executor A) (ra_event_emitter A) s = (Inr p, t)"
    "parts_ok t p" "ra_tool_registry A = None \<or> ra_tool_registry A = Some (tp_registry p)"
    "ra_event_emitter A = None \<or> ra_event_emitter A = Some (tp_emitter p)"
    using parts_init_ok [OF assms(1)] by meson
  show ?thesis
  proof (cases "ra_backend A")
    case (Some b)
    then show ?thesis using p by (simp add: runtime_init_def bnd_def ret_def Let_def built_ok_def options_of_def)
  next
    case None
    then have "ra_broker_instance A \<noteq> None \<or> (case ra_broker A of None \<Rightarrow> \<not> ra_publish_events A
        | Some u \<Rightarrow> su_host U u = None \<and> url_scheme u \<in> set known_schemes)"
      using assms(2) by (auto simp: served_def)
    then obtain b :: "'m built_backend" where
      b: "build_backend U (runtime_id_of fresh A) (options_of A) (ra_publish_events A) p (ra_broker A) (ra_broker_instance A) t = (Inr b, t)"
        "backend_of (runtime_id_of fresh A) (options_of A) (ra_publish_events A) p (ra_broker A) (ra_broker_instance A) b"
      using build_backend_ok [OF p(2)] by blast
    have "runtime_init U fresh A s = (Inr \<lparr> br_parts = p, br_id = runtime_id_of fresh A, br_options = options_of A, br_backend = b \<rparr>, t)"
      using b(1) None p(1)
      by (simp add: runtime_init_def bnd_def ret_def Let_def options_of_def runtime_id_of_def)
    then show ?thesis using None p b(2) by (auto simp: built_ok_def)
  qed
qed

lemma runtime_init_built:
  assumes "runtime_init U fresh A s = (Inr (R :: 'm built_runtime), t)"
  shows "\<not> clash s (ra_tool_registry A) (ra_tool_executor A) \<and> served U A \<and> built_ok A t R"
  using assms runtime_init_clash [of s A U fresh] runtime_init_unserved [of s A U fresh]
    runtime_init_served [of s A U fresh] by (smt (verit) old.sum.distinct(1) prod.inject sum.inject(2))

text \<open>
  C36. A runtime can be built exactly when the executor and the registry it is handed
  agree and a backend can be made for it: one is handed over, or a broker, or the URL has
  a known scheme, or there is none and events are not to be published.  What is built runs
  tools from the registry it registers them in, whatever is assigned to it afterwards; an
  asyncio backend shares its registry, executor and emitter; a job backend has its
  identity, its signing key and the broker the URL names.
\<close>

theorem runtime_construction:
  "((\<exists>R t. runtime_init U fresh A s = (Inr (R :: 'm built_runtime), t)) \<longleftrightarrow>
      \<not> clash s (ra_tool_registry A) (ra_tool_executor A) \<and> served U A)
   \<and> (\<forall>R t as. runtime_init U fresh A s = (Inr (R :: 'm built_runtime), t) \<longrightarrow>
        (let p = br_parts R in
         executor_registry t (tp_executor (assign_all as p)) = tp_registry (assign_all as p)
         \<and> (ra_tool_registry A \<noteq> None \<longrightarrow> ra_tool_registry A = Some (tp_registry p))
         \<and> (ra_event_emitter A \<noteq> None \<longrightarrow> ra_event_emitter A = Some (tp_emitter p))
         \<and> (case ra_backend A of
              Some b \<Rightarrow> br_backend R = GivenBackend b
            | None \<Rightarrow> backend_of (br_id R) (br_options R) (ra_publish_events A) p (ra_broker A) (ra_broker_instance A)
                        (br_backend R))))"
proof -
  let ?f = "runtime_init U fresh A s :: (exn + 'm built_runtime) \<times> objects"
  have "\<not> clash s (ra_tool_registry A) (ra_tool_executor A) \<and> served U A \<Longrightarrow> \<exists>R t. ?f = (Inr R, t)"
    using runtime_init_served by blast
  with runtime_init_built [where 'm = 'm, of U fresh A s] show ?thesis
    by (auto simp: built_ok_def parts_ok_def assign_all_keeps Let_def)
qed

lemma runtime_construction_witness:
  "\<forall>lib opts. \<exists>R t. runtime_init \<lparr> su_library = lib, su_host = (\<lambda>u. None), su_labels = (\<lambda>i. (None, None)) \<rparr> ''r''
      \<lparr> ra_broker = Some ''Redis://h'', ra_broker_instance = None, ra_runtime_id = None, ra_backend = None,
        ra_tool_registry = Some 0, ra_tool_executor = None, ra_options = Some opts, ra_event_emitter = None,
        ra_publish_events = True \<rparr> \<lparr> ob_next = 1, ob_executors = [] \<rparr> = (Inr (R :: nat built_runtime), t)
    \<and> executor_registry t (tp_executor (assign_all [(ToolExecutorAttr, 9)] (br_parts R))) = 0"
proof (intro allI)
  fix lib opts
  let ?U = "\<lparr> su_library = lib, su_host = (\<lambda>u. None), su_labels = (\<lambda>i. (None, None)) \<rparr>"
  let ?A = "\<lparr> ra_broker = Some ''Redis://h'', ra_broker_instance = None, ra_runtime_id = None, ra_backend = None,
        ra_tool_registry = Some 0, ra_tool_executor = None, ra_options = Some opts, ra_event_emitter = None,
        ra_publish_events = True \<rparr>"
  have "url_scheme ''Redis://h'' \<in> set known_schemes" by code_simp
  then have "\<not> clash \<lparr> ob_next = 1, ob_executors = [] \<rparr> (ra_tool_registry ?A) (ra_tool_executor ?A)" "served ?U ?A"
    by (simp_all add: clash_def served_def)
  then obtain R :: "nat built_runtime" and t where
    R: "runtime_init ?U ''r'' ?A \<lparr> ob_next = 1, ob_executors = [] \<rparr> = (Inr R, t)"
    using runtime_construction [of ?U "''r''" ?A "\<lparr> ob_next = 1, ob_executors = [] \<rparr>", where 'm = nat] by blast
  then have "executor_registry t (tp_executor (assign_all [(ToolExecutorAttr, 9)] (br_parts R))) = 0"
    using runtime_construction [of ?U "''r''" ?A "\<lparr> ob_next = 1, ob_executors = [] \<rparr>", where 'm = nat]
    by (simp add: Let_def assign_all_keeps)
  with R show "\<exists>R t. runtime_init ?U ''r'' ?A \<lparr> ob_next = 1, ob_executors = [] \<rparr> = (Inr (R :: nat built_runtime), t)
    \<and> executor_registry t (tp_executor (assign_all [(ToolExecutorAttr, 9)] (br_parts R))) = 0" by blast
qed

end
