(* ===== verification/Yaml_Registry.thy ===== *)
theory Yaml_Registry
  imports Router Templates
begin

text \<open>
  \<open>registry/yaml.py\<close> and \<open>registry/_yaml_schema.py\<close>: agents on disk.  The text of a file is
  what PyYAML makes of it; a class is known by a name of its own, and \<open>python_world\<close>
  says what importing a module does, what a module's attributes are, where a class was
  defined and whether it is a Pydantic model.
\<close>

section \<open>The schema\<close>

record agent_spec =
  ys_version :: int
  ys_name :: string
  ys_model :: string
  ys_instructions :: string
  ys_output_type :: string
  ys_input_type :: "string option"
  ys_tools :: "string list"
  ys_trust_level :: trust_level
  ys_context_passer :: string
  ys_backend :: string

definition spec_fields :: "string list" where
  "spec_fields = [''version'', ''name'', ''model'', ''instructions'', ''output_type'', ''input_type'', ''tools'',
     ''trust_level'', ''context_passer'', ''backend'']"

definition known_passers :: "string list" where
  "known_passers = [''null'', ''full'']"

definition known_backends :: "string list" where
  "known_backends = [''auto'', ''thread'', ''job'']"

definition invalid :: "string \<Rightarrow> exn" where
  "invalid field = Exn PyValueError field"

fun strings_of :: "pyval list \<Rightarrow> string list option" where
  "strings_of [] = Some []"
| "strings_of (VStr s # vs) = map_option (Cons s) (strings_of vs)"
| "strings_of (v # vs) = None"

definition trust_of :: "string \<Rightarrow> trust_level option" where
  "trust_of s = find (\<lambda>t. trust_value t = s) [HIGH, MEDIUM, LOW, SANDBOX]"

definition required_str :: "(string, pyval) dict \<Rightarrow> string \<Rightarrow> exn + string" where
  "required_str d k = (case dget d k of Some (VStr s) \<Rightarrow> Inr s | _ \<Rightarrow> Inl (invalid k))"

definition literal_str :: "(string, pyval) dict \<Rightarrow> string \<Rightarrow> string list \<Rightarrow> string \<Rightarrow> exn + string" where
  "literal_str d k allowed dflt =
    (case dget d k of
       None \<Rightarrow> Inr dflt
     | Some (VStr s) \<Rightarrow> if s \<in> set allowed then Inr s else Inl (invalid k)
     | _ \<Rightarrow> Inl (invalid k))"

definition parse_input_type :: "(string, pyval) dict \<Rightarrow> exn + string option" where
  "parse_input_type d =
    (case dget d ''input_type'' of None \<Rightarrow> Inr None | Some VNone \<Rightarrow> Inr None | Some (VStr s) \<Rightarrow> Inr (Some s)
     | _ \<Rightarrow> Inl (invalid ''input_type''))"

definition parse_tools :: "(string, pyval) dict \<Rightarrow> exn + string list" where
  "parse_tools d =
    (case dget d ''tools'' of
       None \<Rightarrow> Inr []
     | Some (VList vs) \<Rightarrow> (case strings_of vs of Some ss \<Rightarrow> Inr ss | None \<Rightarrow> Inl (invalid ''tools''))
     | _ \<Rightarrow> Inl (invalid ''tools''))"

definition parse_trust :: "(string, pyval) dict \<Rightarrow> exn + trust_level" where
  "parse_trust d =
    (case dget d ''trust_level'' of
       None \<Rightarrow> Inr MEDIUM
     | Some (VStr s) \<Rightarrow> (case trust_of s of Some t \<Rightarrow> Inr t | None \<Rightarrow> Inl (invalid ''trust_level''))
     | _ \<Rightarrow> Inl (invalid ''trust_level''))"

definition sbind :: "exn + 'a \<Rightarrow> ('a \<Rightarrow> exn + 'b) \<Rightarrow> exn + 'b" where
  "sbind x f = (case x of Inl e \<Rightarrow> Inl e | Inr v \<Rightarrow> f v)"

lemma sbind_simps [simp]: "sbind (Inl e) f = Inl e" "sbind (Inr v) f = f v"
  by (simp_all add: sbind_def)

lemma sbind_Inr_iff: "sbind x f = Inr w \<longleftrightarrow> (\<exists>v. x = Inr v \<and> f v = Inr w)"
  by (cases x) simp_all

text \<open>\<open>AgentSpecYaml.model_validate\<close>: unknown fields are refused, the version is 1.\<close>

definition parse_spec :: "(string, pyval) dict \<Rightarrow> exn + agent_spec" where
  "parse_spec d =
    (if \<not> set (dkeys d) \<subseteq> set spec_fields then Inl (invalid ''extra fields not permitted'')
     else if dget d ''version'' \<noteq> Some (VInt 1) then Inl (invalid ''version'')
     else sbind (required_str d ''name'') (\<lambda>n.
          sbind (required_str d ''model'') (\<lambda>m.
          sbind (required_str d ''instructions'') (\<lambda>i.
          sbind (required_str d ''output_type'') (\<lambda>out.
          sbind (parse_input_type d) (\<lambda>inp.
          sbind (parse_tools d) (\<lambda>ts.
          sbind (parse_trust d) (\<lambda>tr.
          sbind (literal_str d ''context_passer'' known_passers ''null'') (\<lambda>cp.
          sbind (literal_str d ''backend'' known_backends ''auto'') (\<lambda>be.
            Inr \<lparr> ys_version = 1, ys_name = n, ys_model = m, ys_instructions = i, ys_output_type = out,
                  ys_input_type = inp, ys_tools = ts, ys_trust_level = tr, ys_context_passer = cp,
                  ys_backend = be \<rparr>))))))))))"

definition spec_doc :: "agent_spec \<Rightarrow> (string, pyval) dict" where
  "spec_doc sp =
    [(''version'', VInt (ys_version sp)), (''name'', VStr (ys_name sp)), (''model'', VStr (ys_model sp)),
     (''instructions'', VStr (ys_instructions sp)), (''output_type'', VStr (ys_output_type sp)),
     (''input_type'', json_opt VStr (ys_input_type sp)), (''tools'', VList (map VStr (ys_tools sp))),
     (''trust_level'', VStr (trust_value (ys_trust_level sp))), (''context_passer'', VStr (ys_context_passer sp)),
     (''backend'', VStr (ys_backend sp))]"

definition spec_ok :: "agent_spec \<Rightarrow> bool" where
  "spec_ok sp = (ys_version sp = 1 \<and> ys_context_passer sp \<in> set known_passers \<and> ys_backend sp \<in> set known_backends)"

section \<open>Class paths\<close>

record python_world =
  pw_import :: "string \<Rightarrow> exn option"
  pw_attr :: "string \<Rightarrow> string \<Rightarrow> string option"
  pw_is_model :: "string \<Rightarrow> bool"
  pw_module :: "string \<Rightarrow> string"
  pw_qualname :: "string \<Rightarrow> string"

definition class_to_path :: "python_world \<Rightarrow> string \<Rightarrow> string" where
  "class_to_path W c = pw_module W c @ ''.'' @ pw_qualname W c"

text \<open>\<open>rpartition\<close> at a dot, for a string that has one.\<close>

definition rpartition :: "string \<Rightarrow> string \<times> string" where
  "rpartition s =
    (let r = takeWhile (\<lambda>c. c \<noteq> CHR ''.'') (rev s) in (take (length s - length r - 1) s, rev r))"

definition import_error :: "exn \<Rightarrow> bool" where
  "import_error e = (exn_cls e \<in> {PyOther ''ImportError'', PyOther ''ModuleNotFoundError''})"

definition bad_spec :: "string \<Rightarrow> exn" where
  "bad_spec msg = Exn SpecValidationError msg"

definition resolve_class :: "python_world \<Rightarrow> string \<Rightarrow> exn + string" where
  "resolve_class W path =
    (if CHR ''.'' \<notin> set path then Inl (bad_spec (path @ '' must include a module''))
     else case rpartition path of (m, n) \<Rightarrow>
       (case pw_import W m of
          Some e \<Rightarrow> Inl (if import_error e then bad_spec (path @ '' could not be imported'') else e)
        | None \<Rightarrow>
           (case pw_attr W m n of
              None \<Rightarrow> Inl (bad_spec (n @ '' not found in '' @ m))
            | Some c \<Rightarrow> if pw_is_model W c then Inr c else Inl (bad_spec (path @ '' is not a BaseModel subclass'')))))"

section \<open>Agents and specs\<close>

definition passer_of :: "string \<Rightarrow> context_passer option" where
  "passer_of s = (if s = ''null'' then Some NullContextPasser else if s = ''full'' then Some FullContextPasser else None)"

definition passer_name :: "context_passer \<Rightarrow> string option" where
  "passer_name p = (case p of NullContextPasser \<Rightarrow> Some ''null'' | FullContextPasser \<Rightarrow> Some ''full'' | _ \<Rightarrow> None)"

text \<open>An empty input type counts as none.\<close>

definition spec_to_agent :: "python_world \<Rightarrow> agent_spec \<Rightarrow> exn + agent" where
  "spec_to_agent W sp =
    sbind (resolve_class W (ys_output_type sp)) (\<lambda>out.
    sbind (case ys_input_type sp of
             None \<Rightarrow> Inr None
           | Some p \<Rightarrow> if p = [] then Inr None else map_sum id Some (resolve_class W p)) (\<lambda>inp.
    case passer_of (ys_context_passer sp) of
      None \<Rightarrow> Inl (bad_spec ''unknown context_passer'')
    | Some cp \<Rightarrow> agent_validate
        \<lparr> a_name = ys_name sp, a_model = ModelName (ys_model sp), fallback_models = [],
          instructions = ys_instructions sp, output_type = out, input_type = inp, a_tools = set (ys_tools sp),
          mcp_servers = [], builtin_tools = [], max_concurrent_requests = None, model_concurrency_limiter = None,
          model_settings = None, trust_level = ys_trust_level sp, a_context_passer = cp,
          a_backend = ys_backend sp, pre_process = [], post_process = [] \<rparr>))"

definition agent_to_spec :: "python_world \<Rightarrow> agent \<Rightarrow> exn + agent_spec" where
  "agent_to_spec W a =
    (case passer_name (a_context_passer a) of
       None \<Rightarrow> Inl (bad_spec ''context_passer is not YAML-serialisable'')
     | Some cp \<Rightarrow>
        (case a_model a of
           ModelInstance m \<Rightarrow> Inl (bad_spec ''model is a constructed Model instance'')
         | ModelName m \<Rightarrow>
            if a_backend a \<notin> set known_backends then Inl (invalid ''backend'')
            else Inr \<lparr> ys_version = 1, ys_name = a_name a, ys_model = m, ys_instructions = instructions a,
                   ys_output_type = class_to_path W (output_type a),
                   ys_input_type = map_option (class_to_path W) (input_type a),
                   ys_tools = sorted_list_of_set (a_tools a), ys_trust_level = trust_level a,
                   ys_context_passer = cp, ys_backend = a_backend a \<rparr>))"

section \<open>The registry\<close>

datatype yaml_file = BadYaml string | Document pyval

text \<open>
  The files of \<open>agents\<close>, by stem, in the order of their paths; \<open>None\<close> when there is no
  such directory.
\<close>

record yaml_registry =
  yr_agents :: "(string, agent) dict"
  yr_errors :: "string list"
  yr_loaded :: bool

definition yaml_init :: "bool \<Rightarrow> exn + yaml_registry" where
  "yaml_init root_is_dir =
    (if root_is_dir then Inr \<lparr> yr_agents = [], yr_errors = [], yr_loaded = False \<rparr>
     else Inl (Exn RegistryError ''YAML registry root does not exist''))"

definition complain :: "string \<Rightarrow> string \<Rightarrow> yaml_registry \<Rightarrow> yaml_registry" where
  "complain stem msg s = s\<lparr>yr_errors := yr_errors s @ [''agents/'' @ stem @ ''.yaml: '' @ msg]\<rparr>"

definition load_one :: "python_world \<Rightarrow> string \<times> yaml_file \<Rightarrow> yaml_registry \<Rightarrow> exn + yaml_registry" where
  "load_one W f s =
    (case f of (stem, content) \<Rightarrow>
      (case content of
         BadYaml msg \<Rightarrow> Inr (complain stem (''invalid YAML '' @ msg) s)
       | Document (VDict d) \<Rightarrow>
           (case parse_spec d of
              Inl e \<Rightarrow> Inr (complain stem (exn_msg e) s)
            | Inr sp \<Rightarrow>
                if ys_name sp \<noteq> stem then Inr (complain stem (''filename does not match '' @ ys_name sp) s)
                else (case spec_to_agent W sp of
                   Inl e \<Rightarrow> if isinstance e SpecValidationError then Inr (complain stem (exn_msg e) s) else Inl e
                 | Inr a \<Rightarrow>
                     if dhas (yr_agents s) (ys_name sp) then Inr (complain stem ''duplicate agent name'' s)
                     else Inr (s\<lparr>yr_agents := dset (ys_name sp) a (yr_agents s)\<rparr>)))
       | Document v \<Rightarrow> Inr (complain stem ''top-level must be a mapping'' s)))"

fun load_all :: "python_world \<Rightarrow> (string \<times> yaml_file) list \<Rightarrow> yaml_registry \<Rightarrow> (exn + unit) \<times> yaml_registry" where
  "load_all W [] s = (Inr (), s\<lparr>yr_loaded := True\<rparr>)"
| "load_all W (f # fs) s = (case load_one W f s of Inl e \<Rightarrow> (Inl e, s) | Inr u \<Rightarrow> load_all W fs u)"

definition yaml_reload :: "python_world \<Rightarrow> (string \<times> yaml_file) list option \<Rightarrow> (yaml_registry, exn, unit) eff" where
  "yaml_reload W disk s =
    load_all W (case disk of None \<Rightarrow> [] | Some fs \<Rightarrow> fs) (s\<lparr>yr_agents := [], yr_errors := []\<rparr>)"

definition ensure_loaded :: "python_world \<Rightarrow> (string \<times> yaml_file) list option \<Rightarrow> (yaml_registry, exn, unit) eff" where
  "ensure_loaded W disk s = (if yr_loaded s then (Inr (), s) else yaml_reload W disk s)"

definition yaml_get ::
  "python_world \<Rightarrow> (string \<times> yaml_file) list option \<Rightarrow> string \<Rightarrow> (yaml_registry, exn, agent) eff" where
  "yaml_get W disk n = bnd (ensure_loaded W disk) (\<lambda>_ s.
    (case dget (yr_agents s) n of
       None \<Rightarrow> Inl (Exn RegistryError (n @ '' not found'')) | Some a \<Rightarrow> Inr a, s))"

definition yaml_list ::
  "python_world \<Rightarrow> (string \<times> yaml_file) list option \<Rightarrow> (yaml_registry, exn, string list) eff" where
  "yaml_list W disk = bnd (ensure_loaded W disk) (\<lambda>_ s. (Inr (dkeys (yr_agents s)), s))"

definition yaml_validate ::
  "python_world \<Rightarrow> (string \<times> yaml_file) list option \<Rightarrow> (yaml_registry, exn, string list) eff" where
  "yaml_validate W disk = bnd (yaml_reload W disk) (\<lambda>_ s. (Inr (yr_errors s), s))"

section \<open>Round trips\<close>

lemma strings_of_map [simp]: "strings_of (map VStr ss) = Some ss"
  by (induction ss) simp_all

lemma trust_of_value [simp]: "trust_of (trust_value t) = Some t"
  by (cases t) (simp_all add: trust_of_def)

lemma parse_spec_doc:
  assumes "spec_ok sp"
  shows "parse_spec (spec_doc sp) = Inr sp"
proof -
  have inp: "parse_input_type (spec_doc sp) = Inr (ys_input_type sp)"
    by (simp add: parse_input_type_def spec_doc_def json_opt_def split: option.split)
  show ?thesis
    using assms
    by (simp add: parse_spec_def inp)
      (simp add: spec_ok_def spec_doc_def spec_fields_def dkeys_def required_str_def parse_tools_def parse_trust_def literal_str_def)
qed

lemma parse_spec_ok: "parse_spec d = Inr sp \<Longrightarrow> spec_ok sp"
  by (auto simp: parse_spec_def sbind_Inr_iff spec_ok_def literal_str_def known_passers_def known_backends_def
      split: if_splits option.splits pyval.splits)

lemma rpartition_dot:
  assumes "CHR ''.'' \<notin> set n"
  shows "rpartition (m @ ''.'' @ n) = (m, n)"
proof -
  have "takeWhile (\<lambda>c. c \<noteq> CHR ''.'') (rev n @ CHR ''.'' # rev m) = rev n"
    using assms by (subst takeWhile_append2) auto
  then show ?thesis by (simp add: rpartition_def Let_def)
qed

text \<open>A class the loader finds again: a module-level model of an importable module.\<close>

definition importable :: "python_world \<Rightarrow> string \<Rightarrow> bool" where
  "importable W c =
    (CHR ''.'' \<notin> set (pw_qualname W c) \<and> pw_import W (pw_module W c) = None
     \<and> pw_attr W (pw_module W c) (pw_qualname W c) = Some c \<and> pw_is_model W c)"

lemma resolve_class_to_path: "importable W c \<Longrightarrow> resolve_class W (class_to_path W c) = Inr c"
  using rpartition_dot [of "pw_qualname W c" "pw_module W c"]
  by (simp add: importable_def resolve_class_def class_to_path_def)

text \<open>A class defined inside another is written down under a path the loader cannot import.\<close>

lemma nested_class_is_lost:
  assumes "pw_qualname W c = outer @ ''.'' @ inner" "CHR ''.'' \<notin> set inner"
    and "pw_import W (pw_module W c @ ''.'' @ outer) = Some e" "import_error e"
  shows "resolve_class W (class_to_path W c) = Inl (bad_spec (class_to_path W c @ '' could not be imported''))"
  using assms rpartition_dot [OF assms(2), of "pw_module W c @ ''.'' @ outer"]
  by (simp add: resolve_class_def class_to_path_def)

text \<open>What YAML keeps of an agent.\<close>

definition yaml_view :: "agent \<Rightarrow> agent" where
  "yaml_view a = a\<lparr>fallback_models := [], mcp_servers := [], builtin_tools := [], max_concurrent_requests := None,
     model_concurrency_limiter := None, model_settings := None, pre_process := [], post_process := []\<rparr>"

lemma passer_round: "passer_name p = Some cp \<longleftrightarrow> passer_of cp = Some p"
  by (cases p) (auto simp: passer_name_def passer_of_def)

lemma written_agent_reads_back:
  assumes "agent_to_spec W a = Inr sp" "importable W (output_type a)" "finite (a_tools a)"
    and "\<And>c. input_type a = Some c \<Longrightarrow> importable W c"
  shows "spec_ok sp \<and> spec_to_agent W sp = Inr (yaml_view a)"
proof -
  obtain cp m where cp: "passer_name (a_context_passer a) = Some cp" "a_model a = ModelName m"
    "a_backend a \<in> set known_backends"
    and sp: "sp = \<lparr> ys_version = 1, ys_name = a_name a, ys_model = m, ys_instructions = instructions a,
                   ys_output_type = class_to_path W (output_type a),
                   ys_input_type = map_option (class_to_path W) (input_type a),
                   ys_tools = sorted_list_of_set (a_tools a), ys_trust_level = trust_level a,
                   ys_context_passer = cp, ys_backend = a_backend a \<rparr>"
    using assms(1) by (auto simp: agent_to_spec_def split: option.splits model_spec.splits if_splits)
  have "cp \<in> set known_passers"
    using cp(1) by (auto simp: passer_name_def known_passers_def split: context_passer.splits)
  moreover have "(case map_option (class_to_path W) (input_type a) of
             None \<Rightarrow> Inr None
           | Some p \<Rightarrow> if p = [] then Inr None else map_sum id Some (resolve_class W p)) = (Inr (input_type a) :: exn + string option)"
    using assms(4) resolve_class_to_path by (cases "input_type a") (auto simp: class_to_path_def)
  ultimately show ?thesis
    using cp resolve_class_to_path [OF assms(2)] assms(3)
    by (simp add: sp spec_ok_def spec_to_agent_def passer_round yaml_view_def agent_validate_def concurrency_limit_ok_def)
qed

text \<open>
  C34. What a registry can write it reads back: of an agent that YAML can hold, with
  classes at the top level of importable modules, the written document is valid, loads
  as the agent less what YAML has no field for (fallbacks, servers, limits, settings,
  hooks), and writing that agent gives the same document.
\<close>

theorem yaml_round_trip:
  assumes "agent_to_spec W a = Inr sp" "importable W (output_type a)" "finite (a_tools a)"
    and "\<And>c. input_type a = Some c \<Longrightarrow> importable W c"
  shows "parse_spec (spec_doc sp) = Inr sp \<and> spec_to_agent W sp = Inr (yaml_view a)
    \<and> agent_to_spec W (yaml_view a) = Inr sp"
proof -
  have "a_context_passer (yaml_view a) = a_context_passer a" "a_model (yaml_view a) = a_model a"
    "a_backend (yaml_view a) = a_backend a" "a_name (yaml_view a) = a_name a"
    "instructions (yaml_view a) = instructions a" "output_type (yaml_view a) = output_type a"
    "input_type (yaml_view a) = input_type a" "a_tools (yaml_view a) = a_tools a"
    "trust_level (yaml_view a) = trust_level a" by (simp_all add: yaml_view_def)
  then have "agent_to_spec W (yaml_view a) = agent_to_spec W a" unfolding agent_to_spec_def by (simp only:)
  then show ?thesis using written_agent_reads_back [OF assms] parse_spec_doc [of sp] assms(1) by simp
qed

definition flat_world :: python_world where
  "flat_world = \<lparr> pw_import = (\<lambda>m. if m = ''pkg.out'' then None else Some (Exn (PyOther ''ModuleNotFoundError'') m)),
     pw_attr = (\<lambda>m n. if n = ''Finding'' then Some ''Finding'' else None), pw_is_model = (\<lambda>c. c = ''Finding''),
     pw_module = (\<lambda>c. ''pkg.out''), pw_qualname = (\<lambda>c. c) \<rparr>"

definition yaml_sample_agent :: agent where
  "yaml_sample_agent = \<lparr> a_name = ''r'', a_model = ModelName ''openai:m'', fallback_models = [''x''], instructions = ''do'',
     output_type = ''Finding'', input_type = None, a_tools = {''search'', ''calc''}, mcp_servers = [''s''], builtin_tools = [],
     max_concurrent_requests = Some 2, model_concurrency_limiter = None, model_settings = None, trust_level = LOW,
     a_context_passer = FullContextPasser, a_backend = ''thread'', pre_process = [], post_process = [] \<rparr>"

lemma yaml_round_trip_witness:
  "\<exists>sp. agent_to_spec flat_world yaml_sample_agent = Inr sp \<and> parse_spec (spec_doc sp) = Inr sp
    \<and> ys_output_type sp = ''pkg.out.Finding'' \<and> spec_to_agent flat_world sp = Inr (yaml_view yaml_sample_agent)"
proof -
  obtain sp where sp: "agent_to_spec flat_world yaml_sample_agent = Inr sp" "ys_output_type sp = ''pkg.out.Finding''"
    by (simp add: agent_to_spec_def yaml_sample_agent_def passer_name_def known_backends_def class_to_path_def flat_world_def)
  have "importable flat_world (output_type yaml_sample_agent)" "finite (a_tools yaml_sample_agent)"
    "\<And>c. input_type yaml_sample_agent = Some c \<Longrightarrow> importable flat_world c"
    by (simp_all add: importable_def flat_world_def yaml_sample_agent_def)
  from yaml_round_trip [OF sp(1) this] sp show ?thesis by blast
qed

section \<open>What a loaded registry holds\<close>

text \<open>An agent as the types of the code promise it, with nothing YAML cannot say.\<close>

definition agent_typed :: "python_world \<Rightarrow> agent \<Rightarrow> bool" where
  "agent_typed W a =
    ((\<exists>m. a_model a = ModelName m) \<and> pw_is_model W (output_type a)
     \<and> (\<forall>c. input_type a = Some c \<longrightarrow> pw_is_model W c)
     \<and> a_context_passer a \<in> {NullContextPasser, FullContextPasser} \<and> a_backend a \<in> set known_backends
     \<and> finite (a_tools a) \<and> mcp_servers a = [] \<and> builtin_tools a = [] \<and> fallback_models a = []
     \<and> max_concurrent_requests a = None \<and> model_concurrency_limiter a = None)"

lemma resolve_class_model: "resolve_class W p = Inr c \<Longrightarrow> pw_is_model W c"
  by (auto simp: resolve_class_def split: if_splits option.splits prod.splits)

lemma resolve_input_model: "map_sum id Some (resolve_class W p) = Inr (Some c) \<Longrightarrow> pw_is_model W c"
  by (cases "resolve_class W p") (auto dest: resolve_class_model)

lemma spec_to_agent_typed:
  assumes "spec_to_agent W sp = Inr a" "spec_ok sp"
  shows "agent_typed W a \<and> a_name a = ys_name sp \<and> trust_level a = ys_trust_level sp \<and> a_tools a = set (ys_tools sp)"
  using assms
  by (auto simp: spec_to_agent_def sbind_Inr_iff agent_typed_def agent_validate_Inr_iff spec_ok_def passer_of_def
      dest!: resolve_class_model resolve_input_model split: option.splits if_splits)

definition loads_as :: "python_world \<Rightarrow> (string \<times> yaml_file) list \<Rightarrow> string \<Rightarrow> agent \<Rightarrow> bool" where
  "loads_as W fs n a =
    (\<exists>d sp. (n, Document (VDict d)) \<in> set fs \<and> parse_spec d = Inr sp \<and> ys_name sp = n \<and> spec_to_agent W sp = Inr a)"

definition registry_inv :: "python_world \<Rightarrow> (string \<times> yaml_file) list \<Rightarrow> yaml_registry \<Rightarrow> bool" where
  "registry_inv W fs s =
    (dict_ok (yr_agents s) \<and> (\<forall>n a. dget (yr_agents s) n = Some a \<longrightarrow> loads_as W fs n a)
     \<and> length (yr_agents s) + length (yr_errors s) = length fs)"

lemma length_dset_fresh: "\<not> dhas d k \<Longrightarrow> length (dset k v d) = Suc (length d)"
  by (simp add: dset_fresh dhas_iff)

lemma load_one_inv:
  assumes "registry_inv W fs s" "load_one W f s = Inr u"
  shows "registry_inv W (fs @ [f]) u"
proof -
  obtain stem content where f: "f = (stem, content)" by force
  have mono: "loads_as W fs n a \<Longrightarrow> loads_as W (fs @ [f]) n a" for n a by (auto simp: loads_as_def)
  have bad: "registry_inv W (fs @ [f]) (complain stem msg s)" for msg
    using assms(1) mono by (auto simp: registry_inv_def complain_def)
  have good: "registry_inv W (fs @ [f]) (s\<lparr>yr_agents := dset n a (yr_agents s)\<rparr>)"
    if "content = Document (VDict d)" "parse_spec d = Inr sp" "ys_name sp = n" "n = stem" "spec_to_agent W sp = Inr a"
      "\<not> dhas (yr_agents s) n" for d sp n a
  proof -
    have "loads_as W (fs @ [f]) n a" using that f by (auto simp: loads_as_def)
    then show ?thesis
      using assms(1) mono length_dset_fresh [OF that(6)] by (auto simp: registry_inv_def)
  qed
  show ?thesis
  proof (cases content)
    case (BadYaml msg)
    then show ?thesis using assms(2) bad by (auto simp: load_one_def f)
  next
    case (Document v)
    show ?thesis
    proof (cases "\<exists>d sp. v = VDict d \<and> parse_spec d = Inr sp")
      case False
      then show ?thesis using assms(2) bad Document by (cases v) (auto simp: load_one_def f split: sum.splits)
    next
      case True
      then obtain d sp where d: "v = VDict d" "parse_spec d = Inr sp" by blast
      then show ?thesis
        using assms(2) bad good [of d sp "ys_name sp"] Document
        by (auto simp: load_one_def f split: if_splits sum.splits)
    qed
  qed
qed

lemma load_all_inv:
  "registry_inv W done s \<Longrightarrow> load_all W fs s = (Inr (), u) \<Longrightarrow> registry_inv W (done @ fs) u \<and> yr_loaded u"
proof (induction W fs s arbitrary: "done" rule: load_all.induct)
  case (1 W s)
  then show ?case by (auto simp: registry_inv_def)
next
  case (2 W f fs s)
  obtain v where v: "load_one W f s = Inr v" "load_all W fs v = (Inr (), u)"
    using 2(3) by (auto split: sum.splits)
  from 2(1) [OF v(1) load_one_inv [OF 2(2) v(1)] v(2)] show ?case by simp
qed

lemma yaml_reload_inv:
  assumes "yaml_reload W disk s = (Inr (), u)"
  shows "registry_inv W (case disk of None \<Rightarrow> [] | Some fs \<Rightarrow> fs) u \<and> yr_loaded u"
proof -
  have "registry_inv W [] (s\<lparr>yr_agents := [], yr_errors := []\<rparr>)" by (simp add: registry_inv_def)
  from load_all_inv [OF this] assms show ?thesis by (simp add: yaml_reload_def)
qed

lemma loads_as_typed: "loads_as W fs n a \<Longrightarrow> a_name a = n \<and> agent_typed W a"
  using spec_to_agent_typed parse_spec_ok by (fastforce simp: loads_as_def)

text \<open>
  C35. A registry that has loaded is well typed: every agent in it is under the name of
  a file whose document says so, has a model by name, resolved Pydantic classes, one
  of the two passers and a known backend, and no server, limit or fallback; every file
  gave one agent or one error; and reading it afterwards changes nothing.
\<close>

theorem loaded_registry_is_typed:
  assumes "yaml_reload W (Some fs) s = (Inr (), u)"
  shows "dict_ok (yr_agents u) \<and> length (yr_agents u) + length (yr_errors u) = length fs
    \<and> (\<forall>n a. dget (yr_agents u) n = Some a \<longrightarrow> a_name a = n \<and> agent_typed W a \<and> loads_as W fs n a)
    \<and> snd (yaml_get W disk n u) = u \<and> snd (yaml_list W disk u) = u"
proof -
  have "registry_inv W fs u" "yr_loaded u" using yaml_reload_inv [OF assms] by simp_all
  then show ?thesis
    by (simp add: registry_inv_def yaml_get_def yaml_list_def ensure_loaded_def bnd_def) (meson loads_as_typed)
qed

definition sample_disk :: "(string \<times> yaml_file) list" where
  "sample_disk =
    [(''r'', Document (VDict [(''version'', VInt 1), (''name'', VStr ''r''), (''model'', VStr ''openai:m''),
        (''instructions'', VStr ''do''), (''output_type'', VStr ''pkg.out.Finding'')])),
     (''q'', Document (VDict [(''name'', VStr ''q'')])), (''z'', BadYaml ''tab'')]"

lemma loaded_registry_is_typed_witness:
  "\<exists>u. yaml_reload flat_world (Some sample_disk) \<lparr> yr_agents = [], yr_errors = [], yr_loaded = False \<rparr> = (Inr (), u)
    \<and> length (yr_agents u) = 1 \<and> length (yr_errors u) = 2
    \<and> (\<forall>n a. dget (yr_agents u) n = Some a \<longrightarrow> agent_typed flat_world a)"
proof -
  let ?s = "\<lparr> yr_agents = [], yr_errors = [], yr_loaded = False \<rparr>"
  obtain x u where xu: "yaml_reload flat_world (Some sample_disk) ?s = (x, u)" by force
  have "case yaml_reload flat_world (Some sample_disk) ?s of (x, u) \<Rightarrow> x = Inr () \<and> length (yr_agents u) = 1" by code_simp
  then have x: "x = Inr ()" "length (yr_agents u) = 1" using xu by simp_all
  have "length sample_disk = 3" by (simp add: sample_disk_def)
  then show ?thesis using loaded_registry_is_typed [of flat_world sample_disk ?s u None "[]"] xu x by auto
qed

end
