(* ===== verification/Client.thy ===== *)
theory Client
  imports Router Event_Sinks Runtime_Safety
begin

text \<open>
  The HTTP client of \<open>murmur_client/client.py\<close> with the wire types of
  \<open>murmur_client/_wire.py\<close>, and the in-process client of \<open>client/local.py\<close> with the same
  surface.  A response is its status and its JSON body, when it has one.  A task
  survives JSON unchanged; the text of JSON and the class of an agent's output are
  the library's and the agent's own.  Names and ids are plain path segments.
\<close>

section \<open>Responses\<close>

record reply =
  rp_status :: nat
  rp_body :: "pyval option"

definition error_body :: "error_response \<Rightarrow> pyval" where
  "error_body r = VDict
    [(''error'', VStr (er_error r)), (''message'', VStr (er_message r)), (''agent'', json_opt VStr (er_agent r)),
     (''task_id'', json_opt VStr (er_task_id r)), (''request_id'', VStr (er_request_id r))]"

text \<open>
  What the application answers: a value with 200, an exception through the handlers of
  the router, an \<open>HTTPException\<close> with its detail, anything else as plain text.
\<close>

definition respond ::
  "(exn \<Rightarrow> string \<Rightarrow> string option) \<Rightarrow> string \<Rightarrow> exn + pyval \<Rightarrow> reply" where
  "respond getattr_of rid x =
    (case x of
       Inr v \<Rightarrow> \<lparr> rp_status = 200, rp_body = Some v \<rparr>
     | Inl e \<Rightarrow> \<lparr> rp_status = response_status (\<lambda>_. 409) e,
         rp_body =
           (if isinstance e MurmurError \<or> isinstance e PyTimeoutError
            then Some (error_body (error_to_response getattr_of rid e))
            else if exn_cls e = PyOther ''HTTPException'' then Some (VDict [(''detail'', VStr (drop 5 (exn_msg e)))])
            else None) \<rparr>)"

section \<open>Reading a response\<close>

definition parse_error_response :: "(string, pyval) dict \<Rightarrow> error_response option" where
  "parse_error_response p =
    (case (dget p ''error'', dget p ''message'', field_opt_str p ''agent'', field_opt_str p ''task_id'',
           dget p ''request_id'') of
       (Some (VStr e), Some (VStr m), Some a, Some t, Some (VStr r)) \<Rightarrow>
         Some \<lparr> er_error = e, er_message = m, er_agent = a, er_task_id = t, er_request_id = r \<rparr>
     | _ \<Rightarrow> None)"

definition no_typed_error :: "nat \<Rightarrow> exn" where
  "no_typed_error code = Exn RegistryError (''server returned '' @ digits code)"

definition raise_for_status :: "reply \<Rightarrow> exn + unit" where
  "raise_for_status r =
    (if rp_status r < 400 then Inr ()
     else Inl (case rp_body r of
         None \<Rightarrow> Exn MurmurError (''non-JSON body: '' @ digits (rp_status r))
       | Some (VDict p) \<Rightarrow>
           (if dhas p ''error''
            then (case parse_error_response p of
                    Some er \<Rightarrow> client_response_to_error er
                  | None \<Rightarrow> no_typed_error (rp_status r))
            else no_typed_error (rp_status r))
       | Some (VList _) \<Rightarrow> Exn (PyOther ''AttributeError'') ''get''
       | Some (VStr _) \<Rightarrow> Exn (PyOther ''AttributeError'') ''get''
       | Some _ \<Rightarrow> Exn PyTypeError ''argument is not iterable''))"

definition untyped_output :: "(string, pyval) dict \<Rightarrow> pyval" where
  "untyped_output fs = VModel ''_UntypedOutput'' fs"

definition client_metadata :: "pyval option \<Rightarrow> exn + result_metadata" where
  "client_metadata v =
    (case v of
       None \<Rightarrow> parse_metadata (Some (VDict []))
     | Some (VDict fs) \<Rightarrow> parse_metadata (Some (VDict fs))
     | Some _ \<Rightarrow> Inl (Exn PyValueError ''ResultMetadata''))"

definition client_output :: "pyval option \<Rightarrow> exn + pyval option" where
  "client_output v =
    (case v of
       None \<Rightarrow> Inr None
     | Some VNone \<Rightarrow> Inr None
     | Some (VDict fs) \<Rightarrow> Inr (Some (untyped_output fs))
     | Some _ \<Rightarrow> Inl (Exn PyValueError ''_UntypedOutput''))"

definition wire_to_agent_result :: "(string, pyval) dict \<Rightarrow> exn + agent_result" where
  "wire_to_agent_result p =
    (case client_metadata (dget p ''metadata'') of
       Inl e \<Rightarrow> Inl e
     | Inr md \<Rightarrow>
        (case client_output (dget p ''output'') of
           Inl e \<Rightarrow> Inl e
         | Inr out \<Rightarrow>
            (case (dget p ''agent_name'', dget p ''task_id'') of
               (Some (VStr n), Some (VStr t)) \<Rightarrow>
                 Inr \<lparr> ar_output = out,
                       ar_error = (case dget p ''error'' of
                          Some (VStr x) \<Rightarrow> if x = [] then None else Some (Exn MurmurError x) | _ \<Rightarrow> None),
                       ar_metadata = md, ar_agent_name = n, ar_task_id = t \<rparr>
             | (Some _, Some _) \<Rightarrow> Inl (Exn PyValueError ''AgentResult'')
             | _ \<Rightarrow> Inl (Exn PyKeyError ''agent_name''))))"

definition read_result :: "reply \<Rightarrow> exn + agent_result" where
  "read_result r =
    (case raise_for_status r of
       Inl e \<Rightarrow> Inl e
     | Inr _ \<Rightarrow> (case rp_body r of
           Some (VDict p) \<Rightarrow> wire_to_agent_result p
         | _ \<Rightarrow> Inl (Exn (PyOther ''AttributeError'') ''get'')))"

fun read_results :: "pyval list \<Rightarrow> exn + agent_result list" where
  "read_results [] = Inr []"
| "read_results (v # vs) =
    (case (case v of VDict p \<Rightarrow> wire_to_agent_result p | _ \<Rightarrow> Inl (Exn (PyOther ''AttributeError'') ''get'')) of
       Inl e \<Rightarrow> Inl e
     | Inr r \<Rightarrow> (case read_results vs of Inl e \<Rightarrow> Inl e | Inr rs \<Rightarrow> Inr (r # rs)))"

definition read_batch :: "reply \<Rightarrow> exn + agent_result list" where
  "read_batch r =
    (case raise_for_status r of
       Inl e \<Rightarrow> Inl e
     | Inr _ \<Rightarrow> (case rp_body r of Some (VList vs) \<Rightarrow> read_results vs | _ \<Rightarrow> Inl (Exn PyTypeError ''not iterable'')))"

text \<open>\<open>list(r.json())\<close>: of a JSON object, its keys.\<close>

definition json_list :: "pyval \<Rightarrow> exn + pyval list" where
  "json_list v =
    (case v of VList vs \<Rightarrow> Inr vs | VDict p \<Rightarrow> Inr (map VStr (dkeys p))
     | VStr s \<Rightarrow> Inr (map (\<lambda>c. VStr [c]) s) | _ \<Rightarrow> Inl (Exn PyTypeError ''not iterable''))"

definition client_list :: "reply \<Rightarrow> exn + pyval list" where
  "client_list r =
    (case raise_for_status r of
       Inl e \<Rightarrow> Inl e
     | Inr _ \<Rightarrow> (case rp_body r of None \<Rightarrow> Inl (Exn PyValueError ''JSONDecodeError'') | Some v \<Rightarrow> json_list v))"

section \<open>Calls\<close>

text \<open>\<open>request_id or str(uuid4())\<close>\<close>

definition call_id :: "string option \<Rightarrow> string \<Rightarrow> string" where
  "call_id rid fresh = (case rid of Some (c # cs) \<Rightarrow> c # cs | _ \<Rightarrow> fresh)"

definition client_headers :: "string option \<Rightarrow> string \<Rightarrow> string \<Rightarrow> http_request" where
  "client_headers token path rid =
    \<lparr> rq_path = path, rq_authorization = map_option (\<lambda>t. ''Bearer '' @ t) token, rq_request_id = Some rid \<rparr>"

definition client_sync_headers :: "string option \<Rightarrow> string \<Rightarrow> string \<Rightarrow> http_request" where
  "client_sync_headers token path rid = \<lparr> rq_path = path, rq_authorization = None, rq_request_id = Some rid \<rparr>"

definition refusal :: "nat \<Rightarrow> string \<Rightarrow> string \<Rightarrow> reply" where
  "refusal code name rid = \<lparr> rp_status = code,
     rp_body = Some (error_body \<lparr> er_error = name,
       er_message = (if code = 401 then ''missing or invalid bearer token''
                     else ''Server is shutting down; retry another instance''),
       er_agent = None, er_task_id = None, er_request_id = rid \<rparr>) \<rparr>"

text \<open>A request without a body carries the token only.\<close>

definition client_get_headers :: "string option \<Rightarrow> string \<Rightarrow> http_request" where
  "client_get_headers token path =
    \<lparr> rq_path = path, rq_authorization = map_option (\<lambda>t. ''Bearer '' @ t) token, rq_request_id = None \<rparr>"

text \<open>A request through the guards of the server to one of its routes.\<close>

definition exchange ::
  "(exn \<Rightarrow> string \<Rightarrow> string option) \<Rightarrow> string option \<Rightarrow> http_request \<Rightarrow> string
    \<Rightarrow> (('st, 'r) server, exn, pyval) eff \<Rightarrow> ('st, 'r) server \<Rightarrow> reply \<times> ('st, 'r) server" where
  "exchange getattr_of token rq rid route s =
    (case request_guards token (sv_shutting_down s) rq of
       Refused code name \<Rightarrow> (refusal code name rid, s)
     | Passed \<Rightarrow> (case route s of (x, u) \<Rightarrow> (respond getattr_of rid x, u)))"

definition http_run ::
  "(exn \<Rightarrow> string \<Rightarrow> string option) \<Rightarrow> string option \<Rightarrow> string option \<Rightarrow> group_env \<Rightarrow> 'b runtime \<Rightarrow> string \<Rightarrow> bool
    \<Rightarrow> task_spec \<Rightarrow> string option \<Rightarrow> string \<Rightarrow> (('st, 'b rt) server, exn, agent_result) eff" where
  "http_run getattr_of server_token token E R name is_group t rid fresh s =
    (let r = call_id rid fresh;
         path = (if is_group then ''/groups/'' else ''/agents/'') @ name @ ''/run'' in
     case exchange getattr_of server_token (client_headers token path r) r
            (route_run E R name is_group t (Some r) (Some r)) s of
       (rp, u) \<Rightarrow> (read_result rp, u))"

definition http_run_sync ::
  "(exn \<Rightarrow> string \<Rightarrow> string option) \<Rightarrow> string option \<Rightarrow> string option \<Rightarrow> group_env \<Rightarrow> 'b runtime \<Rightarrow> string
    \<Rightarrow> task_spec \<Rightarrow> string option \<Rightarrow> string \<Rightarrow> (('st, 'b rt) server, exn, agent_result) eff" where
  "http_run_sync getattr_of server_token token E R name t rid fresh s =
    (let r = call_id rid fresh; path = ''/agents/'' @ name @ ''/run'' in
     case exchange getattr_of server_token (client_sync_headers token path r) r
            (route_run E R name False t (Some r) (Some r)) s of
       (rp, u) \<Rightarrow> (read_result rp, u))"

definition http_gather ::
  "(exn \<Rightarrow> string \<Rightarrow> string option) \<Rightarrow> string option \<Rightarrow> string option \<Rightarrow> 'b runtime \<Rightarrow> string
    \<Rightarrow> task_spec list \<Rightarrow> int \<Rightarrow> string option \<Rightarrow> string \<Rightarrow> (('st, 'b rt) server, exn, agent_result list) eff" where
  "http_gather getattr_of server_token token R name ts mc rid fresh s =
    (let r = call_id rid fresh; path = ''/agents/'' @ name @ ''/gather'' in
     case exchange getattr_of server_token (client_headers token path r) r
            (route_gather R name ts mc (Some r) (Some r)) s of
       (rp, u) \<Rightarrow> (read_batch rp, u))"

definition http_result ::
  "(exn \<Rightarrow> string \<Rightarrow> string option) \<Rightarrow> string option \<Rightarrow> string option \<Rightarrow> 'st store_ops \<Rightarrow> string \<Rightarrow> string
    \<Rightarrow> (('st, 'r) server, exn, agent_result) eff" where
  "http_result getattr_of server_token token ops rid fresh s =
    (case exchange getattr_of server_token (client_get_headers token (''/runs/'' @ rid @ ''/result'')) fresh
            (get_run_result ops rid) s of
       (rp, u) \<Rightarrow> (read_result rp, u))"

section \<open>The client in the same process\<close>

definition local_init :: "bool \<Rightarrow> bool \<Rightarrow> bool \<Rightarrow> exn + unit" where
  "local_init has_server has_runtime has_store =
    (if has_server \<and> (has_runtime \<or> has_store) then Inl (Exn PyValueError ''pass either server= or runtime='')
     else Inr ())"

definition local_with_request_id :: "task_spec \<Rightarrow> string option \<Rightarrow> task_spec" where
  "local_with_request_id t rid =
    (case rid of None \<Rightarrow> t | Some r \<Rightarrow> if r = ts_request_id t then t else t\<lparr>ts_request_id := r\<rparr>)"

definition local_run ::
  "'b runtime \<Rightarrow> string \<Rightarrow> task_spec \<Rightarrow> string option \<Rightarrow> (('st, 'b rt) server, exn, agent_result) eff" where
  "local_run R name t rid =
    bnd (require_agent name) (\<lambda>a s.
      case run R (ByAgent a) (local_with_request_id t rid) (sv_rt s) of (r, u) \<Rightarrow> (r, s\<lparr>sv_rt := u\<rparr>))"

definition local_gather ::
  "'b runtime \<Rightarrow> string \<Rightarrow> task_spec list \<Rightarrow> int \<Rightarrow> string option \<Rightarrow> (('st, 'b rt) server, exn, agent_result list) eff" where
  "local_gather R name ts mc rid =
    bnd (require_agent name) (\<lambda>a s.
      case gather R (ByAgent a) (map (\<lambda>t. local_with_request_id t rid) ts) mc False (sv_rt s) of
        (r, u) \<Rightarrow> (r, s\<lparr>sv_rt := u\<rparr>))"

definition local_run_group ::
  "group_env \<Rightarrow> 'b runtime \<Rightarrow> string \<Rightarrow> task_spec \<Rightarrow> string option \<Rightarrow> (('st, 'b rt) server, exn, group_output) eff" where
  "local_run_group E R name t rid =
    bnd (require_group name) (\<lambda>g s.
      case run_group E R g (local_with_request_id t rid) (sv_rt s) of (r, u) \<Rightarrow> (r, s\<lparr>sv_rt := u\<rparr>))"

definition local_submit :: "'st store_ops \<Rightarrow> string \<Rightarrow> string \<Rightarrow> bool \<Rightarrow> (('st, 'r) server, exn, string) eff" where
  "local_submit ops rid target is_group =
    bnd (if is_group then bnd (require_group target) (\<lambda>_. ret ()) else bnd (require_agent target) (\<lambda>_. ret ()))
      (\<lambda>_. bnd (on_store (so_create ops rid target)) (\<lambda>_. ret rid))"

definition local_result :: "'st store_ops \<Rightarrow> string \<Rightarrow> (('st, 'r) server, exn, group_output) eff" where
  "local_result ops rid =
    bnd (on_store (so_status ops rid)) (\<lambda>st.
      if st_state st \<notin> {RunCompleted, RunFailed}
      then raise (Exn RegistryError (run_state_value (st_state st)))
      else bnd (on_store (so_result ops rid)) (\<lambda>r.
        case r of None \<Rightarrow> raise (Exn RegistryError (rid @ '' has no result'')) | Some out \<Rightarrow> ret out))"

definition local_cancel :: "'st store_ops \<Rightarrow> string \<Rightarrow> (('st, 'r) server, exn, unit) eff" where
  "local_cancel ops rid =
    bnd (on_store (so_status ops rid)) (\<lambda>st.
      if terminal_state (st_state st) then ret ()
      else bnd (on_store (so_set_state ops rid RunCancelled)) (\<lambda>_.
           on_store (so_push ops rid (run_level_event RunWasCancelled rid None None))))"

section \<open>Streams\<close>

text \<open>
  Events on the wire; \<open>dumps\<close> and \<open>loads\<close> are the JSON text of a value and its reading.
  An event of a run has no timestamp here (Pydantic supplies one when it is missing).
  \<open>wire\<close> and \<open>clock\<close> are the texts of an event type and of a moment.
\<close>

fun run_event_type_value :: "run_event_type \<Rightarrow> string" where
  "run_event_type_value RunAgentStarted = ''agent_started''"
| "run_event_type_value RunAgentCompleted = ''agent_completed''"
| "run_event_type_value RunAgentFailed = ''agent_failed''"
| "run_event_type_value RunGroupCompleted = ''group_completed''"
| "run_event_type_value RunWasCancelled = ''run_cancelled''"

definition run_event_types :: "(string, run_event_type) dict" where
  "run_event_types = map (\<lambda>t. (run_event_type_value t, t))
    [RunAgentStarted, RunAgentCompleted, RunAgentFailed, RunGroupCompleted, RunWasCancelled]"

definition run_event_doc :: "run_event \<Rightarrow> pyval" where
  "run_event_doc e = VDict
    [(''type'', VStr (run_event_type_value (re_type e))), (''run_id'', VStr (re_run_id e)),
     (''agent'', json_opt VStr (re_agent e)), (''task_id'', json_opt VStr (re_task_id e)),
     (''error'', json_opt VStr (re_error e))]"

definition runtime_event_doc :: "(event_type \<Rightarrow> string) \<Rightarrow> (rat \<Rightarrow> string) \<Rightarrow> runtime_event \<Rightarrow> pyval" where
  "runtime_event_doc wire clock e = VDict
    [(''event_type'', VStr (wire (event_type e))), (''timestamp'', VStr (clock (timestamp e))),
     (''agent_name'', VStr (ev_agent_name e)), (''task_id'', json_opt VStr (ev_task_id e)),
     (''trace_id'', VStr (ev_trace_id e)), (''parent_trace_id'', json_opt VStr (ev_parent_trace_id e)),
     (''payload'', dump_value (VDict (payload e)))]"

definition parse_run_event :: "pyval \<Rightarrow> run_event option" where
  "parse_run_event v =
    (case v of
       VDict p \<Rightarrow>
         (case (dget p ''type'', dget p ''run_id'', field_opt_str p ''agent'', field_opt_str p ''task_id'',
                field_opt_str p ''error'') of
            (Some (VStr ty), Some (VStr r), Some a, Some t, Some x) \<Rightarrow>
              map_option (\<lambda>k. \<lparr> re_type = k, re_run_id = r, re_agent = a, re_task_id = t, re_error = x \<rparr>)
                (dget run_event_types ty)
          | _ \<Rightarrow> None)
     | _ \<Rightarrow> None)"

fun client_stream :: "(string \<Rightarrow> pyval option) \<Rightarrow> string list \<Rightarrow> run_event list" where
  "client_stream loads [] = []"
| "client_stream loads (l # ls) =
    (if take 5 l \<noteq> ''data:'' then client_stream loads ls
     else let text = strip (drop 5 l) in
       if text = [] then client_stream loads ls
       else case Option.bind (loads text) parse_run_event of
         None \<Rightarrow> client_stream loads ls
       | Some e \<Rightarrow> e # client_stream loads ls)"

text \<open>The frames of the two routes: an event name and a JSON text.\<close>

definition run_frame :: "(pyval \<Rightarrow> string) \<Rightarrow> run_event \<Rightarrow> string \<times> string" where
  "run_frame dumps e = (run_event_type_value (re_type e), dumps (run_event_doc e))"

definition firehose_frame ::
  "(event_type \<Rightarrow> string) \<Rightarrow> (rat \<Rightarrow> string) \<Rightarrow> (pyval \<Rightarrow> string) \<Rightarrow> sse_item \<Rightarrow> string \<times> string" where
  "firehose_frame wire clock dumps = sse_frame wire (\<lambda>e. dumps (runtime_event_doc wire clock e))"

text \<open>
  What is relied on of the libraries: of the lines a frame is sent as, exactly one
  carries its data; JSON text is not blank at its ends and reads back as the value.
\<close>

definition frames_as :: "(string \<times> string \<Rightarrow> string list) \<Rightarrow> string \<times> string \<Rightarrow> bool" where
  "frames_as lines f = (filter (\<lambda>l. take 5 l = ''data:'') (lines f) = [''data: '' @ snd f])"

definition json_text :: "(pyval \<Rightarrow> string) \<Rightarrow> (string \<Rightarrow> pyval option) \<Rightarrow> pyval \<Rightarrow> bool" where
  "json_text dumps loads v = (dumps v \<noteq> [] \<and> strip ('' '' @ dumps v) = dumps v \<and> loads (dumps v) = Some v)"

lemma client_stream_append: "client_stream loads (xs @ ys) = client_stream loads xs @ client_stream loads ys"
  by (induction xs) (auto simp: Let_def split: option.split)

lemma client_stream_filter:
  "client_stream loads ls = client_stream loads (filter (\<lambda>l. take 5 l = ''data:'') ls)"
  by (induction ls) (auto simp: Let_def split: option.split)

lemma client_stream_frame:
  assumes "frames_as lines f"
  shows "client_stream loads (lines f) =
    (let text = strip ('' '' @ snd f) in
     if text = [] then [] else (case Option.bind (loads text) parse_run_event of None \<Rightarrow> [] | Some e \<Rightarrow> [e]))"
  using assms by (subst client_stream_filter) (auto simp: frames_as_def Let_def split: option.split)

lemma parse_run_event_doc [simp]: "parse_run_event (run_event_doc e) = Some e"
proof -
  have "dget run_event_types (run_event_type_value (re_type e)) = Some (re_type e)"
    by (cases "re_type e") (simp_all add: run_event_types_def)
  then show ?thesis
    by (cases e; cases "re_agent e"; cases "re_task_id e"; cases "re_error e")
      (auto simp: parse_run_event_def run_event_doc_def field_opt_str_def json_opt_def)
qed

lemma no_run_event_in_firehose [simp]: "parse_run_event (runtime_event_doc wire clock e) = None"
  by (simp add: parse_run_event_def runtime_event_doc_def)

lemma client_reads_run_events:
  assumes "\<And>e. e \<in> set es \<Longrightarrow> frames_as lines (run_frame dumps e) \<and> json_text dumps loads (run_event_doc e)"
  shows "client_stream loads (concat (map (\<lambda>e. lines (run_frame dumps e)) es)) = es"
  using assms
  by (induction es) (auto simp: client_stream_append client_stream_frame run_frame_def json_text_def Let_def)

lemma client_reads_nothing_of_firehose:
  assumes "\<And>x. x \<in> set xs \<Longrightarrow> frames_as lines (firehose_frame wire clock dumps x)
      \<and> (\<forall>e. x = Live e \<longrightarrow> json_text dumps loads (runtime_event_doc wire clock e))"
  shows "client_stream loads (concat (map (\<lambda>x. lines (firehose_frame wire clock dumps x)) xs)) = []"
  using assms
proof (induction xs)
  case (Cons x xs)
  have "client_stream loads (lines (firehose_frame wire clock dumps x)) = []"
    using Cons.prems [of x]
    by (cases x) (auto simp: client_stream_frame firehose_frame_def sse_frame_def json_text_def Let_def strip_def is_space_def)
  moreover have "client_stream loads (concat (map (\<lambda>x. lines (firehose_frame wire clock dumps x)) xs)) = []"
    using Cons.IH Cons.prems by force
  ultimately show ?case by (simp add: client_stream_append)
qed simp

text \<open>
  A run's stream arrives as it was sent: every event of \<open>GET /runs/(id)/stream\<close> is
  decoded to itself, in order.  Of \<open>GET /events/stream\<close>, whatever the runtime emits and
  however often it beats, the client yields nothing: the firehose carries runtime
  events, the client reads run events.
\<close>

theorem client_streams:
  assumes "\<And>e. e \<in> set es \<Longrightarrow> frames_as lines (run_frame dumps e) \<and> json_text dumps loads (run_event_doc e)"
    and "\<And>x. x \<in> set xs \<Longrightarrow> frames_as lines (firehose_frame wire clock dumps x)
      \<and> (\<forall>e. x = Live e \<longrightarrow> json_text dumps loads (runtime_event_doc wire clock e))"
  shows "client_stream loads (concat (map (\<lambda>e. lines (run_frame dumps e)) es)) = es
    \<and> client_stream loads (concat (map (\<lambda>x. lines (firehose_frame wire clock dumps x)) xs)) = []"
  using client_reads_run_events [OF assms(1)] client_reads_nothing_of_firehose [OF assms(2)] by blast

definition sample_lines :: "string \<times> string \<Rightarrow> string list" where
  "sample_lines f = [''event: '' @ fst f, ''data: '' @ snd f, []]"

definition sample_runtime_event :: runtime_event where
  "sample_runtime_event = \<lparr> event_type = AGENT_COMPLETED, timestamp = 1, ev_agent_name = ''a'', ev_task_id = None,
     ev_trace_id = ''r1'', ev_parent_trace_id = None, payload = [] \<rparr>"

definition sample_run_event :: run_event where
  "sample_run_event = run_level_event RunAgentStarted ''r1'' (Some ''a'') None"

lemma client_streams_witness:
  "let dumps = (\<lambda>v. if v = run_event_doc sample_run_event then ''[1]'' else ''[2]'');
       firehose = firehose_frame (\<lambda>_. ''agent_completed'') (\<lambda>_. ''now'') dumps;
       loads = (\<lambda>s. if s = ''[1]'' then Some (run_event_doc sample_run_event)
         else Some (runtime_event_doc (\<lambda>_. ''agent_completed'') (\<lambda>_. ''now'') sample_runtime_event)) in
    client_stream loads (sample_lines (run_frame dumps sample_run_event)) = [sample_run_event]
    \<and> client_stream loads (sample_lines (firehose Heartbeat) @ sample_lines (firehose (Live sample_runtime_event))) = []"
proof -
  let ?wire = "\<lambda>_. ''agent_completed''" and ?clock = "\<lambda>_. ''now''"
  define a where "a = run_event_doc sample_run_event"
  define b where "b = runtime_event_doc ?wire ?clock sample_runtime_event"
  define dumps where "dumps = (\<lambda>v. if v = a then ''[1]'' else ''[2]'')"
  define loads where "loads = (\<lambda>s. if s = ''[1]'' then Some a else Some b)"
  have "b \<noteq> a" by (simp add: a_def b_def runtime_event_doc_def run_event_doc_def)
  then have texts: "json_text dumps loads a" "json_text dumps loads b"
    by (simp_all add: json_text_def dumps_def loads_def strip_def is_space_def)
  have lines: "frames_as sample_lines f" for f by (simp add: frames_as_def sample_lines_def)
  have "client_stream loads (concat (map (\<lambda>e. sample_lines (run_frame dumps e)) [sample_run_event])) = [sample_run_event]
    \<and> client_stream loads (concat (map (\<lambda>x. sample_lines (firehose_frame ?wire ?clock dumps x))
        [Heartbeat, Live sample_runtime_event])) = []"
    by (rule client_streams) (use texts lines in \<open>auto simp: a_def b_def\<close>)
  from this [unfolded dumps_def loads_def a_def b_def] show ?thesis by (simp add: Let_def)
qed

section \<open>The two clients\<close>

text \<open>
  What becomes of an outcome on its way through JSON: an output loses its class, an
  error of a result becomes a \<open>MurmurError\<close> of the same text, a raised exception keeps
  its class when it is one of the program's that the client's table knows.
\<close>

definition client_view :: "agent_result \<Rightarrow> pyval \<Rightarrow> agent_result" where
  "client_view r out = r
    \<lparr> ar_output := (case out of VDict fs \<Rightarrow> Some (untyped_output fs) | _ \<Rightarrow> None),
      ar_error := (case ar_error r of None \<Rightarrow> None
                    | Some e \<Rightarrow> if exn_msg e = [] then None else Some (Exn MurmurError (exn_msg e))) \<rparr>"

definition client_error :: "exn \<Rightarrow> exn" where
  "client_error e =
    (if exn_cls e \<in> set murmur_classes - {SpawnCycleError, SpawnCapError} then e
     else if exn_cls e \<in> {SpawnCycleError, SpawnCapError, PyTimeoutError} then Exn MurmurError (exn_msg e)
     else Exn MurmurError ''non-JSON body: 500'')"

definition client_outcome :: "exn + agent_result \<Rightarrow> exn + agent_result" where
  "client_outcome x =
    (case x of
       Inl e \<Rightarrow> Inl (client_error e)
     | Inr r \<Rightarrow> (case dump_output (ar_output r) of
          Inl e \<Rightarrow> Inl (client_error e) | Inr out \<Rightarrow> Inr (client_view r out)))"

definition http_exception :: "exn \<Rightarrow> bool" where
  "http_exception e = (exn_cls e = PyOther ''HTTPException'')"

lemma parse_error_body [simp]:
  "parse_error_response [(''error'', VStr a), (''message'', VStr b), (''agent'', json_opt VStr c),
    (''task_id'', json_opt VStr d), (''request_id'', VStr f)] =
    Some \<lparr> er_error = a, er_message = b, er_agent = c, er_task_id = d, er_request_id = f \<rparr>"
  by (cases c; cases d) (simp_all add: parse_error_response_def field_opt_str_def json_opt_def)

lemma murmur_instance: "isinstance e MurmurError \<longleftrightarrow> exn_cls e \<in> set murmur_classes"
  by (cases e rule: exn.exhaust; cases "exn_cls e") (auto simp: isinstance_def issubclass_def murmur_classes_def)

lemma timeout_instance: "isinstance e PyTimeoutError \<longleftrightarrow> exn_cls e = PyTimeoutError"
  by (cases "exn_cls e") (auto simp: isinstance_def issubclass_def)

lemma client_class:
  "Exn (dget_or client_NAME_TO_CLASS (class_name c) MurmurError) m = client_error (Exn c m)"
  if "c \<in> set murmur_classes \<or> c = PyTimeoutError"
proof -
  have "dget_or client_NAME_TO_CLASS n MurmurError = dget_or NAME_TO_CLASS n MurmurError" for n
    by (simp add: dget_or_def tables_agree)
  then show ?thesis using that response_class [of c]
    by (auto simp: client_error_def) (simp_all add: murmur_classes_def client_NAME_TO_CLASS_def dget_or_def tables_agree)
qed

lemma read_failure:
  assumes "\<not> http_exception e"
  shows "raise_for_status (respond getattr_of rid (Inl e)) = Inl (client_error e)"
proof -
  have code: "400 \<le> response_status (\<lambda>_. 409) e"
    using status_for_cases [of "exn_cls e" "exn_msg e"] by (simp add: response_status_def)
  show ?thesis
  proof (cases "exn_cls e \<in> set murmur_classes \<or> exn_cls e = PyTimeoutError")
    case True
    then show ?thesis using code client_class [OF True, of "exn_msg e"]
      by (cases e) (simp add: raise_for_status_def respond_def murmur_instance timeout_instance error_body_def
          error_to_response_def client_response_to_error_def dhas_def)
  next
    case False
    then have "response_status (\<lambda>_. 409) e = 500"
      using assms by (simp add: response_status_def murmur_instance timeout_instance http_exception_def)
    then show ?thesis using False assms
      by (auto simp: raise_for_status_def respond_def murmur_instance timeout_instance client_error_def
          http_exception_def digits.simps digit_char_def murmur_classes_def)
  qed
qed

lemma read_success:
  assumes "serialize_agent_result r = Inr v"
  shows "\<exists>out. dump_output (ar_output r) = Inr out
    \<and> read_result (respond getattr_of rid (Inr v)) = Inr (client_view r out)"
proof -
  obtain out where out: "dump_output (ar_output r) = Inr out" and v: "v = VDict
         [(''agent_name'', VStr (ar_agent_name r)), (''task_id'', VStr (ar_task_id r)),
          (''success'', VBool (is_ok r)), (''output'', out),
          (''error'', json_opt (\<lambda>e. VStr (exn_msg e)) (ar_error r)),
          (''metadata'', dump_metadata (ar_metadata r))]"
    using assms by (auto simp: serialize_agent_result_def split: sum.splits)
  have md: "client_metadata (Some (dump_metadata (ar_metadata r))) = Inr (ar_metadata r)"
    using parse_dump_metadata [of "ar_metadata r"] by (simp add: client_metadata_def dump_metadata_def)
  have "client_output (Some out) = Inr (ar_output (client_view r out))"
    using out by (auto simp: dump_output_def client_output_def client_view_def split: option.splits sum.splits)
  moreover have "(case json_opt (\<lambda>e. VStr (exn_msg e)) (ar_error r) of
      VStr x \<Rightarrow> if x = [] then None else Some (Exn MurmurError x) | _ \<Rightarrow> None) = ar_error (client_view r out)"
    by (simp add: json_opt_def client_view_def split: option.split)
  ultimately have "wire_to_agent_result (case v of VDict p \<Rightarrow> p | _ \<Rightarrow> []) = Inr (client_view r out)"
    using v md by (simp add: wire_to_agent_result_def client_view_def)
  then show ?thesis using out v by (simp add: read_result_def respond_def raise_for_status_def)
qed

definition admitted :: "string option \<Rightarrow> string option \<Rightarrow> ('st, 'r) server \<Rightarrow> bool" where
  "admitted server_token token s = ((server_token = None \<or> token = server_token) \<and> \<not> sv_shutting_down s)"

lemma admitted_passes:
  "admitted server_token token s \<Longrightarrow>
    request_guards server_token (sv_shutting_down s) (client_headers token path rid) = Passed"
  by (auto simp: admitted_def request_guards_def auth_guard_def shutdown_guard_def client_headers_def split: option.split)

lemma same_request_id:
  "rid \<noteq> [] \<Longrightarrow> with_request_id t (Some rid) st = local_with_request_id t (Some rid)"
  by (cases rid) (simp_all add: with_request_id_def local_with_request_id_def Let_def)

lemma route_run_agent:
  assumes "rid \<noteq> []" "local_run R name t (Some rid) s = (x, u)"
  shows "route_run E R name False t (Some rid) st s =
    ((case x of Inl e \<Rightarrow> Inl e | Inr r \<Rightarrow> serialize_agent_result r), u)"
  using assms
  by (auto simp: route_run_def server_dispatch_def local_run_def same_request_id bnd_def require_agent_def
      serialize_result_def split: option.splits prod.splits sum.splits)

text \<open>
  C29. Where a run is asked for does not matter: with an id, past the guards, the HTTP
  client's \<open>run\<close> leaves the server in the state the in-process client's \<open>run\<close> leaves it
  in, and gives the same outcome as JSON can say it: the result with its names, ids
  and metadata, the output's fields and the error's text; or the exception, in its own
  class when the client's table knows it, else as a \<open>MurmurError\<close>.
\<close>

theorem http_client_agrees_with_local:
  assumes "admitted server_token token s" "rid \<noteq> []" "local_run R name t (Some rid) s = (x, u)"
    and "\<And>e. x = Inl e \<Longrightarrow> \<not> http_exception e"
    and "\<And>r e. x = Inr r \<Longrightarrow> dump_output (ar_output r) = Inl e \<Longrightarrow> \<not> http_exception e"
  shows "http_run getattr_of server_token token E R name False t (Some rid) fresh s = (client_outcome x, u)"
proof -
  have id: "call_id (Some rid) fresh = rid" using assms(2) by (cases rid) (simp_all add: call_id_def)
  define y where "y = (case x of Inl e \<Rightarrow> Inl e | Inr r \<Rightarrow> serialize_agent_result r)"
  have "http_run getattr_of server_token token E R name False t (Some rid) fresh s =
      (read_result (respond getattr_of rid y), u)"
    using admitted_passes [OF assms(1)] route_run_agent [OF assms(2,3)]
    by (simp add: http_run_def exchange_def id y_def Let_def)
  moreover have "read_result (respond getattr_of rid y) = client_outcome x"
  proof (cases x)
    case (Inl e)
    then show ?thesis using read_failure [of e] assms(4) by (simp add: y_def read_result_def client_outcome_def)
  next
    case (Inr r)
    show ?thesis
    proof (cases "dump_output (ar_output r)")
      case (Inl e)
      then show ?thesis using read_failure [of e] assms(5) \<open>x = Inr r\<close>
        by (simp add: y_def read_result_def client_outcome_def serialize_agent_result_def)
    next
      case (Inr out)
      then show ?thesis using read_success [of r] \<open>x = Inr r\<close>
        by (fastforce simp: y_def client_outcome_def serialize_agent_result_def)
    qed
  qed
  ultimately show ?thesis by simp
qed

definition sample_server :: "(unit, nat rt) server" where
  "sample_server = \<lparr> sv_store = (), sv_rt = sample_state 1, sv_active = [],
     sv_agents = [(''a'', sample_agent ''a'')], sv_groups = [], sv_shutting_down = False \<rparr>"

lemma sample_local_run:
  "fst (local_run (sample_runtime default_options) ''a'' sample_task (Some ''r9'') sample_server)
    = Inr (sample_result ''a'' ''t1'' 7)"
  by code_simp

lemma http_client_agrees_with_local_witness:
  "\<forall>E. \<exists>r. fst (http_run (\<lambda>_ _. None) (Some ''key'') (Some ''key'') E (sample_runtime default_options) ''a'' False
        sample_task (Some ''r9'') ''fresh'' sample_server) = Inr r
    \<and> ar_output r = Some (untyped_output []) \<and> tokens_used (ar_metadata r) = 7"
proof (rule allI)
  fix E
  obtain x u where xu: "local_run (sample_runtime default_options) ''a'' sample_task (Some ''r9'') sample_server = (x, u)"
    by force
  then have x: "x = Inr (sample_result ''a'' ''t1'' 7)" using sample_local_run by simp
  have "admitted (Some ''key'') (Some ''key'') sample_server" by (simp add: admitted_def sample_server_def)
  moreover have dump: "dump_output (ar_output (sample_result ''a'' ''t1'' 7)) = Inr (VDict [])"
    by (simp add: dump_output_def model_dump_def sample_result_def)
  ultimately have "http_run (\<lambda>_ _. None) (Some ''key'') (Some ''key'') E (sample_runtime default_options) ''a'' False
        sample_task (Some ''r9'') ''fresh'' sample_server = (client_outcome x, u)"
    by (intro http_client_agrees_with_local) (use xu x in auto)
  then show "\<exists>r. fst (http_run (\<lambda>_ _. None) (Some ''key'') (Some ''key'') E (sample_runtime default_options) ''a'' False
        sample_task (Some ''r9'') ''fresh'' sample_server) = Inr r
    \<and> ar_output r = Some (untyped_output []) \<and> tokens_used (ar_metadata r) = 7"
    by (simp add: x client_outcome_def dump) (simp add: client_view_def sample_result_def)
qed

section \<open>Where the two clients differ\<close>

text \<open>A group whose result is more than one leaf is not readable over HTTP.\<close>

lemma group_result_is_unreadable:
  assumes "serialize_result (ManyResults g) = Inr v"
  shows "read_result (respond getattr_of rid (Inr v)) = Inl (Exn PyKeyError ''agent_name'')"
proof -
  obtain vs where v: "v = VDict [(''group'', VBool True), (''outputs'', VDict vs),
             (''success'', VBool (list_all is_ok (dvalues (gr_outputs g)))), (''metadata'', dump_metadata (gr_metadata g))]"
    using assms by (auto simp: serialize_result_def split: sum.splits)
  have "client_metadata (Some (dump_metadata (gr_metadata g))) = Inr (gr_metadata g)"
    using parse_dump_metadata [of "gr_metadata g"] by (simp add: client_metadata_def dump_metadata_def)
  then show ?thesis
    by (simp add: v read_result_def respond_def raise_for_status_def wire_to_agent_result_def client_output_def)
qed

text \<open>The blocking variant sends no token: a server that asks for one refuses it.\<close>

lemma http_run_sync_is_refused:
  "http_run_sync getattr_of (Some key) token E R name t rid fresh s = (Inl (Exn MurmurError ''missing or invalid bearer token''), s)"
proof -
  have "''/agents/'' @ name @ ''/run'' \<notin> {''/health'', ''/healthz'', ''/readyz''}" by simp
  then show ?thesis
    by (simp add: http_run_sync_def exchange_def request_guards_def auth_guard_def client_sync_headers_def refusal_def
        read_result_def raise_for_status_def error_body_def dhas_def parse_error_response_def field_opt_str_def
        json_opt_def client_response_to_error_def client_NAME_TO_CLASS_def dget_or_def Let_def)
qed

text \<open>A listing served as an object arrives as its keys.\<close>

lemma client_list_of_object:
  "client_list \<lparr> rp_status = 200, rp_body = Some (VDict p) \<rparr> = Inr (map VStr (dkeys p))"
  by (simp add: client_list_def raise_for_status_def json_list_def)

section \<open>Discovery in process\<close>

text \<open>The loops of \<open>LocalClient.get_group_topology\<close>: one list, appended to.\<close>

definition local_edges :: "group \<Rightarrow> pyval list" where
  "local_edges g =
    foldl (\<lambda>edges src. foldl (\<lambda>edges e. foldl (\<lambda>edges tgt. edges @
        [VDict [(''from'', VStr (a_name src)), (''to'', VStr (a_name tgt)),
                (''fan_out'', VBool (edge_mapper e = None)), (''conditional'', VBool (edge_condition e \<noteq> None))]])
        edges (edge_to e)) edges (outgoing_edges g src)) [] (dkeys (topology g))"

definition local_group_topology :: "string \<Rightarrow> (('st, 'r) server, exn, pyval) eff" where
  "local_group_topology n =
    bnd (require_group n) (\<lambda>g. ret (VDict
      [(''name'', VStr (g_name g)), (''agents'', VList (map (\<lambda>a. VStr (a_name a)) (group_agents g))),
       (''edges'', VList (local_edges g))]))"

lemma foldl_append_concat: "foldl (\<lambda>acc x. acc @ f x) acc xs = acc @ concat (map f xs)"
  by (induction xs arbitrary: acc) simp_all

text \<open>Both clients describe a group alike.\<close>

lemma topologies_agree: "local_group_topology n = group_topology n"
proof -
  have "concat (map (\<lambda>x. [f x]) ys) = map f ys" for f :: "agent \<Rightarrow> pyval" and ys by (induction ys) simp_all
  then have "local_edges g = concat (map (\<lambda>src. concat (map (edge_rows src) (outgoing_edges g src))) (dkeys (topology g)))" for g
    by (simp add: local_edges_def foldl_append_concat edge_rows_def [abs_def])
  then show ?thesis by (simp add: local_group_topology_def group_topology_def)
qed

end
