(* ===== verification/Command_Line.thy ===== *)
theory Command_Line
  imports Runtime_Setup Yaml_Registry Client Worker
begin

text \<open>
  The commands of \<open>cli\<close>: \<open>serve\<close>, \<open>worker start\<close>, \<open>validate\<close> and \<open>run\<close> up to the point
  where they hand over to the server, the worker or the script, and \<open>cli/_uvloop.py\<close>.
  Parsed arguments are records.  A command ends with an exit code and what it wrote to
  standard error, or is ready with what it has built, or raises.
\<close>

section \<open>Outcomes\<close>

datatype 'a outcome = Exit int "string list" | Ready 'a

definition obind :: "exn + 'a outcome \<Rightarrow> ('a \<Rightarrow> exn + 'b outcome) \<Rightarrow> exn + 'b outcome" where
  "obind r f = (case r of Inl e \<Rightarrow> Inl e | Inr (Exit c ls) \<Rightarrow> Inr (Exit c ls) | Inr (Ready x) \<Rightarrow> f x)"

lemma obind_Ready: "obind r f = Inr (Ready y) \<longleftrightarrow> (\<exists>x. r = Inr (Ready x) \<and> f x = Inr (Ready y))"
  by (auto simp: obind_def split: sum.split outcome.split)

definition is_ready :: "exn + 'a outcome \<Rightarrow> bool" where
  "is_ready r = (case r of Inr (Ready x) \<Rightarrow> True | _ \<Rightarrow> False)"

lemma is_ready_iff: "is_ready r \<longleftrightarrow> (\<exists>x. r = Inr (Ready x))"
  by (auto simp: is_ready_def split: sum.split outcome.split)

text \<open>What the operating system and the imports show.\<close>

record world =
  wd_python :: python_world
  wd_is_dir :: "string \<Rightarrow> bool"
  wd_is_file :: "string \<Rightarrow> bool"
  wd_specs :: "string \<Rightarrow> (string \<times> yaml_file) list option"
  wd_open_store :: "string \<Rightarrow> exn option"

section \<open>The specs and the chosen agents\<close>

text \<open>The two mutually exclusive options and their absence.\<close>

datatype selection = AllFrom string | Named string | Everything

definition specs_root :: "selection \<Rightarrow> string \<Rightarrow> string" where
  "specs_root sel specs = (case sel of AllFrom p \<Rightarrow> p | _ \<Rightarrow> specs)"

fun split_comma :: "string \<Rightarrow> string list" where
  "split_comma [] = [[]]"
| "split_comma (c # cs) =
    (if c = CHR '','' then [] # split_comma cs
     else case split_comma cs of [] \<Rightarrow> [[c]] | w # ws \<Rightarrow> (c # w) # ws)"

definition listed_names :: "string \<Rightarrow> string list" where
  "listed_names x = filter (\<lambda>n. n \<noteq> []) (map strip (split_comma x))"

definition checked_registry :: "world \<Rightarrow> string \<Rightarrow> exn + yaml_registry outcome" where
  "checked_registry W folder =
    (case yaml_init (wd_is_dir W folder) of
       Inl e \<Rightarrow> Inr (Exit 2 [exn_msg e])
     | Inr r \<Rightarrow> (case yaml_validate (wd_python W) (wd_specs W folder) r of
         (Inl e, _) \<Rightarrow> Inl e
       | (Inr errors, s) \<Rightarrow> if errors \<noteq> [] then Inr (Exit 1 errors) else Inr (Ready s)))"

fun get_each ::
  "python_world \<Rightarrow> (string \<times> yaml_file) list option \<Rightarrow> string list \<Rightarrow> (string, agent) dict
    \<Rightarrow> (yaml_registry, exn, (string, agent) dict) eff" where
  "get_each P disk [] d = ret d"
| "get_each P disk (n # ns) d = bnd (yaml_get P disk n) (\<lambda>a. get_each P disk ns (dset n a d))"

definition chosen_names ::
  "world \<Rightarrow> string \<Rightarrow> selection \<Rightarrow> (yaml_registry, exn, string list outcome) eff" where
  "chosen_names W folder sel =
    (case sel of
       Named x \<Rightarrow>
         let names = listed_names x in
         ret (if names = [] then Exit 2 [''--agents is empty''] else Ready names)
     | _ \<Rightarrow> bnd (yaml_list (wd_python W) (wd_specs W folder)) (\<lambda>ns.
         ret (if ns = [] then Exit 2 [''no agents found under '' @ folder] else Ready (sort ns))))"

definition resolve_agents ::
  "world \<Rightarrow> string \<Rightarrow> selection \<Rightarrow> (yaml_registry, exn, (string, agent) dict outcome) eff" where
  "resolve_agents W folder sel =
    bnd (chosen_names W folder sel) (\<lambda>names. case names of
      Exit c ls \<Rightarrow> ret (Exit c ls)
    | Ready ns \<Rightarrow> (\<lambda>s. case get_each (wd_python W) (wd_specs W folder) ns [] s of
        (Inl e, t) \<Rightarrow> (if isinstance e RegistryError then Inr (Exit 2 [exn_msg e]) else Inl e, t)
      | (Inr d, t) \<Rightarrow> (Inr (Ready d), t)))"

section \<open>\<open>murmur serve\<close>\<close>

record serve_args =
  se_selection :: selection
  se_specs :: string
  se_broker :: "string option"
  se_publish_events :: bool
  se_host :: string
  se_port :: int
  se_heartbeat_interval :: rat
  se_no_events :: bool
  se_dashboard_dir :: "string option"
  se_event_store :: "string option"

datatype event_store_kind = MemoryStore | SqliteStore string

record serve_sinks =
  ss_sse :: "sse_emitter option"
  ss_store :: "event_store_kind option"

definition given :: "string option \<Rightarrow> bool" where
  "given x = (x \<noteq> None \<and> x \<noteq> Some [])"

definition open_sinks :: "world \<Rightarrow> serve_args \<Rightarrow> exn + serve_sinks outcome" where
  "open_sinks W A =
    (case (if se_no_events A then Inr None else map_sum id Some (sse_init (se_heartbeat_interval A) 1024)) of
       Inl e \<Rightarrow> Inl e
     | Inr sse \<Rightarrow> (case se_event_store A of
         None \<Rightarrow> Inr (Ready \<lparr> ss_sse = sse, ss_store = None \<rparr>)
       | Some p \<Rightarrow>
          if p = ''memory'' then Inr (Ready \<lparr> ss_sse = sse, ss_store = Some MemoryStore \<rparr>)
          else case wd_open_store W p of
            Some e \<Rightarrow> Inl e
          | None \<Rightarrow> Inr (Ready \<lparr> ss_sse = sse, ss_store = Some (SqliteStore p) \<rparr>)))"

text \<open>A runtime for a broker URL, or for none, as both commands construct it.\<close>

definition no_args :: runtime_args where
  "no_args = \<lparr> ra_broker = None, ra_broker_instance = None, ra_runtime_id = None, ra_backend = None,
     ra_tool_registry = None, ra_tool_executor = None, ra_options = None, ra_event_emitter = None,
     ra_publish_events = False \<rparr>"

definition try_runtime ::
  "surroundings \<Rightarrow> string \<Rightarrow> runtime_args \<Rightarrow> objects \<Rightarrow> exn + ('m built_runtime \<times> objects) outcome" where
  "try_runtime U fresh A s =
    (case runtime_init U fresh A s of
       (Inl e, _) \<Rightarrow> if isinstance e SpecValidationError then Inr (Exit 2 [exn_msg e]) else Inl e
     | (Inr R, t) \<Rightarrow> Inr (Ready (R, t)))"

definition dashboard_ok :: "world \<Rightarrow> string option \<Rightarrow> bool" where
  "dashboard_ok W d =
    (case d of None \<Rightarrow> True | Some p \<Rightarrow> wd_is_dir W p \<and> wd_is_file W (p @ ''/index.html''))"

record ('st, 'm) serving =
  sg_server :: "('st, 'm built_runtime) server"
  sg_sinks :: serve_sinks
  sg_dashboard :: "string option"
  sg_host :: string
  sg_port :: int

definition server_init :: "'st \<Rightarrow> 'r \<Rightarrow> ('st, 'r) server" where
  "server_init store rt = \<lparr> sv_store = store, sv_rt = rt, sv_active = [], sv_agents = [], sv_groups = [],
     sv_shutting_down = False \<rparr>"

text \<open>Object 0 is the emitter over the sinks; \<open>store\<close> is the default run store.\<close>

definition run_serve ::
  "surroundings \<Rightarrow> string \<Rightarrow> world \<Rightarrow> 'st \<Rightarrow> serve_args \<Rightarrow> exn + ('st, 'm) serving outcome" where
  "run_serve U fresh W store A =
    (if se_publish_events A \<and> \<not> given (se_broker A)
     then Inr (Exit 2 [''--publish-events requires --broker (no fleet without a broker)''])
     else let folder = specs_root (se_selection A) (se_specs A) in
       obind (checked_registry W folder) (\<lambda>r.
       obind (fst (resolve_agents W folder (se_selection A) r)) (\<lambda>agents.
       obind (open_sinks W A) (\<lambda>sinks.
       obind (try_runtime U fresh (no_args\<lparr>ra_broker := se_broker A, ra_event_emitter := Some 0,
                ra_publish_events := se_publish_events A\<rparr>) \<lparr> ob_next = 1, ob_executors = [] \<rparr>) (\<lambda>(R, _).
       if \<not> dashboard_ok W (se_dashboard_dir A)
       then Inr (Exit 2 [''--dashboard-dir does not contain index.html''])
       else Inr (Ready \<lparr> sg_server = fold server_register (dvalues agents) (server_init store R), sg_sinks = sinks,
              sg_dashboard = se_dashboard_dir A, sg_host = se_host A, sg_port = se_port A \<rparr>))))))"

section \<open>\<open>murmur worker start\<close>\<close>

record worker_args =
  wk_selection :: selection
  wk_specs :: string
  wk_broker :: string
  wk_concurrency :: int
  wk_prefetch :: int
  wk_heartbeat_seconds :: rat
  wk_reclaim_min_idle_ms :: int
  wk_consumer_id :: "string option"

text \<open>\<open>getattr(backend, "_broker", None)\<close>\<close>

definition backend_broker :: "'m built_backend \<Rightarrow> 'm broker_object option" where
  "backend_broker b = (case b of BuiltJobs k cfg st \<Rightarrow> Some k | _ \<Rightarrow> None)"

text \<open>\<open>operations\<close> is the runtime object behind the parts of a construction.\<close>

definition run_worker ::
  "surroundings \<Rightarrow> string \<Rightarrow> string \<Rightarrow> world \<Rightarrow> ('m built_runtime \<Rightarrow> 'b runtime) \<Rightarrow> worker_args
    \<Rightarrow> exn + ('m broker_object \<times> 'm built_runtime \<times> 'b worker_config) outcome" where
  "run_worker U fresh1 fresh2 W operations A =
    (let folder = specs_root (wk_selection A) (wk_specs A) in
     obind (checked_registry W folder) (\<lambda>r.
     obind (fst (resolve_agents W folder (wk_selection A) r)) (\<lambda>agents.
     obind (try_runtime U fresh1 (no_args\<lparr>ra_broker := Some (wk_broker A)\<rparr>) \<lparr> ob_next = 0, ob_executors = [] \<rparr>) (\<lambda>(P, s).
     case runtime_init U fresh2 no_args s of
       (Inl e, _) \<Rightarrow> Inl e
     | (Inr R, _) \<Rightarrow>
        (case backend_broker (br_backend P) of
           None \<Rightarrow> Inr (Exit 2 [''runtime did not produce a Broker for url '' @ wk_broker A])
         | Some k \<Rightarrow>
            (case worker_init agents (operations R) (wk_concurrency A) (wk_prefetch A) (wk_consumer_id A) NoKey
                    (wk_heartbeat_seconds A) (if wk_reclaim_min_idle_ms A = 0 then None else Some (wk_reclaim_min_idle_ms A))
                    (fst (broker_labels (su_labels U) k)) (jc_hmac (su_library U)) of
               Inl e \<Rightarrow> Inl e
             | Inr cfg \<Rightarrow> Inr (Ready (k, R, cfg))))))))"

section \<open>\<open>murmur validate\<close>\<close>

record validate_report =
  vr_code :: int
  vr_out :: "string list"
  vr_err :: "string list"
  vr_agents :: nat

definition validate_command :: "world \<Rightarrow> string \<Rightarrow> exn + validate_report" where
  "validate_command W path =
    (case yaml_init (wd_is_dir W path) of
       Inl e \<Rightarrow> Inr \<lparr> vr_code = 2, vr_out = [], vr_err = [path @ '': '' @ exn_msg e], vr_agents = 0 \<rparr>
     | Inr r \<Rightarrow> (case yaml_validate (wd_python W) (wd_specs W path) r of
         (Inl e, _) \<Rightarrow> Inl e
       | (Inr errors, s) \<Rightarrow> (case yaml_list (wd_python W) (wd_specs W path) s of
           (Inl e, _) \<Rightarrow> Inl e
         | (Inr names, _) \<Rightarrow> Inr
            (if errors \<noteq> [] then \<lparr> vr_code = 1, vr_out = [], vr_err = errors, vr_agents = length names \<rparr>
             else \<lparr> vr_code = 0,
                    vr_out = (if names = [] then [path @ '': no agents to validate.''] else sort names),
                    vr_err = [], vr_agents = length names \<rparr>))))"

section \<open>\<open>murmur run\<close>\<close>

text \<open>A script returns, is interrupted, calls \<open>sys.exit\<close> or raises.\<close>

datatype exit_value = ExitInt int | ExitTruthy | ExitFalsy

datatype script_end = Returned | Interrupted | Exited exit_value | Raised exn

definition forwarded_args :: "string list \<Rightarrow> string list" where
  "forwarded_args args = (case args of [] \<Rightarrow> [] | a # as \<Rightarrow> if a = ''--'' then as else args)"

definition exit_code :: "script_end \<Rightarrow> exn + int" where
  "exit_code e =
    (case e of
       Returned \<Rightarrow> Inr 0
     | Interrupted \<Rightarrow> Inr 130
     | Exited (ExitInt i) \<Rightarrow> Inr i
     | Exited ExitTruthy \<Rightarrow> Inr 1
     | Exited ExitFalsy \<Rightarrow> Inr 0
     | Raised x \<Rightarrow> Inl x)"

text \<open>The script runs with arguments of its own; \<open>sys.argv\<close> is the state.\<close>

definition run_command ::
  "(string \<Rightarrow> bool) \<Rightarrow> string \<Rightarrow> string list \<Rightarrow> (string list \<Rightarrow> script_end) \<Rightarrow> (string list, exn, int) eff" where
  "run_command is_file script args run_path argv =
    (if \<not> is_file script then (Inr 2, argv)
     else bnd (modify (\<lambda>_. script # forwarded_args args)) (\<lambda>_.
          finally_do (\<lambda>now. (exit_code (run_path now), now)) (\<lambda>_. argv)) argv)"

section \<open>The event loop and the watcher\<close>

definition resolve_uvloop_enabled :: "bool \<Rightarrow> string option \<Rightarrow> bool" where
  "resolve_uvloop_enabled flag env =
    (flag \<or> map lower_char (strip (case env of None \<Rightarrow> [] | Some v \<Rightarrow> v)) \<in> {''1'', ''true'', ''yes''})"

text \<open>Whether the policy was installed, and the warnings.\<close>

definition install_uvloop_policy :: "bool \<Rightarrow> string \<Rightarrow> bool \<Rightarrow> bool \<times> string list" where
  "install_uvloop_policy enabled platform available =
    (if \<not> enabled then (False, [])
     else if take 3 platform = ''win'' then (False, [''uvloop has no Windows wheels''])
     else if \<not> available then (False, [''uvloop not installed''])
     else (True, []))"

datatype start = Watch "string list" "string list option" "string list option" | Start bool

definition start_mode ::
  "bool \<Rightarrow> bool \<Rightarrow> string list option \<Rightarrow> string \<Rightarrow> string \<Rightarrow> string list option \<Rightarrow> string list option
    \<Rightarrow> bool \<Rightarrow> string option \<Rightarrow> start" where
  "start_mode reload child dirs specs cwd includes excludes uvloop env =
    (if reload \<and> \<not> child
     then Watch (case dirs of None \<Rightarrow> [specs, cwd] | Some ds \<Rightarrow> if ds = [] then [specs, cwd] else ds) includes excludes
     else Start (resolve_uvloop_enabled uvloop env))"

section \<open>What a started command runs\<close>

definition files_at :: "world \<Rightarrow> string \<Rightarrow> (string \<times> yaml_file) list" where
  "files_at W folder = (case wd_specs W folder of None \<Rightarrow> [] | Some fs \<Rightarrow> fs)"

lemma checked_registry_ready:
  assumes "checked_registry W folder = Inr (Ready s)"
  shows "wd_is_dir W folder \<and> registry_inv (wd_python W) (files_at W folder) s \<and> yr_loaded s \<and> yr_errors s = []"
proof -
  obtain r where r: "yaml_init (wd_is_dir W folder) = Inr r" "yaml_validate (wd_python W) (wd_specs W folder) r = (Inr [], s)"
    using assms by (auto simp: checked_registry_def split: sum.splits if_splits prod.splits)
  then have "yaml_reload (wd_python W) (wd_specs W folder) r = (Inr (), s)" "yr_errors s = []"
    by (auto simp: yaml_validate_def bnd_def split: prod.splits sum.splits)
  with yaml_reload_inv [OF this(1)] r(1) show ?thesis by (auto simp: files_at_def yaml_init_def split: if_splits)
qed

text \<open>An error-free registry has one agent for every file.\<close>

lemma every_file_is_an_agent:
  assumes "registry_inv P fs s" "yr_errors s = []"
  shows "set (dkeys (yr_agents s)) = fst ` set fs"
proof -
  have sub: "set (dkeys (yr_agents s)) \<subseteq> fst ` set fs"
  proof
    fix n assume "n \<in> set (dkeys (yr_agents s))"
    then obtain a where "dget (yr_agents s) n = Some a"
      using dget_None_iff [of "yr_agents s" n] by (auto simp: dkeys_def)
    then show "n \<in> fst ` set fs" using assms(1) by (force simp: registry_inv_def loads_as_def)
  qed
  have "card (set (dkeys (yr_agents s))) = length fs"
    using assms by (simp add: registry_inv_def dict_ok_def dkeys_def distinct_card del: set_map)
  moreover have "card (fst ` set fs) \<le> length fs" by (metis card_length length_map set_map)
  ultimately show ?thesis using sub card_seteq [of "fst ` set fs"] by auto
qed

lemma yaml_get_loaded:
  "yr_loaded s \<Longrightarrow> yaml_get P disk n s =
    (case dget (yr_agents s) n of None \<Rightarrow> Inl (Exn RegistryError (n @ '' not found'')) | Some a \<Rightarrow> Inr a, s)"
  by (simp add: yaml_get_def ensure_loaded_def bnd_def)

lemma get_each_loaded:
  assumes "yr_loaded s"
  shows "get_each P disk ns d s = (x, t) \<Longrightarrow> t = s \<and>
    (case x of Inl e \<Rightarrow> exn_cls e = RegistryError
     | Inr d' \<Rightarrow> (dict_ok d \<longrightarrow> dict_ok d') \<and> set (dkeys d') = set (dkeys d) \<union> set ns
         \<and> (\<forall>n a. dget d' n = Some a \<longrightarrow> dget d n = Some a \<or> dget (yr_agents s) n = Some a))"
proof (induction ns arbitrary: d)
  case Nil
  then show ?case by auto
next
  case (Cons n ns)
  show ?case
  proof (cases "dget (yr_agents s) n")
    case None
    then show ?thesis using Cons.prems assms by (auto simp: yaml_get_loaded bnd_def)
  next
    case (Some a)
    then have "get_each P disk ns (dset n a d) s = (x, t)" using Cons.prems assms by (simp add: yaml_get_loaded bnd_def)
    from Cons.IH [OF this] Some show ?thesis
      by (auto simp: dkeys_def map_fst_dset split: sum.splits if_splits)
  qed
qed

lemma sort_Nil_iff [simp]: "sort xs = [] \<longleftrightarrow> xs = []"
  by (metis length_0_conv length_sort)

definition selected :: "world \<Rightarrow> string \<Rightarrow> selection \<Rightarrow> string set" where
  "selected W folder sel = (case sel of Named x \<Rightarrow> set (listed_names x) | _ \<Rightarrow> fst ` set (files_at W folder))"

definition runs_exactly :: "world \<Rightarrow> string \<Rightarrow> selection \<Rightarrow> (string, agent) dict \<Rightarrow> bool" where
  "runs_exactly W folder sel d =
    (wd_is_dir W folder \<and> dict_ok d \<and> set (dkeys d) = selected W folder sel \<and> d \<noteq> []
     \<and> (\<forall>n a. dget d n = Some a \<longrightarrow> a_name a = n \<and> agent_typed (wd_python W) a
          \<and> loads_as (wd_python W) (files_at W folder) n a))"

lemma resolved_agents:
  assumes "checked_registry W folder = Inr (Ready s)" "fst (resolve_agents W folder sel s) = Inr (Ready d)"
  shows "runs_exactly W folder sel d"
proof -
  note s = checked_registry_ready [OF assms(1)]
  obtain ns t where ns: "chosen_names W folder sel s = (Inr (Ready ns), t)"
    using assms(2) by (auto simp: resolve_agents_def bnd_def split: sum.splits outcome.splits prod.splits)
  have n: "t = s" "set ns = selected W folder sel" "ns \<noteq> []"
  proof -
    have keys: "set (dkeys (yr_agents s)) = fst ` set (files_at W folder)" using s every_file_is_an_agent by blast
    show "t = s" "set ns = selected W folder sel" "ns \<noteq> []"
      using ns s keys [symmetric]
      by (auto simp: chosen_names_def selected_def yaml_list_def ensure_loaded_def bnd_def Let_def
          split: selection.splits if_splits simp del: set_map)
  qed
  then have "get_each (wd_python W) (wd_specs W folder) ns [] s = (Inr d, s)"
    using assms(2) ns get_each_loaded [of s "wd_python W" "wd_specs W folder" ns "[]"] s
    by (auto simp: resolve_agents_def bnd_def split: sum.splits prod.splits if_splits)
  with get_each_loaded [of s "wd_python W" "wd_specs W folder" ns "[]"] s
  have d: "dict_ok d" "set (dkeys d) = set ns" "\<And>n a. dget d n = Some a \<Longrightarrow> dget (yr_agents s) n = Some a"
    by (auto simp: dkeys_def)
  have typed: "a_name a = m \<and> agent_typed (wd_python W) a \<and> loads_as (wd_python W) (files_at W folder) m a"
    if "dget d m = Some a" for m a
    using d(3) [OF that] s loads_as_typed [of "wd_python W" "files_at W folder" m a] by (simp add: registry_inv_def)
  have "d \<noteq> []" using d(2) n(3) by (cases d) (auto simp: dkeys_def)
  then show ?thesis using d n s typed by (simp add: runs_exactly_def)
qed

lemma registered_agents:
  "sv_rt (fold server_register as S) = sv_rt S \<and> (dict_ok (sv_agents S) \<longrightarrow> dict_ok (sv_agents (fold server_register as S)))
    \<and> set (dkeys (sv_agents (fold server_register as S))) = set (dkeys (sv_agents S)) \<union> a_name ` set as
    \<and> (\<forall>n a. dget (sv_agents (fold server_register as S)) n = Some a \<longrightarrow>
         dget (sv_agents S) n = Some a \<or> (a \<in> set as \<and> a_name a = n))"
proof (induction as arbitrary: S)
  case (Cons x as)
  from Cons [of "server_register x S"] show ?case
    by (auto simp: server_register_def dkeys_def map_fst_dset split: if_splits)
qed simp

lemma dget_of_value: "dict_ok d \<Longrightarrow> a \<in> set (dvalues d) \<Longrightarrow> \<exists>n. dget d n = Some a"
  by (force simp: dvalues_def dict_ok_def dget_map_of)

lemma runs_exactly_registered:
  assumes "runs_exactly W folder sel d"
  shows "runs_exactly W folder sel (sv_agents (fold server_register (dvalues d) (server_init store R)))"
proof -
  have named: "\<exists>n. dget d n = Some a \<and> a_name a = n" if "a \<in> set (dvalues d)" for a
    using assms dget_of_value [of d a] that by (auto simp: runs_exactly_def)
  have keys: "a_name ` set (dvalues d) = set (dkeys d)"
  proof
    show "a_name ` set (dvalues d) \<subseteq> set (dkeys d)" using named by (force simp: dkeys_def dest: dget_in_set)
    show "set (dkeys d) \<subseteq> a_name ` set (dvalues d)"
    proof
      fix n assume "n \<in> set (dkeys d)"
      then obtain a where a: "dget d n = Some a" using dget_None_iff [of d n] by (auto simp: dkeys_def)
      from dget_in_set [OF this] have "a \<in> set (dvalues d)" by (force simp: dvalues_def)
      moreover have "a_name a = n" using a assms by (auto simp: runs_exactly_def)
      ultimately show "n \<in> a_name ` set (dvalues d)" by blast
    qed
  qed
  let ?r = "sv_agents (fold server_register (dvalues d) (server_init store R))"
  have r: "dict_ok ?r" "set (dkeys ?r) = set (dkeys d)"
    "\<And>n a. dget ?r n = Some a \<Longrightarrow> a \<in> set (dvalues d) \<and> a_name a = n"
    using registered_agents [of "dvalues d" "server_init store R"] keys by (auto simp: server_init_def dkeys_def)
  then have "dget d n = Some a" if "dget ?r n = Some a" for n a using that named by blast
  moreover have "?r \<noteq> []" using r(2) assms by (auto simp: runs_exactly_def dkeys_def)
  ultimately show ?thesis using assms r(1,2) unfolding runs_exactly_def by metis
qed

lemma try_runtime_ready: "try_runtime U fresh A s = Inr (Ready (R, t)) \<longleftrightarrow> runtime_init U fresh A s = (Inr R, t)"
  by (auto simp: try_runtime_def split: prod.splits sum.splits)

lemma runtime_without_broker:
  assumes "runtime_init U fresh A s = (Inr R, t)" "ra_backend A = None" "ra_broker_instance A = None" "ra_broker A = None"
  shows "br_backend R = BuiltAsync (br_parts R) \<and> \<not> ra_publish_events A"
  using runtime_init_built [OF assms(1)] assms(2-)
  by (auto simp: built_ok_def served_def backend_of_def split: built_backend.splits broker_object.splits)

lemma runtime_on_url:
  assumes "runtime_init U fresh A s = (Inr R, t)" "ra_backend A = None" "ra_broker_instance A = None" "ra_broker A = Some u"
  shows "url_scheme u \<in> set known_schemes \<and> (\<exists>k. backend_broker (br_backend R) = Some k
    \<and> (k = InMemoryBroker \<longleftrightarrow> url_scheme u = ''memory''))"
  using runtime_init_built [OF assms(1)] assms(2-)
  by (auto simp: built_ok_def served_def backend_of_def backend_broker_def scheme_classes_def
      split: built_backend.splits broker_object.splits if_splits)

lemma run_serve_ready:
  assumes "run_serve U fresh W store A = Inr (Ready (g :: ('st, 'm) serving))"
  shows "runs_exactly W (specs_root (se_selection A) (se_specs A)) (se_selection A) (sv_agents (sg_server g))
    \<and> (se_publish_events A \<longrightarrow> given (se_broker A))
    \<and> (\<exists>t. runtime_init U fresh (no_args\<lparr>ra_broker := se_broker A, ra_event_emitter := Some 0,
         ra_publish_events := se_publish_events A\<rparr>) \<lparr> ob_next = 1, ob_executors = [] \<rparr> = (Inr (sv_rt (sg_server g)), t))"
proof -
  let ?folder = "specs_root (se_selection A) (se_specs A)"
  obtain r agents sinks R t where
    r: "checked_registry W ?folder = Inr (Ready r)" "fst (resolve_agents W ?folder (se_selection A) r) = Inr (Ready agents)"
      "try_runtime U fresh (no_args\<lparr>ra_broker := se_broker A, ra_event_emitter := Some 0,
         ra_publish_events := se_publish_events A\<rparr>) \<lparr> ob_next = 1, ob_executors = [] \<rparr> = Inr (Ready (R, t))"
    and g: "sg_server g = fold server_register (dvalues agents) (server_init store R)"
      "se_publish_events A \<longrightarrow> given (se_broker A)"
    using assms by (auto simp: run_serve_def Let_def obind_Ready split: if_splits)
  have "sv_rt (sg_server g) = R"
    using registered_agents [of "dvalues agents" "server_init store R"] by (simp add: g server_init_def)
  then show ?thesis
    using runs_exactly_registered [OF resolved_agents [OF r(1,2)]] r(3) g by (simp add: try_runtime_ready)
qed

lemma run_worker_ready:
  assumes "run_worker U f1 f2 W operations B = Inr (Ready (k :: 'm broker_object, R, cfg :: 'b worker_config))"
  shows "runs_exactly W (specs_root (wk_selection B) (wk_specs B)) (wk_selection B) (wc_agents cfg)
    \<and> (\<exists>P s t. runtime_init U f1 (no_args\<lparr>ra_broker := Some (wk_broker B)\<rparr>) \<lparr> ob_next = 0, ob_executors = [] \<rparr> = (Inr P, s)
         \<and> backend_broker (br_backend P) = Some k \<and> runtime_init U f2 no_args s = (Inr R, t))
    \<and> wc_runtime cfg = operations R"
proof -
  let ?folder = "specs_root (wk_selection B) (wk_specs B)"
  obtain r agents P s where
    r: "checked_registry W ?folder = Inr (Ready r)" "fst (resolve_agents W ?folder (wk_selection B) r) = Inr (Ready agents)"
      "try_runtime U f1 (no_args\<lparr>ra_broker := Some (wk_broker B)\<rparr>) \<lparr> ob_next = 0, ob_executors = [] \<rparr> = Inr (Ready (P, s))"
    and w: "(case runtime_init U f2 no_args s of
       (Inl e, _) \<Rightarrow> Inl e
     | (Inr R, _) \<Rightarrow>
        (case backend_broker (br_backend P) of
           None \<Rightarrow> Inr (Exit 2 [''runtime did not produce a Broker for url '' @ wk_broker B])
         | Some k \<Rightarrow>
            (case worker_init agents (operations R) (wk_concurrency B) (wk_prefetch B) (wk_consumer_id B) NoKey
                    (wk_heartbeat_seconds B) (if wk_reclaim_min_idle_ms B = 0 then None else Some (wk_reclaim_min_idle_ms B))
                    (fst (broker_labels (su_labels U) k)) (jc_hmac (su_library U)) of
               Inl e \<Rightarrow> Inl e
             | Inr cfg \<Rightarrow> Inr (Ready (k, R, cfg))))) = Inr (Ready (k, R, cfg))"
    using assms by (auto simp: run_worker_def Let_def obind_Ready)
  then obtain t where t: "runtime_init U f2 no_args s = (Inr R, t)" "backend_broker (br_backend P) = Some k"
    "worker_init agents (operations R) (wk_concurrency B) (wk_prefetch B) (wk_consumer_id B) NoKey
       (wk_heartbeat_seconds B) (if wk_reclaim_min_idle_ms B = 0 then None else Some (wk_reclaim_min_idle_ms B))
       (fst (broker_labels (su_labels U) k)) (jc_hmac (su_library U)) = Inr cfg"
    by (auto split: prod.splits sum.splits option.splits)
  have "wc_agents cfg = agents" "wc_runtime cfg = operations R"
    using t(3) by (auto simp: worker_init_def normalise_keys_def split: if_splits option.splits)
  then show ?thesis using resolved_agents [OF r(1,2)] r(3) t by (auto simp: try_runtime_ready)
qed

text \<open>
  A server and a worker start on checked specs only.  When \<open>serve\<close> or \<open>worker start\<close>
  gets as far as running, every file under the specs root gave an agent, and what it
  runs are exactly the selected agents, each well typed and under its own name; the
  worker consumes from the broker its URL names; the server's runtime dispatches to
  that broker when one is given and in process otherwise, and publishes events only
  with a broker.
\<close>

theorem commands_run_checked_agents:
  "(\<forall>g. run_serve U fresh W store A = Inr (Ready (g :: ('st, 'm) serving)) \<longrightarrow>
      runs_exactly W (specs_root (se_selection A) (se_specs A)) (se_selection A) (sv_agents (sg_server g))
      \<and> (se_publish_events A \<longrightarrow> se_broker A \<noteq> None)
      \<and> (case se_broker A of
           None \<Rightarrow> br_backend (sv_rt (sg_server g)) = BuiltAsync (br_parts (sv_rt (sg_server g)))
         | Some u \<Rightarrow> (\<exists>k. backend_broker (br_backend (sv_rt (sg_server g))) = Some k
              \<and> (k = InMemoryBroker \<longleftrightarrow> url_scheme u = ''memory''))))
   \<and> (\<forall>k R cfg. run_worker U f1 f2 W operations B = Inr (Ready (k :: 'm broker_object, R, cfg :: 'b worker_config)) \<longrightarrow>
      runs_exactly W (specs_root (wk_selection B) (wk_specs B)) (wk_selection B) (wc_agents cfg)
      \<and> url_scheme (wk_broker B) \<in> set known_schemes \<and> (k = InMemoryBroker \<longleftrightarrow> url_scheme (wk_broker B) = ''memory'')
      \<and> br_backend R = BuiltAsync (br_parts R))"
proof (intro conjI allI impI; (elim conjE)?)
  fix g assume g: "run_serve U fresh W store A = Inr (Ready (g :: ('st, 'm) serving))"
  note r = run_serve_ready [OF g]
  then obtain t where t: "runtime_init U fresh (no_args\<lparr>ra_broker := se_broker A, ra_event_emitter := Some 0,
         ra_publish_events := se_publish_events A\<rparr>) \<lparr> ob_next = 1, ob_executors = [] \<rparr> = (Inr (sv_rt (sg_server g)), t)" by blast
  show "runs_exactly W (specs_root (se_selection A) (se_specs A)) (se_selection A) (sv_agents (sg_server g))" using r by blast
  show "se_broker A \<noteq> None" if "se_publish_events A" using r that by (auto simp: given_def)
  show "case se_broker A of
           None \<Rightarrow> br_backend (sv_rt (sg_server g)) = BuiltAsync (br_parts (sv_rt (sg_server g)))
         | Some u \<Rightarrow> (\<exists>k. backend_broker (br_backend (sv_rt (sg_server g))) = Some k
              \<and> (k = InMemoryBroker \<longleftrightarrow> url_scheme u = ''memory''))"
    using runtime_without_broker [OF t] runtime_on_url [OF t] by (simp add: no_args_def split: option.split)
next
  fix k R cfg
  assume w: "run_worker U f1 f2 W operations B = Inr (Ready (k :: 'm broker_object, R, cfg :: 'b worker_config))"
  note r = run_worker_ready [OF w]
  then obtain P s t where P: "runtime_init U f1 (no_args\<lparr>ra_broker := Some (wk_broker B)\<rparr>) \<lparr> ob_next = 0, ob_executors = [] \<rparr> = (Inr P, s)"
    "backend_broker (br_backend P) = Some k" "runtime_init U f2 no_args s = (Inr R, t)" by blast
  show "runs_exactly W (specs_root (wk_selection B) (wk_specs B)) (wk_selection B) (wc_agents cfg)" using r by blast
  show "url_scheme (wk_broker B) \<in> set known_schemes" "k = InMemoryBroker \<longleftrightarrow> url_scheme (wk_broker B) = ''memory''"
    using runtime_on_url [OF P(1)] P(2) by (simp_all add: no_args_def)
  show "br_backend R = BuiltAsync (br_parts R)" using runtime_without_broker [OF P(3)] by (simp add: no_args_def)
qed

definition sample_world :: world where
  "sample_world = \<lparr> wd_python = flat_world, wd_is_dir = (\<lambda>p. p = ''specs''), wd_is_file = (\<lambda>p. False),
     wd_specs = (\<lambda>p. Some (take 1 sample_disk)), wd_open_store = (\<lambda>p. None) \<rparr>"

definition sample_serve :: serve_args where
  "sample_serve = \<lparr> se_selection = Everything, se_specs = ''specs'', se_broker = None, se_publish_events = False,
     se_host = ''h'', se_port = 8420, se_heartbeat_interval = 15, se_no_events = False, se_dashboard_dir = None,
     se_event_store = Some ''memory'' \<rparr>"

lemma commands_run_checked_agents_witness:
  "\<forall>lib. \<exists>g. run_serve \<lparr> su_library = lib, su_host = (\<lambda>u. None), su_labels = (\<lambda>i. (None, None)) \<rparr> ''r'' sample_world ()
      sample_serve = Inr (Ready (g :: (unit, nat) serving))
    \<and> runs_exactly sample_world ''specs'' Everything (sv_agents (sg_server g))
    \<and> br_backend (sv_rt (sg_server g)) = BuiltAsync (br_parts (sv_rt (sg_server g)))"
proof (intro allI)
  fix lib
  let ?U = "\<lparr> su_library = lib, su_host = (\<lambda>u. None), su_labels = (\<lambda>i. (None, None)) \<rparr>"
  obtain s d where s: "checked_registry sample_world ''specs'' = Inr (Ready s)"
    "fst (resolve_agents sample_world ''specs'' Everything s) = Inr (Ready d)"
  proof -
    have *: "case checked_registry sample_world ''specs'' of Inr (Ready s) \<Rightarrow>
      is_ready (fst (resolve_agents sample_world ''specs'' Everything s)) | _ \<Rightarrow> False"
      by code_simp
    then obtain s where "checked_registry sample_world ''specs'' = Inr (Ready s)"
      using is_ready_iff [of "checked_registry sample_world ''specs''"] by (auto simp: is_ready_def split: sum.splits outcome.splits)
    with * that show ?thesis by (auto simp: is_ready_iff)
  qed
  let ?A = "no_args\<lparr>ra_broker := None, ra_event_emitter := Some 0, ra_publish_events := False\<rparr>"
  obtain R :: "nat built_runtime" and t where R: "runtime_init ?U ''r'' ?A \<lparr> ob_next = 1, ob_executors = [] \<rparr> = (Inr R, t)"
    using runtime_init_served [where 'm = nat, of "\<lparr> ob_next = 1, ob_executors = [] \<rparr>" ?A ?U "''r''"]
    by (auto simp: clash_def served_def no_args_def)
  have "\<exists>g. run_serve ?U ''r'' sample_world () sample_serve = Inr (Ready (g :: (unit, nat) serving))"
    using s R by (simp add: run_serve_def sample_serve_def specs_root_def obind_def open_sinks_def sse_init_def
        try_runtime_def dashboard_ok_def)
  then obtain g :: "(unit, nat) serving" where g: "run_serve ?U ''r'' sample_world () sample_serve = Inr (Ready g)" by blast
  with commands_run_checked_agents [where 'm = nat and 'st = unit, of ?U "''r''" sample_world "()" sample_serve]
  show "\<exists>g. run_serve ?U ''r'' sample_world () sample_serve = Inr (Ready (g :: (unit, nat) serving))
    \<and> runs_exactly sample_world ''specs'' Everything (sv_agents (sg_server g))
    \<and> br_backend (sv_rt (sg_server g)) = BuiltAsync (br_parts (sv_rt (sg_server g)))"
    by (auto simp: sample_serve_def specs_root_def)
qed

text \<open>The branch of \<open>worker start\<close> for a runtime without a broker is never taken.\<close>

lemma worker_always_has_a_broker:
  assumes "runtime_init U fresh (no_args\<lparr>ra_broker := Some u\<rparr>) s = (Inr R, t)"
  shows "backend_broker (br_backend R) \<noteq> None"
  using runtime_on_url [OF assms] by (auto simp: no_args_def)

text \<open>What validates is what the other two commands accept.\<close>

lemma validated_specs_start:
  assumes "validate_command W p = Inr v" "vr_code v = 0"
  shows "\<exists>s. checked_registry W p = Inr (Ready s) \<and> vr_agents v = length (files_at W p)"
proof -
  obtain r s names t where r: "yaml_init (wd_is_dir W p) = Inr r" "yaml_validate (wd_python W) (wd_specs W p) r = (Inr [], s)"
      "yaml_list (wd_python W) (wd_specs W p) s = (Inr names, t)" and n: "vr_agents v = length names"
    using assms by (auto simp: validate_command_def split: sum.splits prod.splits if_splits)
  then have c: "checked_registry W p = Inr (Ready s)" by (simp add: checked_registry_def)
  note k = checked_registry_ready [OF this]
  have "names = dkeys (yr_agents s)" using k r(3) by (auto simp: yaml_list_def ensure_loaded_def bnd_def)
  then have "vr_agents v = length (files_at W p)" using n k by (auto simp: registry_inv_def dkeys_def)
  with c show ?thesis by blast
qed

end
