(* ===== verification/Event_Metrics.thy ===== *)
theory Event_Metrics
  imports Dashboard
begin

text \<open>
  \<open>events/otel.py\<close>, what each event records on which instrument, and \<open>events/log.py\<close>,
  the call of the logger.  Histograms and counters are OpenTelemetry's: a measurement is
  the instrument, the amount and the attributes; floats are rationals.
\<close>

section \<open>Metrics\<close>

datatype instrument = TokenUsage | OperationDuration | ToolCalls | ToolDuration | Rejections

record measurement =
  ms_instrument :: instrument
  ms_amount :: rat
  ms_attrs :: "(string, string) dict"

definition otel_payload_int :: "runtime_event \<Rightarrow> string \<Rightarrow> int" where
  "otel_payload_int e k = coerce_int (dget (payload e) k)"

definition partition_colon :: "string \<Rightarrow> string \<times> string" where
  "partition_colon s = (takeWhile (\<lambda>c. c \<noteq> CHR '':'') s, drop 1 (dropWhile (\<lambda>c. c \<noteq> CHR '':'') s))"

definition gen_ai_attrs :: "runtime_event \<Rightarrow> (string, string) dict" where
  "gen_ai_attrs e =
    (let m = payload_str e ''model'';
         (provider, request_model) =
           (if CHR '':'' \<in> set m then partition_colon m else (''unknown'', if m = [] then ''unknown'' else m))
     in [(''gen_ai.operation.name'', ''invoke_agent''), (''gen_ai.provider.name'', provider),
         (''gen_ai.request.model'', request_model), (''agent'', ev_agent_name e)])"

definition error_class_of :: "runtime_event \<Rightarrow> string" where
  "error_class_of e =
    (let err = payload_str e ''error'' in
     if err = [] then ''UnknownError''
     else let cleaned = strip (fst (partition_colon err)) in if cleaned = [] then ''UnknownError'' else cleaned)"

definition measure_of :: "instrument \<Rightarrow> rat \<Rightarrow> (string, string) dict \<Rightarrow> measurement" where
  "measure_of i x attrs = \<lparr> ms_instrument = i, ms_amount = x, ms_attrs = attrs \<rparr>"

definition rejection :: "string \<Rightarrow> measurement" where
  "rejection reason = measure_of Rejections 1 [(''reason'', reason)]"

definition record_completed :: "runtime_event \<Rightarrow> measurement list" where
  "record_completed e =
    (let attrs = gen_ai_attrs e; tokens = otel_payload_int e ''tokens_used'' in
     (if tokens > 0 then [measure_of TokenUsage (of_int tokens) (dset ''gen_ai.token.type'' ''total'' attrs)] else [])
     @ [measure_of OperationDuration (of_int (otel_payload_int e ''duration_ms'') / 1000) attrs])"

definition record_failed :: "runtime_event \<Rightarrow> measurement list" where
  "record_failed e =
    (let attrs = dset ''error.type'' (error_class_of e) (gen_ai_attrs e); reason = payload_str e ''reason'' in
     [measure_of OperationDuration (of_int (otel_payload_int e ''duration_ms'') / 1000) attrs,
      rejection (if reason = [] then ''unknown'' else reason)])"

definition record_tool :: "runtime_event \<Rightarrow> string \<Rightarrow> measurement list" where
  "record_tool e status =
    (let tool = payload_str e ''tool_name'';
         attrs = [(''tool'', if tool = [] then ''unknown'' else tool), (''agent'', ev_agent_name e), (''status'', status)];
         duration = otel_payload_int e ''duration_ms'' in
     measure_of ToolCalls 1 attrs # (if duration > 0 then [measure_of ToolDuration (of_int duration) attrs] else []))"

definition otel_emit :: "runtime_event \<Rightarrow> measurement list" where
  "otel_emit e =
    (case event_type e of
       AGENT_COMPLETED \<Rightarrow> record_completed e
     | AGENT_FAILED \<Rightarrow> record_failed e
     | TOOL_CALL_COMPLETED \<Rightarrow> record_tool e ''ok''
     | TOOL_CALL_FAILED \<Rightarrow> record_tool e ''error''
     | BUDGET_EXCEEDED \<Rightarrow> [rejection ''budget'']
     | DEPTH_LIMIT_EXCEEDED \<Rightarrow> [rejection ''depth'']
     | _ \<Rightarrow> [])"

definition metered :: "instrument \<Rightarrow> (measurement \<Rightarrow> bool) \<Rightarrow> runtime_event list \<Rightarrow> rat" where
  "metered i P es = sum_list (map ms_amount (filter (\<lambda>m. ms_instrument m = i \<and> P m) (concat (map otel_emit es))))"

lemma metered_simps [simp]:
  "metered i P [] = 0"
  "metered i P (e # es) =
    sum_list (map ms_amount (filter (\<lambda>m. ms_instrument m = i \<and> P m) (otel_emit e))) + metered i P es"
  by (simp_all add: metered_def)

lemmas otel_defs = otel_emit_def record_completed_def record_failed_def record_tool_def rejection_def measure_of_def

section \<open>The metrics and the dashboard\<close>

definition plain_tokens :: "runtime_event \<Rightarrow> bool" where
  "plain_tokens e = (case dget (payload e) ''tokens_used'' of None \<Rightarrow> True | Some (VInt i) \<Rightarrow> 0 \<le> i | _ \<Rightarrow> False)"

lemma token_metric:
  "list_all plain_tokens es \<Longrightarrow> metered TokenUsage (\<lambda>_. True) es = of_int (tokens_total es)"
proof (induction es)
  case (Cons e es)
  have "tokens_from e = otel_payload_int e ''tokens_used''" "0 \<le> otel_payload_int e ''tokens_used''"
    using Cons.prems
    by (auto simp: tokens_from_def otel_payload_int_def coerce_int_def plain_tokens_def split: option.splits pyval.splits)
  then show ?case
    using Cons by (cases "event_type e") (auto simp: otel_defs tokens_total_def Let_def)
qed (simp add: tokens_total_def)

definition of_reason :: "string \<Rightarrow> measurement \<Rightarrow> bool" where
  "of_reason r m = (ms_attrs m = [(''reason'', r)])"

definition dashboard_reasons :: "string list" where
  "dashboard_reasons = [''budget'', ''cycle'', ''depth'', ''cap'', ''timeout'']"

lemma rejection_step_get:
  assumes "map fst c = dashboard_reasons" "r \<in> set dashboard_reasons"
  shows "map fst (rejection_step e c) = dashboard_reasons
    \<and> of_nat (dget_or (rejection_step e c) r 0) = of_nat (dget_or c r 0)
      + sum_list (map ms_amount (filter (\<lambda>m. ms_instrument m = Rejections \<and> of_reason r m) (otel_emit e)))"
proof -
  have keys: "fst ` set c = set dashboard_reasons" using arg_cong [OF assms(1), of set] by simp
  have has: "dhas c x \<longleftrightarrow> x \<in> set dashboard_reasons" for x by (simp add: dhas_iff keys)
  have fixed: "''budget'' \<in> set dashboard_reasons" "''depth'' \<in> set dashboard_reasons" "[] \<notin> set dashboard_reasons"
    "''unknown'' \<notin> set dashboard_reasons" by (simp_all add: dashboard_reasons_def)
  have get: "dget_or (dset k v c) r 0 = (if r = k then v else dget_or c r 0)" for k v by (simp add: dget_or_def)
  show ?thesis
    using assms fixed
    by (cases "event_type e")
      (auto simp: rejection_step_def otel_defs Let_def of_reason_def map_fst_dset keys has get)
qed

lemma rejection_metric:
  assumes "r \<in> set dashboard_reasons"
  shows "metered Rejections (of_reason r) es = of_nat (dget_or (rejection_counts es) r 0)"
proof -
  have "map fst c = dashboard_reasons \<Longrightarrow>
    of_nat (dget_or (fold rejection_step es c) r 0) = of_nat (dget_or c r 0) + metered Rejections (of_reason r) es" for c
  proof (induction es arbitrary: c)
    case (Cons e es)
    then show ?case using rejection_step_get [OF Cons.prems assms, of e] by simp
  qed simp
  from this [of "[(''budget'', 0), (''cycle'', 0), (''depth'', 0), (''cap'', 0), (''timeout'', 0)]"]
  show ?thesis using assms by (auto simp: rejection_counts_def dashboard_reasons_def dget_or_def)
qed

lemma all_rejections:
  "metered Rejections (\<lambda>_. True) es =
    of_nat (length (filter (\<lambda>e. event_type e \<in> {BUDGET_EXCEEDED, DEPTH_LIMIT_EXCEEDED, AGENT_FAILED}) es))"
proof (induction es)
  case (Cons e es)
  then show ?case by (cases "event_type e") (simp_all add: otel_defs Let_def)
qed simp

lemma tool_calls_metric:
  "metered ToolCalls (\<lambda>_. True) es =
    of_nat (length (filter (\<lambda>e. event_type e \<in> {TOOL_CALL_COMPLETED, TOOL_CALL_FAILED}) es))"
proof (induction es)
  case (Cons e es)
  then show ?case by (cases "event_type e") (simp_all add: otel_defs Let_def)
qed simp

text \<open>
  The metrics and the dashboard are two accounts of one stream of events, and they
  agree: the tokens recorded add up to the dashboard's total, the rejections counted for
  each reason the dashboard knows are its counts, every failed run and every refusal is
  one rejection, and every tool call that ended is one call.
\<close>

theorem metrics_agree_with_dashboard:
  assumes "list_all plain_tokens es" "r \<in> set dashboard_reasons"
  shows "metered TokenUsage (\<lambda>_. True) es = of_int (tokens_total es)
    \<and> metered Rejections (of_reason r) es = of_nat (dget_or (rejection_counts es) r 0)
    \<and> metered Rejections (\<lambda>_. True) es =
        of_nat (length (filter (\<lambda>e. event_type e \<in> {BUDGET_EXCEEDED, DEPTH_LIMIT_EXCEEDED, AGENT_FAILED}) es))
    \<and> metered ToolCalls (\<lambda>_. True) es =
        of_nat (length (filter (\<lambda>e. event_type e \<in> {TOOL_CALL_COMPLETED, TOOL_CALL_FAILED}) es))"
  using token_metric [OF assms(1)] rejection_metric [OF assms(2)] all_rejections tool_calls_metric by blast

lemma metrics_agree_with_dashboard_witness:
  "let ev = (\<lambda>ty pl. \<lparr> event_type = ty, timestamp = 1, ev_agent_name = ''a'', ev_task_id = None,
         ev_trace_id = ''r'', ev_parent_trace_id = None, payload = pl \<rparr>);
       es = [ev AGENT_COMPLETED [(''tokens_used'', VInt 5)], ev BUDGET_EXCEEDED [], ev AGENT_FAILED []] in
    metered TokenUsage (\<lambda>_. True) es = 5 \<and> metered Rejections (of_reason ''budget'') es = 1
    \<and> metered Rejections (\<lambda>_. True) es = 2"
proof -
  let ?ev = "\<lambda>ty pl. \<lparr> event_type = ty, timestamp = 1, ev_agent_name = ''a'', ev_task_id = None,
         ev_trace_id = ''r'', ev_parent_trace_id = None, payload = pl \<rparr>"
  let ?es = "[?ev AGENT_COMPLETED [(''tokens_used'', VInt 5)], ?ev BUDGET_EXCEEDED [], ?ev AGENT_FAILED []]"
  have "list_all plain_tokens ?es" "''budget'' \<in> set dashboard_reasons"
    by (simp_all add: plain_tokens_def dashboard_reasons_def)
  from metrics_agree_with_dashboard [OF this]
  show ?thesis
    by (simp only: Let_def) (simp add: tokens_total_def tokens_from_def rejection_counts_def rejection_step_def dget_or_def payload_str_def dhas_def)
qed

section \<open>The log\<close>

definition failure_types :: "string list" where
  "failure_types = [''agent_failed'', ''tool_call_failed'', ''budget_exceeded'', ''depth_limit_exceeded'']"

record log_entry =
  le_error :: bool
  le_event :: string
  le_fields :: "(string, pyval) dict"

definition log_fields :: "(rat \<Rightarrow> string) \<Rightarrow> runtime_event \<Rightarrow> (string, pyval) dict" where
  "log_fields clock e =
    [(''timestamp'', VStr (clock (timestamp e))), (''agent_name'', VStr (ev_agent_name e)),
     (''task_id'', (case ev_task_id e of None \<Rightarrow> VNone | Some t \<Rightarrow> VStr t)), (''trace_id'', VStr (ev_trace_id e)),
     (''parent_trace_id'', (case ev_parent_trace_id e of None \<Rightarrow> VNone | Some t \<Rightarrow> VStr t))]"

text \<open>
  A payload key that is also a keyword of the call makes the call raise, which is
  suppressed; so does one that names a parameter of the logger's method, \<open>own\<close>.
\<close>

definition log_emit :: "string list \<Rightarrow> (rat \<Rightarrow> string) \<Rightarrow> runtime_event \<Rightarrow> log_entry option" where
  "log_emit own clock e =
    (if set (dkeys (payload e)) \<inter> (set (dkeys (log_fields clock e)) \<union> set own) \<noteq> {} then None
     else Some \<lparr> le_error = (event_type_value (event_type e) \<in> set failure_types),
                 le_event = event_type_value (event_type e), le_fields = log_fields clock e @ payload e \<rparr>)"

text \<open>A payload that names none of the envelope's fields is logged whole, failures as errors.\<close>

lemma log_emit_whole:
  assumes "set (dkeys (payload e)) \<inter> {''timestamp'', ''agent_name'', ''task_id'', ''trace_id'', ''parent_trace_id''} = {}"
    "set (dkeys (payload e)) \<inter> set own = {}"
    "dget (payload e) k = Some v"
  shows "\<exists>l. log_emit own clock e = Some l \<and> dget (le_fields l) k = Some v
    \<and> (le_error l \<longleftrightarrow> event_type e \<in> {AGENT_FAILED, TOOL_CALL_FAILED, BUDGET_EXCEEDED, DEPTH_LIMIT_EXCEEDED})"
proof -
  have "k \<in> set (dkeys (payload e))" using dget_in_set [OF assms(3)] by (force simp: dkeys_def)
  then have "dget (log_fields clock e) k = None" using assms(1) by (auto simp: log_fields_def)
  moreover have "event_type_value (event_type e) \<in> set failure_types \<longleftrightarrow>
      event_type e \<in> {AGENT_FAILED, TOOL_CALL_FAILED, BUDGET_EXCEEDED, DEPTH_LIMIT_EXCEEDED}"
    by (cases "event_type e") (simp_all add: failure_types_def)
  moreover have "set (dkeys (log_fields clock e)) = {''timestamp'', ''agent_name'', ''task_id'', ''trace_id'', ''parent_trace_id''}"
    by (auto simp: log_fields_def dkeys_def)
  ultimately show ?thesis using assms by (simp add: log_emit_def dget_append Int_commute Int_Un_distrib)
qed

end
