(* ===== verification/Command_Watch.thy ===== *)
theory Command_Watch
  imports Command_Line Event_Metrics
begin

text \<open>
  The two commands that stay: \<open>cli/status.py\<close>, which tails a server's event stream, and
  \<open>cli/_reload.py\<close>, which keeps one child process and restarts it when a file changes.
  What the network and the operating system do is a list of what happens next.
\<close>

section \<open>Decoding a stream\<close>

definition rstrip_cr :: "string \<Rightarrow> string" where
  "rstrip_cr s = rev (dropWhile (\<lambda>c. c = CHR 0x0D) (rev s))"

type_synonym body = "(string \<times> pyval) list"

definition named_body :: "string option \<Rightarrow> body \<Rightarrow> body" where
  "named_body current d =
    (case current of
       None \<Rightarrow> d
     | Some t \<Rightarrow> if t \<noteq> [] \<and> \<not> dhas d ''event_type'' then dset ''event_type'' (VStr t) d else d)"

fun parse_sse_frames :: "(string \<Rightarrow> pyval option) \<Rightarrow> string option \<Rightarrow> string list \<Rightarrow> body list" where
  "parse_sse_frames loads current [] = []"
| "parse_sse_frames loads current (raw # ls) =
    (let line = rstrip_cr raw in
     if line = [] then parse_sse_frames loads None ls
     else if take 1 line = '':'' then parse_sse_frames loads current ls
     else if take 6 line = ''event:'' then parse_sse_frames loads (Some (strip (drop 6 line))) ls
     else if take 5 line = ''data:'' then
       (let text = strip (drop 5 line) in
        if text = [] then parse_sse_frames loads current ls
        else case loads text of
          Some (VDict d) \<Rightarrow> named_body current d # parse_sse_frames loads current ls
        | _ \<Rightarrow> parse_sse_frames loads current ls)
     else parse_sse_frames loads current ls)"

section \<open>Filtering and printing\<close>

text \<open>Looking up a list or a dict in a \<open>frozenset\<close> raises.\<close>

definition in_filter :: "string list \<Rightarrow> pyval option \<Rightarrow> exn + bool" where
  "in_filter wanted v =
    (if wanted = [] then Inr True
     else case v of
       Some (VStr x) \<Rightarrow> Inr (x \<in> set wanted)
     | Some (VList xs) \<Rightarrow> Inl (Exn PyTypeError ''unhashable type: list'')
     | Some (VDict d) \<Rightarrow> Inl (Exn PyTypeError ''unhashable type: dict'')
     | _ \<Rightarrow> Inr False)"

record status_args =
  sa_types :: "string list"
  sa_agents :: "string list"
  sa_no_reconnect :: bool

definition wanted :: "status_args \<Rightarrow> body \<Rightarrow> exn + bool" where
  "wanted A d =
    (case in_filter (sa_types A) (dget d ''event_type'') of
       Inl e \<Rightarrow> Inl e
     | Inr False \<Rightarrow> Inr False
     | Inr True \<Rightarrow> in_filter (sa_agents A) (dget d ''agent_name''))"

text \<open>\<open>str\<close> is \<open>text\<close>; a field is printed when it is truthy.\<close>

fun is_truthy :: "pyval \<Rightarrow> bool" where
  "is_truthy VNone = False"
| "is_truthy (VBool b) = b"
| "is_truthy (VInt i) = (i \<noteq> 0)"
| "is_truthy (VFloat r) = (r \<noteq> 0)"
| "is_truthy (VStr s) = (s \<noteq> [])"
| "is_truthy (VList xs) = (xs \<noteq> [])"
| "is_truthy (VDict d) = (d \<noteq> [])"
| "is_truthy (VModel c fs) = True"

fun joined :: "string \<Rightarrow> string list \<Rightarrow> string" where
  "joined sep [] = []"
| "joined sep [x] = x"
| "joined sep (x # xs) = x @ sep @ joined sep xs"

definition labelled :: "(pyval \<Rightarrow> string) \<Rightarrow> string \<Rightarrow> pyval option \<Rightarrow> string list" where
  "labelled text label v = (case v of None \<Rightarrow> [] | Some x \<Rightarrow> if is_truthy x then [label @ text x] else [])"

definition format_event :: "(pyval \<Rightarrow> string) \<Rightarrow> body \<Rightarrow> string" where
  "format_event text d = joined '' ''
    ([text (case dget d ''event_type'' of None \<Rightarrow> VStr ''?'' | Some t \<Rightarrow> t)]
     @ labelled text ''agent='' (dget d ''agent_name'')
     @ labelled text ''task='' (dget d ''task_id'')
     @ labelled text ''trace='' (dget d ''trace_id'')
     @ (case dget d ''payload'' of
          Some (VDict p) \<Rightarrow>
            if p = [] then [] else [''['' @ joined '', '' (map (\<lambda>(k, v). k @ ''='' @ text v) p) @ '']'']
        | _ \<Rightarrow> []))"

section \<open>The loop\<close>

text \<open>A connection is refused, or answers with a status, lines, and then an error or an end.\<close>

datatype connection = Refused string | Answered int "string list" "string option"

record screen =
  sc_out :: "string list"
  sc_err :: "string list"
  sc_sleeps :: nat

datatype status_end = Ended int | Crashed exn | Tailing

fun print_events :: "(pyval \<Rightarrow> string) \<Rightarrow> status_args \<Rightarrow> body list \<Rightarrow> (screen, exn, unit) eff" where
  "print_events text A [] = ret ()"
| "print_events text A (d # ds) = (\<lambda>s.
    case wanted A d of
      Inl e \<Rightarrow> (Inl e, s)
    | Inr w \<Rightarrow> print_events text A ds (if w then s\<lparr>sc_out := sc_out s @ [format_event text d]\<rparr> else s))"

definition err_line :: "string \<Rightarrow> screen \<Rightarrow> screen" where
  "err_line msg s = s\<lparr>sc_err := sc_err s @ [msg]\<rparr>"

definition on_error :: "status_args \<Rightarrow> string \<Rightarrow> screen \<Rightarrow> int option \<times> screen" where
  "on_error A msg s =
    (let t = err_line (''connection error: '' @ msg) s in
     if sa_no_reconnect A then (Some 1, t) else (None, (err_line ''reconnecting in 2.0s'' t)\<lparr>sc_sleeps := Suc (sc_sleeps s)\<rparr>))"

fun run_status ::
  "(pyval \<Rightarrow> string) \<Rightarrow> (string \<Rightarrow> pyval option) \<Rightarrow> status_args \<Rightarrow> connection list \<Rightarrow> screen \<Rightarrow> status_end \<times> screen" where
  "run_status text loads A [] s = (Tailing, s)"
| "run_status text loads A (Refused msg # cs) s =
    (case on_error A msg s of (Some c, t) \<Rightarrow> (Ended c, t) | (None, t) \<Rightarrow> run_status text loads A cs t)"
| "run_status text loads A (Answered code ls ending # cs) s =
    (if code \<noteq> 200 then (Ended 1, err_line ''unexpected status'' s)
     else case print_events text A (parse_sse_frames loads None ls) (err_line ''connected'' s) of
       (Inl e, t) \<Rightarrow> (Crashed e, t)
     | (Inr _, t) \<Rightarrow> (case ending of
         None \<Rightarrow> run_status text loads A cs t
       | Some msg \<Rightarrow>
          (case on_error A msg t of (Some c, u) \<Rightarrow> (Ended c, u) | (None, u) \<Rightarrow> run_status text loads A cs u)))"

section \<open>The reload loop\<close>

definition valued_flags :: "string list" where
  "valued_flags = [''--reload-dir'', ''--reload-include'', ''--reload-exclude'']"

definition equals_form :: "string \<Rightarrow> bool" where
  "equals_form arg = list_ex (\<lambda>f. take (Suc (length f)) arg = f @ ''='') valued_flags"

fun strip_flags :: "bool \<Rightarrow> string list \<Rightarrow> string list" where
  "strip_flags skip [] = []"
| "strip_flags skip (arg # args) =
    (if skip then strip_flags False args
     else if arg = ''--reload'' then strip_flags False args
     else if arg \<in> set valued_flags then strip_flags True args
     else if equals_form arg then strip_flags False args
     else arg # strip_flags False args)"

definition strip_reload_flags :: "string list \<Rightarrow> string list" where
  "strip_reload_flags = strip_flags False"

definition reload_filter :: "(string \<Rightarrow> string \<Rightarrow> bool) \<Rightarrow> string list \<Rightarrow> string list \<Rightarrow> string \<Rightarrow> bool" where
  "reload_filter fnmatch includes excludes name =
    (\<not> list_ex (fnmatch name) excludes \<and> list_ex (fnmatch name) includes)"

definition default_include :: "string list" where
  "default_include = [''*.py'', ''*.yaml'', ''*.yml'']"

definition is_reload_child :: "(string, string) dict \<Rightarrow> bool" where
  "is_reload_child env = (dget env ''_MURMUR_RELOAD_CHILD'' = Some ''1'')"

text \<open>
  A child is running or has a return code.  The last one is the current one; \<open>dies\<close> is
  the code it ends with within five seconds of \<open>terminate\<close>, if it does.
\<close>

type_synonym children = "int option list"

definition popen :: "children \<Rightarrow> children" where
  "popen cs = cs @ [None]"

definition terminate_child :: "(nat \<Rightarrow> int option) \<Rightarrow> children \<Rightarrow> children" where
  "terminate_child dies cs =
    (if cs = [] \<or> last cs \<noteq> None then cs
     else butlast cs @ [Some (case dies (length cs) of Some c \<Rightarrow> c | None \<Rightarrow> - 9)])"

text \<open>What happens while watching: a batch of changes, the child ends by itself, Ctrl-C.\<close>

datatype watch_event = Changes nat | ChildEnds int | CtrlC

fun watch_loop :: "(nat \<Rightarrow> int option) \<Rightarrow> watch_event list \<Rightarrow> children \<Rightarrow> children" where
  "watch_loop dies [] cs = cs"
| "watch_loop dies (CtrlC # es) cs = cs"
| "watch_loop dies (ChildEnds c # es) cs =
    watch_loop dies es (if cs \<noteq> [] \<and> last cs = None then butlast cs @ [Some c] else cs)"
| "watch_loop dies (Changes n # es) cs =
    watch_loop dies es (if n = 0 then cs else popen (terminate_child dies cs))"

record spawned =
  sp_argv :: "string list"
  sp_env :: "(string, string) dict"
  sp_patterns :: "string list \<times> string list"
  sp_children :: children
  sp_code :: int

definition reload_wrap ::
  "bool \<Rightarrow> string list \<Rightarrow> (string, string) dict \<Rightarrow> string list option \<Rightarrow> string list option
    \<Rightarrow> (nat \<Rightarrow> int option) \<Rightarrow> watch_event list \<Rightarrow> int + spawned" where
  "reload_wrap has_watchfiles argv env includes excludes dies es =
    (if \<not> has_watchfiles then Inl 2
     else let cs = terminate_child dies (watch_loop dies es (popen [])) in
       Inr \<lparr> sp_argv = strip_reload_flags argv, sp_env = dset ''_MURMUR_RELOAD_CHILD'' ''1'' env,
             sp_patterns = (case includes of None \<Rightarrow> default_include | Some i \<Rightarrow> if i = [] then default_include else i,
                            case excludes of None \<Rightarrow> [] | Some x \<Rightarrow> x),
             sp_children = cs, sp_code = (case last cs of None \<Rightarrow> 0 | Some c \<Rightarrow> c) \<rparr>)"

section \<open>Tailing the firehose\<close>

text \<open>What is relied on of the server's library: a frame is sent as three lines.\<close>

definition three_lines :: "(string \<times> string \<Rightarrow> string list) \<Rightarrow> string \<times> string \<Rightarrow> bool" where
  "three_lines lines f = (lines f = [''event: '' @ fst f, ''data: '' @ snd f, []])"

definition no_cr :: "string \<Rightarrow> bool" where
  "no_cr s = (s = [] \<or> last s \<noteq> CHR 0x0D)"

definition doc_body :: "(event_type \<Rightarrow> string) \<Rightarrow> (rat \<Rightarrow> string) \<Rightarrow> runtime_event \<Rightarrow> body" where
  "doc_body wire clock e = (case runtime_event_doc wire clock e of VDict d \<Rightarrow> d | _ \<Rightarrow> [])"

lemma doc_body_VDict: "runtime_event_doc wire clock e = VDict (doc_body wire clock e)"
  by (simp add: doc_body_def runtime_event_doc_def)

lemma rstrip_cr_same: "no_cr s \<Longrightarrow> rstrip_cr s = s"
  by (cases s rule: rev_cases) (auto simp: rstrip_cr_def no_cr_def)

lemma parse_frame:
  assumes "three_lines lines f" "no_cr (fst f)" "no_cr (snd f)"
  shows "parse_sse_frames loads current (lines f @ ls) =
    (let text = strip ('' '' @ snd f) in
     (if text = [] then [] else case loads text of Some (VDict d) \<Rightarrow> [named_body (Some (strip ('' '' @ fst f))) d] | _ \<Rightarrow> [])
     @ parse_sse_frames loads None ls)"
proof -
  have "no_cr (''event: '' @ fst f)" "no_cr (''data: '' @ snd f)" using assms(2,3) by (auto simp: no_cr_def)
  then have "rstrip_cr (''event: '' @ fst f) = ''event: '' @ fst f" "rstrip_cr (''data: '' @ snd f) = ''data: '' @ snd f"
    by (simp_all only: rstrip_cr_same)
  moreover have "rstrip_cr [] = []" by (simp add: rstrip_cr_def)
  ultimately show ?thesis
    using assms(1) by (auto simp: three_lines_def Let_def split: option.split pyval.split)
qed

lemma json_text_no_cr: "json_text dumps loads v \<Longrightarrow> no_cr (dumps v)"
proof -
  assume "json_text dumps loads v"
  then have "dumps v \<noteq> []" "rev (dropWhile is_space (rev (dropWhile is_space ('' '' @ dumps v)))) = dumps v"
    unfolding json_text_def strip_def by blast+
  then have "dumps v \<noteq> []" "rev (dumps v) = dropWhile is_space (rev (dropWhile is_space ('' '' @ dumps v)))"
    by (metis rev_rev_ident)+
  then have "\<not> is_space (hd (rev (dumps v)))" by (metis hd_dropWhile rev.simps(1) rev_is_Nil_conv)
  then show ?thesis using \<open>dumps v \<noteq> []\<close> by (auto simp: no_cr_def hd_rev is_space_def)
qed

definition matches :: "status_args \<Rightarrow> runtime_event \<Rightarrow> bool" where
  "matches A e = ((sa_types A = [] \<or> event_type_value (event_type e) \<in> set (sa_types A))
     \<and> (sa_agents A = [] \<or> ev_agent_name e \<in> set (sa_agents A)))"

lemma wanted_event: "wanted A (doc_body event_type_value clock e) = Inr (matches A e)"
  by (auto simp: wanted_def in_filter_def doc_body_def runtime_event_doc_def matches_def split: sum.split bool.split)

lemma print_events_all:
  "print_events text A (map (doc_body event_type_value clock) es) s =
    (Inr (), s\<lparr>sc_out := sc_out s @ map (\<lambda>e. format_event text (doc_body event_type_value clock e)) (filter (matches A) es)\<rparr>)"
  by (induction es arbitrary: s) (simp_all add: wanted_event)

abbreviation sent :: "(rat \<Rightarrow> string) \<Rightarrow> (pyval \<Rightarrow> string) \<Rightarrow> sse_item \<Rightarrow> string \<times> string" where
  "sent clock dumps \<equiv> firehose_frame event_type_value clock dumps"

definition carried ::
  "(string \<times> string \<Rightarrow> string list) \<Rightarrow> (rat \<Rightarrow> string) \<Rightarrow> (pyval \<Rightarrow> string) \<Rightarrow> (string \<Rightarrow> pyval option) \<Rightarrow> sse_item \<Rightarrow> bool" where
  "carried lines clock dumps loads x =
    (three_lines lines (sent clock dumps x)
     \<and> (case x of Heartbeat \<Rightarrow> True | Live e \<Rightarrow> json_text dumps loads (runtime_event_doc event_type_value clock e)))"

lemma parse_sent:
  assumes "carried lines clock dumps loads x"
  shows "parse_sse_frames loads current (lines (sent clock dumps x) @ ls) =
    (case x of Heartbeat \<Rightarrow> [] | Live e \<Rightarrow> [doc_body event_type_value clock e]) @ parse_sse_frames loads None ls"
proof (cases x)
  case Heartbeat
  then show ?thesis
    using assms parse_frame [of lines "sent clock dumps x" loads current ls]
    by (simp add: carried_def firehose_frame_def sse_frame_def no_cr_def strip_def is_space_def)
next
  case (Live e)
  have "no_cr (event_type_value t)" for t by (cases t) (simp_all add: no_cr_def)
  moreover have "named_body c (doc_body event_type_value clock e) = doc_body event_type_value clock e" for c
    by (simp add: named_body_def doc_body_def runtime_event_doc_def dhas_def split: option.split)
  moreover have j: "json_text dumps loads (VDict (doc_body event_type_value clock e))" "no_cr (dumps (VDict (doc_body event_type_value clock e)))"
    using assms Live json_text_no_cr by (auto simp: carried_def doc_body_VDict)
  ultimately show ?thesis
    using assms Live parse_frame [of lines "sent clock dumps x" loads current ls]
    by (simp add: carried_def firehose_frame_def sse_frame_def doc_body_VDict json_text_def)
qed

lemma parse_all_sent:
  "list_all (carried lines clock dumps loads) xs \<Longrightarrow>
    parse_sse_frames loads None (concat (map (\<lambda>x. lines (sent clock dumps x)) xs)) =
      map (doc_body event_type_value clock) (live_events xs)"
proof (induction xs)
  case (Cons x xs)
  then show ?case using parse_sent [of lines clock dumps loads x None] by (cases x) (simp_all add: live_events_def)
qed (simp add: live_events_def)

definition stream_of ::
  "(string \<times> string \<Rightarrow> string list) \<Rightarrow> (rat \<Rightarrow> string) \<Rightarrow> (pyval \<Rightarrow> string) \<Rightarrow> sse_item list \<Rightarrow> connection" where
  "stream_of lines clock dumps xs = Answered 200 (concat (map (\<lambda>x. lines (sent clock dumps x)) xs)) None"

text \<open>
  The status command shows what the server sends: over streams that carry events and
  heartbeats and end, it prints one line for each event that passes the filters, in
  order, whatever the streams are cut into; it opens the next stream at once, without
  waiting, and with \<open>--no-reconnect\<close> as well, which only ends it on a connection error.
\<close>

theorem status_shows_the_firehose:
  assumes "\<And>xs. xs \<in> set conns \<Longrightarrow> list_all (carried lines clock dumps loads) xs"
  shows "\<exists>t. run_status text loads A (map (stream_of lines clock dumps) conns @ rest) s = run_status text loads A rest t
    \<and> sc_out t = sc_out s @ map (\<lambda>e. format_event text (doc_body event_type_value clock e))
        (filter (matches A) (live_events (concat conns)))
    \<and> sc_sleeps t = sc_sleeps s
    \<and> (sa_no_reconnect A \<longrightarrow> fst (run_status text loads A (map (stream_of lines clock dumps) conns @ Refused msg # rest) s) = Ended 1)"
  using assms
proof (induction conns arbitrary: s)
  case Nil
  then show ?case by (intro exI [of _ s]) (simp add: live_events_def on_error_def)
next
  case (Cons xs conns)
  let ?s = "(err_line ''connected'' s)\<lparr>sc_out := sc_out s @ map (\<lambda>e. format_event text (doc_body event_type_value clock e))
        (filter (matches A) (live_events xs))\<rparr>"
  have step: "run_status text loads A (stream_of lines clock dumps xs # cs) s = run_status text loads A cs ?s" for cs
    using parse_all_sent [OF Cons.prems [of xs]] print_events_all [of "text" A clock "live_events xs" "err_line ''connected'' s"]
    by (simp add: stream_of_def err_line_def)
  from Cons.IH [of ?s] Cons.prems obtain t where
    "run_status text loads A (map (stream_of lines clock dumps) conns @ rest) ?s = run_status text loads A rest t"
    "sc_out t = sc_out ?s @ map (\<lambda>e. format_event text (doc_body event_type_value clock e)) (filter (matches A) (live_events (concat conns)))"
    "sc_sleeps t = sc_sleeps ?s"
    "sa_no_reconnect A \<longrightarrow> fst (run_status text loads A (map (stream_of lines clock dumps) conns @ Refused msg # rest) ?s) = Ended 1"
    by fastforce
  then show ?case by (intro exI [of _ t]) (simp add: step live_events_def err_line_def)
qed

lemma status_shows_the_firehose_witness:
  "\<exists>t. run_status (\<lambda>v. ''x'') (\<lambda>x. Some (runtime_event_doc event_type_value (\<lambda>_. ''now'') sample_runtime_event))
      \<lparr> sa_types = [''agent_completed''], sa_agents = [], sa_no_reconnect = True \<rparr>
      (map (stream_of sample_lines (\<lambda>_. ''now'') (\<lambda>v. ''1'')) [[Heartbeat, Live sample_runtime_event], [Live sample_runtime_event]])
      \<lparr> sc_out = [], sc_err = [], sc_sleeps = 0 \<rparr> = (Tailing, t)
    \<and> length (sc_out t) = 2 \<and> sc_sleeps t = 0"
proof -
  let ?A = "\<lparr> sa_types = [''agent_completed''], sa_agents = [], sa_no_reconnect = True \<rparr>"
  let ?conns = "[[Heartbeat, Live sample_runtime_event], [Live sample_runtime_event]]"
  let ?loads = "\<lambda>x::string. Some (runtime_event_doc event_type_value (\<lambda>_. ''now'') sample_runtime_event)"
  have "list_all (carried sample_lines (\<lambda>_. ''now'') (\<lambda>v. ''1'') ?loads) xs" if "xs \<in> set ?conns" for xs
    using that by (auto simp: carried_def three_lines_def sample_lines_def json_text_def strip_def is_space_def)
  from status_shows_the_firehose [OF this, of ?conns "\<lambda>v. ''x''" ?A "[]" "\<lparr> sc_out = [], sc_err = [], sc_sleeps = 0 \<rparr>"]
  obtain t where "run_status (\<lambda>v. ''x'') ?loads ?A (map (stream_of sample_lines (\<lambda>_. ''now'') (\<lambda>v. ''1'')) ?conns)
      \<lparr> sc_out = [], sc_err = [], sc_sleeps = 0 \<rparr> = (Tailing, t)"
    "sc_out t = map (\<lambda>e. format_event (\<lambda>v. ''x'') (doc_body event_type_value (\<lambda>_. ''now'') e))
        (filter (matches ?A) (live_events (concat ?conns)))" "sc_sleeps t = 0"
    by auto
  moreover have "matches ?A sample_runtime_event" by (simp add: matches_def sample_runtime_event_def)
  ultimately show ?thesis by (simp add: live_events_def)
qed

text \<open>A list or a dict where a filtered name should be ends the command with a traceback.\<close>

lemma unhashable_field_crashes:
  assumes "sa_types A \<noteq> []" "dget d ''event_type'' = Some (VList xs)"
  shows "\<exists>e t. print_events text A (d # ds) s = (Inl e, t)"
  using assms by (auto simp: wanted_def in_filter_def split: bool.split)

section \<open>One child at a time\<close>

fun is_change :: "watch_event \<Rightarrow> bool" where
  "is_change (Changes n) = (n \<noteq> 0)"
| "is_change _ = False"

definition one_current :: "children \<Rightarrow> bool" where
  "one_current cs = (cs \<noteq> [] \<and> None \<notin> set (butlast cs))"

lemma terminate_child_dead:
  assumes "one_current cs"
  shows "length (terminate_child dies cs) = length cs \<and> terminate_child dies cs \<noteq> [] \<and> None \<notin> set (terminate_child dies cs)"
proof (cases "last cs")
  case None
  then show ?thesis using assms by (simp add: terminate_child_def one_current_def)
next
  case (Some c)
  then have "None \<notin> set cs" using assms by (metis append_butlast_last_id one_current_def option.distinct(1) set_ConsD
        Un_iff empty_iff list.set(1) set_append)
  then show ?thesis using assms Some by (simp add: terminate_child_def one_current_def)
qed

lemma popen_current: "None \<notin> set cs \<Longrightarrow> one_current (popen cs) \<and> length (popen cs) = Suc (length cs)"
  by (simp add: popen_def one_current_def)

lemma watch_loop_children:
  "one_current cs \<Longrightarrow> one_current (watch_loop dies es cs)
    \<and> length (watch_loop dies es cs) = length cs + length (filter is_change (takeWhile (\<lambda>e. e \<noteq> CtrlC) es))"
proof (induction es arbitrary: cs)
  case (Cons e es)
  show ?case
  proof (cases e)
    case (Changes n)
    have "one_current (popen (terminate_child dies cs))" "length (popen (terminate_child dies cs)) = Suc (length cs)"
      using terminate_child_dead [OF Cons.prems] popen_current by metis+
    then show ?thesis using Cons.IH Cons.prems Changes by (cases n) simp_all
  next
    case (ChildEnds c)
    have "one_current (butlast cs @ [Some c])" "length (butlast cs @ [Some c]) = length cs"
      using Cons.prems by (auto simp: one_current_def)
    then show ?thesis using Cons.IH Cons.prems ChildEnds by simp
  qed (use Cons.prems in simp)
qed simp

definition reload_flag :: "string \<Rightarrow> bool" where
  "reload_flag a = (a = ''--reload'' \<or> a \<in> set valued_flags \<or> equals_form a)"

lemma strip_flags_clean: "a \<in> set (strip_flags skip args) \<Longrightarrow> \<not> reload_flag a \<and> a \<in> set args"
  by (induction skip args rule: strip_flags.induct) (auto simp: reload_flag_def split: if_splits)

lemma strip_flags_id: "(\<And>a. a \<in> set args \<Longrightarrow> \<not> reload_flag a) \<Longrightarrow> strip_flags False args = args"
  by (induction args) (simp_all add: reload_flag_def)



end
