(* ===== verification/Command_Args.thy ===== *)
theory Command_Args
  imports Command_Watch
begin

text \<open>
  What \<open>murmur\<close> reads from its command line: the options that \<open>register_serve\<close>,
  \<open>register_worker\<close> and \<open>register_status\<close> declare, and how \<open>argparse\<close> reads a list of
  arguments against them (exact and abbreviated flags, \<open>--flag=value\<close>, mutual exclusion,
  required options, help).  \<open>int\<close>, \<open>float\<close> and \<open>Path\<close> are arguments; the rest of the line
  of \<open>run\<close> is kept as it is.  Every complaint ends the program with code 2.
\<close>

section \<open>Declared options\<close>

datatype arity = Switch | Value | Repeated | ShowHelp

datatype value_type = Text | PathText | Whole | Real

text \<open>\<open>op_choice\<close> marks the members of the mutually exclusive group.\<close>

record option_spec =
  op_flag :: string
  op_arity :: arity
  op_type :: value_type
  op_choice :: bool
  op_needed :: bool

abbreviation option_of :: "string \<Rightarrow> arity \<Rightarrow> value_type \<Rightarrow> option_spec" where
  "option_of f a t \<equiv> \<lparr> op_flag = f, op_arity = a, op_type = t, op_choice = False, op_needed = False \<rparr>"

record grammar =
  gr_options :: "option_spec list"
  gr_choice_needed :: bool

definition help_option :: option_spec where
  "help_option = option_of ''--help'' ShowHelp Text"

definition reload_options :: "option_spec list" where
  "reload_options =
    [option_of ''--reload'' Switch Text, option_of ''--reload-dir'' Repeated PathText,
     option_of ''--reload-include'' Repeated Text, option_of ''--reload-exclude'' Repeated Text]"

definition serve_grammar :: grammar where
  "serve_grammar = \<lparr> gr_options =
     [help_option,
      (option_of ''--agents'' Value Text)\<lparr>op_choice := True\<rparr>, (option_of ''--all-from'' Value PathText)\<lparr>op_choice := True\<rparr>,
      option_of ''--specs'' Value PathText, option_of ''--broker'' Value Text, option_of ''--publish-events'' Switch Text,
      option_of ''--host'' Value Text, option_of ''--port'' Value Whole, option_of ''--heartbeat-interval'' Value Real,
      option_of ''--no-events'' Switch Text, option_of ''--dashboard-dir'' Value PathText, option_of ''--event-store'' Value Text]
     @ reload_options @ [option_of ''--uvloop'' Switch Text], gr_choice_needed = False \<rparr>"

definition worker_grammar :: grammar where
  "worker_grammar = \<lparr> gr_options =
     [help_option,
      (option_of ''--agents'' Value Text)\<lparr>op_choice := True\<rparr>, (option_of ''--all-from'' Value PathText)\<lparr>op_choice := True\<rparr>,
      (option_of ''--broker'' Value Text)\<lparr>op_needed := True\<rparr>, option_of ''--specs'' Value PathText,
      option_of ''--concurrency'' Value Whole, option_of ''--prefetch'' Value Whole,
      option_of ''--heartbeat-seconds'' Value Real, option_of ''--reclaim-min-idle-ms'' Value Whole,
      option_of ''--consumer-id'' Value Text]
     @ reload_options @ [option_of ''--uvloop'' Switch Text], gr_choice_needed = True \<rparr>"

definition status_grammar :: grammar where
  "status_grammar = \<lparr> gr_options =
     [help_option, option_of ''--url'' Value Text, option_of ''--filter-event-type'' Repeated Text,
      option_of ''--filter-agent'' Repeated Text, option_of ''--no-reconnect'' Switch Text], gr_choice_needed = False \<rparr>"

definition main_grammar :: grammar where
  "main_grammar = \<lparr> gr_options = [help_option, option_of ''--log-level'' Value Text], gr_choice_needed = False \<rparr>"

section \<open>Arguments as tokens\<close>

datatype token = Opt option_spec "string option" | Unknown string | Word string

definition split_eq :: "string \<Rightarrow> string \<times> string option" where
  "split_eq a =
    (if CHR ''='' \<in> set a
     then (takeWhile (\<lambda>c. c \<noteq> CHR ''='') a, Some (tl (dropWhile (\<lambda>c. c \<noteq> CHR ''='') a))) else (a, None))"

definition is_digit :: "char \<Rightarrow> bool" where
  "is_digit c = (of_char c \<in> {48 .. 57 :: nat})"

definition negative_number :: "string \<Rightarrow> bool" where
  "negative_number a =
    (take 1 a = ''-'' \<and>
      (let whole = takeWhile is_digit (tl a); rest = dropWhile is_digit (tl a) in
       if rest = [] then whole \<noteq> [] else hd rest = CHR ''.'' \<and> tl rest \<noteq> [] \<and> list_all is_digit (tl rest)))"

definition exact :: "grammar \<Rightarrow> string \<Rightarrow> option_spec option" where
  "exact G f = find (\<lambda>p. op_flag p = f) (gr_options G)"

definition abbreviated :: "grammar \<Rightarrow> string \<Rightarrow> option_spec list" where
  "abbreviated G f = (if take 2 f = ''--'' then filter (\<lambda>p. take (length f) (op_flag p) = f) (gr_options G) else [])"

definition classify :: "grammar \<Rightarrow> string \<Rightarrow> string + token" where
  "classify G a =
    (if take 1 a \<noteq> ''-'' then Inr (Word a)
     else case exact G (if a = ''-h'' then ''--help'' else a) of
       Some p \<Rightarrow> Inr (Opt p None)
     | None \<Rightarrow>
        if a = ''-'' then Inr (Word a)
        else case split_eq a of (f, v) \<Rightarrow>
          (case (if v = None then None else exact G f) of
             Some p \<Rightarrow> Inr (Opt p v)
           | None \<Rightarrow>
              (case abbreviated G f of
                 [p] \<Rightarrow> Inr (Opt p v)
               | p # q # ps \<Rightarrow> Inl (''ambiguous option: '' @ a)
               | [] \<Rightarrow> Inr (if negative_number a \<or> CHR '' '' \<in> set a then Word a else Unknown a))))"

text \<open>A bare \<open>--\<close> and what follows it are no option and no value of one.\<close>

fun tokens :: "grammar \<Rightarrow> string list \<Rightarrow> string + token list" where
  "tokens G [] = Inr []"
| "tokens G (a # as) =
    (if a = ''--'' then Inr (map Unknown (a # as))
     else case classify G a of
       Inl e \<Rightarrow> Inl e
     | Inr t \<Rightarrow> map_sum id ((#) t) (tokens G as))"

section \<open>Reading the tokens\<close>

datatype 'a parsed = Usage string | Help | Parsed 'a

record readers =
  rd_int :: "string \<Rightarrow> int option"
  rd_float :: "string \<Rightarrow> rat option"
  rd_path :: "string \<Rightarrow> string"

type_synonym occurrence = "option_spec \<times> string"

definition readable :: "readers \<Rightarrow> option_spec \<Rightarrow> string \<Rightarrow> bool" where
  "readable R p w =
    (case op_type p of Text \<Rightarrow> True | PathText \<Rightarrow> True | Whole \<Rightarrow> rd_int R w \<noteq> None | Real \<Rightarrow> rd_float R w \<noteq> None)"

definition conflicting :: "option_spec \<Rightarrow> occurrence list \<Rightarrow> bool" where
  "conflicting p occ = (op_choice p \<and> list_ex (\<lambda>q. op_choice (fst q) \<and> fst q \<noteq> p) occ)"

definition finish :: "grammar \<Rightarrow> occurrence list \<Rightarrow> bool \<Rightarrow> occurrence list parsed" where
  "finish G occ extra =
    (if \<not> list_all (\<lambda>p. op_needed p \<longrightarrow> p \<in> fst ` set occ) (gr_options G) then Usage ''the following arguments are required''
     else if gr_choice_needed G \<and> \<not> list_ex (\<lambda>q. op_choice (fst q)) occ then Usage ''one of the arguments is required''
     else if extra then Usage ''unrecognized arguments''
     else Parsed occ)"

fun consume :: "readers \<Rightarrow> grammar \<Rightarrow> token list \<Rightarrow> occurrence list \<Rightarrow> bool \<Rightarrow> occurrence list parsed" where
  "consume R G [] occ extra = finish G occ extra"
| "consume R G (Word w # ts) occ extra = consume R G ts occ True"
| "consume R G (Unknown a # ts) occ extra = consume R G ts occ True"
| "consume R G (Opt p (Some w) # ts) occ extra =
    (if op_arity p \<in> {Switch, ShowHelp} then Usage ''ignored explicit argument''
     else if \<not> readable R p w then Usage ''invalid value''
     else if conflicting p occ then Usage ''not allowed with argument''
     else consume R G ts (occ @ [(p, w)]) extra)"
| "consume R G (Opt p None # ts) occ extra =
    (case op_arity p of
       ShowHelp \<Rightarrow> Help
     | Switch \<Rightarrow> consume R G ts (occ @ [(p, [])]) extra
     | _ \<Rightarrow>
        (case ts of
           Word w # us \<Rightarrow>
             if \<not> readable R p w then Usage ''invalid value''
             else if conflicting p occ then Usage ''not allowed with argument''
             else consume R G us (occ @ [(p, w)]) extra
         | _ \<Rightarrow> Usage ''expected one argument''))"

definition parse_options :: "readers \<Rightarrow> grammar \<Rightarrow> string list \<Rightarrow> occurrence list parsed" where
  "parse_options R G argv =
    (case tokens G argv of Inl e \<Rightarrow> Usage e | Inr ts \<Rightarrow> consume R G ts [] False)"

section \<open>What the commands are given\<close>

definition values_of :: "string \<Rightarrow> occurrence list \<Rightarrow> string list" where
  "values_of f occ = map snd (filter (\<lambda>q. op_flag (fst q) = f) occ)"

definition value_of :: "string \<Rightarrow> occurrence list \<Rightarrow> string option" where
  "value_of f occ = (if values_of f occ = [] then None else Some (last (values_of f occ)))"

definition is_on :: "string \<Rightarrow> occurrence list \<Rightarrow> bool" where
  "is_on f occ = (values_of f occ \<noteq> [])"

definition path_value :: "readers \<Rightarrow> string \<Rightarrow> occurrence list \<Rightarrow> string option" where
  "path_value R f occ = map_option (rd_path R) (value_of f occ)"

definition whole_value :: "readers \<Rightarrow> string \<Rightarrow> int \<Rightarrow> occurrence list \<Rightarrow> int" where
  "whole_value R f d occ = or_default (Option.bind (value_of f occ) (rd_int R)) d"

definition real_value :: "readers \<Rightarrow> string \<Rightarrow> rat \<Rightarrow> occurrence list \<Rightarrow> rat" where
  "real_value R f d occ = or_default (Option.bind (value_of f occ) (rd_float R)) d"

definition selection_of :: "readers \<Rightarrow> occurrence list \<Rightarrow> selection" where
  "selection_of R occ =
    (case path_value R ''--all-from'' occ of
       Some p \<Rightarrow> AllFrom p
     | None \<Rightarrow> (case value_of ''--agents'' occ of Some x \<Rightarrow> Named x | None \<Rightarrow> Everything))"

definition serve_args_of :: "readers \<Rightarrow> occurrence list \<Rightarrow> serve_args" where
  "serve_args_of R occ = \<lparr> se_selection = selection_of R occ,
     se_specs = or_default (path_value R ''--specs'' occ) (rd_path R ''./specs''),
     se_broker = value_of ''--broker'' occ, se_publish_events = is_on ''--publish-events'' occ,
     se_host = or_default (value_of ''--host'' occ) ''0.0.0.0'', se_port = whole_value R ''--port'' 8420 occ,
     se_heartbeat_interval = real_value R ''--heartbeat-interval'' 15 occ, se_no_events = is_on ''--no-events'' occ,
     se_dashboard_dir = path_value R ''--dashboard-dir'' occ, se_event_store = value_of ''--event-store'' occ \<rparr>"

definition worker_args_of :: "readers \<Rightarrow> occurrence list \<Rightarrow> worker_args" where
  "worker_args_of R occ = \<lparr> wk_selection = selection_of R occ,
     wk_specs = or_default (path_value R ''--specs'' occ) (rd_path R ''./specs''),
     wk_broker = or_default (value_of ''--broker'' occ) [], wk_concurrency = whole_value R ''--concurrency'' 10 occ,
     wk_prefetch = whole_value R ''--prefetch'' 5 occ, wk_heartbeat_seconds = real_value R ''--heartbeat-seconds'' 30 occ,
     wk_reclaim_min_idle_ms = whole_value R ''--reclaim-min-idle-ms'' 30000 occ,
     wk_consumer_id = value_of ''--consumer-id'' occ \<rparr>"

record reload_args =
  rl_on :: bool
  rl_dirs :: "string list option"
  rl_includes :: "string list option"
  rl_excludes :: "string list option"
  rl_uvloop :: bool

definition appended :: "string list \<Rightarrow> string list option" where
  "appended xs = (if xs = [] then None else Some xs)"

definition reload_args_of :: "readers \<Rightarrow> occurrence list \<Rightarrow> reload_args" where
  "reload_args_of R occ = \<lparr> rl_on = is_on ''--reload'' occ,
     rl_dirs = appended (map (rd_path R) (values_of ''--reload-dir'' occ)),
     rl_includes = appended (values_of ''--reload-include'' occ),
     rl_excludes = appended (values_of ''--reload-exclude'' occ), rl_uvloop = is_on ''--uvloop'' occ \<rparr>"

datatype command =
    ServeCommand serve_args reload_args
  | WorkerCommand worker_args reload_args
  | StatusCommand string status_args
  | ValidateCommand string
  | RunCommand string "string list"

definition default_url :: string where
  "default_url = ''http://127.0.0.1:8420/events/stream''"

definition status_command_of :: "occurrence list \<Rightarrow> command" where
  "status_command_of occ = StatusCommand (or_default (value_of ''--url'' occ) default_url)
     \<lparr> sa_types = values_of ''--filter-event-type'' occ, sa_agents = values_of ''--filter-agent'' occ,
       sa_no_reconnect = is_on ''--no-reconnect'' occ \<rparr>"

fun map_parsed :: "('a \<Rightarrow> 'b) \<Rightarrow> 'a parsed \<Rightarrow> 'b parsed" where
  "map_parsed f (Usage e) = Usage e"
| "map_parsed f Help = Help"
| "map_parsed f (Parsed x) = Parsed (f x)"

definition serve_command :: "readers \<Rightarrow> string list \<Rightarrow> command parsed" where
  "serve_command R as = map_parsed (\<lambda>occ. ServeCommand (serve_args_of R occ) (reload_args_of R occ)) (parse_options R serve_grammar as)"

definition worker_command :: "readers \<Rightarrow> string list \<Rightarrow> command parsed" where
  "worker_command R as = map_parsed (\<lambda>occ. WorkerCommand (worker_args_of R occ) (reload_args_of R occ)) (parse_options R worker_grammar as)"

section \<open>Subcommands\<close>

text \<open>
  A parser with subcommands: the first word names one, and all that follows is its own.
  \<open>arg\<close> is the value of the one option such a parser may have.
\<close>

fun dispatch_command ::
  "(string \<Rightarrow> string list \<Rightarrow> 'a parsed) \<Rightarrow> token list \<Rightarrow> string list \<Rightarrow> string \<Rightarrow> bool \<Rightarrow> (string \<times> 'a) parsed" where
  "dispatch_command sub (Word w # ts) (a # as) arg extra =
    (case sub w as of
       Usage e \<Rightarrow> Usage e
     | Help \<Rightarrow> Help
     | Parsed c \<Rightarrow> if extra then Usage ''unrecognized arguments'' else Parsed (arg, c))"
| "dispatch_command sub (Unknown u # ts) (a # as) arg extra = dispatch_command sub ts as arg True"
| "dispatch_command sub (Opt p (Some v) # ts) (a # as) arg extra =
    (if op_arity p = ShowHelp then Usage ''ignored explicit argument'' else dispatch_command sub ts as v extra)"
| "dispatch_command sub (Opt p None # ts) (a # as) arg extra =
    (if op_arity p = ShowHelp then Help
     else case (ts, as) of
       (Word w # us, b # bs) \<Rightarrow> dispatch_command sub us bs w extra
     | _ \<Rightarrow> Usage ''expected one argument'')"
| "dispatch_command sub ts as arg extra = Usage ''the following arguments are required''"

definition enter ::
  "grammar \<Rightarrow> (string \<Rightarrow> string list \<Rightarrow> 'a parsed) \<Rightarrow> string \<Rightarrow> string list \<Rightarrow> (string \<times> 'a) parsed" where
  "enter G sub arg argv = (case tokens G argv of Inl e \<Rightarrow> Usage e | Inr ts \<Rightarrow> dispatch_command sub ts argv arg False)"

definition help_grammar :: grammar where
  "help_grammar = \<lparr> gr_options = [help_option], gr_choice_needed = False \<rparr>"

text \<open>Of a positional argument and the words after it; \<open>--\<close> makes words of the rest.\<close>

fun one_positional :: "token list \<Rightarrow> string option \<Rightarrow> bool \<Rightarrow> string parsed" where
  "one_positional [] (Some w) extra = (if extra then Usage ''unrecognized arguments'' else Parsed w)"
| "one_positional [] None extra = Usage ''the following arguments are required''"
| "one_positional (Word w # ts) None extra = one_positional ts (Some w) extra"
| "one_positional (Opt p None # ts) got extra = Help"
| "one_positional (Opt p (Some v) # ts) got extra = Usage ''ignored explicit argument''"
| "one_positional (t # ts) got extra = one_positional ts got True"

definition validate_args :: "readers \<Rightarrow> string list \<Rightarrow> command parsed" where
  "validate_args R as =
    (let plain = takeWhile (\<lambda>a. a \<noteq> ''--'') as; rest = tl (dropWhile (\<lambda>a. a \<noteq> ''--'') as) in
     case tokens help_grammar plain of
       Inl e \<Rightarrow> Usage e
     | Inr ts \<Rightarrow> map_parsed (\<lambda>w. ValidateCommand (rd_path R w)) (one_positional (ts @ map Word rest) None False))"

text \<open>The rest of the line of \<open>run\<close> is the script's; one \<open>--\<close> after the script is dropped.\<close>

fun run_args :: "readers \<Rightarrow> string list \<Rightarrow> bool \<Rightarrow> command parsed" where
  "run_args R [] extra = Usage ''the following arguments are required''"
| "run_args R (a # as) extra =
    (if a = ''--''
     then (case as of
             [] \<Rightarrow> Usage ''the following arguments are required''
           | s # rest \<Rightarrow> if extra then Usage ''unrecognized arguments'' else Parsed (RunCommand (rd_path R s) rest))
     else case classify help_grammar a of
       Inl e \<Rightarrow> Usage e
     | Inr (Word w) \<Rightarrow>
        if extra then Usage ''unrecognized arguments''
        else Parsed (RunCommand (rd_path R w) (if take 1 as = [''--''] then tl as else as))
     | Inr (Unknown u) \<Rightarrow> run_args R as True
     | Inr (Opt p v) \<Rightarrow> if v = None then Help else Usage ''ignored explicit argument'')"

definition subcommand :: "readers \<Rightarrow> string \<Rightarrow> string list \<Rightarrow> command parsed" where
  "subcommand R w as =
    (if w = ''run'' then run_args R as False
     else if w = ''validate'' then validate_args R as
     else if w = ''worker''
     then map_parsed snd (enter help_grammar
            (\<lambda>v bs. if v = ''start'' then worker_command R bs else Usage ''invalid choice'') [] as)
     else if w = ''serve'' then serve_command R as
     else if w = ''status'' then map_parsed status_command_of (parse_options R status_grammar as)
     else Usage ''invalid choice'')"

text \<open>The level of the log and the command.\<close>

definition parse_args :: "readers \<Rightarrow> string list \<Rightarrow> (string \<times> command) parsed" where
  "parse_args R argv = enter main_grammar (subcommand R) ''INFO'' argv"

text \<open>
  \<open>handlers\<close> are the commands; help ends with 0 and a complaint with 2.  \<open>logging\<close> is
  what configuring the level of the log raises: an unknown one is no complaint.
\<close>

definition main ::
  "readers \<Rightarrow> (string \<Rightarrow> exn option) \<Rightarrow> (command \<Rightarrow> exn + int) \<Rightarrow> string list \<Rightarrow> exn + int" where
  "main R logging handlers argv =
    (case parse_args R argv of
       Usage e \<Rightarrow> Inr 2
     | Help \<Rightarrow> Inr 0
     | Parsed (level, c) \<Rightarrow> (case logging level of Some e \<Rightarrow> Inl e | None \<Rightarrow> handlers c))"

section \<open>The child of the reload wrapper reads the same command\<close>

definition reload_names :: "string set" where
  "reload_names = op_flag ` set reload_options"

abbreviation own :: "occurrence list \<Rightarrow> occurrence list" where
  "own occ \<equiv> filter (\<lambda>q. op_flag (fst q) \<notin> reload_names) occ"

definition reloadable :: "grammar \<Rightarrow> bool" where
  "reloadable G =
    (list_all (\<lambda>p. exact G (op_flag p) = Some p \<and> \<not> op_choice p \<and> \<not> op_needed p) reload_options
     \<and> list_all (\<lambda>p. take 2 (op_flag p) = ''--'' \<and> CHR ''='' \<notin> set (op_flag p)
          \<and> (op_flag p \<in> reload_names \<longrightarrow> \<not> op_choice p \<and> \<not> op_needed p)) (gr_options G))"

lemma reloadable_grammars: "reloadable serve_grammar" "reloadable worker_grammar"
  by code_simp+

lemma classify_word: "classify G a = Inr (Word w) \<Longrightarrow> w = a"
  by (auto simp: classify_def split: if_splits option.splits prod.splits list.splits)

lemma classify_option: "classify G a = Inr (Opt p v) \<Longrightarrow> p \<in> set (gr_options G)"
  by (auto simp: classify_def exact_def abbreviated_def find_Some_iff filter_eq_Cons_iff
      split: if_splits option.splits prod.splits list.splits)

lemma split_eq_flag: "CHR ''='' \<notin> set f \<Longrightarrow> split_eq (f @ CHR ''='' # v) = (f, Some v)"
  by (simp add: split_eq_def takeWhile_append dropWhile_append)

lemma two_dashes: "take 2 f = ''--'' \<Longrightarrow> \<exists>g. f = CHR ''-'' # CHR ''-'' # g"
  by (cases f; cases "tl f") auto

lemma classify_exact:
  assumes "exact G f = Some p" "take 2 f = ''--''"
  shows "classify G f = Inr (Opt p None)"
proof -
  have "take 1 f = ''-''" "f \<noteq> ''-h''" using two_dashes [OF assms(2)] by auto
  then show ?thesis using assms(1) by (simp add: classify_def)
qed

lemma classify_equals:
  assumes "exact G f = Some p" "take 2 f = ''--''" "CHR ''='' \<notin> set f"
    and "list_all (\<lambda>q. CHR ''='' \<notin> set (op_flag q)) (gr_options G)"
  shows "classify G (f @ CHR ''='' # v) = Inr (Opt p (Some v))"
proof -
  have a: "take 1 (f @ CHR ''='' # v) = ''-''" "f @ CHR ''='' # v \<noteq> ''-h''" "f @ CHR ''='' # v \<noteq> ''-''"
    using two_dashes [OF assms(2)] by auto
  have "exact G (f @ CHR ''='' # v) = None" using assms(4) by (auto simp: exact_def find_None_iff list_all_iff)
  then show ?thesis using a assms(1) split_eq_flag [OF assms(3)] by (simp add: classify_def)
qed

lemma reloadableD:
  assumes "reloadable G"
  shows "p \<in> set reload_options \<Longrightarrow> exact G (op_flag p) = Some p"
    and "list_all (\<lambda>q. CHR ''='' \<notin> set (op_flag q)) (gr_options G)"
    and "p \<in> set (gr_options G) \<Longrightarrow> op_flag p \<in> reload_names \<Longrightarrow> \<not> op_choice p \<and> \<not> op_needed p"
  using assms by (auto simp: reloadable_def list_all_iff)

lemma reload_option_flags: "p \<in> set reload_options \<Longrightarrow> take 2 (op_flag p) = ''--'' \<and> CHR ''='' \<notin> set (op_flag p)"
  by (auto simp: reload_options_def)

text \<open>The arguments the wrapper drops are occurrences of reload options.\<close>

lemma dropped_arguments:
  assumes "reloadable G"
  shows "classify G ''--reload'' = Inr (Opt (option_of ''--reload'' Switch Text) None)"
    and "a \<in> set valued_flags \<Longrightarrow> \<exists>p \<in> set reload_options. op_arity p = Repeated \<and> classify G a = Inr (Opt p None)"
    and "equals_form a \<Longrightarrow> \<exists>p v. p \<in> set reload_options \<and> classify G a = Inr (Opt p (Some v))"
proof -
  have flag: "classify G (op_flag p) = Inr (Opt p None)" if "p \<in> set reload_options" for p
    using classify_exact reloadableD(1) [OF assms] reload_option_flags that by blast
  show "classify G ''--reload'' = Inr (Opt (option_of ''--reload'' Switch Text) None)"
    using flag [of "option_of ''--reload'' Switch Text"] by (simp add: reload_options_def)
  have valued: "\<exists>p \<in> set reload_options. op_arity p = Repeated \<and> op_flag p = f" if "f \<in> set valued_flags" for f
    using that by (auto simp: valued_flags_def reload_options_def)
  then show "a \<in> set valued_flags \<Longrightarrow> \<exists>p \<in> set reload_options. op_arity p = Repeated \<and> classify G a = Inr (Opt p None)"
    using flag by blast
  show "\<exists>p v. p \<in> set reload_options \<and> classify G a = Inr (Opt p (Some v))" if eq: "equals_form a"
  proof -
    obtain f where f: "f \<in> set valued_flags" "take (Suc (length f)) a = f @ ''=''"
      using eq by (auto simp: equals_form_def list_ex_iff)
    then have "a = f @ CHR ''='' # drop (Suc (length f)) a" by (metis append.assoc append_Cons append_Nil append_take_drop_id)
    moreover obtain p where "p \<in> set reload_options" "op_flag p = f" using valued [OF f(1)] by blast
    ultimately show ?thesis
      using classify_equals [of G f p] reloadableD(1,2) [OF assms] reload_option_flags [of p] by metis
  qed
qed

lemma word_is_kept: "reloadable G \<Longrightarrow> classify G a = Inr (Word w) \<Longrightarrow> w = a \<and> \<not> reload_flag a"
  using dropped_arguments [of G] classify_word [of G a w] by (fastforce simp: reload_flag_def)

lemma strip_kept: "\<not> reload_flag a \<Longrightarrow> strip_flags False (a # as) = a # strip_flags False as"
  by (simp add: reload_flag_def)

lemma extra_is_refused: "consume R G ts occ True \<noteq> Parsed x"
proof (induction R G ts occ "True" rule: consume.induct)
  case (5 R G p ts occ)
  then show ?case by (auto split: arity.split list.split token.split)
qed (auto simp: finish_def)

definition from_grammar :: "grammar \<Rightarrow> occurrence list \<Rightarrow> bool" where
  "from_grammar G occ = (fst ` set occ \<subseteq> set (gr_options G))"

text \<open>What decides about an occurrence and about the whole are the options that are not the wrapper's.\<close>

lemma own_decides:
  assumes "reloadable G" "from_grammar G occ" "from_grammar G occ'" "own occ' = own occ"
  shows "conflicting p occ' = conflicting p occ"
    and "finish G occ extra = Parsed x \<Longrightarrow> x = occ \<and> finish G occ' extra = Parsed occ'"
proof -
  have kept: "q \<in> set occ \<longleftrightarrow> q \<in> set occ'" if "op_flag (fst q) \<notin> reload_names" for q
    using arg_cong [OF assms(4), of set] that by auto
  have chosen: "op_flag (fst q) \<notin> reload_names" if "q \<in> set occ \<union> set occ'" "op_choice (fst q)" for q
    using reloadableD(3) [OF assms(1), of "fst q"] assms(2,3) that by (auto simp: from_grammar_def)
  have choice: "q \<in> set occ' \<and> op_choice (fst q) \<longleftrightarrow> q \<in> set occ \<and> op_choice (fst q)" for q
    using kept [of q] chosen [of q] by blast
  show "conflicting p occ' = conflicting p occ"
    unfolding conflicting_def list_ex_iff using choice by blast
  have "list_ex (\<lambda>q. op_choice (fst q)) occ' = list_ex (\<lambda>q. op_choice (fst q)) occ"
    unfolding list_ex_iff using choice by blast
  moreover have "p \<in> fst ` set occ' \<longleftrightarrow> p \<in> fst ` set occ" if "p \<in> set (gr_options G)" "op_needed p" for p
  proof -
    have "op_flag p \<notin> reload_names" using reloadableD(3) [OF assms(1) that(1)] that(2) by blast
    then have "(p, w) \<in> set occ' \<longleftrightarrow> (p, w) \<in> set occ" for w using kept [of "(p, w)"] by simp
    then show ?thesis by force
  qed
  ultimately show "finish G occ extra = Parsed x \<Longrightarrow> x = occ \<and> finish G occ' extra = Parsed occ'"
    by (auto simp: finish_def list_all_iff split: if_splits)
qed

lemma from_grammar_snoc: "from_grammar G occ \<Longrightarrow> p \<in> set (gr_options G) \<Longrightarrow> from_grammar G (occ @ [(p, w)])"
  by (simp add: from_grammar_def)

lemma own_snoc: "own occ' = own occ \<Longrightarrow> own (occ' @ [(p, w)]) = own (occ @ [(p, w)])"
  by simp

lemma own_reload: "p \<in> set reload_options \<Longrightarrow> own (occ @ [(p, w)]) = own occ"
  by (simp add: reload_names_def)

lemma map_sum_Inr_conv: "map_sum f g x = Inr y \<longleftrightarrow> (\<exists>z. x = Inr z \<and> y = g z)"
  by (cases x) auto

lemma tokens_Cons:
  assumes "tokens G (a # as) = Inr ts" "a \<noteq> ''--''"
  obtains t us where "classify G a = Inr t" "tokens G as = Inr us" "ts = t # us"
  using assms by (cases "classify G a"; cases "tokens G as") auto

text \<open>What an option takes from the tokens after it.\<close>

definition takes :: "readers \<Rightarrow> option_spec \<Rightarrow> string option \<Rightarrow> token list \<Rightarrow> string \<Rightarrow> token list \<Rightarrow> bool" where
  "takes R p v us w rest =
    (if op_arity p = Switch then v = None \<and> w = [] \<and> rest = us
     else op_arity p \<noteq> ShowHelp \<and> readable R p w
       \<and> (case v of Some x \<Rightarrow> w = x \<and> rest = us | None \<Rightarrow> us = Word w # rest))"

lemma consume_takes:
  "consume R G (Opt p v # us) occ extra = Parsed x \<longleftrightarrow>
    (\<exists>w rest. takes R p v us w rest \<and> (op_arity p = Switch \<or> \<not> conflicting p occ)
       \<and> consume R G rest (occ @ [(p, w)]) extra = Parsed x)"
  by (cases v; cases "op_arity p") (auto simp: takes_def split: list.split token.split)

text \<open>The arguments an option occupies are its own and perhaps one word.\<close>

definition spans :: "grammar \<Rightarrow> option_spec \<Rightarrow> string option \<Rightarrow> string list \<Rightarrow> string \<Rightarrow> bool" where
  "spans G p v front w =
    (front = (if v = None \<and> op_arity p \<noteq> Switch then [w] else [])
     \<and> (\<forall>a \<in> set front. a \<noteq> ''--'' \<and> classify G a = Inr (Word a)))"

lemma takes_spans:
  assumes "takes R p v us w rest" "tokens G as = Inr us"
  obtains front bs where "as = front @ bs" "tokens G bs = Inr rest" "spans G p v front w"
proof (cases "v = None \<and> op_arity p \<noteq> Switch")
  case True
  then have "us = Word w # rest" using assms(1) by (simp add: takes_def)
  then obtain b bs where "as = b # bs" "b \<noteq> ''--''" "classify G b = Inr (Word w)" "tokens G bs = Inr rest"
    using assms(2) by (cases as) (auto simp: map_sum_Inr_conv split: if_splits sum.splits)
  then show thesis using that [of "[b]" bs] classify_word True by (auto simp: spans_def)
next
  case False
  then show thesis using that [of "[]" as] assms by (auto simp: takes_def spans_def split: option.splits if_splits)
qed

lemma spans_takes:
  assumes "takes R p v us w rest" "spans G p v front w" "tokens G bs = Inr ts"
  shows "tokens G (front @ bs) = Inr (map Word front @ ts)" "takes R p v (map Word front @ ts) w ts"
  using assms by (auto simp: spans_def takes_def split: option.splits if_splits)

lemma dropped_option:
  assumes G: "reloadable G" and "reload_flag a" "classify G a = Inr (Opt p v)" "spans G p v front w"
  shows "p \<in> set reload_options" "strip_flags False (a # front @ bs) = strip_flags False bs"
proof -
  from assms(2) consider "a = ''--reload''" | "a \<in> set valued_flags" "a \<noteq> ''--reload''"
    | "equals_form a" "a \<notin> set valued_flags" "a \<noteq> ''--reload''"
    by (auto simp: reload_flag_def)
  then have "p \<in> set reload_options \<and> strip_flags False (a # front @ bs) = strip_flags False bs"
  proof cases
    case 1
    then have "p = option_of ''--reload'' Switch Text" using dropped_arguments(1) [OF G] assms(3) by simp
    then show ?thesis using assms(4) 1 by (simp add: reload_options_def spans_def)
  next
    case 2
    then have "p \<in> set reload_options" "op_arity p = Repeated" "v = None"
      using dropped_arguments(2) [OF G 2(1)] assms(3) by auto
    then show ?thesis using assms(4) 2 by (simp add: spans_def)
  next
    case 3
    then have "p \<in> set reload_options" "v \<noteq> None" using dropped_arguments(3) [OF G 3(1)] assms(3) by auto
    then have "front = []" using assms(4) by (auto simp: spans_def)
    then show ?thesis using \<open>p \<in> set reload_options\<close> 3 by simp
  qed
  then show "p \<in> set reload_options" "strip_flags False (a # front @ bs) = strip_flags False bs" by blast+
qed

lemma strip_kept_front:
  "(\<And>b. b \<in> set front \<Longrightarrow> \<not> reload_flag b) \<Longrightarrow> strip_flags False (front @ bs) = front @ strip_flags False bs"
  by (induction front) (simp_all add: strip_kept del: strip_flags.simps)

lemma kept_option:
  assumes "reloadable G" "\<not> reload_flag a" "spans G p v front w"
  shows "strip_flags False (a # front @ bs) = a # front @ strip_flags False bs"
proof -
  have "\<not> reload_flag b" if "b \<in> set front" for b
    using that assms(3) word_is_kept [OF assms(1), of b b] by (simp add: spans_def)
  then have "strip_flags False (front @ bs) = front @ strip_flags False bs" by (rule strip_kept_front)
  then show ?thesis using strip_kept [OF assms(2)] by simp
qed

text \<open>
  Reading the arguments a child gets, after what was read so far, and reading the
  parent's, give the same own options.
\<close>

definition same_reading :: "readers \<Rightarrow> grammar \<Rightarrow> string list \<Rightarrow> occurrence list \<Rightarrow> occurrence list \<Rightarrow> bool" where
  "same_reading R G argv occ' x =
    (\<exists>ts' x'. tokens G (strip_flags False argv) = Inr ts' \<and> consume R G ts' occ' False = Parsed x' \<and> own x' = own x)"

lemma same_reading_kept:
  assumes "reloadable G" "\<not> reload_flag a" "a \<noteq> ''--''" "classify G a = Inr (Opt p v)" "takes R p v us w rest"
    and "spans G p v front w" "op_arity p = Switch \<or> \<not> conflicting p occ'"
    and "same_reading R G bs (occ' @ [(p, w)]) x"
  shows "same_reading R G (a # front @ bs) occ' x"
proof -
  from assms(8) obtain ts' x' where
    n: "tokens G (strip_flags False bs) = Inr ts'" "consume R G ts' (occ' @ [(p, w)]) False = Parsed x'" "own x' = own x"
    by (auto simp: same_reading_def)
  note read = spans_takes [OF assms(5,6) n(1)]
  have "tokens G (a # front @ strip_flags False bs) = Inr (Opt p v # map Word front @ ts')"
    using read(1) assms(3,4) by simp
  moreover have "consume R G (Opt p v # map Word front @ ts') occ' False = Parsed x'"
    using n(2) read(2) assms(7) consume_takes by blast
  ultimately show ?thesis using n(3) kept_option [OF assms(1,2,6)] by (simp add: same_reading_def)
qed

lemma child_consume:
  assumes G: "reloadable G"
  shows "tokens G argv = Inr ts \<Longrightarrow> consume R G ts occ False = Parsed x \<Longrightarrow> own occ' = own occ
    \<Longrightarrow> from_grammar G occ \<Longrightarrow> from_grammar G occ' \<Longrightarrow> same_reading R G argv occ' x"
proof (induction argv arbitrary: ts occ occ' rule: length_induct)
  case (1 argv)
  note IH = 1(1)[rule_format] and read = 1(2,3) and inv = 1(4-6)
  show ?case
  proof (cases argv)
    case Nil
    then have "finish G occ False = Parsed x" using read by simp
    from own_decides(2) [OF G inv(2,3,1) this] show ?thesis using Nil inv(1) by (simp add: same_reading_def)
  next
    case (Cons a as)
    have dd: "a \<noteq> ''--''" using read Cons by (auto simp: extra_is_refused)
    from tokens_Cons [OF read(1) [unfolded Cons] dd] obtain t us where
      t: "classify G a = Inr t" "tokens G as = Inr us" "ts = t # us" .
    obtain p v where p: "t = Opt p v" using read(2) t(3) by (cases t) (auto simp: extra_is_refused)
    note grow = from_grammar_snoc [OF inv(2) classify_option [OF t(1) [unfolded p]]]
      from_grammar_snoc [OF inv(3) classify_option [OF t(1) [unfolded p]]]
    obtain w rest where w: "takes R p v us w rest" "op_arity p = Switch \<or> \<not> conflicting p occ'"
      "consume R G rest (occ @ [(p, w)]) False = Parsed x"
      using read(2) t(3) p consume_takes own_decides(1) [OF G inv(2,3,1)] by metis
    from takes_spans [OF w(1) t(2)] obtain front bs where
      bs: "as = front @ bs" "tokens G bs = Inr rest" "spans G p v front w" .
    have shorter: "length bs < length argv" using Cons bs(1) by simp
    show ?thesis
    proof (cases "reload_flag a")
      case True
      from dropped_option [OF G True t(1) [unfolded p] bs(3)]
      have "p \<in> set reload_options" "strip_flags False argv = strip_flags False bs" using Cons bs(1) by auto
      then show ?thesis
        using IH [OF shorter bs(2) w(3) _ grow(1) inv(3)] own_reload inv(1) by (simp add: same_reading_def)
    next
      case False
      from same_reading_kept [OF G False dd t(1) [unfolded p] w(1) bs(3) w(2)
          IH [OF shorter bs(2) w(3) own_snoc [OF inv(1)] grow]]
      show ?thesis using Cons bs(1) by simp
    qed
  qed
qed

lemma values_own: "f \<notin> reload_names \<Longrightarrow> values_of f (own occ) = values_of f occ"
  unfolding values_of_def filter_filter by (rule arg_cong [where f = "map snd"]) (auto intro!: filter_cong)

text \<open>The settings of a command do not depend on the reload options.\<close>

lemma own_settings:
  assumes "own x' = own x"
  shows "serve_args_of R x' = serve_args_of R x" "worker_args_of R x' = worker_args_of R x"
    and "rl_uvloop (reload_args_of R x') = rl_uvloop (reload_args_of R x)"
proof -
  have v: "values_of f x' = values_of f x" if "f \<notin> reload_names" for f
    using values_own [OF that, of x'] values_own [OF that, of x] assms by simp
  note defs = serve_args_of_def worker_args_of_def reload_args_of_def selection_of_def path_value_def value_of_def
    whole_value_def real_value_def is_on_def
  show "serve_args_of R x' = serve_args_of R x" "worker_args_of R x' = worker_args_of R x"
    and "rl_uvloop (reload_args_of R x') = rl_uvloop (reload_args_of R x)"
    unfolding defs by (simp_all add: v reload_names_def reload_options_def)
qed

lemma child_options:
  assumes "reloadable G" "parse_options R G argv = Parsed x"
  shows "\<exists>x'. parse_options R G (strip_reload_flags argv) = Parsed x' \<and> own x' = own x"
proof -
  obtain ts where "tokens G argv = Inr ts" "consume R G ts [] False = Parsed x"
    using assms(2) by (auto simp: parse_options_def split: sum.splits)
  from child_consume [OF assms(1) this, of "[]"] show ?thesis
    by (auto simp: from_grammar_def same_reading_def parse_options_def strip_reload_flags_def)
qed

text \<open>A line that was read has no argument that some parser could not classify.\<close>

lemma consumed_known: "consume R G ts occ extra = Parsed x \<Longrightarrow> Unknown u \<notin> set ts"
proof (induction R G ts occ extra rule: consume.induct)
  case (4 R G p w ts occ extra)
  then show ?case by (auto split: if_splits)
next
  case (5 R G p ts occ extra)
  then show ?case by (auto split: arity.splits list.splits token.splits if_splits)
qed (auto simp: extra_is_refused)

lemma tokens_classified:
  "tokens G as = Inr ts \<Longrightarrow> (\<And>u. Unknown u \<notin> set ts) \<Longrightarrow> a \<in> set as \<Longrightarrow> a \<noteq> ''--'' \<and> (\<exists>t. classify G a = Inr t)"
proof (induction as arbitrary: ts)
  case (Cons b bs)
  have "b \<noteq> ''--''" using Cons.prems(1,2) by fastforce
  with Cons.prems show ?case using Cons.IH by (auto simp: map_sum_Inr_conv split: sum.splits)
qed simp

lemma tokens_exist: "(\<And>a. a \<in> set as \<Longrightarrow> a \<noteq> ''--'' \<and> (\<exists>t. classify G a = Inr t)) \<Longrightarrow> \<exists>ts. tokens G as = Inr ts"
  by (induction as) fastforce+

lemma dispatch_command_extra: "dispatch_command sub ts as arg True \<noteq> Parsed x"
  by (induction sub ts as arg "True" rule: dispatch_command.induct) (auto split: parsed.split list.split token.split)


lemma tokens_each: "tokens G as = Inr ts \<Longrightarrow> ''--'' \<notin> set as \<Longrightarrow> a \<in> set as \<Longrightarrow> \<exists>t. classify G a = Inr t"
  by (induction as arbitrary: ts) (auto simp: map_sum_Inr_conv split: sum.splits)

lemma tokens_subset:
  "tokens G as = Inr ts \<Longrightarrow> ''--'' \<notin> set as \<Longrightarrow> set bs \<subseteq> set as \<Longrightarrow> \<exists>us. tokens G bs = Inr us"
  using tokens_exist [of bs G] tokens_each [of G as ts] by blast

text \<open>
  A child's line of arguments goes through the parsers with subcommands as the
  parent's does: no option of theirs is one of the wrapper's.
\<close>

definition passes_on :: "grammar \<Rightarrow> bool" where
  "passes_on G =
    (list_all (\<lambda>f. exact G f = None \<and> abbreviated G f = []) (map op_flag reload_options)
     \<and> list_all (\<lambda>q. CHR ''='' \<notin> set (op_flag q)) (gr_options G))"

lemma passing_grammars: "passes_on main_grammar" "passes_on help_grammar"
  by code_simp+

lemma reload_flag_split:
  assumes "reload_flag a"
  shows "fst (split_eq a) \<in> reload_names" "take 2 a = ''--''" "a \<in> reload_names \<or> CHR ''='' \<in> set a"
proof -
  have "(a \<in> reload_names \<and> split_eq a = (a, None)) \<or> (\<exists>f v. f \<in> reload_names \<and> a = f @ CHR ''='' # v)"
  proof (cases "equals_form a")
    case True
    then obtain f where f: "f \<in> set valued_flags" "take (Suc (length f)) a = f @ ''=''"
      by (auto simp: equals_form_def list_ex_iff)
    then have "a = f @ CHR ''='' # drop (Suc (length f)) a"
      by (metis append.assoc append_Cons append_Nil append_take_drop_id)
    then show ?thesis using f(1) by (fastforce simp: valued_flags_def reload_names_def reload_options_def)
  next
    case False
    have "reload_names = insert ''--reload'' (set valued_flags)"
      by (simp add: reload_names_def reload_options_def valued_flags_def insert_commute)
    then have a: "a \<in> reload_names" using False assms by (auto simp only: reload_flag_def insert_iff)
    then have "CHR ''='' \<notin> set a" using reload_option_flags by (auto simp only: reload_names_def image_iff)
    then show ?thesis using a by (simp add: split_eq_def)
  qed
  then consider (name) "a \<in> reload_names" "split_eq a = (a, None)"
    | (pair) f v where "f \<in> reload_names" "a = f @ CHR ''='' # v" by blast
  then have "fst (split_eq a) \<in> reload_names \<and> take 2 a = ''--'' \<and> (a \<in> reload_names \<or> CHR ''='' \<in> set a)"
  proof cases
    case name
    then show ?thesis using reload_option_flags by (auto simp: reload_names_def)
  next
    case pair
    then have "CHR ''='' \<notin> set f" "take 2 f = ''--''" using reload_option_flags by (auto simp: reload_names_def)
    then show ?thesis using pair split_eq_flag two_dashes [of f] by auto
  qed
  then show "fst (split_eq a) \<in> reload_names" "take 2 a = ''--''" "a \<in> reload_names \<or> CHR ''='' \<in> set a"
    by blast+
qed

text \<open>
  A parser with subcommands takes an argument with a space in it for a word, a
  \<open>--reload-dir=a b\<close> as well.
\<close>

definition unspaced :: "string \<Rightarrow> bool" where
  "unspaced a = (reload_flag a \<longrightarrow> CHR '' '' \<notin> set a)"

lemma passed_on:
  assumes "passes_on G" "reload_flag a" "unspaced a"
  shows "classify G a = Inr (Unknown a)"
proof -
  obtain f x where fx: "split_eq a = (f, x)" "f \<in> reload_names" using reload_flag_split(1) [OF assms(2)] by (cases "split_eq a") auto
  have quiet: "exact G f = None \<and> abbreviated G f = []" if "f \<in> reload_names" for f
    using assms(1) that by (auto simp: passes_on_def reload_names_def list_all_iff)
  have "exact G a = None"
    using reload_flag_split(3) [OF assms(2)] quiet [of a] assms(1)
    by (auto simp: exact_def find_None_iff list_all_iff passes_on_def)
  moreover obtain g where g: "a = CHR ''-'' # CHR ''-'' # g" using two_dashes [OF reload_flag_split(2) [OF assms(2)]] by blast
  then have "take 1 a = ''-''" "a \<noteq> ''-h''" "a \<noteq> ''-''" "\<not> negative_number a"
    by (auto simp: negative_number_def is_digit_def)
  ultimately show ?thesis using fx quiet [OF fx(2)] assms(2,3) by (simp add: classify_def unspaced_def)
qed

text \<open>What a command is to the child: the same, but not reloading.\<close>

fun child_of :: "command \<Rightarrow> command \<Rightarrow> bool" where
  "child_of (ServeCommand A W) (ServeCommand B V) = (A = B \<and> rl_uvloop V = rl_uvloop W \<and> \<not> rl_on V)"
| "child_of (WorkerCommand A W) (WorkerCommand B V) = (A = B \<and> rl_uvloop V = rl_uvloop W \<and> \<not> rl_on V)"
| "child_of _ _ = False"

fun reloads :: "command \<Rightarrow> bool" where
  "reloads (ServeCommand A W) = True"
| "reloads (WorkerCommand A W) = True"
| "reloads _ = False"

lemma dispatch_strip:
  assumes G: "passes_on G"
    and sub: "\<And>w as c. sub w as = Parsed c \<Longrightarrow> P c \<Longrightarrow> list_all unspaced as
      \<Longrightarrow> ''--'' \<notin> set as \<and> (\<exists>c'. sub w (strip_reload_flags as) = Parsed c' \<and> Q c c')"
  shows "tokens G argv = Inr ts \<Longrightarrow> dispatch_command sub ts argv arg False = Parsed (l, c) \<Longrightarrow> P c
    \<Longrightarrow> list_all unspaced argv \<Longrightarrow> ''--'' \<notin> set argv \<and> (\<exists>ts' c'. tokens G (strip_reload_flags argv) = Inr ts'
      \<and> dispatch_command sub ts' (strip_reload_flags argv) arg False = Parsed (l, c') \<and> Q c c')"
proof (induction argv arbitrary: ts arg rule: length_induct)
  case (1 argv)
  note IH = 1(1)[rule_format] and read = 1(2,3) and P = 1(4) and spaces = 1(5)
  obtain a as where argv: "argv = a # as" using read by (cases argv) auto
  have dd: "a \<noteq> ''--''" using read argv by (auto simp: dispatch_command_extra)
  from tokens_Cons [OF read(1) [unfolded argv] dd] obtain t us where
    t: "classify G a = Inr t" "tokens G as = Inr us" "ts = t # us" .
  have kept: "strip_flags False (b # bs) = b # strip_flags False bs"
    if "classify G b = Inr t" "\<not> (\<exists>u. t = Unknown u)" "unspaced b" for b bs t
    using strip_kept passed_on [OF G _ that(3)] that(1,2) by fastforce
  show ?case
  proof (cases t)
    case (Unknown u)
    then show ?thesis using read(2) t(3) argv by (simp add: dispatch_command_extra)
  next
    case (Word w)
    have w: "w = a" using classify_word t(1) Word by blast
    have c: "sub w as = Parsed c" "l = arg" using read(2) t(3) argv Word by (auto split: parsed.splits)
    have "list_all unspaced as" using spaces argv by simp
    from sub [OF c(1) P this] obtain c' where s: "''--'' \<notin> set as" "sub w (strip_reload_flags as) = Parsed c'" "Q c c'" by blast
    have "set (strip_flags False as) \<subseteq> set as" using strip_flags_clean by blast
    then obtain us' where "tokens G (strip_flags False as) = Inr us'" using tokens_subset [OF t(2) s(1)] by blast
    then show ?thesis using s c(2) t(1) Word dd argv kept [OF t(1)] spaces
      by (auto simp: strip_reload_flags_def simp del: strip_flags.simps)
  next
    case (Opt p v)
    have "op_arity p \<noteq> ShowHelp" using read(2) t(3) argv Opt by (cases v) auto
    note steps = Opt this t(1) kept dd argv spaces
    show ?thesis
    proof (cases v)
      case (Some x)
      then have "dispatch_command sub us as x False = Parsed (l, c)" using read(2) t(3) steps(2) argv Opt by simp
      from IH [OF _ t(2) this P] show ?thesis using steps Some
        by (auto simp: strip_reload_flags_def simp del: strip_flags.simps)
    next
      case None
      then obtain w us' b bs where b: "us = Word w # us'" "as = b # bs" "dispatch_command sub us' bs w False = Parsed (l, c)"
        using read(2) t(3) steps(2) argv Opt by (auto split: list.splits token.splits)
      then have "b \<noteq> ''--''" "classify G b = Inr (Word w)" "tokens G bs = Inr us'"
        using t(2) by (auto simp: map_sum_Inr_conv split: if_splits sum.splits)
      with IH [OF _ this(3) b(3) P] show ?thesis using steps None b(2)
        by (auto simp: strip_reload_flags_def simp del: strip_flags.simps)
    qed
  qed
qed

text \<open>\<open>--reload\<close> is read from \<open>--reload\<close> only: a shorter form is ambiguous.\<close>

lemma exactD: "exact G f = Some p \<Longrightarrow> p \<in> set (gr_options G) \<and> op_flag p = f"
  by (auto simp: exact_def find_Some_iff)

lemma split_eq_None: "split_eq a = (f, None) \<Longrightarrow> f = a"
  by (simp add: split_eq_def split: if_splits)

lemma reload_by_name:
  assumes "reloadable G" "classify G a = Inr (Opt p None)" "op_flag p = ''--reload''"
  shows "a = ''--reload''"
proof -
  have flags: "exact G ''--reload'' \<noteq> None" "exact G ''--reload-dir'' \<noteq> None"
    using reloadableD(1) [OF assms(1)] by (fastforce simp: reload_options_def)+
  then obtain q r where qr: "q \<in> set (gr_options G)" "op_flag q = ''--reload''" "r \<in> set (gr_options G)" "op_flag r = ''--reload-dir''"
    using exactD by blast
  have "abbreviated G a \<noteq> [p]"
  proof
    assume one: "abbreviated G a = [p]"
    then have "p \<in> set (abbreviated G a)" by simp
    then have pre: "take 2 a = ''--''" "take (length a) ''--reload'' = a"
      using assms(3) by (auto simp: abbreviated_def split: if_splits)
    have "length a \<le> length ''--reload''" using arg_cong [OF pre(2), of length] by simp
    then have "take (length a) (''--reload'' @ ''-dir'') = a" using pre(2) by (simp only: take_append) simp
    then have "q \<in> set (abbreviated G a)" "r \<in> set (abbreviated G a)" using pre qr by (auto simp: abbreviated_def)
    then show False using one qr by simp
  qed
  then show ?thesis using assms(2,3)
    by (auto simp: classify_def exact_def find_Some_iff dest: split_eq_None
        split: if_splits option.splits prod.splits list.splits)
qed

lemma consume_off:
  "consume R G ts occ extra = Parsed x
    \<Longrightarrow> (\<And>p. Opt p None \<in> set ts \<Longrightarrow> op_flag p \<noteq> f) \<Longrightarrow> (\<And>p v. Opt p (Some v) \<in> set ts \<Longrightarrow> op_flag p = f \<Longrightarrow> op_arity p = Switch)
    \<Longrightarrow> values_of f occ = [] \<Longrightarrow> values_of f x = []"
proof (induction R G ts occ extra rule: consume.induct)
  case (1 R G occ extra)
  then show ?case by (auto simp: finish_def split: if_splits)
next
  case (4 R G p w ts occ extra)
  then have "op_flag p \<noteq> f" by (auto split: if_splits)
  with 4 show ?case by (auto simp: values_of_def split: if_splits)
next
  case (5 R G p ts occ extra)
  then have "op_flag p \<noteq> f" by simp
  with 5 show ?case by (auto simp: values_of_def split: if_splits arity.splits list.splits token.splits)
qed auto

lemma token_argument: "tokens G as = Inr ts \<Longrightarrow> Opt p v \<in> set ts \<Longrightarrow> \<exists>a \<in> set as. classify G a = Inr (Opt p v)"
  by (induction as arbitrary: ts) (auto simp: map_sum_Inr_conv split: if_splits sum.splits)

lemma child_is_off:
  assumes "reloadable G" "\<forall>p \<in> set (gr_options G). op_flag p = ''--reload'' \<longrightarrow> op_arity p = Switch"
    and "parse_options R G (strip_reload_flags as) = Parsed x"
  shows "\<not> is_on ''--reload'' x"
proof -
  obtain ts where ts: "tokens G (strip_flags False as) = Inr ts" "consume R G ts [] False = Parsed x"
    using assms(3) by (auto simp: parse_options_def strip_reload_flags_def split: sum.splits)
  have "op_flag p \<noteq> ''--reload''" if p: "Opt p None \<in> set ts" for p
  proof -
    obtain a where "a \<in> set (strip_flags False as)" "classify G a = Inr (Opt p None)" using token_argument [OF ts(1) p] by blast
    then show ?thesis using reload_by_name [OF assms(1), of a p] strip_flags_clean [of a False as] by (auto simp: reload_flag_def)
  qed
  moreover have "op_arity p = Switch" if p: "Opt p (Some v) \<in> set ts" "op_flag p = ''--reload''" for p v
    using token_argument [OF ts(1) p(1)] classify_option assms(2) p(2) by blast
  ultimately have "values_of ''--reload'' x = []" using consume_off [OF ts(2)] by (simp add: values_of_def)
  then show ?thesis by (simp add: is_on_def)
qed

lemma option_lines:
  assumes "reloadable G" "\<forall>p \<in> set (gr_options G). op_flag p = ''--reload'' \<longrightarrow> op_arity p = Switch"
    and "parse_options R G as = Parsed x"
  shows "''--'' \<notin> set as"
    and "\<exists>x'. parse_options R G (strip_reload_flags as) = Parsed x' \<and> serve_args_of R x' = serve_args_of R x
      \<and> worker_args_of R x' = worker_args_of R x \<and> rl_uvloop (reload_args_of R x') = rl_uvloop (reload_args_of R x)
      \<and> \<not> rl_on (reload_args_of R x')"
proof -
  obtain ts where ts: "tokens G as = Inr ts" "consume R G ts [] False = Parsed x"
    using assms(3) by (auto simp: parse_options_def split: sum.splits)
  show "''--'' \<notin> set as" using tokens_classified [OF ts(1)] consumed_known [OF ts(2)] by blast
  obtain x' where "parse_options R G (strip_reload_flags as) = Parsed x'" "own x' = own x"
    using child_options [OF assms(1,3)] by blast
  then show "\<exists>x'. parse_options R G (strip_reload_flags as) = Parsed x' \<and> serve_args_of R x' = serve_args_of R x
      \<and> worker_args_of R x' = worker_args_of R x \<and> rl_uvloop (reload_args_of R x') = rl_uvloop (reload_args_of R x)
      \<and> \<not> rl_on (reload_args_of R x')"
    using own_settings [of x' x R] child_is_off [OF assms(1,2)] by (auto simp: reload_args_of_def [of R x'])
qed

lemma reload_switches:
  "\<forall>p \<in> set (gr_options serve_grammar). op_flag p = ''--reload'' \<longrightarrow> op_arity p = Switch"
  "\<forall>p \<in> set (gr_options worker_grammar). op_flag p = ''--reload'' \<longrightarrow> op_arity p = Switch"
  by code_simp+

lemma map_parsed_Parsed: "map_parsed f x = Parsed y \<longleftrightarrow> (\<exists>z. x = Parsed z \<and> y = f z)"
  by (cases x) auto

lemma child_serve:
  assumes "serve_command R as = Parsed c"
  shows "''--'' \<notin> set as \<and> (\<exists>c'. serve_command R (strip_reload_flags as) = Parsed c' \<and> child_of c c')"
  using assms option_lines [OF reloadable_grammars(1) reload_switches(1)]
  by (fastforce simp: serve_command_def map_parsed_Parsed)

lemma child_worker:
  assumes "worker_command R as = Parsed c"
  shows "''--'' \<notin> set as \<and> (\<exists>c'. worker_command R (strip_reload_flags as) = Parsed c' \<and> child_of c c')"
  using assms option_lines [OF reloadable_grammars(2) reload_switches(2)]
  by (fastforce simp: worker_command_def map_parsed_Parsed)

abbreviation worker_sub :: "readers \<Rightarrow> string \<Rightarrow> string list \<Rightarrow> command parsed" where
  "worker_sub R v bs \<equiv> (if v = ''start'' then worker_command R bs else Usage ''invalid choice'')"

lemma enter_strip:
  assumes "passes_on G" "list_all unspaced argv" "enter G sub arg argv = Parsed (l, c)" "P c"
    and "\<And>w as c. sub w as = Parsed c \<Longrightarrow> P c \<Longrightarrow> list_all unspaced as
      \<Longrightarrow> ''--'' \<notin> set as \<and> (\<exists>c'. sub w (strip_reload_flags as) = Parsed c' \<and> child_of c c')"
  shows "''--'' \<notin> set argv \<and> (\<exists>c'. enter G sub arg (strip_reload_flags argv) = Parsed (l, c') \<and> child_of c c')"
proof -
  obtain ts where ts: "tokens G argv = Inr ts" "dispatch_command sub ts argv arg False = Parsed (l, c)"
    using assms(3) by (auto simp: enter_def split: sum.splits)
  have "''--'' \<notin> set argv \<and> (\<exists>ts' c'. tokens G (strip_reload_flags argv) = Inr ts'
      \<and> dispatch_command sub ts' (strip_reload_flags argv) arg False = Parsed (l, c') \<and> child_of c c')"
    by (rule dispatch_strip [where P = P, OF assms(1) _ ts assms(4,2)]) (rule assms(5))
  then obtain ts' c' where r: "''--'' \<notin> set argv" "child_of c c'" "tokens G (strip_reload_flags argv) = Inr ts'"
    "dispatch_command sub ts' (strip_reload_flags argv) arg False = Parsed (l, c')" by blast
  then have "enter G sub arg (strip_reload_flags argv) = Parsed (l, c')" by (simp add: enter_def)
  then show ?thesis using r(1,2) by blast
qed

lemma child_subcommand:
  assumes "subcommand R w as = Parsed c" "reloads c" "list_all unspaced as"
  shows "''--'' \<notin> set as \<and> (\<exists>c'. subcommand R w (strip_reload_flags as) = Parsed c' \<and> child_of c c')"
proof -
  have "\<not> reloads c" if "w \<notin> {''worker'', ''serve''}"
  proof -
    have "\<not> reloads d" if "run_args R bs b = Parsed d" for bs b d
      using that by (induction R bs b rule: run_args.induct) (auto split: list.splits if_splits sum.splits token.splits)
    then show ?thesis using that assms(1)
      by (auto simp: subcommand_def validate_args_def Let_def map_parsed_Parsed status_command_of_def
          split: if_splits sum.splits)
  qed
  then consider "w = ''serve''" | "w = ''worker''" using assms(2) by blast
  then show ?thesis
  proof cases
    case 1
    then show ?thesis using assms(1) child_serve by (simp add: subcommand_def)
  next
    case 2
    then obtain l where "enter help_grammar (worker_sub R) [] as = Parsed (l, c)"
      using assms(1) by (auto simp: subcommand_def map_parsed_Parsed)
    from enter_strip [where P = reloads, OF passing_grammars(2) assms(3) this assms(2)] show ?thesis
      using 2 child_worker by (fastforce simp: subcommand_def map_parsed_Parsed split: if_splits)
  qed
qed

text \<open>
  C39. The process that the reload wrapper starts reads the same command from its line of
  arguments as the wrapper read from its own: the same \<open>serve\<close> or \<open>worker start\<close>
  settings at the same level of logging, and it does not reload itself, however the
  options of the wrapper are spelt and interleaved with the others.  No option of the
  wrapper may hold a space inside one argument.
\<close>

theorem child_reads_the_same_command:
  assumes "parse_args R argv = Parsed (level, c)" "reloads c" "list_all unspaced argv"
  shows "\<exists>c'. parse_args R (strip_reload_flags argv) = Parsed (level, c') \<and> child_of c c'"
  using enter_strip [where P = reloads, OF passing_grammars(1) assms(3) assms(1) [unfolded parse_args_def] assms(2)]
    child_subcommand by (auto simp: parse_args_def)

text \<open>What \<open>serve\<close> and \<open>worker start\<close> do first: watch, or start on the chosen event loop.\<close>

fun command_start :: "bool \<Rightarrow> string \<Rightarrow> string option \<Rightarrow> command \<Rightarrow> start option" where
  "command_start child cwd env (ServeCommand A W) =
    Some (start_mode (rl_on W) child (rl_dirs W) (se_specs A) cwd (rl_includes W) (rl_excludes W) (rl_uvloop W) env)"
| "command_start child cwd env (WorkerCommand A W) =
    Some (start_mode (rl_on W) child (rl_dirs W) (wk_specs A) cwd (rl_includes W) (rl_excludes W) (rl_uvloop W) env)"
| "command_start child cwd env c = None"

text \<open>
  The child starts, on the event loop its parent would have started on, also where the
  mark in its environment is lost.
\<close>

lemma child_starts:
  "child_of c c' \<Longrightarrow> \<exists>u. command_start child cwd env c' = Some (Start u) \<and> command_start True cwd env c = Some (Start u)"
  by (cases "(c, c')" rule: child_of.cases) (auto simp: start_mode_def)

definition sample_readers :: readers where
  "sample_readers =
    \<lparr> rd_int = (\<lambda>w. if w \<noteq> [] \<and> list_all is_digit w then Some (foldl (\<lambda>n c. 10 * n + (of_char c - 48)) 0 w) else None),
      rd_float = (\<lambda>w. None), rd_path = (\<lambda>w. w) \<rparr>"

definition sample_line :: "string list" where
  "sample_line = [''--log-level'', ''DEBUG'', ''serve'', ''--port'', ''84'', ''--reload'', ''--reload-include=a'', ''--reload-d'',
     ''src'', ''--reload-dir'', ''etc'', ''--no-ev'']"

theorem child_reads_the_same_command_witness:
  "\<exists>c'. parse_args sample_readers (strip_reload_flags sample_line)
      = Parsed (''DEBUG'', c') \<and> child_of (ServeCommand
        \<lparr> se_selection = Everything, se_specs = ''./specs'', se_broker = None, se_publish_events = False, se_host = ''0.0.0.0'',
          se_port = 84, se_heartbeat_interval = 15, se_no_events = True, se_dashboard_dir = None, se_event_store = None \<rparr>
        \<lparr> rl_on = True, rl_dirs = Some [''src'', ''etc''], rl_includes = Some [''a''], rl_excludes = None, rl_uvloop = False \<rparr>) c'"
proof (rule child_reads_the_same_command)
  show "list_all unspaced sample_line" by code_simp
  show "parse_args sample_readers sample_line = Parsed (''DEBUG'', ServeCommand
        \<lparr> se_selection = Everything, se_specs = ''./specs'', se_broker = None, se_publish_events = False, se_host = ''0.0.0.0'',
          se_port = 84, se_heartbeat_interval = 15, se_no_events = True, se_dashboard_dir = None, se_event_store = None \<rparr>
        \<lparr> rl_on = True, rl_dirs = Some [''src'', ''etc''], rl_includes = Some [''a''], rl_excludes = None, rl_uvloop = False \<rparr>)"
    by code_simp
qed simp

end
