(* ===== verification/Server_Process.thy ===== *)
theory Server_Process
  imports Command_Line
begin

text \<open>
  The table of routes of \<open>server/app.py\<close>, the life of a serving process (signal handlers,
  guarded requests, the drain at the end of \<open>serve\<close>) and the construction of the
  router of \<open>server/router.py\<close>.  Uvicorn is its loop: it serves requests until it is
  told to exit and then ends the lifespan.  FastAPI looks a request up in the table.
\<close>

section \<open>Routes\<close>

datatype http_method = GET | POST

datatype segment = Fixed string | Param string

datatype endpoint =
    Healthz | ReadyzProbe | Health | ListAgents | AgentSchema | ListGroups | GroupTopology
  | RunAgent | GatherAgent | RunGroup | Submit | RunStatusOf | RunResultOf | StreamRun
  | StreamEvents | ListRuns | RunTree | QueryEvents | UsageRollup | ToolsRollup | RuntimeStatistics
  | CancelRun

record http_route =
  rt_method :: http_method
  rt_path :: "segment list"
  rt_endpoint :: endpoint

abbreviation route_to :: "http_method \<Rightarrow> segment list \<Rightarrow> endpoint \<Rightarrow> http_route" where
  "route_to m p x \<equiv> \<lparr> rt_method = m, rt_path = p, rt_endpoint = x \<rparr>"

text \<open>Some routes exist only with an event stream (\<open>sse\<close>) or a history (\<open>store\<close>).\<close>

definition build_routes :: "bool \<Rightarrow> bool \<Rightarrow> http_route list" where
  "build_routes sse store =
    [route_to GET [Fixed ''healthz''] Healthz,
     route_to GET [Fixed ''readyz''] ReadyzProbe,
     route_to GET [Fixed ''health''] Health,
     route_to GET [Fixed ''agents''] ListAgents,
     route_to GET [Fixed ''agents'', Param ''name'', Fixed ''schema''] AgentSchema,
     route_to GET [Fixed ''groups''] ListGroups,
     route_to GET [Fixed ''groups'', Param ''name'', Fixed ''topology''] GroupTopology,
     route_to POST [Fixed ''agents'', Param ''name'', Fixed ''run''] RunAgent,
     route_to POST [Fixed ''agents'', Param ''name'', Fixed ''gather''] GatherAgent,
     route_to POST [Fixed ''groups'', Param ''name'', Fixed ''run''] RunGroup,
     route_to POST [Fixed ''submit''] Submit,
     route_to GET [Fixed ''runs'', Param ''run_id'', Fixed ''status''] RunStatusOf,
     route_to GET [Fixed ''runs'', Param ''run_id'', Fixed ''result''] RunResultOf,
     route_to GET [Fixed ''runs'', Param ''run_id'', Fixed ''stream''] StreamRun]
    @ (if sse then [route_to GET [Fixed ''events'', Fixed ''stream''] StreamEvents] else [])
    @ (if store then
        [route_to GET [Fixed ''runs''] ListRuns,
         route_to GET [Fixed ''runs'', Param ''trace_id'', Fixed ''tree''] RunTree,
         route_to GET [Fixed ''events''] QueryEvents,
         route_to GET [Fixed ''usage''] UsageRollup,
         route_to GET [Fixed ''tools''] ToolsRollup,
         route_to GET [Fixed ''runtime'', Fixed ''stats''] RuntimeStatistics] else [])
    @ [route_to POST [Fixed ''runs'', Param ''run_id'', Fixed ''cancel''] CancelRun]"

text \<open>
  \<open>var\<close> says which segments a parameter accepts; the first route that fits is taken.
\<close>

fun segment_fits :: "(string \<Rightarrow> bool) \<Rightarrow> segment \<Rightarrow> string \<Rightarrow> bool" where
  "segment_fits var (Fixed x) y = (x = y)"
| "segment_fits var (Param n) y = var y"

definition fits :: "(string \<Rightarrow> bool) \<Rightarrow> segment list \<Rightarrow> string list \<Rightarrow> bool" where
  "fits var ps ys = list_all2 (segment_fits var) ps ys"

definition answers_to :: "(string \<Rightarrow> bool) \<Rightarrow> http_method \<Rightarrow> string list \<Rightarrow> http_route \<Rightarrow> bool" where
  "answers_to var m path r = (rt_method r = m \<and> fits var (rt_path r) path)"

definition first_route :: "(string \<Rightarrow> bool) \<Rightarrow> http_method \<Rightarrow> string list \<Rightarrow> http_route list \<Rightarrow> http_route option" where
  "first_route var m path routes = find (answers_to var m path) routes"

text \<open>Mounting under a prefix, as \<open>include_router(prefix=...)\<close> does.\<close>

definition mounted :: "string list \<Rightarrow> http_route list \<Rightarrow> http_route list" where
  "mounted pre routes = map (\<lambda>r. r\<lparr>rt_path := map Fixed pre @ rt_path r\<rparr>) routes"

text \<open>Two patterns some path fits both of.\<close>

fun segments_overlap :: "segment \<Rightarrow> segment \<Rightarrow> bool" where
  "segments_overlap (Fixed x) (Fixed y) = (x = y)"
| "segments_overlap p q = True"

definition overlap :: "segment list \<Rightarrow> segment list \<Rightarrow> bool" where
  "overlap ps qs = list_all2 segments_overlap ps qs"

lemma segment_fits_overlap: "segment_fits var p y \<Longrightarrow> segment_fits var q y \<Longrightarrow> segments_overlap p q"
  by (cases p; cases q) simp_all

lemma fits_overlap: "fits var ps ys \<Longrightarrow> fits var qs ys \<Longrightarrow> overlap ps qs"
  unfolding fits_def overlap_def list_all2_conv_all_nth using segment_fits_overlap by metis

definition unambiguous :: "http_route list \<Rightarrow> bool" where
  "unambiguous rs = list_all (\<lambda>r. list_all (\<lambda>q. r = q \<or> rt_method r \<noteq> rt_method q \<or> \<not> overlap (rt_path r) (rt_path q)) rs) rs"

lemma build_routes_unambiguous: "unambiguous (build_routes sse store)"
  by (cases sse; cases store) (simp_all add: unambiguous_def build_routes_def overlap_def)

lemma unambiguousD:
  assumes "unambiguous rs" "r \<in> set rs" "q \<in> set rs" "answers_to var m path r" "answers_to var m path q"
  shows "r = q"
proof -
  have "r = q \<or> rt_method r \<noteq> rt_method q \<or> \<not> overlap (rt_path r) (rt_path q)"
    using assms(1-3) by (auto simp: unambiguous_def list_all_iff)
  then show ?thesis using assms(4,5) fits_overlap [of var "rt_path r" path "rt_path q"] by (auto simp: answers_to_def)
qed

lemma overlap_prefix: "overlap (map Fixed pre @ ps) (map Fixed pre @ qs) = overlap ps qs"
  by (induction pre) (auto simp: overlap_def)

lemma mounted_unambiguous: "unambiguous rs \<Longrightarrow> unambiguous (mounted pre rs)"
  by (auto simp: unambiguous_def mounted_def list_all_iff overlap_prefix)

text \<open>
  Whatever a parameter accepts, no request fits two routes of the server, also
  where the routes are mounted under a prefix: registering them in another order, or
  adding the optional ones, changes what no request reaches but those of the added routes.
\<close>

theorem routes_do_not_shadow:
  assumes "set rs \<subseteq> set (mounted pre (build_routes sse store))"
    and "r \<in> set rs" "answers_to var m path r"
  shows "first_route var m path rs = Some r"
    and "first_route var m path (mounted pre (build_routes sse store)) = Some r"
proof -
  let ?all = "mounted pre (build_routes sse store)"
  have one: "q = r" if "q \<in> set ?all" "answers_to var m path q" for q
    using unambiguousD [OF mounted_unambiguous [OF build_routes_unambiguous]] assms that by blast
  have found: "first_route var m path xs = Some r" if "set xs \<subseteq> set ?all" "r \<in> set xs" for xs
    using that assms(3)
  proof (induction xs)
    case (Cons x xs)
    then show ?case using one [of x] by (auto simp: first_route_def)
  qed simp
  show "first_route var m path rs = Some r" by (rule found [OF assms(1,2)])
  show "first_route var m path ?all = Some r" using assms(1,2) by (intro found) auto
qed

section \<open>Signal handlers\<close>

datatype os_signal = SIGTERM | SIGINT

text \<open>\<open>_suppress_value_error\<close>, and what \<open>contextlib.suppress\<close> is given by the worker command.\<close>

definition suppressed :: "exn \<Rightarrow> bool" where
  "suppressed e = (isinstance e PyValueError \<or> isinstance e PyNotImplementedError)"

text \<open>\<open>refuses\<close> is what \<open>add_signal_handler\<close> raises for a signal.\<close>

fun install_handlers :: "(os_signal \<Rightarrow> exn option) \<Rightarrow> os_signal list \<Rightarrow> os_signal list \<Rightarrow> exn + os_signal list" where
  "install_handlers refuses [] hs = Inr hs"
| "install_handlers refuses (g # gs) hs =
    (case refuses g of
       None \<Rightarrow> install_handlers refuses gs (hs @ [g])
     | Some e \<Rightarrow> if suppressed e then install_handlers refuses gs hs else Inl e)"

lemma install_handlers_spec:
  "install_handlers refuses gs hs = Inr ks \<longleftrightarrow>
    ks = hs @ filter (\<lambda>g. refuses g = None) gs \<and> (\<forall>g \<in> set gs. \<forall>e. refuses g = Some e \<longrightarrow> suppressed e)"
  by (induction gs arbitrary: hs) (auto split: option.split)

section \<open>A serving process\<close>

text \<open>
  \<open>pr_answers\<close> is what was answered, newest last: passed on to a route, or refused.
  A signal that no handler was installed for ends the process.  A submitted run is a
  task that was created (\<open>pr_created\<close>) until the event loop first runs it; only then
  is it one of the active runs.
\<close>

record ('st, 'r) process =
  pr_server :: "('st, 'r) server"
  pr_handlers :: "os_signal list"
  pr_should_exit :: bool
  pr_killed :: bool
  pr_created :: "string list"
  pr_answers :: "(string \<times> http_response) list"

definition serve ::
  "(os_signal \<Rightarrow> exn option) \<Rightarrow> ('st, 'r) server \<Rightarrow> exn + ('st, 'r) process" where
  "serve refuses s =
    map_sum id (\<lambda>hs. \<lparr> pr_server = s, pr_handlers = hs, pr_should_exit = False, pr_killed = False, pr_created = [], pr_answers = [] \<rparr>)
      (install_handlers refuses [SIGTERM, SIGINT] [])"

datatype process_event =
    Signalled os_signal
  | Requested http_request
  | RunBegins string string
  | RunEnds string string bool "exn + group_output"

text \<open>
  The parameters of a process: its token, whether its runtime has a backend that is
  connected (\<open>None\<close> for one that needs no connection), the store, and what the routes
  other than the probes do: the server they leave and the runs they create a task for.
\<close>

record ('st, 'r) deployment =
  dp_token :: "string option"
  dp_connected :: "'r \<Rightarrow> bool option"
  dp_store :: "'st store_ops"
  dp_routes :: "http_request \<Rightarrow> ('st, 'r) server \<Rightarrow> string list \<times> ('st, 'r) server"

definition handle_request ::
  "('st, 'r) deployment \<Rightarrow> http_request \<Rightarrow> ('st, 'r) server \<Rightarrow> http_response \<times> string list \<times> ('st, 'r) server" where
  "handle_request D rq s =
    (case request_guards (dp_token D) (sv_shutting_down s) rq of
       Refused code name \<Rightarrow> (Refused code name, [], s)
     | Passed \<Rightarrow>
        if rq_path rq = ''/healthz'' then (Passed, [], s)
        else if rq_path rq = ''/readyz'' then (readyz (sv_shutting_down s) (dp_connected D (sv_rt s)), [], s)
        else (Passed, dp_routes D rq s))"

definition process_step :: "('st, 'r) deployment \<Rightarrow> process_event \<Rightarrow> ('st, 'r) process \<Rightarrow> ('st, 'r) process" where
  "process_step D ev p =
    (if pr_killed p then p
     else case ev of
       Signalled g \<Rightarrow>
         (if g \<in> set (pr_handlers p)
          then p\<lparr>pr_server := initiate_shutdown (pr_server p),
                 pr_should_exit := (pr_should_exit p \<or> \<not> sv_shutting_down (pr_server p))\<rparr>
          else p\<lparr>pr_killed := True\<rparr>)
     | Requested rq \<Rightarrow>
         (case handle_request D rq (pr_server p) of
            (r, created, s) \<Rightarrow> p\<lparr>pr_server := s, pr_created := pr_created p @ created,
               pr_answers := pr_answers p @ [(rq_path rq, r)]\<rparr>)
     | RunBegins rid target \<Rightarrow>
         (if rid \<in> set (pr_created p)
          then p\<lparr>pr_server := snd (begin_run (dp_store D) rid target (pr_server p)), pr_created := remove1 rid (pr_created p)\<rparr>
          else p)
     | RunEnds rid target is_group r \<Rightarrow>
         (if rid \<in> set (dkeys (sv_active (pr_server p)))
          then p\<lparr>pr_server := snd (finish_run (dp_store D) rid target is_group r (pr_server p))\<rparr> else p))"

definition process_run :: "('st, 'r) deployment \<Rightarrow> process_event list \<Rightarrow> ('st, 'r) process \<Rightarrow> ('st, 'r) process" where
  "process_run D evs p = fold (process_step D) evs p"

text \<open>What a run does to the server when it ends, its record in the store apart.\<close>

definition same_but_store :: "('st, 'r) server \<Rightarrow> ('st, 'r) server \<Rightarrow> bool" where
  "same_but_store s t =
    (sv_rt t = sv_rt s \<and> sv_active t = sv_active s \<and> sv_agents t = sv_agents s \<and> sv_groups t = sv_groups s
     \<and> sv_shutting_down t = sv_shutting_down s)"

lemma same_but_store_refl [simp, intro]: "same_but_store s s"
  by (simp add: same_but_store_def)

lemma keeps_on_store: "keeps (same_but_store s) (on_store m)"
  by (auto simp: keeps_def on_store_def same_but_store_def split: prod.split)

lemma keeps_try_except: "keeps P m \<Longrightarrow> (\<And>e. keeps P (h e)) \<Longrightarrow> keeps P (try_except m h)"
  unfolding keeps_def try_except_def by (fastforce split: prod.splits sum.splits)

lemma finish_run_server:
  "same_but_store (s\<lparr>sv_active := dpop rid (sv_active s)\<rparr>) (snd (finish_run ops rid target is_group r s))"
proof -
  let ?m = "try_except (record_outcome ops rid target is_group r) (record_failure ops rid target)"
  have "keeps (same_but_store s) (record_outcome ops rid target is_group r)"
    by (cases r) (auto simp: record_outcome_def intro!: keeps_bnd keeps_on_store)
  moreover have "keeps (same_but_store s) (record_failure ops rid target e)" for e
    by (auto simp: record_failure_def intro!: keeps_bnd keeps_on_store)
  ultimately have "keeps (same_but_store s) ?m" by (rule keeps_try_except)
  then have "same_but_store s (snd (?m s))" by (simp add: keeps_def)
  then show ?thesis by (cases "?m s") (simp add: finish_run_def finally_do_def same_but_store_def)
qed

lemma begin_run_server:
  "same_but_store (s\<lparr>sv_active := dset rid () (sv_active s)\<rparr>) (snd (begin_run ops rid target s))"
proof -
  let ?s = "s\<lparr>sv_active := dset rid () (sv_active s)\<rparr>"
  have "keeps (same_but_store ?s) (bnd (on_store (so_set_state ops rid RunRunning)) (\<lambda>_.
      on_store (so_push ops rid (run_level_event RunAgentStarted rid (Some target) None))))"
    by (intro keeps_bnd keeps_on_store)
  then show ?thesis by (simp add: begin_run_def keeps_def bnd_def)
qed

text \<open>The runs a process still has to finish.\<close>

definition unfinished :: "('st, 'r) process \<Rightarrow> string set" where
  "unfinished p = set (dkeys (sv_active (pr_server p))) \<union> set (pr_created p)"

text \<open>A server shutting down: it never stops doing so, and it takes nothing new on.\<close>

definition winding_down :: "('st, 'r) process \<Rightarrow> ('st, 'r) process \<Rightarrow> bool" where
  "winding_down p q =
    (sv_shutting_down (pr_server q) \<and> pr_should_exit q \<and> unfinished q \<subseteq> unfinished p
     \<and> sv_agents (pr_server q) = sv_agents (pr_server p) \<and> sv_groups (pr_server q) = sv_groups (pr_server p)
     \<and> sv_rt (pr_server q) = sv_rt (pr_server p)
     \<and> (\<exists>late. pr_answers q = pr_answers p @ late \<and> (\<forall>(path, r) \<in> set late. path \<noteq> ''/healthz'' \<longrightarrow> r \<noteq> Passed)))"

lemma handle_request_shutting:
  assumes "sv_shutting_down s" "handle_request D rq s = (r, created, t)"
  shows "t = s" "created = []" "rq_path rq \<noteq> ''/healthz'' \<Longrightarrow> r \<noteq> Passed"
  using assms
  by (auto simp: handle_request_def request_guards_def auth_guard_def shutdown_guard_def readyz_def
      split: http_response.splits option.splits if_splits)

lemma winding_down_step:
  assumes w: "winding_down p q"
  shows "winding_down p (process_step D ev q)"
proof (cases ev)
  case (Signalled g)
  then show ?thesis using w by (auto simp: winding_down_def process_step_def initiate_shutdown_def unfinished_def)
next
  case (Requested rq)
  obtain r created t where h: "handle_request D rq (pr_server q) = (r, created, t)" by (metis prod_cases3)
  have "sv_shutting_down (pr_server q)" using w by (simp add: winding_down_def)
  from handle_request_shutting [OF this h] w h Requested show ?thesis
    by (auto simp: winding_down_def process_step_def unfinished_def)
next
  case (RunBegins rid target)
  then show ?thesis using w begin_run_server [where s = "pr_server q" and ops = "dp_store D"]
    by (auto simp: winding_down_def process_step_def same_but_store_def unfinished_def dkeys_def map_fst_dset
        dest: notin_set_remove1 split: if_splits)
next
  case (RunEnds rid target is_group r)
  have "set (dkeys (dpop rid (sv_active (pr_server q)))) \<subseteq> set (dkeys (sv_active (pr_server q)))"
    using set_dpop_subset [of rid "sv_active (pr_server q)"] by (auto simp: dkeys_def)
  then show ?thesis using w RunEnds finish_run_server [where s = "pr_server q" and ops = "dp_store D"]
    by (auto simp: winding_down_def process_step_def same_but_store_def unfinished_def)
qed

lemma winding_down_run: "winding_down p q \<Longrightarrow> winding_down p (process_run D evs q)"
  by (induction evs arbitrary: q) (simp_all add: process_run_def winding_down_step)

definition exit_known :: "('st, 'r) process \<Rightarrow> bool" where
  "exit_known p = (sv_shutting_down (pr_server p) \<longrightarrow> pr_should_exit p)"

lemma signal_winds_down:
  assumes "exit_known p" "\<not> pr_killed p" "g \<in> set (pr_handlers p)"
  shows "winding_down p (process_step D (Signalled g) p)"
  using assms by (auto simp: winding_down_def process_step_def initiate_shutdown_def exit_known_def unfinished_def)


text \<open>A process that \<open>serve\<close> starts knows its exit, and every step keeps it so.\<close>

lemma serve_starts:
  "serve refuses s = Inr p \<Longrightarrow> \<not> sv_shutting_down s \<Longrightarrow>
    exit_known p \<and> \<not> pr_killed p \<and> pr_answers p = [] \<and> pr_server p = s
    \<and> pr_handlers p = filter (\<lambda>g. refuses g = None) [SIGTERM, SIGINT]"
  by (cases "install_handlers refuses [SIGTERM, SIGINT] []")
    (auto simp: serve_def install_handlers_spec exit_known_def simp del: install_handlers.simps)

lemma exit_known_step:
  assumes "exit_known p" "\<And>rq s. sv_shutting_down (snd (dp_routes D rq s)) = sv_shutting_down s"
  shows "exit_known (process_step D ev p)"
proof (cases ev)
  case (Requested rq)
  obtain r created t where h: "handle_request D rq (pr_server p) = (r, created, t)" by (metis prod_cases3)
  then have "sv_shutting_down t = sv_shutting_down (pr_server p)"
    using assms(2) [of rq "pr_server p"]
    by (cases "dp_routes D rq (pr_server p)") (auto simp: handle_request_def split: http_response.splits if_splits)
  then show ?thesis using assms(1) Requested h by (auto simp: exit_known_def process_step_def)
next
  case (RunBegins rid target)
  then show ?thesis using assms(1) begin_run_server [where s = "pr_server p" and ops = "dp_store D"]
    by (auto simp: exit_known_def process_step_def same_but_store_def)
next
  case (RunEnds rid target is_group r)
  then show ?thesis using assms(1) finish_run_server [where s = "pr_server p" and ops = "dp_store D"]
    by (auto simp: exit_known_def process_step_def same_but_store_def)
qed (use assms(1) in \<open>auto simp: exit_known_def process_step_def initiate_shutdown_def\<close>)

text \<open>
  The drain waits for the active runs only: a run whose task was created and has not
  begun does not hold the server up.
\<close>

definition process_drain :: "rat \<Rightarrow> (rat \<Rightarrow> ('st, 'r) process) \<Rightarrow> rat \<Rightarrow> rat" where
  "process_drain drain_timeout state_at t = server_drain drain_timeout (\<lambda>u. length (sv_active (pr_server (state_at u)))) t"

lemma drain_overlooks_created_runs:
  "sv_active (pr_server (state_at t)) = [] \<Longrightarrow> process_drain drain_timeout state_at t = t"
  by (simp add: process_drain_def server_drain_def)

text \<open>
  A store that refuses the first writes of a run ends its task outside the handler that
  would settle it: the run stays active for good.
\<close>

lemma failed_start_stays_active:
  assumes "so_set_state ops rid RunRunning (sv_store s) = (Inl e, st)"
  shows "\<exists>u. execute_run ops E R rid target is_group t s = (Inl e, u) \<and> rid \<in> set (dkeys (sv_active u))"
  using assms
  by (simp add: execute_run_def begin_run_def on_store_def bnd_def dkeys_def)

definition sample_deployment :: "(run_store, nat) deployment" where
  "sample_deployment = \<lparr> dp_token = None, dp_connected = (\<lambda>_. None), dp_store = memory_ops,
     dp_routes = (\<lambda>rq s. ([rq_path rq], s)) \<rparr>"

definition sample_process :: "(run_store, nat) process" where
  "sample_process = \<lparr> pr_server = (server_init \<lparr> sto_records = [], sto_next = 0 \<rparr> 0)\<lparr>sv_active := [(''r'', ())]\<rparr>,
     pr_handlers = [SIGTERM], pr_should_exit = False, pr_killed = False, pr_created = [''s''], pr_answers = [] \<rparr>"


section \<open>The router around a server\<close>

text \<open>
  \<open>AgentRouter\<close> takes a server over or builds one, keeps the runtime meant for its worker
  and appends the routes of the server as they were built; \<open>pre\<close> and the tags go to
  the base class and do not change them.
\<close>

definition make_router ::
  "('st, job_state rt) server option \<Rightarrow> job_state rt option \<Rightarrow> 'st option \<Rightarrow> bool \<Rightarrow> 'b rt option
    \<Rightarrow> job_state rt \<Rightarrow> 'st \<Rightarrow> exn + ('st, 'b) router" where
  "make_router handed runtime store sse worker_rt fresh_runtime fresh_store =
    map_sum id (\<lambda>_. \<lparr> ro_server = (case handed of
          Some s \<Rightarrow> s
        | None \<Rightarrow> server_init (case store of None \<Rightarrow> fresh_store | Some st \<Rightarrow> st)
                             (case runtime of None \<Rightarrow> fresh_runtime | Some rt \<Rightarrow> rt)),
       ro_worker = None, ro_worker_rt = worker_rt \<rparr>)
     (router_init (handed \<noteq> None) (runtime \<noteq> None) (store \<noteq> None) sse)"

definition router_routes :: "string list \<Rightarrow> bool \<Rightarrow> bool \<Rightarrow> http_route list" where
  "router_routes pre sse store = build_routes sse store"

text \<open>
  \<open>broker\<close>: the library's broker inside the one of the backend, which is there once the
  transport was started or when it was handed over; the in-memory broker has none.
\<close>

definition library_broker :: "'m built_backend \<Rightarrow> 'm broker_core option" where
  "library_broker b =
    (case backend_broker b of
       Some (TransportBroker tr core) \<Rightarrow> (if bc_built core then Some core else None)
     | _ \<Rightarrow> None)"

text \<open>A broker-mode runtime on a URL has no library broker before it was started.\<close>

lemma no_library_broker_before_start:
  "build_broker scheme url = Inr k \<Longrightarrow> library_broker (BuiltJobs k cfg st) = None"
  by (auto simp: build_broker_def make_broker_def library_broker_def backend_broker_def core_init_def
      split: if_splits option.splits sum.splits)

text \<open>The lifespan as a context: the shutdown runs however the application ends.\<close>

definition router_lifespan ::
  "(('st, 'b) router, exn, unit) eff \<Rightarrow> (('st, 'b) router \<Rightarrow> ('st, 'b) router) \<Rightarrow> (('st, 'b) router, exn, 'a) eff
    \<Rightarrow> (('st, 'b) router, exn, 'a) eff" where
  "router_lifespan startup shutdown app = bnd startup (\<lambda>_. finally_do app shutdown)"

lemma lifespan_always_releases:
  assumes "startup r = (Inr (), r1)"
  shows "\<exists>u. snd (router_lifespan startup (router_shutdown finish settle) app r) = router_shutdown finish settle u"
  using assms by (auto simp: router_lifespan_def finally_do_def bnd_def split: prod.split)

section \<open>A handler for someone else's broker\<close>

text \<open>\<open>interop/faststream.py\<close>: an agent as a function of a task, on a runtime or a fresh one.\<close>

definition as_faststream_handler ::
  "agent \<Rightarrow> 'b runtime option \<Rightarrow> 'b runtime \<Rightarrow> task_spec \<Rightarrow> ('b rt, exn, agent_result) eff" where
  "as_faststream_handler a R fresh = run (case R of None \<Rightarrow> fresh | Some S \<Rightarrow> S) (ByAgent a)"

section \<open>A worker process\<close>

text \<open>
  After \<open>start\<close> the command waits for its event, which a handled signal sets; however
  the wait ends, the worker is stopped.  A \<open>SIGINT\<close> without a handler cancels the wait,
  a \<open>SIGTERM\<close> without one ends the process where it stands.
\<close>

datatype worker_end = Waiting | Finished "exn + int" | Killed

fun wait_for_stop :: "os_signal list \<Rightarrow> os_signal list \<Rightarrow> worker_end" where
  "wait_for_stop handlers [] = Waiting"
| "wait_for_stop handlers (g # gs) =
    (if g \<in> set handlers then Finished (Inr 0)
     else if g = SIGINT then Finished (Inl (Exn (PyOther ''KeyboardInterrupt'') []))
     else Killed)"

definition worker_process ::
  "(os_signal \<Rightarrow> exn option) \<Rightarrow> nat \<Rightarrow> 'b worker_config \<Rightarrow> os_signal list \<Rightarrow> ('b worker_state \<Rightarrow> 'b worker_state)
    \<Rightarrow> 'b worker_state \<Rightarrow> (handler, 'm) broker \<Rightarrow> exn + worker_end \<times> 'b worker_state \<times> (handler, 'm) broker" where
  "worker_process refuses wid C signals finish w b =
    map_sum id (\<lambda>hs. case worker_start wid C w b of (w1, b1) \<Rightarrow>
      (case wait_for_stop hs signals of
         Finished r \<Rightarrow> (Finished r, worker_stop C finish w1 b1)
       | x \<Rightarrow> (x, w1, b1)))
     (install_handlers refuses [SIGTERM, SIGINT] [])"

lemma finished_worker_is_stopped:
  assumes "worker_process refuses wid C signals finish w b = Inr (Finished r, w', b')" "\<not> ws_started w"
  shows "\<not> ws_started w' \<and> \<not> br_started b' \<and> audience b' topic = [] \<and> pool b' topic g = []"
  using assms
  by (cases "install_handlers refuses [SIGTERM, SIGINT] []")
    (auto simp: worker_process_def worker_start_def worker_stop_def broker_stop_def audience_def pool_def dget_or_def
      emit_worker_event_def on_rt_def Let_def simp del: install_handlers.simps split: worker_end.splits prod.splits)

end
