(* ===== verification/Client_Runs.thy ===== *)
theory Client_Runs
  imports Client Run_Lifecycle
begin

text \<open>
  The rest of the two clients: discovery and the handle of a submitted run, over HTTP in
  \<open>murmur_client/client.py\<close> and in process in \<open>client/local.py\<close>, with the wire form of a
  run's status in \<open>murmur_client/_wire.py\<close>.  A handle works over either client through
  the operations both provide.
\<close>

section \<open>The status of a run on the wire\<close>

definition progress_doc :: "run_progress \<Rightarrow> pyval" where
  "progress_doc p = VDict
    [(''total'', VInt (rp_total p)), (''completed'', VInt (rp_completed p)), (''failed'', VInt (rp_failed p)),
     (''running'', VInt (rp_running p))]"

definition run_status_doc :: "run_status \<Rightarrow> pyval" where
  "run_status_doc st = VDict
    [(''run_id'', VStr (st_run_id st)), (''state'', VStr (run_state_value (st_state st))),
     (''progress'', json_opt progress_doc (st_progress st))]"

definition run_states :: "(string, run_state) dict" where
  "run_states = map (\<lambda>t. (run_state_value t, t)) [RunPending, RunRunning, RunCompleted, RunFailed, RunCancelled]"

definition field_int :: "(string, pyval) dict \<Rightarrow> string \<Rightarrow> int option" where
  "field_int d k = (case dget d k of None \<Rightarrow> Some 0 | Some (VInt i) \<Rightarrow> Some i | _ \<Rightarrow> None)"

definition parse_progress :: "pyval \<Rightarrow> run_progress option" where
  "parse_progress v =
    (case v of
       VDict d \<Rightarrow>
        (case (field_int d ''total'', field_int d ''completed'', field_int d ''failed'', field_int d ''running'') of
           (Some a, Some b, Some c, Some r) \<Rightarrow>
             Some \<lparr> rp_total = a, rp_completed = b, rp_failed = c, rp_running = r \<rparr>
         | _ \<Rightarrow> None)
     | _ \<Rightarrow> None)"

definition parse_run_status :: "pyval \<Rightarrow> run_status option" where
  "parse_run_status v =
    (case v of
       VDict d \<Rightarrow>
        (case (dget d ''run_id'', dget d ''state'') of
           (Some (VStr r), Some (VStr s)) \<Rightarrow>
            (case dget run_states s of
               None \<Rightarrow> None
             | Some t \<Rightarrow>
                (case dget d ''progress'' of
                   None \<Rightarrow> Some \<lparr> st_run_id = r, st_state = t, st_progress = None \<rparr>
                 | Some VNone \<Rightarrow> Some \<lparr> st_run_id = r, st_state = t, st_progress = None \<rparr>
                 | Some p \<Rightarrow> map_option (\<lambda>q. \<lparr> st_run_id = r, st_state = t, st_progress = Some q \<rparr>) (parse_progress p)))
         | _ \<Rightarrow> None)
     | _ \<Rightarrow> None)"

section \<open>Over HTTP\<close>

text \<open>One request and what the client makes of the reply.\<close>

definition http_call ::
  "(exn \<Rightarrow> string \<Rightarrow> string option) \<Rightarrow> string option \<Rightarrow> http_request \<Rightarrow> string \<Rightarrow> (('st, 'r) server, exn, pyval) eff
    \<Rightarrow> (reply \<Rightarrow> exn + 'a) \<Rightarrow> (('st, 'r) server, exn, 'a) eff" where
  "http_call getattr_of server_token rq rid route read s =
    (case exchange getattr_of server_token rq rid route s of (rp, u) \<Rightarrow> (read rp, u))"

definition read_body :: "(pyval \<Rightarrow> exn + 'a) \<Rightarrow> reply \<Rightarrow> exn + 'a" where
  "read_body f r =
    (case raise_for_status r of
       Inl e \<Rightarrow> Inl e
     | Inr _ \<Rightarrow> (case rp_body r of None \<Rightarrow> Inl (Exn PyValueError ''JSONDecodeError'') | Some v \<Rightarrow> f v))"

text \<open>\<open>dict(r.json())\<close> of the objects the routes answer.\<close>

definition json_dict :: "pyval \<Rightarrow> exn + (string, pyval) dict" where
  "json_dict v = (case v of VDict p \<Rightarrow> Inr p | _ \<Rightarrow> Inl (Exn PyTypeError ''not a mapping''))"

definition read_status :: "pyval \<Rightarrow> exn + run_status" where
  "read_status v =
    (case parse_run_status v of None \<Rightarrow> Inl (Exn PyValueError ''RunStatus'') | Some st \<Rightarrow> Inr st)"

definition read_run_id :: "pyval \<Rightarrow> exn + string" where
  "read_run_id v =
    (case v of
       VDict p \<Rightarrow> (case dget p ''run_id'' of Some (VStr r) \<Rightarrow> Inr r | _ \<Rightarrow> Inl (Exn PyKeyError ''run_id''))
     | _ \<Rightarrow> Inl (Exn PyTypeError ''indices must be integers''))"

definition http_health ::
  "(exn \<Rightarrow> string \<Rightarrow> string option) \<Rightarrow> string option \<Rightarrow> string option \<Rightarrow> string
    \<Rightarrow> (('st, 'r) server, exn, pyval) eff" where
  "http_health getattr_of server_token token rid =
    http_call getattr_of server_token (client_get_headers token ''/health'') rid
      (ret (VDict [(''status'', VStr ''ok'')])) (read_body Inr)"

definition http_list_agents ::
  "(exn \<Rightarrow> string \<Rightarrow> string option) \<Rightarrow> string option \<Rightarrow> string option \<Rightarrow> string
    \<Rightarrow> (('st, 'r) server, exn, pyval list) eff" where
  "http_list_agents getattr_of server_token token rid =
    http_call getattr_of server_token (client_get_headers token ''/agents'') rid
      (gets (\<lambda>s. VList (map VStr (list_agents s)))) client_list"

definition http_list_groups ::
  "(exn \<Rightarrow> string \<Rightarrow> string option) \<Rightarrow> string option \<Rightarrow> string option \<Rightarrow> string
    \<Rightarrow> (('st, 'r) server, exn, pyval list) eff" where
  "http_list_groups getattr_of server_token token rid =
    http_call getattr_of server_token (client_get_headers token ''/groups'') rid
      (gets (\<lambda>s. VList (map VStr (list_groups s)))) client_list"

definition http_agent_schema ::
  "(exn \<Rightarrow> string \<Rightarrow> string option) \<Rightarrow> string option \<Rightarrow> string option \<Rightarrow> string \<Rightarrow> (string \<Rightarrow> pyval) \<Rightarrow> string
    \<Rightarrow> (('st, 'r) server, exn, (string, pyval) dict) eff" where
  "http_agent_schema getattr_of server_token token rid schema n =
    http_call getattr_of server_token (client_get_headers token (''/agents/'' @ n @ ''/schema'')) rid
      (agent_schema schema n) (read_body json_dict)"

definition http_group_topology ::
  "(exn \<Rightarrow> string \<Rightarrow> string option) \<Rightarrow> string option \<Rightarrow> string option \<Rightarrow> string \<Rightarrow> string
    \<Rightarrow> (('st, 'r) server, exn, (string, pyval) dict) eff" where
  "http_group_topology getattr_of server_token token rid n =
    http_call getattr_of server_token (client_get_headers token (''/groups/'' @ n @ ''/topology'')) rid
      (group_topology n) (read_body json_dict)"

definition http_submit ::
  "(exn \<Rightarrow> string \<Rightarrow> string option) \<Rightarrow> string option \<Rightarrow> string option \<Rightarrow> 'st store_ops \<Rightarrow> string \<Rightarrow> string \<Rightarrow> bool
    \<Rightarrow> string option \<Rightarrow> string \<Rightarrow> (('st, 'r) server, exn, string) eff" where
  "http_submit getattr_of server_token token ops run_id target is_group rid fresh =
    (let r = call_id rid fresh in
     http_call getattr_of server_token (client_headers token ''/submit'' r) r
       (bnd (submit ops run_id target is_group) (\<lambda>i. ret (VDict [(''run_id'', VStr i)]))) (read_body read_run_id))"

definition http_status ::
  "(exn \<Rightarrow> string \<Rightarrow> string option) \<Rightarrow> string option \<Rightarrow> string option \<Rightarrow> 'st store_ops \<Rightarrow> string \<Rightarrow> string
    \<Rightarrow> (('st, 'r) server, exn, run_status) eff" where
  "http_status getattr_of server_token token ops rid run_id =
    http_call getattr_of server_token (client_get_headers token (''/runs/'' @ run_id @ ''/status'')) rid
      (bnd (on_store (so_status ops run_id)) (\<lambda>st. ret (run_status_doc st))) (read_body read_status)"

definition http_cancel ::
  "(exn \<Rightarrow> string \<Rightarrow> string option) \<Rightarrow> string option \<Rightarrow> string option \<Rightarrow> 'st store_ops \<Rightarrow> string \<Rightarrow> string
    \<Rightarrow> (('st, 'r) server, exn, unit) eff" where
  "http_cancel getattr_of server_token token ops rid run_id =
    http_call getattr_of server_token (client_get_headers token (''/runs/'' @ run_id @ ''/cancel'')) rid
      (bnd (cancel_run ops run_id) (\<lambda>st. ret (VDict [(''state'', VStr (run_state_value st))]))) raise_for_status"

section \<open>In process\<close>

definition local_health :: "(('st, 'r) server, exn, pyval) eff" where
  "local_health = ret (VDict [(''status'', VStr ''ok'')])"

definition local_list_agents :: "(('st, 'r) server, exn, string list) eff" where
  "local_list_agents = gets (\<lambda>s. sort (dkeys (sv_agents s)))"

definition local_list_groups :: "(('st, 'r) server, exn, string list) eff" where
  "local_list_groups = gets (\<lambda>s. sort (dkeys (sv_groups s)))"

definition local_agent_schema :: "(string \<Rightarrow> pyval) \<Rightarrow> string \<Rightarrow> (('st, 'r) server, exn, pyval) eff" where
  "local_agent_schema schema n =
    bnd (require_agent n) (\<lambda>a. ret (VDict
      [(''name'', VStr (a_name a)), (''input_type'', json_opt schema (input_type a)), (''output_type'', schema (output_type a))]))"

definition local_status :: "'st store_ops \<Rightarrow> string \<Rightarrow> (('st, 'r) server, exn, run_status) eff" where
  "local_status ops run_id = on_store (so_status ops run_id)"

section \<open>Run handles\<close>

record ('s, 'o) run_backend =
  rb_status :: "string \<Rightarrow> ('s, exn, run_status) eff"
  rb_result :: "string \<Rightarrow> ('s, exn, 'o) eff"
  rb_cancel :: "string \<Rightarrow> ('s, exn, unit) eff"

record run_handle =
  rh_id :: string
  rh_target :: string

definition http_backend ::
  "(exn \<Rightarrow> string \<Rightarrow> string option) \<Rightarrow> string option \<Rightarrow> string option \<Rightarrow> 'st store_ops \<Rightarrow> string
    \<Rightarrow> (('st, 'r) server, agent_result) run_backend" where
  "http_backend getattr_of server_token token ops rid =
    \<lparr> rb_status = http_status getattr_of server_token token ops rid,
      rb_result = (\<lambda>i. http_result getattr_of server_token token ops i rid),
      rb_cancel = http_cancel getattr_of server_token token ops rid \<rparr>"

definition local_backend :: "'st store_ops \<Rightarrow> (('st, 'r) server, group_output) run_backend" where
  "local_backend ops = \<lparr> rb_status = local_status ops, rb_result = local_result ops, rb_cancel = local_cancel ops \<rparr>"

definition handle_status :: "('s, 'o) run_backend \<Rightarrow> run_handle \<Rightarrow> ('s, exn, run_status) eff" where
  "handle_status B h = rb_status B (rh_id h)"

definition handle_result :: "('s, 'o) run_backend \<Rightarrow> run_handle \<Rightarrow> ('s, exn, 'o) eff" where
  "handle_result B h = rb_result B (rh_id h)"

definition handle_cancel :: "('s, 'o) run_backend \<Rightarrow> run_handle \<Rightarrow> ('s, exn, unit) eff" where
  "handle_cancel B h = rb_cancel B (rh_id h)"

section \<open>One handle, two transports\<close>

lemma parse_run_status_doc [simp]: "parse_run_status (run_status_doc st) = Some st"
proof -
  have "dget run_states (run_state_value (st_state st)) = Some (st_state st)"
    by (cases "st_state st") (simp_all add: run_states_def)
  moreover have "parse_progress (progress_doc p) = Some p" for p
    by (simp add: parse_progress_def progress_doc_def field_int_def)
  ultimately show ?thesis
    by (cases st; cases "st_progress st")
      (simp_all add: parse_run_status_def run_status_doc_def json_opt_def progress_doc_def)
qed

lemma get_passes:
  "admitted server_token token s \<Longrightarrow>
    request_guards server_token (sv_shutting_down s) (client_get_headers token path) = Passed"
  by (auto simp: admitted_def request_guards_def auth_guard_def shutdown_guard_def client_get_headers_def split: option.split)

definition plain :: "exn + 'a \<Rightarrow> bool" where
  "plain x = (case x of Inl e \<Rightarrow> \<not> http_exception e | Inr _ \<Rightarrow> True)"

text \<open>A value arrives as what its reader makes of it, an exception as the client's.\<close>

lemma http_call_reads:
  assumes "request_guards server_token (sv_shutting_down s) rq = Passed" "route s = (x, u)" "plain x"
  shows "http_call getattr_of server_token rq rid route (read_body f) s =
      ((case x of Inl e \<Rightarrow> Inl (client_error e) | Inr v \<Rightarrow> f v), u)"
    and "http_call getattr_of server_token rq rid route raise_for_status s =
      ((case x of Inl e \<Rightarrow> Inl (client_error e) | Inr v \<Rightarrow> Inr ()), u)"
proof -
  have bad: "raise_for_status (respond getattr_of rid (Inl e)) = Inl (client_error e)" if "x = Inl e" for e
    using that assms(3) read_failure [of e] by (simp add: plain_def)
  have good: "raise_for_status (respond getattr_of rid (Inr v)) = Inr ()" "rp_body (respond getattr_of rid (Inr v)) = Some v" for v
    by (simp_all add: raise_for_status_def respond_def)
  show "http_call getattr_of server_token rq rid route (read_body f) s =
      ((case x of Inl e \<Rightarrow> Inl (client_error e) | Inr v \<Rightarrow> f v), u)"
    and "http_call getattr_of server_token rq rid route raise_for_status s =
      ((case x of Inl e \<Rightarrow> Inl (client_error e) | Inr v \<Rightarrow> Inr ()), u)"
    using assms(1,2) bad good by (cases x; simp add: http_call_def exchange_def read_body_def)+
qed

lemma http_status_local:
  assumes "admitted server_token token s" "local_status ops i s = (x, u)" "plain x"
  shows "http_status getattr_of server_token token ops rid i s = (map_sum client_error id x, u)"
proof -
  have r: "bnd (on_store (so_status ops i)) (\<lambda>st. ret (run_status_doc st)) s = (map_sum id run_status_doc x, u)"
    using assms(2) by (cases x) (simp_all add: local_status_def bnd_def)
  have "plain (map_sum id run_status_doc x)" using assms(3) by (cases x) (simp_all add: plain_def)
  from http_call_reads(1) [where s = s and f = read_status, OF get_passes [OF assms(1)], where route = "bnd (on_store (so_status ops i)) (\<lambda>st. ret (run_status_doc st))", OF r this] show ?thesis
    by (cases x) (simp_all add: http_status_def read_status_def)
qed

lemma http_cancel_local:
  assumes "admitted server_token token s" "local_cancel ops i s = (x, u)" "plain x"
  shows "http_cancel getattr_of server_token token ops rid i s = (map_sum client_error id x, u)"
proof -
  have "\<exists>v. bnd (cancel_run ops i) (\<lambda>st. ret (VDict [(''state'', VStr (run_state_value st))])) s = (map_sum id (\<lambda>_. v) x, u)"
    using assms(2) by (auto simp: local_cancel_def cancel_run_def bnd_def split: prod.splits sum.splits if_splits)
  then obtain v where
    r: "bnd (cancel_run ops i) (\<lambda>st. ret (VDict [(''state'', VStr (run_state_value st))])) s = (map_sum id (\<lambda>_. v) x, u)" ..
  have "plain (map_sum id (\<lambda>_. v) x)" using assms(3) by (cases x) (simp_all add: plain_def)
  from http_call_reads(2) [where s = s, OF get_passes [OF assms(1)], where route = "bnd (cancel_run ops i) (\<lambda>st. ret (VDict [(''state'', VStr (run_state_value st))]))", OF r this] show ?thesis
    by (cases x) (simp_all add: http_cancel_def)
qed

lemma http_submit_local:
  assumes "admitted server_token token s" "local_submit ops i target is_group s = (x, u)" "plain x"
  shows "http_submit getattr_of server_token token ops i target is_group rid fresh s = (map_sum client_error id x, u)"
proof -
  have r: "bnd (submit ops i target is_group) (\<lambda>i. ret (VDict [(''run_id'', VStr i)])) s = (map_sum id (\<lambda>i. VDict [(''run_id'', VStr i)]) x, u)"
    using assms(2) by (cases x) (simp_all add: local_submit_def submit_def bnd_def)
  have "plain (map_sum id (\<lambda>i. VDict [(''run_id'', VStr i)]) x)" using assms(3) by (cases x) (simp_all add: plain_def)
  from http_call_reads(1) [where s = s and f = read_run_id, OF admitted_passes [OF assms(1)], where route = "bnd (submit ops i target is_group) (\<lambda>i. ret (VDict [(''run_id'', VStr i)]))", OF r this] show ?thesis
    by (cases x) (simp_all add: http_submit_def read_run_id_def Let_def)
qed

lemma failure_is_raised: "\<exists>e'. read_result (respond getattr_of rid (Inl e)) = Inl e'"
proof -
  have "400 \<le> response_status (\<lambda>_. 409) e"
    using status_for_cases [of "exn_cls e" "exn_msg e"] by (simp add: response_status_def)
  then show ?thesis by (simp add: read_result_def respond_def raise_for_status_def)
qed

text \<open>A result that is not ready yet: 409 and a \<open>RegistryError\<close>.\<close>

lemma read_not_ready: "read_result (respond getattr_of rid (Inl (http_409 d))) = Inl (no_typed_error 409)"
  by (simp add: read_result_def respond_def raise_for_status_def http_409_def response_status_def isinstance_def
      issubclass_def dhas_def)

text \<open>The image of a result in process: its own when it is one agent's, else an error.\<close>

definition same_outcome :: "exn + group_output \<Rightarrow> exn + agent_result \<Rightarrow> bool" where
  "same_outcome x y =
    (case x of
       Inl e \<Rightarrow> y = Inl (client_error e) \<or> (exn_cls e = RegistryError \<and> y = Inl (no_typed_error 409))
     | Inr (OneResult r) \<Rightarrow> y = client_outcome (Inr r)
     | Inr (ManyResults g) \<Rightarrow> (\<exists>e. y = Inl e))"

lemma http_result_local:
  assumes "admitted server_token token s" "local_result ops i s = (x, u)" "plain x"
    and "\<And>r e. x = Inr (OneResult r) \<Longrightarrow> dump_output (ar_output r) = Inl e \<Longrightarrow> \<not> http_exception e"
  shows "snd (http_result getattr_of server_token token ops i rid s) = u
    \<and> same_outcome x (fst (http_result getattr_of server_token token ops i rid s))"
proof -
  let ?read = "\<lambda>y. read_result (respond getattr_of rid y)"
  obtain y v where y: "get_run_result ops i s = (y, v)" by force
  have h: "http_result getattr_of server_token token ops i rid s = (?read y, v)"
    using get_passes [OF assms(1)] y by (simp add: http_result_def exchange_def)
  have "v = u \<and> ((\<exists>e. x = Inl e \<and> y = Inl e) \<or> (\<exists>d m. x = Inl (Exn RegistryError m) \<and> y = Inl (http_409 d))
      \<or> (\<exists>out. x = Inr out \<and> y = serialize_result out))"
    using assms(2) y by (auto simp: local_result_def get_run_result_def bnd_def split: prod.splits sum.splits if_splits option.splits)
  then consider e where "v = u" "x = Inl e" "y = Inl e" | d m where "v = u" "x = Inl (Exn RegistryError m)" "y = Inl (http_409 d)"
    | out where "v = u" "x = Inr out" "y = serialize_result out" by blast
  then show ?thesis
  proof cases
    case 1
    then show ?thesis using h read_failure [of e] assms(3) by (simp add: plain_def same_outcome_def read_result_def)
  next
    case 2
    then show ?thesis using h by (simp add: same_outcome_def read_not_ready)
  next
    case 3
    show ?thesis
    proof (cases out)
      case (OneResult r)
      then have r: "y = serialize_agent_result r" "x = Inr (OneResult r)" using 3 by (simp_all add: serialize_result_def)
      have "?read y = client_outcome (Inr r)"
      proof (cases "dump_output (ar_output r)")
        case (Inl e)
        then show ?thesis using r assms(4) [OF r(2) Inl] read_failure [of e]
          by (simp add: read_result_def client_outcome_def serialize_agent_result_def)
      next
        case (Inr v)
        then show ?thesis using r read_success [of r] by (fastforce simp: client_outcome_def serialize_agent_result_def)
      qed
      then show ?thesis using h 3 OneResult by (simp add: same_outcome_def)
    next
      case (ManyResults g)
      have "\<exists>e. ?read y = Inl e"
        using 3 ManyResults group_result_is_unreadable [of g] failure_is_raised
        by (cases "serialize_result (ManyResults g)") auto
      then show ?thesis using h 3 ManyResults by (simp add: same_outcome_def)
    qed
  qed
qed

text \<open>
  C40. A submitted run is handled alike over either transport.  Past the guards, asking
  for its status, cancelling it, submitting and fetching its result leave the server in
  the state the in-process client leaves it in; the status arrives whole, an exception
  as the client's image of it, a run that is not finished as a \<open>RegistryError\<close>, and one
  agent's result as its image under what JSON keeps.
\<close>

theorem run_handles_agree:
  assumes "admitted server_token token s"
    and "handle_status (local_backend ops) h s = (x, u)" "plain x"
    and "handle_cancel (local_backend ops) h s = (y, v)" "plain y"
    and "handle_result (local_backend ops) h s = (z, w)" "plain z"
    and "\<And>r e. z = Inr (OneResult r) \<Longrightarrow> dump_output (ar_output r) = Inl e \<Longrightarrow> \<not> http_exception e"
    and "local_submit ops i target is_group s = (n, q)" "plain n"
  shows "handle_status (http_backend getattr_of server_token token ops rid) h s = (map_sum client_error id x, u)
    \<and> handle_cancel (http_backend getattr_of server_token token ops rid) h s = (map_sum client_error id y, v)
    \<and> snd (handle_result (http_backend getattr_of server_token token ops rid) h s) = w
    \<and> same_outcome z (fst (handle_result (http_backend getattr_of server_token token ops rid) h s))
    \<and> http_submit getattr_of server_token token ops i target is_group body fresh s = (map_sum client_error id n, q)"
  using assms http_status_local [OF assms(1), of ops "rh_id h" x u] http_cancel_local [OF assms(1), of ops "rh_id h" y v]
    http_result_local [OF assms(1), of ops "rh_id h" z w] http_submit_local [OF assms(1,9,10)]
  by (simp add: handle_status_def handle_cancel_def handle_result_def http_backend_def local_backend_def)

lemma run_handles_agree_witness:
  "let h = \<lparr> rh_id = ''r1'', rh_target = ''a'' \<rparr>; B = http_backend (\<lambda>_ _. None) (Some ''key'') (Some ''key'') memory_ops ''q''; s = desk_server desk_store in
    fst (handle_status B h s) = Inr \<lparr> st_run_id = ''r1'', st_state = RunPending, st_progress = None \<rparr>
    \<and> fst (handle_cancel B h s) = Inr () \<and> (\<exists>e. fst (handle_result B h s) = Inl e \<and> exn_cls e = RegistryError)"
proof -
  let ?h = "\<lparr> rh_id = ''r1'', rh_target = ''a'' \<rparr>" and ?s = "desk_server desk_store"
  let ?B = "http_backend (\<lambda>_ _. None) (Some ''key'') (Some ''key'') memory_ops ''q''"
  obtain x u y v z w n q where r: "handle_status (local_backend memory_ops) ?h ?s = (x, u)"
    "handle_cancel (local_backend memory_ops) ?h ?s = (y, v)" "handle_result (local_backend memory_ops) ?h ?s = (z, w)"
    "local_submit memory_ops ''r2'' ''b'' False ?s = (n, q)" by (metis surj_pair)
  have vals: "fst (handle_status (local_backend memory_ops) ?h ?s) = Inr \<lparr> st_run_id = ''r1'', st_state = RunPending, st_progress = None \<rparr>"
    "fst (handle_cancel (local_backend memory_ops) ?h ?s) = Inr ()"
    "fst (handle_result (local_backend memory_ops) ?h ?s) = Inl (Exn RegistryError ''pending'')"
    "fst (local_submit memory_ops ''r2'' ''b'' False ?s) = Inl (Exn RegistryError ''b is not registered'')"
    by (simp_all add: handle_status_def handle_cancel_def handle_result_def local_backend_def local_status_def local_cancel_def
        local_result_def local_submit_def require_agent_def on_store_def memory_ops_def store_status_def store_set_state_def
        store_push_def with_record_def desk_server_def desk_store_def store_create_def new_record_def bnd_def terminal_state_def)
  have adm: "admitted (Some ''key'') (Some ''key'') ?s" by (simp add: admitted_def desk_server_def)
  have p: "x = Inr \<lparr> st_run_id = ''r1'', st_state = RunPending, st_progress = None \<rparr>" "y = Inr ()"
    "z = Inl (Exn RegistryError ''pending'')" "n = Inl (Exn RegistryError ''b is not registered'')"
    using vals r by simp_all
  then have "plain x" "plain y" "plain z" "plain n" by (simp_all add: plain_def http_exception_def)
  from run_handles_agree [OF adm r(1) this(1) r(2) this(2) r(3) this(3) _ r(4) this(4), where rid = "''q''" and getattr_of = "\<lambda>_ _. None"
      and body = None and fresh = "''f''"] p
  show ?thesis by (auto simp: same_outcome_def client_error_def murmur_classes_def no_typed_error_def Let_def)
qed

end
