(* ===== verification/Http_App.thy ===== *)
theory Http_App
  imports Server_Process Client_Runs
begin

text \<open>
  The whole HTTP application of \<open>server/app.py\<close>: a request passes the guards, is looked up
  in the table of routes and answered by the handler the route names, over the server, the
  history of events and the tasks created for submitted runs.  FastAPI answers by itself
  what no route fits and what has no proper body; query parameters and bodies are given
  as FastAPI converts them.
\<close>

section \<open>Requests\<close>

datatype request_body =
    NoBody
  | RunBody task_spec "string option"
  | GatherBody "task_spec list" int "string option"
  | SubmitBody string bool task_spec "string option"

text \<open>
  \<open>aq_fresh\<close> and \<open>aq_run\<close> are the ids that are made up while the request is served (of the
  request and of a run), \<open>aq_now\<close> is the time.
\<close>

record app_request =
  aq_method :: http_method
  aq_segments :: "string list"
  aq_authorization :: "string option"
  aq_request_id :: "string option"
  aq_text :: "string \<Rightarrow> string option"
  aq_number :: "string \<Rightarrow> int option"
  aq_body :: request_body
  aq_fresh :: string
  aq_run :: string
  aq_now :: rat

definition path_text :: "string list \<Rightarrow> string" where
  "path_text segs = concat (map (\<lambda>x. CHR ''/'' # x) segs)"

definition guarded :: "app_request \<Rightarrow> http_request" where
  "guarded q = \<lparr> rq_path = path_text (aq_segments q), rq_authorization = aq_authorization q, rq_request_id = aq_request_id q \<rparr>"

definition plain_segment :: "string \<Rightarrow> bool" where
  "plain_segment x = (x \<noteq> [] \<and> CHR ''/'' \<notin> set x)"

section \<open>The application\<close>

record ('st, 'es, 'b) application =
  ap_env :: group_env
  ap_runtime :: "'b runtime"
  ap_token :: "string option"
  ap_store :: "'st store_ops"
  ap_history :: "'es event_ops option"
  ap_sse :: bool
  ap_connected :: "'b rt \<Rightarrow> bool option"
  ap_schema :: "string \<Rightarrow> pyval"
  ap_fromiso :: "string \<Rightarrow> rat option"
  ap_isofmt :: "rat \<Rightarrow> string"
  ap_view :: runtime_view
  ap_enrolled :: "string list"

record created_run =
  cr_id :: string
  cr_target :: string
  cr_is_group :: bool
  cr_task :: task_spec

record ('st, 'es, 'r) app_state =
  as_server :: "('st, 'r) server"
  as_events :: 'es
  as_tasks :: "created_run list"

datatype content =
    Document pyval
  | Probe http_response
  | RunsPage "run_summary list" nat int int
  | EventList "(string, pyval) dict list"
  | UsageReport bucket "(string \<times> bucket) list"
  | ToolsReport "(string \<times> tool_bucket \<times> int \<times> int \<times> int \<times> int) list"
  | StatsReport stats_response
  | RunStream string
  | EventStream

definition on_server :: "(('st, 'r) server, exn, 'a) eff \<Rightarrow> (('st, 'es, 'r) app_state, exn, 'a) eff" where
  "on_server m s = (case m (as_server s) of (r, t) \<Rightarrow> (r, s\<lparr>as_server := t\<rparr>))"

definition on_history :: "('es, exn, 'a) eff \<Rightarrow> (('st, 'es, 'r) app_state, exn, 'a) eff" where
  "on_history m s = (case m (as_events s) of (r, t) \<Rightarrow> (r, s\<lparr>as_events := t\<rparr>))"

definition ok_document :: pyval where
  "ok_document = VDict [(''status'', VStr ''ok'')]"

text \<open>\<open>request.state.request_id\<close>, the header or a fresh id.\<close>

definition state_id :: "app_request \<Rightarrow> string" where
  "state_id q = request_id_header (guarded q) (aq_fresh q)"

text \<open>Which bodies FastAPI takes for a route.\<close>

fun body_fits :: "endpoint \<Rightarrow> request_body \<Rightarrow> bool" where
  "body_fits RunAgent b = (case b of RunBody t i \<Rightarrow> True | _ \<Rightarrow> False)"
| "body_fits RunGroup b = (case b of RunBody t i \<Rightarrow> True | _ \<Rightarrow> False)"
| "body_fits GatherAgent b = (case b of GatherBody ts mc i \<Rightarrow> True | _ \<Rightarrow> False)"
| "body_fits Submit b = (case b of SubmitBody x g t i \<Rightarrow> True | _ \<Rightarrow> False)"
| "body_fits _ b = True"

section \<open>Handlers\<close>

abbreviation document :: "('s, exn, pyval) eff \<Rightarrow> ('s, exn, content) eff" where
  "document m \<equiv> bnd m (\<lambda>v. ret (Document v))"

definition post_run ::
  "('st, 'es, 'b) application \<Rightarrow> app_request \<Rightarrow> string \<Rightarrow> bool \<Rightarrow> (('st, 'es, 'b rt) app_state, exn, content) eff" where
  "post_run A q name is_group =
    (case aq_body q of
       RunBody t i \<Rightarrow> document (on_server (route_run (ap_env A) (ap_runtime A) name is_group t i (Some (state_id q))))
     | _ \<Rightarrow> raise (Exn PyValueError ''body''))"

definition post_gather ::
  "('st, 'es, 'b) application \<Rightarrow> app_request \<Rightarrow> string \<Rightarrow> (('st, 'es, 'b rt) app_state, exn, content) eff" where
  "post_gather A q name =
    (case aq_body q of
       GatherBody ts mc i \<Rightarrow> document (on_server (route_gather (ap_runtime A) name ts mc i (Some (state_id q))))
     | _ \<Rightarrow> raise (Exn PyValueError ''body''))"

text \<open>The task that executes a submitted run is created and runs later.\<close>

definition post_submit ::
  "('st, 'es, 'b) application \<Rightarrow> app_request \<Rightarrow> (('st, 'es, 'b rt) app_state, exn, content) eff" where
  "post_submit A q =
    (case aq_body q of
       SubmitBody target is_group t i \<Rightarrow>
         bnd (on_server (submit (ap_store A) (aq_run q) target is_group)) (\<lambda>rid.
         bnd (modify (\<lambda>s. s\<lparr>as_tasks := as_tasks s @ [\<lparr> cr_id = rid, cr_target = target, cr_is_group = is_group,
             cr_task = with_request_id t i (Some (state_id q)) \<rparr>]\<rparr>)) (\<lambda>_.
         ret (Document (VDict [(''run_id'', VStr rid)]))))
     | _ \<Rightarrow> raise (Exn PyValueError ''body''))"

text \<open>The routes over the history; they exist only with a store of events.\<close>

fun ask_history :: "('st, 'es, 'b) application \<Rightarrow> app_request \<Rightarrow> 'es event_ops \<Rightarrow> endpoint \<Rightarrow> string \<Rightarrow> ('es, exn, content) eff" where
  "ask_history A q ops ListRuns x =
    bnd (list_runs ops (or_default (aq_number q ''limit'') 50) (or_default (aq_number q ''offset'') 0) (aq_text q ''status''))
      (\<lambda>(rows, n, l, k). ret (RunsPage rows n l k))"
| "ask_history A q ops RunTree x = bnd (get_run_tree (ap_isofmt A) ops x) (\<lambda>es. ret (EventList es))"
| "ask_history A q ops QueryEvents x =
    bnd (query_events (ap_fromiso A) (ap_isofmt A) ops (aq_text q ''trace_id'') (aq_text q ''event_type'')
           (aq_text q ''since'') (aq_text q ''until'') (or_default (aq_number q ''limit'') 200)) (\<lambda>es. ret (EventList es))"
| "ask_history A q ops UsageRollup x =
    bnd (get_usage (ap_fromiso A) ops (or_default (aq_text q ''group_by'') ''agent'') (aq_text q ''since'') (aq_text q ''until''))
      (\<lambda>(b, rows). ret (UsageReport b rows))"
| "ask_history A q ops ToolsRollup x =
    bnd (get_tools (ap_fromiso A) ops (or_default (aq_text q ''group_by'') ''tool'') (aq_text q ''since'') (aq_text q ''until''))
      (\<lambda>rows. ret (ToolsReport rows))"
| "ask_history A q ops RuntimeStatistics x =
    bnd (get_runtime_stats (ap_view A) ops (ap_sse A) (ap_enrolled A) (aq_now q)) (\<lambda>v. ret (StatsReport v))"
| "ask_history A q ops _ x = raise (Exn PyValueError ''endpoint'')"

definition no_history :: exn where
  "no_history = Exn PyValueError ''history''"

fun answer_endpoint ::
  "('st, 'es, 'b) application \<Rightarrow> app_request \<Rightarrow> endpoint \<Rightarrow> string \<Rightarrow> (('st, 'es, 'b rt) app_state, exn, content) eff" where
  "answer_endpoint A q Healthz x = document (ret ok_document)"
| "answer_endpoint A q Health x = document (ret ok_document)"
| "answer_endpoint A q ReadyzProbe x =
    gets (\<lambda>s. Probe (readyz (sv_shutting_down (as_server s)) (ap_connected A (sv_rt (as_server s)))))"
| "answer_endpoint A q ListAgents x = gets (\<lambda>s. Document (VList (map VStr (list_agents (as_server s)))))"
| "answer_endpoint A q AgentSchema x = document (on_server (agent_schema (ap_schema A) x))"
| "answer_endpoint A q ListGroups x = gets (\<lambda>s. Document (VList (map VStr (list_groups (as_server s)))))"
| "answer_endpoint A q GroupTopology x = document (on_server (group_topology x))"
| "answer_endpoint A q RunAgent x = post_run A q x False"
| "answer_endpoint A q RunGroup x = post_run A q x True"
| "answer_endpoint A q GatherAgent x = post_gather A q x"
| "answer_endpoint A q Submit x = post_submit A q"
| "answer_endpoint A q RunStatusOf x =
    bnd (on_server (on_store (so_status (ap_store A) x))) (\<lambda>st. ret (Document (run_status_doc st)))"
| "answer_endpoint A q RunResultOf x = document (on_server (get_run_result (ap_store A) x))"
| "answer_endpoint A q StreamRun x =
    bnd (on_server (on_store (so_status (ap_store A) x))) (\<lambda>st. ret (RunStream x))"
| "answer_endpoint A q StreamEvents x = ret EventStream"
| "answer_endpoint A q CancelRun x =
    bnd (on_server (cancel_run (ap_store A) x)) (\<lambda>st. ret (Document (VDict [(''state'', VStr (run_state_value st))])))"
| "answer_endpoint A q ep x =
    (case ap_history A of None \<Rightarrow> raise no_history | Some ops \<Rightarrow> on_history (ask_history A q ops ep x))"

section \<open>From a request to its answer\<close>

fun captured :: "segment list \<Rightarrow> string list \<Rightarrow> string" where
  "captured (Param n # ps) (y # ys) = y"
| "captured (Fixed x # ps) (y # ys) = captured ps ys"
| "captured _ _ = []"

datatype app_answer =
    TurnedAway nat string
  | Unrouted
  | Malformed
  | Answered "exn + content"

definition app_routes :: "('st, 'es, 'b) application \<Rightarrow> http_route list" where
  "app_routes A = build_routes (ap_sse A) (ap_history A \<noteq> None)"

definition routed ::
  "('st, 'es, 'b) application \<Rightarrow> app_request \<Rightarrow> ('st, 'es, 'b rt) app_state \<Rightarrow> app_answer \<times> ('st, 'es, 'b rt) app_state" where
  "routed A q s =
    (case first_route plain_segment (aq_method q) (aq_segments q) (app_routes A) of
       None \<Rightarrow> (Unrouted, s)
     | Some r \<Rightarrow>
        if \<not> body_fits (rt_endpoint r) (aq_body q) then (Malformed, s)
        else case answer_endpoint A q (rt_endpoint r) (captured (rt_path r) (aq_segments q)) s of (x, t) \<Rightarrow> (Answered x, t))"

definition application_step ::
  "('st, 'es, 'b) application \<Rightarrow> app_request \<Rightarrow> ('st, 'es, 'b rt) app_state \<Rightarrow> app_answer \<times> ('st, 'es, 'b rt) app_state" where
  "application_step A q s =
    (case request_guards (ap_token A) (sv_shutting_down (as_server s)) (guarded q) of
       Refused code name \<Rightarrow> (TurnedAway code name, s)
     | Passed \<Rightarrow> routed A q s)"

section \<open>What a request can change\<close>

definition only_reads :: "('s, exn, 'a) eff \<Rightarrow> bool" where
  "only_reads m = (\<forall>s. snd (m s) = s)"

lemma only_readsD: "only_reads m \<Longrightarrow> m s = (r, t) \<Longrightarrow> t = s"
  by (metis only_reads_def snd_conv)

lemma only_reads_ret [intro, simp]: "only_reads (ret x)"
  by (simp add: only_reads_def)

lemma only_reads_raise [intro, simp]: "only_reads (raise e)"
  by (simp add: only_reads_def)

lemma only_reads_gets [intro, simp]: "only_reads (gets f)"
  by (simp add: only_reads_def)

lemma only_reads_bnd [intro]:
  assumes "only_reads m" "\<And>x. only_reads (f x)"
  shows "only_reads (bnd m f)"
  unfolding only_reads_def
proof
  fix s show "snd (bnd m f s) = s"
    using only_readsD [OF assms(1), of s] assms(2) by (cases "m s"; cases "fst (m s)") (auto simp: bnd_def only_reads_def)
qed

lemma only_reads_on_store [intro]: "only_reads m \<Longrightarrow> only_reads (on_store m)"
  by (simp add: only_reads_def on_store_def split_beta)

lemma only_reads_on_server [intro]: "only_reads m \<Longrightarrow> only_reads (on_server m)"
  by (simp add: only_reads_def on_server_def split_beta)

lemma only_reads_on_history [intro]: "only_reads m \<Longrightarrow> only_reads (on_history m)"
  by (simp add: only_reads_def on_history_def split_beta)

lemma only_reads_require [intro, simp]: "only_reads (require_agent n)" "only_reads (require_group n)"
  by (auto simp: only_reads_def require_agent_def require_group_def split: option.split)

lemma only_reads_const [intro, simp]: "only_reads (\<lambda>s. (x, s))"
  by (simp add: only_reads_def)

definition reading_store :: "'st store_ops \<Rightarrow> bool" where
  "reading_store ops = (\<forall>rid. only_reads (so_status ops rid) \<and> only_reads (so_result ops rid))"

definition reading_history :: "'es event_ops \<Rightarrow> bool" where
  "reading_history ops =
    ((\<forall>a b tid types l. only_reads (eo_query ops a b tid types l)) \<and> (\<forall>tid. only_reads (eo_tree ops tid))
     \<and> (\<forall>a l k. only_reads (eo_list_traces ops a l k)) \<and> (\<forall>a. only_reads (eo_count_traces ops a)))"

lemma only_reads_routes:
  assumes "reading_store ops"
  shows "only_reads (on_store (so_status ops rid))" "only_reads (get_run_result ops rid)" "only_reads (agent_schema schema n)"
    "only_reads (group_topology n)"
  using assms
  by (auto simp: reading_store_def get_run_result_def agent_schema_def group_topology_def intro!: only_reads_bnd only_reads_on_store
      split: option.split)

lemma only_reads_history:
  assumes "reading_history ops"
  shows "only_reads (ask_history A q ops ep x)"
proof -
  have rows: "only_reads (page_rows ops st ts)" for st ts
    using assms by (induction ts) (auto simp: reading_history_def intro!: only_reads_bnd)
  have iso: "only_reads (parse_iso f v)" for f :: "string \<Rightarrow> rat option" and v
    by (auto simp: parse_iso_def split: option.split)
  have "only_reads (list_runs ops l k st)" "only_reads (get_run_tree isofmt ops tid)" "only_reads (query_events fromiso isofmt ops t et a b l)"
    "only_reads (get_usage fromiso ops by a b)" "only_reads (get_tools fromiso ops by a b)" "only_reads (get_runtime_stats rv ops sse en tm)"
    for l k st isofmt tid fromiso t et a b "by" rv sse en tm
    using assms rows iso
    by (auto simp: reading_history_def list_runs_def assemble_runs_page_def get_run_tree_def query_events_def get_usage_def
        get_tools_def get_runtime_stats_def windowed_def Let_def intro!: only_reads_bnd split: option.split)
  then show ?thesis by (cases ep) (auto intro!: only_reads_bnd)
qed

lemma get_endpoint_quiet:
  assumes "reading_store (ap_store A)" "\<And>ops. ap_history A = Some ops \<Longrightarrow> reading_history ops"
    and "r \<in> set (app_routes A)" "rt_method r = GET"
  shows "only_reads (answer_endpoint A q (rt_endpoint r) x)"
proof -
  have h: "only_reads (on_history (ask_history A q ops ep x) :: (('a, 'b, 'c rt) app_state, exn, content) eff)"
    if "ap_history A = Some ops" for ops ep
    by (rule only_reads_on_history, rule only_reads_history, rule assms(2) [OF that])
  have "rt_endpoint r \<notin> {RunAgent, GatherAgent, RunGroup, Submit, CancelRun}"
    using assms(3,4) by (auto simp: app_routes_def build_routes_def split: if_splits)
  then show ?thesis using h only_reads_routes [OF assms(1)]
    by (cases "rt_endpoint r") (auto intro!: only_reads_bnd only_reads_on_server split: option.split simp del: ask_history.simps)
qed


section \<open>A submitted run, end to end\<close>

text \<open>The created task, when the event loop runs it.\<close>

definition run_created ::
  "('st, 'es, 'b) application \<Rightarrow> created_run \<Rightarrow> (('st, 'es, 'b rt) app_state, exn, unit) eff" where
  "run_created A c =
    on_server (execute_run (ap_store A) (ap_env A) (ap_runtime A) (cr_id c) (cr_target c) (cr_is_group c) (cr_task c))"

definition registered :: "string \<Rightarrow> bool \<Rightarrow> ('st, 'r) server \<Rightarrow> bool" where
  "registered target is_group s = (if is_group then dget (sv_groups s) target \<noteq> None else dget (sv_agents s) target \<noteq> None)"

lemma server_dispatch_depends:
  assumes "sv_agents t = sv_agents s" "sv_groups t = sv_groups s" "sv_rt t = sv_rt s"
  shows "server_dispatch E R target ig task t =
    (fst (server_dispatch E R target ig task s), t\<lparr>sv_rt := sv_rt (snd (server_dispatch E R target ig task s))\<rparr>)"
  using assms
  by (auto simp: server_dispatch_def require_group_def require_agent_def bnd_def split: option.split prod.split)

definition settled_state :: "exn + group_output \<Rightarrow> run_state" where
  "settled_state r = (case r of Inl e \<Rightarrow> RunFailed | Inr out \<Rightarrow> if result_is_ok out then RunCompleted else RunFailed)"

context run_store_laws begin

lemma submit_effect:
  assumes "good (sv_store s)" "state_of (sv_store s) rid = None" "registered target ig s"
  shows "\<exists>t. submit ops rid target ig s = (Inr rid, s\<lparr>sv_store := t\<rparr>) \<and> good t \<and> state_of t rid = Some RunPending"
proof -
  obtain t where t: "so_create ops rid target (sv_store s) = (Inr (), t)" "good t"
    "state_of t = (state_of (sv_store s))(rid := Some RunPending)" using create [OF assms(1,2)] by blast
  then show ?thesis using assms(3)
    by (auto simp: submit_def registered_def require_group_def require_agent_def on_store_def bnd_def
        split: option.splits if_splits)
qed

text \<open>What the background task makes of an outcome of the dispatch.\<close>

lemma execute_effect:
  assumes "good (sv_store s)" "state_of (sv_store s) rid \<noteq> None"
    and r: "fst (server_dispatch E R target ig t s) = r"
    and ok: "case r of Inr out \<Rightarrow> writable out | Inl e \<Rightarrow> isinstance e PyException"
  shows "\<exists>u. execute_run ops E R rid target ig t s = (Inr (), u) \<and> good (sv_store u)
    \<and> state_of (sv_store u) rid = Some (settled_state r) \<and> (\<forall>out. r = Inr out \<longrightarrow> result_of (sv_store u) rid = Some (view out))
    \<and> sv_shutting_down u = sv_shutting_down s"
proof -
  obtain s1 where s1: "begin_run ops rid target s = (Inr (), s1)"
    "effect s s1 rid RunRunning None [run_level_event RunAgentStarted rid (Some target) None]"
    using begin_effect [OF assms(1,2)] by blast
  have b: "same_but_store (s\<lparr>sv_active := dset rid () (sv_active s)\<rparr>) s1"
    using begin_run_server [of rid s ops target] s1(1) by simp
  have d: "server_dispatch E R target ig t s1 = (r, s1\<lparr>sv_rt := sv_rt (snd (server_dispatch E R target ig t s))\<rparr>)"
    (is "_ = (r, ?s2)") using server_dispatch_depends [of s1 s E R target ig t] b r by (simp add: same_but_store_def)
  have g: "good (sv_store ?s2)" "state_of (sv_store ?s2) rid \<noteq> None" using s1(2) by (auto simp: effect_def)
  obtain u out es where u: "finish_run ops rid target ig r ?s2 = (Inr (), u)" "effect ?s2 u rid (settled_state r) out es"
    "\<And>x. r = Inr x \<Longrightarrow> out = Some x"
    using finish_effect(1) [OF g, of _ target ig] finish_effect(2) [OF g, of _ target ig] ok
    by (cases r) (fastforce simp: settled_state_def)+
  have "same_but_store (?s2\<lparr>sv_active := dpop rid (sv_active ?s2)\<rparr>) u"
    using finish_run_server [of rid ?s2 ops target ig r] u(1) by simp
  moreover have "execute_run ops E R rid target ig t s = (Inr (), u)"
    using s1(1) d u(1) by (simp add: execute_run_def)
  ultimately show ?thesis using u b by (auto simp: effect_def same_but_store_def)
qed

end

text \<open>Submitting, letting the created tasks run, then polling the status and fetching the result.\<close>

definition submitted_course ::
  "('st, 'es, 'b) application \<Rightarrow> app_request \<Rightarrow> app_request \<Rightarrow> app_request \<Rightarrow> ('st, 'es, 'b rt) app_state
    \<Rightarrow> app_answer \<times> app_answer \<times> app_answer" where
  "submitted_course A submit_rq status_rq result_rq s =
    (case application_step A submit_rq s of (a, s1) \<Rightarrow>
      (let s2 = fold (\<lambda>c. snd \<circ> run_created A c) (drop (length (as_tasks s)) (as_tasks s1)) s1
       in (a, fst (application_step A status_rq s2), fst (application_step A result_rq s2))))"

text \<open>The three requests of one run, admitted by a server that is not shutting down.\<close>

definition run_requests ::
  "('st, 'es, 'b) application \<Rightarrow> app_request \<Rightarrow> app_request \<Rightarrow> app_request \<Rightarrow> ('st, 'es, 'b rt) app_state \<Rightarrow> bool" where
  "run_requests A q1 q2 q3 s =
    (aq_method q1 = POST \<and> aq_segments q1 = [''submit'']
     \<and> aq_method q2 = GET \<and> aq_segments q2 = [''runs'', aq_run q1, ''status'']
     \<and> aq_method q3 = GET \<and> aq_segments q3 = [''runs'', aq_run q1, ''result''] \<and> plain_segment (aq_run q1)
     \<and> (\<forall>q \<in> {q1, q2, q3}. request_guards (ap_token A) False (guarded q) = Passed)
     \<and> \<not> sv_shutting_down (as_server s))"

lemma routes_found:
  "first_route plain_segment POST [''submit''] (app_routes A) = Some (route_to POST [Fixed ''submit''] Submit)"
  "plain_segment x \<Longrightarrow> first_route plain_segment GET [''runs'', x, ''status''] (app_routes A)
    = Some (route_to GET [Fixed ''runs'', Param ''run_id'', Fixed ''status''] RunStatusOf)"
  "plain_segment x \<Longrightarrow> first_route plain_segment GET [''runs'', x, ''result''] (app_routes A)
    = Some (route_to GET [Fixed ''runs'', Param ''run_id'', Fixed ''result''] RunResultOf)"
  by (simp_all add: first_route_def answers_to_def fits_def app_routes_def build_routes_def)

lemma submitted_course_answers:
  assumes q: "run_requests A q1 q2 q3 s" "aq_body q1 = SubmitBody target ig t i"
    and "submit (ap_store A) (aq_run q1) target ig (as_server s) = (Inr (aq_run q1), S)" "\<not> sv_shutting_down S"
    and "execute_run (ap_store A) (ap_env A) (ap_runtime A) (aq_run q1) target ig (with_request_id t i (Some (state_id q1))) S
      = (Inr (), U)" "\<not> sv_shutting_down U"
    and "on_store (so_status (ap_store A) (aq_run q1)) U = (Inr st, U)" "get_run_result (ap_store A) (aq_run q1) U = (x, V)"
  shows "submitted_course A q1 q2 q3 s = (Answered (Inr (Document (VDict [(''run_id'', VStr (aq_run q1))]))),
    Answered (Inr (Document (run_status_doc st))), Answered (map_sum id Document x))"
proof -
  let ?c = "\<lparr> cr_id = aq_run q1, cr_target = target, cr_is_group = ig, cr_task = with_request_id t i (Some (state_id q1)) \<rparr>"
  let ?s1 = "s\<lparr>as_server := S, as_tasks := as_tasks s @ [?c]\<rparr>"
  note routes = routes_found(1) [of A] routes_found(2,3) [of "aq_run q1" A]
  have "application_step A q1 s = (Answered (Inr (Document (VDict [(''run_id'', VStr (aq_run q1))]))), ?s1)"
    using q assms(3) routes(1)
    by (simp add: application_step_def routed_def run_requests_def post_submit_def on_server_def bnd_def modify_def)
  moreover have "snd (run_created A ?c ?s1) = ?s1\<lparr>as_server := U\<rparr>" using assms(5) by (simp add: run_created_def on_server_def)
  moreover have "fst (application_step A q2 (?s1\<lparr>as_server := U\<rparr>)) = Answered (Inr (Document (run_status_doc st)))"
    using q assms(6,7) routes(2)
    by (simp add: application_step_def routed_def run_requests_def on_server_def bnd_def)
  moreover have "fst (application_step A q3 (?s1\<lparr>as_server := U\<rparr>)) = Answered (map_sum id Document x)"
    using q assms(6,8) routes(3)
    by (cases x) (simp_all add: application_step_def routed_def run_requests_def on_server_def bnd_def)
  ultimately show ?thesis by (simp add: submitted_course_def)
qed

text \<open>
  The three answers: the id of the run, its state, and its result as \<open>view\<close> keeps it.
\<close>

definition served_as ::
  "string \<Rightarrow> exn + group_output \<Rightarrow> (group_output \<Rightarrow> group_output) \<Rightarrow> app_answer \<times> app_answer \<times> app_answer \<Rightarrow> bool" where
  "served_as rid r view abc =
    (\<exists>st x. abc = (Answered (Inr (Document (VDict [(''run_id'', VStr rid)]))),
        Answered (Inr (Document (run_status_doc st))), Answered (map_sum id Document x))
      \<and> st_state st = settled_state r \<and> (\<forall>out. r = Inr out \<longrightarrow> x = serialize_result (view out)))"

context run_store_laws begin

lemma submitted_run_is_served:
  assumes "ap_store A = ops" "run_requests A q1 q2 q3 s" "aq_body q1 = SubmitBody target ig t i"
    and "good (sv_store (as_server s))" "state_of (sv_store (as_server s)) (aq_run q1) = None"
    and "registered target ig (as_server s)"
    and "fst (server_dispatch (ap_env A) (ap_runtime A) target ig (with_request_id t i (Some (state_id q1))) (as_server s)) = r"
    and "case r of Inr out \<Rightarrow> writable out | Inl e \<Rightarrow> isinstance e PyException"
  shows "served_as (aq_run q1) r view (submitted_course A q1 q2 q3 s)"
proof -
  let ?rid = "aq_run q1" and ?task = "with_request_id t i (Some (state_id q1))" and ?S = "as_server s"
  obtain t1 where sub: "submit ops ?rid target ig ?S = (Inr ?rid, ?S\<lparr>sv_store := t1\<rparr>)" "good t1" "state_of t1 ?rid = Some RunPending"
    using submit_effect [OF assms(4-6)] by blast
  have d: "fst (server_dispatch (ap_env A) (ap_runtime A) target ig ?task (?S\<lparr>sv_store := t1\<rparr>)) = r"
    using server_dispatch_depends [of "?S\<lparr>sv_store := t1\<rparr>" ?S "ap_env A" "ap_runtime A" target ig ?task] assms(7) by simp
  obtain u where u: "execute_run ops (ap_env A) (ap_runtime A) ?rid target ig ?task (?S\<lparr>sv_store := t1\<rparr>) = (Inr (), u)"
    "good (sv_store u)" "state_of (sv_store u) ?rid = Some (settled_state r)"
    "\<And>out. r = Inr out \<Longrightarrow> result_of (sv_store u) ?rid = Some (view out)" "sv_shutting_down u = sv_shutting_down ?S"
    using execute_effect [OF _ _ d assms(8)] sub(2,3) by auto
  obtain st where st: "on_store (so_status ops ?rid) u = (Inr st, u)" "st_state st = settled_state r"
    using status [OF u(2,3)] by (auto simp: on_store_def)
  obtain x v where x: "get_run_result ops ?rid u = (x, v)" by fastforce
  have "x = serialize_result (view out)" if "r = Inr out" for out
    using result_effect [OF u(2,3) _ u(4) [OF that]] x by (simp add: settled_state_def that)
  moreover have shut: "\<not> sv_shutting_down ?S" using assms(2) by (simp add: run_requests_def)
  ultimately show ?thesis
    using submitted_course_answers [OF assms(2,3), of "?S\<lparr>sv_store := t1\<rparr>" u st x v] sub(1) u(1,5) st x assms(1)
    by (auto simp: served_as_def)
qed

end

text \<open>
  C26. A submitted run, from request to request, over the in-memory and the SQLite store:
  the server answers the id of the run, and once the task it created has run, the status
  route shows the run settled by what the runtime made of it (completed, or failed for an
  error, a failed agent or a failed leaf), and the result route answers that result,
  serialised (after SQLite, what its JSON keeps).
\<close>

theorem submitted_run_is_answered:
  assumes "ap_store A = memory_ops" "run_requests A q1 q2 q3 s" "aq_body q1 = SubmitBody target ig t i"
    and "mem_state (sv_store (as_server s)) (aq_run q1) = None" "registered target ig (as_server s)"
    and "fst (server_dispatch (ap_env A) (ap_runtime A) target ig (with_request_id t i (Some (state_id q1))) (as_server s)) = r"
    and "\<And>e. r = Inl e \<Longrightarrow> isinstance e PyException"
    and "ap_store B = sqlite_ops" "run_requests B q1 q2 q3 z" "sql_good (sv_store (as_server z))"
    and "sql_state (sv_store (as_server z)) (aq_run q1) = None" "registered target ig (as_server z)"
    and "fst (server_dispatch (ap_env B) (ap_runtime B) target ig (with_request_id t i (Some (state_id q1))) (as_server z)) = r"
    and "\<And>out. r = Inr out \<Longrightarrow> sql_writable out"
  shows "served_as (aq_run q1) r id (submitted_course A q1 q2 q3 s)
    \<and> served_as (aq_run q1) r stored_output (submitted_course B q1 q2 q3 z)"
proof
  have "case r of Inr out \<Rightarrow> True | Inl e \<Rightarrow> isinstance e PyException" using assms(7) by (cases r) auto
  from mem.submitted_run_is_served [OF assms(1-3) TrueI assms(4-6) this]
  show "served_as (aq_run q1) r id (submitted_course A q1 q2 q3 s)" .
  have "case r of Inr out \<Rightarrow> sql_writable out | Inl e \<Rightarrow> isinstance e PyException" using assms(7,14) by (cases r) auto
  from sql.submitted_run_is_served [OF assms(8,9,3,10-13) this]
  show "served_as (aq_run q1) r stored_output (submitted_course B q1 q2 q3 z)" .
qed

section \<open>The calls of the client\<close>

text \<open>What the client reads off an answer that is a document, an error or a refusal.\<close>

fun app_reply :: "(exn \<Rightarrow> string \<Rightarrow> string option) \<Rightarrow> string \<Rightarrow> app_answer \<Rightarrow> reply option" where
  "app_reply getattr_of rid (TurnedAway code name) = Some (refusal code name rid)"
| "app_reply getattr_of rid (Answered (Inl e)) = Some (respond getattr_of rid (Inl e))"
| "app_reply getattr_of rid (Answered (Inr (Document v))) = Some (respond getattr_of rid (Inr v))"
| "app_reply getattr_of rid _ = None"

definition through ::
  "('st, 'es, 'b) application \<Rightarrow> (exn \<Rightarrow> string \<Rightarrow> string option) \<Rightarrow> (reply \<Rightarrow> exn + 'a) \<Rightarrow> app_request
    \<Rightarrow> ('st, 'es, 'b rt) app_state \<Rightarrow> (exn + 'a) option \<times> ('st, 'b rt) server" where
  "through A getattr_of read q s =
    (case application_step A q s of (a, t) \<Rightarrow> (map_option read (app_reply getattr_of (state_id q) a), as_server t))"

definition client_call :: "string option \<Rightarrow> http_method \<Rightarrow> string list \<Rightarrow> string option \<Rightarrow> request_body \<Rightarrow> string \<Rightarrow> string \<Rightarrow> app_request" where
  "client_call token m segs rid body fresh run_id = \<lparr> aq_method = m, aq_segments = segs,
     aq_authorization = map_option (\<lambda>t. ''Bearer '' @ t) token, aq_request_id = rid, aq_text = (\<lambda>_. None),
     aq_number = (\<lambda>_. None), aq_body = body, aq_fresh = fresh, aq_run = run_id, aq_now = 0 \<rparr>"

text \<open>A handler that answers with the document of a route over the server.\<close>

definition serves ::
  "(('st, 'es, 'r) app_state, exn, content) eff \<Rightarrow> (('st, 'r) server, exn, pyval) eff \<Rightarrow> bool" where
  "serves h route =
    (\<forall>s. fst (h s) = map_sum id Document (fst (route (as_server s))) \<and> as_server (snd (h s)) = snd (route (as_server s)))"

lemma serves_document: "serves (document (on_server m)) m"
  by (auto simp: serves_def on_server_def bnd_def split: prod.split sum.split)

lemma serves_bnd: "serves (bnd (on_server m) (\<lambda>x. ret (Document (f x)))) (bnd m (\<lambda>x. ret (f x)))"
  by (auto simp: serves_def on_server_def bnd_def split: prod.split sum.split)

lemma application_call:
  assumes "first_route plain_segment (aq_method q) (aq_segments q) (app_routes A) = Some (route_to m p ep)"
    and "captured p (aq_segments q) = x" "body_fits ep (aq_body q)" "serves (answer_endpoint A q ep x) route"
  shows "through A g read q s = map_prod Some id (http_call g (ap_token A) (guarded q) (state_id q) route read (as_server s))"
proof (cases "request_guards (ap_token A) (sv_shutting_down (as_server s)) (guarded q)")
  case Passed
  obtain y t where h: "answer_endpoint A q ep x s = (y, t)" by fastforce
  obtain z u where z: "route (as_server s) = (z, u)" by fastforce
  have "y = map_sum id Document z" "as_server t = u" using assms(4) h z by (auto simp: serves_def dest: spec [of _ s])
  then show ?thesis using Passed assms(1-3) h z
    by (cases z) (simp_all add: through_def application_step_def routed_def http_call_def exchange_def)
qed (simp add: through_def application_step_def http_call_def exchange_def)

lemma client_routes:
  "plain_segment n \<Longrightarrow> first_route plain_segment POST [''agents'', n, ''run''] (app_routes A)
    = Some (route_to POST [Fixed ''agents'', Param ''name'', Fixed ''run''] RunAgent)"
  "plain_segment n \<Longrightarrow> first_route plain_segment POST [''groups'', n, ''run''] (app_routes A)
    = Some (route_to POST [Fixed ''groups'', Param ''name'', Fixed ''run''] RunGroup)"
  "plain_segment n \<Longrightarrow> first_route plain_segment POST [''agents'', n, ''gather''] (app_routes A)
    = Some (route_to POST [Fixed ''agents'', Param ''name'', Fixed ''gather''] GatherAgent)"
  "plain_segment n \<Longrightarrow> first_route plain_segment POST [''runs'', n, ''cancel''] (app_routes A)
    = Some (route_to POST [Fixed ''runs'', Param ''run_id'', Fixed ''cancel''] CancelRun)"
  by (simp_all add: first_route_def answers_to_def fits_def app_routes_def build_routes_def)

lemma client_call_fields:
  "guarded (client_call token m segs (Some r) body fresh i) = client_headers token (path_text segs) r"
  "guarded (client_call token m segs None body fresh i) = client_get_headers token (path_text segs)"
  "r \<noteq> [] \<Longrightarrow> state_id (client_call token m segs (Some r) body fresh i) = r"
  "state_id (client_call token m segs None body fresh i) = fresh"
  by (cases r; simp add: guarded_def client_call_def client_headers_def client_get_headers_def state_id_def request_id_header_def)+

lemma call_id_nonempty: "fresh \<noteq> [] \<Longrightarrow> call_id rid fresh \<noteq> []"
  by (auto simp: call_id_def split: option.split list.split)

lemma serves_post_run: "serves (answer_endpoint A (client_call token m segs rid (RunBody t i) fresh rn) RunAgent n)
    (route_run (ap_env A) (ap_runtime A) n False t i (Some (state_id (client_call token m segs rid (RunBody t i) fresh rn))))"
  "serves (answer_endpoint A (client_call token m segs rid (RunBody t i) fresh rn) RunGroup n)
    (route_run (ap_env A) (ap_runtime A) n True t i (Some (state_id (client_call token m segs rid (RunBody t i) fresh rn))))"
  "serves (answer_endpoint A (client_call token m segs rid (GatherBody ts mc i) fresh rn) GatherAgent n)
    (route_gather (ap_runtime A) n ts mc i (Some (state_id (client_call token m segs rid (GatherBody ts mc i) fresh rn))))"
  by (simp_all add: post_run_def post_gather_def serves_document client_call_def)

lemma serves_submit:
  "serves (answer_endpoint A (client_call token m segs rid (SubmitBody target ig t i) fresh rn) Submit x)
    (bnd (submit (ap_store A) rn target ig) (\<lambda>i. ret (VDict [(''run_id'', VStr i)])))"
  by (auto simp: serves_def post_submit_def client_call_def on_server_def bnd_def modify_def split: prod.split sum.split)


section \<open>A sample application\<close>

definition sample_app :: "group_env \<Rightarrow> 'st store_ops \<Rightarrow> ('st, event_store, nat) application" where
  "sample_app E ops = \<lparr> ap_env = E, ap_runtime = sample_runtime default_options, ap_token = Some ''key'', ap_store = ops,
     ap_history = Some memory_event_ops, ap_sse = False, ap_connected = (\<lambda>_. None), ap_schema = VStr, ap_fromiso = (\<lambda>_. None),
     ap_isofmt = (\<lambda>_. []), ap_view = \<lparr> rv_id = ''rt'', rv_broker_url = None, rv_job_started = None, rv_spawn_count = 0,
       rv_max_total_spawns = None, rv_budget_limit = None \<rparr>, ap_enrolled = [] \<rparr>"

definition sample_app_state :: "'st \<Rightarrow> ('st, event_store, nat rt) app_state" where
  "sample_app_state st = \<lparr> as_server = \<lparr> sv_store = st, sv_rt = sample_state 1, sv_active = [],
       sv_agents = [(''a'', sample_agent ''a'')], sv_groups = [], sv_shutting_down = False \<rparr>,
     as_events = event_store_init 10 None, as_tasks = [] \<rparr>"

definition sample_app_request :: "http_method \<Rightarrow> string list \<Rightarrow> request_body \<Rightarrow> app_request" where
  "sample_app_request m segs b = \<lparr> aq_method = m, aq_segments = segs, aq_authorization = Some ''Bearer key'',
     aq_request_id = Some ''r9'', aq_text = (\<lambda>_. None), aq_number = (\<lambda>_. None), aq_body = b, aq_fresh = ''f'', aq_run = ''n1'',
     aq_now = 0 \<rparr>"

lemma memory_reads: "reading_store memory_ops" "reading_history memory_event_ops"
  by (auto simp: reading_store_def reading_history_def memory_ops_def memory_event_ops_def only_reads_def store_status_def
      store_result_def with_record_def dset_same split: option.split)


lemma sample_dispatch:
  "fst (server_dispatch E (sample_runtime default_options) ''a'' False
      (with_request_id sample_task None (Some (state_id (sample_app_request m segs b)))) (as_server (sample_app_state st)))
    = Inr (OneResult (sample_result ''a'' ''t1'' 7))"
proof -
  have "fst (run (sample_runtime default_options) (ByAgent (sample_agent ''a'')) (sample_task\<lparr>ts_request_id := ''r9''\<rparr>) (sample_state 1))
      = Inr (sample_result ''a'' ''t1'' 7)" by code_simp
  moreover have "with_request_id sample_task None (Some (state_id (sample_app_request m segs b)))
      = sample_task\<lparr>ts_request_id := ''r9''\<rparr>"
    by (simp add: with_request_id_def state_id_def request_id_header_def guarded_def sample_app_request_def sample_task_def Let_def)
  ultimately show ?thesis
    by (simp add: server_dispatch_def require_agent_def bnd_def sample_app_state_def split_beta)
qed

lemma submitted_run_is_answered_witness:
  "\<forall>E. served_as ''n1'' (Inr (OneResult (sample_result ''a'' ''t1'' 7))) id
    (submitted_course (sample_app E memory_ops) (sample_app_request POST [''submit''] (SubmitBody ''a'' False sample_task None))
      (sample_app_request GET [''runs'', ''n1'', ''status''] NoBody) (sample_app_request GET [''runs'', ''n1'', ''result''] NoBody)
      (sample_app_state \<lparr> sto_records = [], sto_next = 0 \<rparr>))"
proof
  fix E
  let ?q1 = "sample_app_request POST [''submit''] (SubmitBody ''a'' False sample_task None)"
  let ?q2 = "sample_app_request GET [''runs'', ''n1'', ''status''] NoBody"
  let ?q3 = "sample_app_request GET [''runs'', ''n1'', ''result''] NoBody"
  let ?s = "sample_app_state \<lparr> sto_records = [], sto_next = 0 \<rparr>" and ?z = "sample_app_state \<lparr> sq_runs = [], sq_events = [] \<rparr>"
  have rq: "run_requests (sample_app E ops) ?q1 ?q2 ?q3 (sample_app_state st)" for ops :: "'c store_ops" and st :: 'c
    by (simp add: run_requests_def sample_app_request_def sample_app_def sample_app_state_def request_guards_def auth_guard_def
        shutdown_guard_def guarded_def plain_segment_def)
  obtain v where v: "encode_result (OneResult (sample_result ''a'' ''t1'' 7)) = Inr v"
    by (simp add: encode_result_def encode_agent_result_def dump_output_def model_dump_def sample_result_def)
  have good: "sql_good \<lparr> sq_runs = [], sq_events = [] \<rparr>" by (simp add: sql_good_def sql_rows_def)
  have "served_as (aq_run ?q1) (Inr (OneResult (sample_result ''a'' ''t1'' 7))) id
        (submitted_course (sample_app E memory_ops) ?q1 ?q2 ?q3 ?s)
    \<and> served_as (aq_run ?q1) (Inr (OneResult (sample_result ''a'' ''t1'' 7))) stored_output
        (submitted_course (sample_app E sqlite_ops) ?q1 ?q2 ?q3 ?z)"
  proof (rule submitted_run_is_answered)
    show "run_requests (sample_app E memory_ops) ?q1 ?q2 ?q3 ?s" "run_requests (sample_app E sqlite_ops) ?q1 ?q2 ?q3 ?z"
      by (rule rq)+
    show "fst (server_dispatch (ap_env (sample_app E memory_ops)) (ap_runtime (sample_app E memory_ops)) ''a'' False
        (with_request_id sample_task None (Some (state_id ?q1))) (as_server ?s)) = Inr (OneResult (sample_result ''a'' ''t1'' 7))"
      using sample_dispatch by (simp add: sample_app_def)
    show "fst (server_dispatch (ap_env (sample_app E sqlite_ops)) (ap_runtime (sample_app E sqlite_ops)) ''a'' False
        (with_request_id sample_task None (Some (state_id ?q1))) (as_server ?z)) = Inr (OneResult (sample_result ''a'' ''t1'' 7))"
      using sample_dispatch by (simp add: sample_app_def)
    show "sql_good (sv_store (as_server ?z))" using good by (simp add: sample_app_state_def)
  qed (use v in \<open>auto simp: sample_app_def sample_app_request_def sample_app_state_def registered_def mem_state_def sql_state_def
      sql_writable_def\<close>)
  then show "served_as ''n1'' (Inr (OneResult (sample_result ''a'' ''t1'' 7))) id
      (submitted_course (sample_app E memory_ops) ?q1 ?q2 ?q3 ?s)"
    by (simp add: sample_app_request_def)
qed


end
