(* ===== verification/Spec2Isabelle.thy ===== *)
theory Spec2Isabelle
  imports Async_Pool Job_Safety Run_Backends Event_Sqlite Agent_Tools Command_Args Http_App
begin

text \<open>
  A verification library of Murmur, a runtime that dispatches LLM agents: one run, a
  batch, a graph of agents or a coordinator with delegates, in process or over a
  broker with workers, behind an HTTP server.  Paths are relative to \<open>src/src/murmur\<close>.

  \<^bold>\<open>How the program fits together.\<close>  A caller hands the runtime an agent and a task.  The
  runtime opens a spawn frame, passes the gates (cycle, depth, budget, spawn cap) and
  a pipeline of middleware (depth, budget, timeout, retry) and reaches a backend.  The
  asyncio backend resolves tools and runs the model; the job backend publishes a task
  message, which a worker verifies and runs on a runtime of its own; the answer comes
  back through a collector.  Groups walk a graph tier by tier over the same runtime,
  teams give a coordinator a delegate tool.  The server stores submitted runs and
  streams their events; the runtime's own events go to sinks, a store and a dashboard.

  \<^bold>\<open>Which theory models what.\<close>

  \<^item> \<open>Murmur_Prelude\<close>: insertion-ordered dicts, coroutines as state-and-error functions,
    first occurrences in lists; the simplification sets of both.
  \<^item> \<open>Errors\<close>: the exception classes of \<open>core/errors.py\<close> and the wire tables of
    \<open>server/errors.py\<close> and the client; \<open>Types\<close>: \<open>types.py\<close>, \<open>events/types.py\<close>, \<open>agent.py\<close>,
    \<open>context\<close>; \<open>Templates\<close>: \<open>templates.py\<close> and \<open>registry/memory.py\<close>.
  \<^item> \<open>Middleware\<close>: \<open>core/pipeline.py\<close> and \<open>middleware\<close>; \<open>Mcp_Lifecycle\<close>: providers held by
    the runtime; \<open>Runtime\<close>: \<open>run\<close> and \<open>gather\<close> of \<open>runtime.py\<close>; \<open>Runtime_Invariants\<close>,
    \<open>Runtime_Safety\<close>, \<open>Cascade\<close>: lineage, gates, slots, cap, budget and the bound of
    nested runs.
  \<^item> \<open>Tools\<close>: \<open>tools/registry.py\<close>, \<open>tools/executor.py\<close>, \<open>tools/mcp.py\<close>, \<open>_dispatch.py\<close>.
  \<^item> \<open>Async_Backend\<close>, \<open>Async_Safety\<close>, \<open>Async_Pool\<close>: \<open>backends/async_backend.py\<close> and its pool
    of workers under every interleaving.
  \<^item> \<open>Agent_Groups\<close>, \<open>Group_Graph\<close>, \<open>Group_Topology\<close>: \<open>groups/spec.py\<close>; \<open>Group_Runner\<close>,
    \<open>Group_Walk\<close>, \<open>Group_Aggregation\<close>: \<open>groups/runner.py\<close>; \<open>Team\<close>, \<open>Team_Safety\<close>: teams.
  \<^item> \<open>Messages\<close>: \<open>messages.py\<close>; \<open>Broker\<close>, \<open>Collector\<close>, \<open>Job_Backend\<close>: the files of those
    names under \<open>backends\<close>; \<open>Worker\<close>: \<open>worker/worker.py\<close>; \<open>Distributed\<close>, \<open>Network\<close>,
    \<open>Job_Safety\<close>: publisher, broker and workers together.
  \<^item> \<open>Run_Serde\<close>, \<open>Run_Store\<close>, \<open>Run_Server\<close>, \<open>Run_Lifecycle\<close>: \<open>runs\<close> and the submitted runs
    of \<open>server/app.py\<close> over any store that keeps a contract; \<open>Run_Backends\<close>: the RocksDB
    and Redis stores and the contract each keeps; \<open>Router\<close>: the other routes, the drain,
    and \<open>server/router.py\<close>; \<open>Client\<close>, \<open>Client_Runs\<close>: the HTTP client, its streams
    and run handles, and the in-process client it agrees with; \<open>Server_Process\<close>: the table
    of routes, signals, the life of a serving process and of a worker's, the
    construction of a router, \<open>interop/faststream.py\<close>; \<open>Http_App\<close>: the whole application
    from a request to its answer, a submitted run end to end, the client's calls.
  \<^item> \<open>Event_Store\<close>, \<open>Event_Protocol\<close>, \<open>Event_Sqlite\<close>: the two event stores and
    \<open>core/protocols/event_store.py\<close> as the contract both keep; \<open>Dashboard\<close>: the rollups of
    \<open>events/store\<close> and \<open>server\<close>, and the routes over any store that keeps the contract;
    \<open>Event_Sinks\<close>: the emitters; \<open>Event_Metrics\<close>: \<open>events/otel.py\<close> and \<open>events/log.py\<close>.
  \<^item> \<open>Agent_Tools\<close>: \<open>tools/spawn.py\<close>, \<open>mcp_server\<close> and \<open>interop/pydantic_ai.py\<close>;
    \<open>Yaml_Registry\<close>: \<open>registry/yaml.py\<close> and its schema.
  \<^item> \<open>Transports\<close>: \<open>backends/_brokers.py\<close>; \<open>Runtime_Setup\<close>: how a runtime, its registry,
    executor and backend are put together; \<open>Command_Line\<close>, \<open>Command_Watch\<close>: the commands of
    \<open>cli\<close> over parsed arguments, the stream reader and the watcher; \<open>Command_Args\<close>: the
    declared options and how \<open>argparse\<close> reads a command line against them.

  \<^bold>\<open>Interfaces.\<close>  A contract is a locale, interpreted on the operations that keep it:
  \<open>run_store_core\<close>, \<open>run_store_laws\<close> and \<open>final_run_store\<close> (in-memory, SQLite, RocksDB and
  Redis run stores), \<open>event_store_contract\<close> (the plain history, the in-memory and the SQLite
  event store), \<open>task_service\<close> (a fleet of workers), \<open>name_table\<close> (registries),
  \<open>runtime_invariant\<close> with \<open>cascade_invariant\<close> below it (what a runtime keeps under
  cascades of any height: the cap and the budget).

  \<^bold>\<open>How state corresponds.\<close>  An object is a record of its attributes, a Python \<open>dict\<close> an
  association list in insertion order, a coroutine a function from the state to a
  result or an exception and the new state.  The runtime's state carries its clock, a
  pending cancellation, the budget, the spawn counter, the current spawn frame, the
  events emitted, the providers and the state of its backend.  Where tasks run
  concurrently, either a step relation gives every interleaving (\<open>Async_Pool\<close>,
  \<open>Network\<close>) or the text of the theory says in which order they are run.

  \<^bold>\<open>Bounds and fuel.\<close>  Nested runs are unrolled to a number of levels; the depth gate
  makes \<open>max_spawn_depth\<close> levels enough for every agent (\<open>depth_limit_bounds_cascades\<close>).
  A reader of a stream is given one step more than the events it can be owed.  The
  graph walks, the drain and the tree of the event store are total functions with a
  measure.

  \<^bold>\<open>What is an argument.\<close>  PydanticAI's run of a model, user tools, mappers, conditions
  and hooks, the keyed hash, Pydantic's validation of user models, JSON and ISO text
  and fresh identifiers are arguments of the definitions that use them.

  \<^bold>\<open>What is not modelled.\<close>  The libraries the program calls: FastStream and its
  transports, OpenTelemetry, structlog, FastAPI, uvicorn, the MCP SDK; a call to one is
  recorded, or is an argument where its answer matters.  FastAPI's own answers (no such
  route, a body of the wrong shape) are outcomes without content, and the history
  routes answer values, not their JSON text.  Of \<open>argparse\<close>, the texts of help and
  complaints are left out.  The examples, the structural types of \<open>core/protocols\<close> other
  than the stores' and the re-exports have no behaviour of their own.  Numbers in seconds
  are exact rationals; floating-point rounding is left out, and so is the prose of
  messages beyond the data in it.
\<close>

end
